(* ===== verification/Prelude.thy ===== *)
theory Prelude
  imports Main "HOL-Library.Word" "HOL-Library.Sublist"
begin

text \<open>
  Shared vocabulary of the development: the machine-integer types of the C++ sources, bytes
  of a \<^verbatim>\<open>std::string\<close>, the generic list facts the component theories use, and the
  collections their proofs draw on.

  A \<^verbatim>\<open>std::string\<close> or \<^verbatim>\<open>std::string_view\<close> is a \<^typ>\<open>string\<close>; an \<open>unsigned char\<close> read from it is
  \<open>byte c\<close>, a natural number below 256.
\<close>

unbundle bit_operations_syntax

type_synonym u8 = "8 word"
type_synonym u16 = "16 word"
type_synonym u32 = "32 word"
type_synonym u64 = "64 word"

named_theorems byte_simps \<open>reading and building the bytes of a string\<close>
named_theorems at_simps \<open>what stands at a position of an input\<close>

definition byte :: "char \<Rightarrow> nat" where
  "byte c = of_char c"

lemma byte_less [simp]: "byte c < 256"
  by (simp add: byte_def)

lemma byte_char_of [byte_simps]: "byte (char_of n) = n mod 256"
  by (simp add: byte_def)

lemma char_of_byte [simp]: "char_of (byte c) = c"
  by (simp add: byte_def)

lemma byte_inject [simp]: "byte c = byte d \<longleftrightarrow> c = d"
  by (simp add: byte_def)

lemma char_eq_iff_byte: "n < 256 \<Longrightarrow> c = char_of n \<longleftrightarrow> byte c = n"
  by (auto simp: byte_char_of)

text \<open>
  \<open>at xs i w\<close>: the word \<open>w\<close> stands at position \<open>i\<close> of \<open>xs\<close>. The parsers index their input
  by a position, so their lemmas describe the input around that position with it.
\<close>

definition at :: "'a list \<Rightarrow> nat \<Rightarrow> 'a list \<Rightarrow> bool" where
  "at xs i w \<longleftrightarrow> (\<exists>us vs. xs = us @ w @ vs \<and> length us = i)"

lemma at_Nil: "at xs i [] \<longleftrightarrow> i \<le> length xs"
proof
  assume "i \<le> length xs"
  then have "xs = take i xs @ [] @ drop i xs \<and> length (take i xs) = i" by simp
  then show "at xs i []" unfolding at_def by blast
qed (auto simp: at_def)

lemma at_Cons [at_simps]: "at xs i (c # w) \<longleftrightarrow> i < length xs \<and> xs ! i = c \<and> at xs (Suc i) w"
proof
  assume "at xs i (c # w)"
  then obtain us vs where "xs = us @ (c # w) @ vs" "length us = i" by (auto simp: at_def)
  then have "xs = (us @ [c]) @ w @ vs" "length (us @ [c]) = Suc i" "xs ! i = c" "i < length xs"
    by (simp_all add: nth_append)
  then show "i < length xs \<and> xs ! i = c \<and> at xs (Suc i) w" unfolding at_def by blast
next
  assume *: "i < length xs \<and> xs ! i = c \<and> at xs (Suc i) w"
  then obtain us vs where u: "xs = us @ w @ vs" "length us = Suc i" by (auto simp: at_def)
  then obtain us' d where d: "us = us' @ [d]" by (metis length_0_conv nat.distinct(1) rev_exhaust)
  with u * have "d = c" by (auto simp: nth_append)
  with u d have "xs = us' @ (c # w) @ vs" "length us' = i" by simp_all
  then show "at xs i (c # w)" unfolding at_def by blast
qed

lemma at_append [at_simps]: "at xs i (v @ w) \<longleftrightarrow> at xs i v \<and> at xs (i + length v) w"
  by (induction v arbitrary: i)
     (auto simp: at_Nil at_Cons, auto simp: at_def)

lemma at_self [simp]: "at (us @ w @ vs) (length us) w"
  by (auto simp: at_def)

lemma at_length: "at xs i w \<Longrightarrow> i + length w \<le> length xs"
  by (auto simp: at_def)

lemma at_nth: "at xs i w \<Longrightarrow> k < length w \<Longrightarrow> xs ! (i + k) = w ! k"
  by (auto simp: at_def nth_append)

lemma at_take_drop: "at xs i w \<Longrightarrow> take (length w) (drop i xs) = w"
  by (auto simp: at_def)

lemma apfst_append [simp]:
  "apfst ((@) []) p = p" "apfst ((@) u) (apfst ((@) v) p) = apfst ((@) (u @ v)) p"
  by (cases p, simp)+

lemma take_drop_nths: "i + n \<le> length xs \<Longrightarrow> take n (drop i xs) = map (\<lambda>k. xs ! (i + k)) [0..<n]"
  by (rule nth_equalityI) auto

text \<open>\<^verbatim>\<open>std::to_string\<close> of an unsigned and of a signed integer: the decimal digits.\<close>

fun to_string_nat :: "nat \<Rightarrow> string" where
  "to_string_nat n =
     (if n < 10 then [char_of (48 + n)] else to_string_nat (n div 10) @ [char_of (48 + n mod 10)])"

declare to_string_nat.simps [simp del]

definition to_string_int :: "int \<Rightarrow> string" where
  "to_string_int i = (if i < 0 then CHR ''-'' # to_string_nat (nat (- i)) else to_string_nat (nat i))"

lemma to_string_nat_not_Nil [simp]: "to_string_nat n \<noteq> []"
  by (subst to_string_nat.simps) simp

text \<open>Sequencing of computations that may fail: the first error is the result.\<close>

definition and_then :: "'e + 'a \<Rightarrow> ('a \<Rightarrow> 'e + 'b) \<Rightarrow> 'e + 'b" where
  "and_then r f = (case r of Inl e \<Rightarrow> Inl e | Inr x \<Rightarrow> f x)"

lemma and_then_simps [simp]: "and_then (Inl e) f = Inl e" "and_then (Inr x) f = f x"
  by (simp_all add: and_then_def)

lemma and_then_eq_Inr: "and_then r f = Inr y \<longleftrightarrow> (\<exists>x. r = Inr x \<and> f x = Inr y)"
  by (cases r) simp_all

lemma and_then_eq_Inl: "and_then r f = Inl e \<longleftrightarrow> r = Inl e \<or> (\<exists>x. r = Inr x \<and> f x = Inl e)"
  by (cases r) simp_all

lemma and_then_cong [fundef_cong]:
  "r = r' \<Longrightarrow> (\<And>x. r' = Inr x \<Longrightarrow> f x = g x) \<Longrightarrow> and_then r f = and_then r' g"
  by (cases r') simp_all

text \<open>A guard of the code: the error unless the condition holds.\<close>

definition require :: "bool \<Rightarrow> 'e \<Rightarrow> 'e + unit" where
  "require b e = (if b then Inr () else Inl e)"

lemma require_eq [simp]:
  "require b e = Inr u \<longleftrightarrow> b" "require b e = Inl e' \<longleftrightarrow> \<not> b \<and> e' = e"
  by (auto simp: require_def)

end
