(* ===== verification/Http_Request.thy ===== *)
theory Http_Request
  imports Prelude
begin

text \<open>
  The HTTP reader of \<^verbatim>\<open>src/server/evaluation_server.cpp\<close>: \<^verbatim>\<open>read_http_request\<close> with its helpers, and the
  reading of one staged connection by \<^verbatim>\<open>stage_http_connections\<close>. What the socket does is a list of events,
  one for each wait and receive; the deadline ends the list.
\<close>

subsection \<open>Text\<close>

definition crlf :: string where
  "crlf = [CHR 0x0D, CHR 0x0A]"

text \<open>\<^verbatim>\<open>std::string::find\<close>: the first position of a text, and the first one from a given position on.\<close>

fun find_text :: "string \<Rightarrow> string \<Rightarrow> nat option" where
  "find_text pattern [] = (if pattern = [] then Some 0 else None)"
| "find_text pattern (c # cs) =
     (if prefix pattern (c # cs) then Some 0 else map_option Suc (find_text pattern cs))"

definition find_from :: "string \<Rightarrow> string \<Rightarrow> nat \<Rightarrow> nat option" where
  "find_from pattern s n = map_option ((+) n) (find_text pattern (drop n s))"

lemma find_from_ge: "Some e = find_from pattern s n \<Longrightarrow> n \<le> e"
  by (cases "find_text pattern (drop n s)") (auto simp: find_from_def)

definition lowercase :: "string \<Rightarrow> string" where
  "lowercase s = map (\<lambda>c. if byte (CHR ''A'') \<le> byte c \<and> byte c \<le> byte (CHR ''Z'') then char_of (byte c + 32) else c) s"

definition is_blank :: "char \<Rightarrow> bool" where
  "is_blank c \<longleftrightarrow> c = CHR '' '' \<or> c = CHR 0x09"

definition trim_ascii :: "string \<Rightarrow> string" where
  "trim_ascii s = rev (dropWhile is_blank (rev (dropWhile is_blank s)))"

definition is_json_content_type :: "string \<Rightarrow> bool" where
  "is_json_content_type s =
     (case find_text '';'' s of
        None \<Rightarrow> trim_ascii s = ''application/json''
      | Some semicolon \<Rightarrow>
          trim_ascii (take semicolon s) = ''application/json'' \<and>
          (let parameter = trim_ascii (drop (semicolon + 1) s) in
           parameter = ''charset=utf-8'' \<or> parameter = ''charset=\"utf-8\"''))"

fun parse_decimal_loop :: "string \<Rightarrow> nat \<Rightarrow> nat option" where
  "parse_decimal_loop [] v = Some v"
| "parse_decimal_loop (c # cs) v =
     (if byte c < 48 \<or> byte c > 57 then None
      else
        let digit = byte c - 48 in
        if v > (2 ^ 64 - 1 - digit) div 10 then None else parse_decimal_loop cs (v * 10 + digit))"

definition parse_decimal_size :: "string \<Rightarrow> nat option" where
  "parse_decimal_size s = (if s = [] then None else parse_decimal_loop s 0)"

subsection \<open>Requests and results\<close>

definition kMaximumHeaderBytes :: nat where
  "kMaximumHeaderBytes = 64 * 1024"

definition kMaximumBodyBytes :: nat where
  "kMaximumBodyBytes = 4 * 1024 * 1024"

record http_request =
  hq_method :: string
  hq_target :: string
  hq_content_type :: string
  hq_authorization :: string
  hq_body :: string
  hq_keep_alive :: bool

record http_read_result =
  hr_value :: "http_request option"
  hr_error_status :: nat
  hr_error_message :: string
  hr_peer_closed :: bool
  hr_incomplete :: bool

definition empty_result :: http_read_result where
  "empty_result = \<lparr>hr_value = None, hr_error_status = 0, hr_error_message = [], hr_peer_closed = False, hr_incomplete = False\<rparr>"

definition http_error :: "nat \<Rightarrow> string \<Rightarrow> http_read_result" where
  "http_error n message = empty_result\<lparr>hr_error_status := n, hr_error_message := message\<rparr>"

definition http_incomplete :: http_read_result where
  "http_incomplete = empty_result\<lparr>hr_incomplete := True\<rparr>"

definition http_closed :: http_read_result where
  "http_closed = empty_result\<lparr>hr_peer_closed := True\<rparr>"

subsection \<open>The head of a request\<close>

definition parse_request_line :: "string \<Rightarrow> http_read_result + http_request" where
  "parse_request_line request_line =
     (let malformed = Inl (http_error 400 ''only well-formed HTTP/1.1 requests are supported'') in
      case find_text '' '' request_line of
        None \<Rightarrow> malformed
      | Some first_space \<Rightarrow>
          (case find_from '' '' request_line (first_space + 1) of
             None \<Rightarrow> malformed
           | Some second_space \<Rightarrow>
               if drop (second_space + 1) request_line \<noteq> ''HTTP/1.1'' then malformed
               else Inr \<lparr>hq_method = take first_space request_line,
                         hq_target = take (second_space - first_space - 1) (drop (first_space + 1) request_line),
                         hq_content_type = [], hq_authorization = [], hq_body = [], hq_keep_alive = True\<rparr>))"

function parse_header_lines :: "string \<Rightarrow> nat \<Rightarrow> (string \<times> string) list \<Rightarrow> http_read_result + (string \<times> string) list" where
  "parse_header_lines block line_begin headers =
     (if \<not> line_begin < length block then Inr headers
      else
        let line_end = find_from crlf block line_begin;
            line = take ((case line_end of None \<Rightarrow> length block | Some e \<Rightarrow> e) - line_begin) (drop line_begin block) in
        case find_text '':'' line of
          None \<Rightarrow> Inl (http_error 400 ''malformed HTTP header'')
        | Some colon \<Rightarrow>
            if colon = 0 then Inl (http_error 400 ''malformed HTTP header'')
            else
              let key = lowercase (take colon line); v = trim_ascii (drop (colon + 1) line) in
              if key \<in> fst ` set headers then Inl (http_error 400 ''duplicate HTTP headers are not supported'')
              else (case line_end of
                      None \<Rightarrow> Inr (headers @ [(key, v)])
                    | Some e \<Rightarrow> parse_header_lines block (e + 2) (headers @ [(key, v)])))"
  by pat_completeness auto
termination
  by (relation "measure (\<lambda>(block, line_begin, headers). length block - line_begin)") (auto dest: find_from_ge)

declare parse_header_lines.simps [simp del]

text \<open>The framing: no transfer encoding, a length for every POST, and a bounded body.\<close>

definition check_headers :: "http_request \<Rightarrow> (string \<times> string) list \<Rightarrow> http_read_result + (http_request \<times> nat)" where
  "check_headers request headers =
     (let header = map_of headers in
      if header ''transfer-encoding'' \<noteq> None then Inl (http_error 400 ''request transfer-encoding is not supported'')
      else if hq_method request = ''POST'' \<and> header ''content-length'' = None
      then Inl (http_error 411 ''POST requires Content-Length'')
      else
        case (case header ''content-length'' of None \<Rightarrow> Some 0 | Some v \<Rightarrow> parse_decimal_size v) of
          None \<Rightarrow> Inl (http_error 413 ''request body exceeds the fixed limit'')
        | Some content_length \<Rightarrow>
            if content_length > kMaximumBodyBytes then Inl (http_error 413 ''request body exceeds the fixed limit'')
            else Inr (request\<lparr>
              hq_content_type := (case header ''content-type'' of None \<Rightarrow> [] | Some v \<Rightarrow> lowercase v),
              hq_authorization := (case header ''authorization'' of None \<Rightarrow> [] | Some v \<Rightarrow> v),
              hq_keep_alive := (case header ''connection'' of None \<Rightarrow> True | Some v \<Rightarrow> lowercase v \<noteq> ''close'')\<rparr>,
              content_length))"

definition parse_head :: "string \<Rightarrow> http_read_result + (http_request \<times> nat)" where
  "parse_head header_block =
     (let first_line_end = find_text crlf header_block in
      and_then (parse_request_line (case first_line_end of None \<Rightarrow> header_block | Some e \<Rightarrow> take e header_block))
        (\<lambda>request. and_then
           (parse_header_lines header_block (case first_line_end of None \<Rightarrow> length header_block | Some e \<Rightarrow> e + 2) [])
           (check_headers request)))"

subsection \<open>Reading\<close>

datatype socket_event = EvTimeout bool | EvRetry | EvClosed | EvData string

text \<open>\<open>EvTimeout stopping\<close> is a wait that ends without data; so is the end of the events.\<close>

fun read_head :: "bool \<Rightarrow> socket_event list \<Rightarrow> string \<Rightarrow> (http_read_result + nat) \<times> socket_event list \<times> string" where
  "read_head buffered_only events buffer =
     (case find_text (crlf @ crlf) buffer of
        Some header_end \<Rightarrow> (Inr header_end, events, buffer)
      | None \<Rightarrow>
          if length buffer \<ge> kMaximumHeaderBytes
          then (Inl (http_error 413 ''HTTP headers exceed the fixed limit''), events, buffer)
          else if buffered_only then (Inl http_incomplete, events, buffer)
          else case events of
            [] \<Rightarrow> (Inl (http_error 408 ''request header read timed out''), [], buffer)
          | EvTimeout stopping # events \<Rightarrow>
              (Inl (http_error (if stopping then 503 else 408) ''request header read timed out''), events, buffer)
          | EvRetry # events \<Rightarrow> read_head buffered_only events buffer
          | EvClosed # events \<Rightarrow> (Inl http_closed, events, buffer)
          | EvData bytes # events \<Rightarrow> read_head buffered_only events (buffer @ bytes))"

fun read_body :: "bool \<Rightarrow> nat \<Rightarrow> socket_event list \<Rightarrow> string \<Rightarrow> http_read_result option \<times> socket_event list \<times> string" where
  "read_body buffered_only message_bytes events buffer =
     (if \<not> length buffer < message_bytes then (None, events, buffer)
      else if buffered_only then (Some http_incomplete, events, buffer)
      else case events of
        [] \<Rightarrow> (Some (http_error 408 ''request body read timed out''), [], buffer)
      | EvTimeout stopping # events \<Rightarrow>
          (Some (http_error (if stopping then 503 else 408) ''request body read timed out''), events, buffer)
      | EvRetry # events \<Rightarrow> read_body buffered_only message_bytes events buffer
      | EvClosed # events \<Rightarrow> (Some http_closed, events, buffer)
      | EvData bytes # events \<Rightarrow> read_body buffered_only message_bytes events (buffer @ bytes))"

declare read_head.simps [simp del] read_body.simps [simp del]

definition read_http_request :: "bool \<Rightarrow> socket_event list \<Rightarrow> string \<Rightarrow> http_read_result \<times> socket_event list \<times> string" where
  "read_http_request buffered_only events buffer =
     (case read_head buffered_only events buffer of
        (Inl r, events, buffer) \<Rightarrow> (r, events, buffer)
      | (Inr header_end, events, buffer) \<Rightarrow>
          if header_end > kMaximumHeaderBytes
          then (http_error 413 ''HTTP headers exceed the fixed limit'', events, buffer)
          else
            case parse_head (take header_end buffer) of
              Inl r \<Rightarrow> (r, events, buffer)
            | Inr (request, content_length) \<Rightarrow>
                let message_bytes = header_end + 4 + content_length in
                case read_body buffered_only message_bytes events buffer of
                  (Some r, events, buffer) \<Rightarrow> (r, events, buffer)
                | (None, events, buffer) \<Rightarrow>
                    (empty_result\<lparr>hr_value := Some (request\<lparr>hq_body := take content_length (drop (header_end + 4) buffer)\<rparr>)\<rparr>,
                     events, drop message_bytes buffer))"

text \<open>
  A staged connection: after each receive the buffer is parsed, and the first result that is not incomplete is
  handed over. A result of \<open>None\<close> means that the connection stays, or is dropped, in the staging set.
\<close>

fun stage_connection :: "string list \<Rightarrow> string \<Rightarrow> http_read_result option \<times> string" where
  "stage_connection [] buffer = (None, buffer)"
| "stage_connection (bytes # chunks) buffer =
     (case read_http_request True [] (buffer @ bytes) of
        (r, _, buffer) \<Rightarrow> if hr_incomplete r then stage_connection chunks buffer else (Some r, buffer))"

end
