(* ===== verification/Http_Correct.thy ===== *)
theory Http_Correct
  imports Http_Request
begin

text \<open>
  What the HTTP reader guarantees: the result of a staged connection does not depend on how the network cuts
  its bytes.
\<close>

subsection \<open>Searching\<close>

lemma find_text_SomeD: "find_text p s = Some h \<Longrightarrow> prefix p (drop h s) \<and> h + length p \<le> length s"
  by (induction p s arbitrary: h rule: find_text.induct) (auto split: if_splits dest: prefix_length_le)

lemma find_text_prefix: "prefix p (drop h s) \<Longrightarrow> h \<le> length s \<Longrightarrow> \<exists>i\<le>h. find_text p s = Some i"
proof (induction p s arbitrary: h rule: find_text.induct)
  case (2 p c cs)
  then show ?case by (cases h) force+
qed auto

lemma find_text_append: "find_text p x = Some h \<Longrightarrow> find_text p (x @ y) = Some h"
proof (induction p x arbitrary: h rule: find_text.induct)
  case (1 p)
  then show ?case by (cases y) (auto split: if_splits)
next
  case (2 p c cs)
  have "prefix p (c # cs @ y)" if "prefix p (c # cs)" using that by (metis append_Cons prefix_prefix)
  moreover have "\<not> prefix p (c # cs @ y)" if "find_text p cs = Some i" "\<not> prefix p (c # cs)" for i
  proof
    assume *: "prefix p (c # cs @ y)"
    have "length p \<le> length (c # cs)" using find_text_SomeD [OF that(1)] by simp
    with * have "prefix p (c # cs)" by (metis append_Cons prefix_length_prefix prefix_prefix prefix_def)
    with that(2) show False by blast
  qed
  ultimately show ?case using 2 by (auto split: if_splits)
qed

lemma find_text_beyond:
  assumes "find_text p x = None" "find_text p (x @ y) = Some h"
  shows "length x < h + length p"
proof (rule ccontr)
  assume "\<not> length x < h + length p"
  then have "h \<le> length x" "length p \<le> length (drop h x)" by simp_all
  moreover have "prefix p (drop h x @ drop (h - length x) y)" using find_text_SomeD [OF assms(2)] by simp
  ultimately have "prefix p (drop h x)" by (metis prefix_length_prefix prefixI)
  then show False using find_text_prefix [OF _ \<open>h \<le> length x\<close>] assms(1) by fastforce
qed

subsection \<open>Fragmentation\<close>

abbreviation outcome :: "string \<Rightarrow> http_read_result" where
  "outcome s \<equiv> fst (read_http_request True [] s)"

text \<open>
  The end of the headers is not in the last four bytes of the limit. (There the outcome would depend on
  whether the terminator arrives in one piece.)
\<close>

definition clear_of_limit :: "string \<Rightarrow> bool" where
  "clear_of_limit s \<longleftrightarrow>
     (case find_text (crlf @ crlf) s of None \<Rightarrow> True | Some h \<Rightarrow> h + 4 \<le> kMaximumHeaderBytes \<or> kMaximumHeaderBytes < h)"

lemma result_flags [simp]:
  "\<not> hr_incomplete (http_error n m)" "hr_incomplete http_incomplete" "\<not> hr_incomplete (empty_result\<lparr>hr_value := v\<rparr>)"
  by (simp_all add: http_error_def http_incomplete_def empty_result_def)

lemma outcome_eq:
  "outcome s =
     (case find_text (crlf @ crlf) s of
        None \<Rightarrow> if length s \<ge> kMaximumHeaderBytes then http_error 413 ''HTTP headers exceed the fixed limit'' else http_incomplete
      | Some h \<Rightarrow>
          if h > kMaximumHeaderBytes then http_error 413 ''HTTP headers exceed the fixed limit''
          else case parse_head (take h s) of
            Inl r \<Rightarrow> r
          | Inr (request, n) \<Rightarrow>
              if length s < h + 4 + n then http_incomplete
              else empty_result\<lparr>hr_value := Some (request\<lparr>hq_body := take n (drop (h + 4) s)\<rparr>)\<rparr>)"
  by (simp add: read_http_request_def read_head.simps read_body.simps Let_def split: option.splits sum.splits)

lemma parse_head_error: "parse_head block = Inl r \<Longrightarrow> \<not> hr_incomplete r"
proof -
  have line: "parse_request_line l = Inl r \<Longrightarrow> \<not> hr_incomplete r" for l
    by (auto simp: parse_request_line_def Let_def split: option.splits if_splits)
  have lines: "parse_header_lines b n hs = Inl r \<Longrightarrow> \<not> hr_incomplete r" for b n hs
  proof (induction b n hs rule: parse_header_lines.induct)
    case (1 b n hs)
    note line = 1(2) [unfolded parse_header_lines.simps [of b n hs]]
    show ?case using 1(1) line by (auto simp: Let_def split: option.splits if_splits)
  qed
  have checks: "check_headers q hs = Inl r \<Longrightarrow> \<not> hr_incomplete r" for q hs
    by (auto simp: check_headers_def Let_def split: option.splits if_splits)
  assume "parse_head block = Inl r"
  then show ?thesis
    by (auto simp: parse_head_def Let_def and_then_def split: sum.splits dest: line lines checks)
qed

lemma buffered_keeps: "hr_incomplete (outcome s) \<Longrightarrow> \<exists>e. read_http_request True [] s = (http_incomplete, e, s)"
  by (auto simp: read_http_request_def read_head.simps read_body.simps Let_def split: option.splits sum.splits if_splits
    dest: parse_head_error)

abbreviation too_long :: http_read_result where
  "too_long \<equiv> http_error 413 ''HTTP headers exceed the fixed limit''"

lemma outcome_append:
  assumes "\<not> hr_incomplete (outcome x)"
  shows "outcome (x @ y) = outcome x \<or> \<not> clear_of_limit (x @ y) \<and> outcome x = too_long"
proof (cases "find_text (crlf @ crlf) x")
  case None
  then have long: "kMaximumHeaderBytes \<le> length x" using assms by (auto simp: outcome_eq split: if_splits)
  then have x: "outcome x = too_long" using None by (simp add: outcome_eq)
  have "kMaximumHeaderBytes < h" if "find_text (crlf @ crlf) (x @ y) = Some h" "clear_of_limit (x @ y)" for h
    using find_text_beyond [OF None that(1)] that long by (simp add: clear_of_limit_def crlf_def)
  then have "outcome (x @ y) = too_long" if "clear_of_limit (x @ y)"
    using that long by (auto simp: outcome_eq split: option.splits)
  then show ?thesis using x by auto
next
  case (Some h)
  have "h \<le> length x" using find_text_SomeD [OF Some] by simp
  then show ?thesis
    using assms by (auto simp: outcome_eq Some find_text_append [OF Some] split: sum.splits if_splits)
qed

lemma stage_connection_outcome:
  assumes "chunks \<noteq> []"
  shows "fst (stage_connection chunks buffer) =
      (if hr_incomplete (outcome (buffer @ concat chunks)) then None else Some (outcome (buffer @ concat chunks))) \<or>
    \<not> clear_of_limit (buffer @ concat chunks) \<and> fst (stage_connection chunks buffer) = Some too_long"
  using assms
proof (induction chunks arbitrary: buffer)
  case (Cons bytes chunks)
  let ?s = "buffer @ bytes"
  show ?case
  proof (cases "hr_incomplete (outcome ?s)")
    case False
    then have "fst (stage_connection (bytes # chunks) buffer) = Some (outcome ?s)" by (simp split: prod.splits) (metis fst_conv)
    then show ?thesis using outcome_append [OF False, of "concat chunks"] False by auto
  next
    case True
    then obtain e where "read_http_request True [] ?s = (http_incomplete, e, ?s)" using buffered_keeps by blast
    then have "stage_connection (bytes # chunks) buffer = stage_connection chunks ?s" by simp
    then show ?thesis using True Cons.IH [of ?s] by (cases "chunks = []") (auto split: if_splits)
  qed
qed simp

text \<open>
  C10. A staged connection gives the result that the same bytes give in one piece, however the network cuts
  them: the first result that is not incomplete is the result of the whole, and none is handed over while the
  whole is incomplete. The one exception is a head whose end falls into the last four bytes of the limit: there
  the connection may instead be answered that the headers are too long.
\<close>

theorem staging_independent_of_fragmentation:
  assumes "chunks \<noteq> []"
  shows "fst (stage_connection chunks []) =
      (if hr_incomplete (fst (read_http_request True [] (concat chunks))) then None
       else Some (fst (read_http_request True [] (concat chunks)))) \<or>
    \<not> clear_of_limit (concat chunks) \<and>
      fst (stage_connection chunks []) = Some (http_error 413 ''HTTP headers exceed the fixed limit'')"
  using stage_connection_outcome [OF assms, of "[]"] by (simp only: append_Nil)

definition sample_head :: string where
  "sample_head = ''GET /healthz HTTP/1.1'' @ crlf @ crlf"

theorem staging_independent_of_fragmentation_witness:
  "clear_of_limit (concat [take 9 sample_head, drop 9 sample_head]) \<and>
   fst (stage_connection [take 9 sample_head, drop 9 sample_head] []) =
     Some (empty_result\<lparr>hr_value := Some \<lparr>hq_method = ''GET'', hq_target = ''/healthz'', hq_content_type = [],
       hq_authorization = [], hq_body = [], hq_keep_alive = True\<rparr>\<rparr>)"
proof -
  have clear: "clear_of_limit sample_head" by code_simp
  moreover have head: "find_text (crlf @ crlf) sample_head = Some 21" "length sample_head = 25" by code_simp+
  moreover have "find_text crlf (take 21 sample_head) = None" "length (take 21 sample_head) = 21"
    "parse_request_line (take 21 sample_head) = Inr \<lparr>hq_method = ''GET'', hq_target = ''/healthz'',
      hq_content_type = [], hq_authorization = [], hq_body = [], hq_keep_alive = True\<rparr>"
    by code_simp+
  then have "parse_head (take 21 sample_head) = Inr (\<lparr>hq_method = ''GET'', hq_target = ''/healthz'',
      hq_content_type = [], hq_authorization = [], hq_body = [], hq_keep_alive = True\<rparr>, 0)"
    by (simp add: parse_head_def Let_def parse_header_lines.simps check_headers_def)
  then have "fst (read_http_request True [] sample_head) = empty_result\<lparr>hr_value := Some \<lparr>hq_method = ''GET'',
      hq_target = ''/healthz'', hq_content_type = [], hq_authorization = [], hq_body = [], hq_keep_alive = True\<rparr>\<rparr>"
    by (simp add: outcome_eq head kMaximumHeaderBytes_def)
  ultimately show ?thesis
    using staging_independent_of_fragmentation [of "[take 9 sample_head, drop 9 sample_head]"]
    by (simp del: stage_connection.simps add: result_flags)
qed

end
