(* ===== verification/Http_Response.thy ===== *)
theory Http_Response
  imports Http_Request Sha256
begin

text \<open>
  The sending side of \<^verbatim>\<open>src/server/evaluation_server.cpp\<close>: fixed responses, the headers of an event stream
  and its chunks. What the socket does is a list of events, one for each wait and send; the deadline ends
  the list. A client that reads the chunked body gets the events back.
\<close>

subsection \<open>Connections\<close>

text \<open>A send that takes some bytes, one to be repeated, or a wait or send that fails.\<close>

datatype send_event = SeSent nat | SeRetry | SeFailed

record connection =
  cn_sent :: string
  cn_events :: "send_event list"

fun send_loop :: "string \<Rightarrow> send_event list \<Rightarrow> string \<Rightarrow> bool \<times> send_event list \<times> string" where
  "send_loop [] events sent = (True, events, sent)"
| "send_loop bytes [] sent = (False, [], sent)"
| "send_loop bytes (SeFailed # events) sent = (False, events, sent)"
| "send_loop bytes (SeRetry # events) sent = send_loop bytes events sent"
| "send_loop bytes (SeSent n # events) sent =
     (if n = 0 then (False, events, sent) else send_loop (drop n bytes) events (sent @ take n bytes))"

definition send_all :: "string \<Rightarrow> connection \<Rightarrow> bool \<times> connection" where
  "send_all bytes cn =
     (case send_loop bytes (cn_events cn) (cn_sent cn) of
        (ok, events, sent) \<Rightarrow> (ok, cn\<lparr>cn_sent := sent, cn_events := events\<rparr>))"

text \<open>\<^verbatim>\<open>send_all(a) && send_all(b)\<close>.\<close>

fun send_parts :: "string list \<Rightarrow> connection \<Rightarrow> bool \<times> connection" where
  "send_parts [] cn = (True, cn)"
| "send_parts (part # parts) cn =
     (case send_all part cn of (False, cn) \<Rightarrow> (False, cn) | (True, cn) \<Rightarrow> send_parts parts cn)"

subsection \<open>Responses\<close>

definition status_text :: "nat \<Rightarrow> string" where
  "status_text n =
     (if n = 200 then ''OK''
      else if n = 400 then ''Bad Request''
      else if n = 401 then ''Unauthorized''
      else if n = 404 then ''Not Found''
      else if n = 405 then ''Method Not Allowed''
      else if n = 408 then ''Request Timeout''
      else if n = 411 then ''Length Required''
      else if n = 413 then ''Payload Too Large''
      else if n = 415 then ''Unsupported Media Type''
      else if n = 429 then ''Too Many Requests''
      else if n = 500 then ''Internal Server Error''
      else if n = 503 then ''Service Unavailable''
      else ''Error'')"

definition fixed_response_headers :: "nat \<Rightarrow> string \<Rightarrow> bool \<Rightarrow> string \<Rightarrow> string" where
  "fixed_response_headers n body keep_alive extra_headers =
     ''HTTP/1.1 '' @ to_string_nat n @ '' '' @ status_text n @ crlf @
     ''Server: qwen3x-orin'' @ crlf @ ''Content-Type: application/json; charset=utf-8'' @ crlf @
     ''Content-Length: '' @ to_string_nat (length body) @ crlf @
     ''Connection: '' @ (if keep_alive then ''keep-alive'' else ''close'') @ crlf @ extra_headers @ crlf"

definition send_fixed_response :: "nat \<Rightarrow> string \<Rightarrow> bool \<Rightarrow> string \<Rightarrow> connection \<Rightarrow> bool \<times> connection" where
  "send_fixed_response n body keep_alive extra_headers =
     send_parts [fixed_response_headers n body keep_alive extra_headers, body]"

definition sse_headers :: "bool \<Rightarrow> string" where
  "sse_headers keep_alive =
     ''HTTP/1.1 200 OK'' @ crlf @ ''Server: qwen3x-orin'' @ crlf @
     ''Content-Type: text/event-stream; charset=utf-8'' @ crlf @
     ''Cache-Control: no-cache'' @ crlf @ ''X-Accel-Buffering: no'' @ crlf @
     ''Transfer-Encoding: chunked'' @ crlf @
     ''Connection: '' @ (if keep_alive then ''keep-alive'' else ''close'') @ crlf @ crlf"

definition send_sse_headers :: "bool \<Rightarrow> connection \<Rightarrow> bool \<times> connection" where
  "send_sse_headers keep_alive = send_all (sse_headers keep_alive)"

fun hex_text :: "nat \<Rightarrow> string" where
  "hex_text n = (if n < 16 then [hex_digit n] else hex_text (n div 16) @ [hex_digit (n mod 16)])"

declare hex_text.simps [simp del]

definition send_chunk :: "string \<Rightarrow> connection \<Rightarrow> bool \<times> connection" where
  "send_chunk payload = send_parts [hex_text (length payload) @ crlf, payload, crlf]"

definition chunk_end :: string where
  "chunk_end = ''0'' @ crlf @ crlf"

definition send_chunk_end :: "connection \<Rightarrow> bool \<times> connection" where
  "send_chunk_end = send_all chunk_end"

definition sse_data :: "string \<Rightarrow> string" where
  "sse_data payload = ''data: '' @ payload @ [CHR 0x0A, CHR 0x0A]"

subsection \<open>What a client reads\<close>

definition chunk_text :: "string \<Rightarrow> string" where
  "chunk_text payload = hex_text (length payload) @ crlf @ payload @ crlf"

lemma send_loop_ok: "send_loop bytes events sent = (True, events', sent') \<Longrightarrow> sent' = sent @ bytes"
  by (induction bytes events sent rule: send_loop.induct) (auto split: if_splits)

lemma send_all_ok: "send_all bytes cn = (True, cn') \<Longrightarrow> cn_sent cn' = cn_sent cn @ bytes"
  by (auto simp: send_all_def split: prod.splits dest: send_loop_ok)

lemma send_parts_ok: "send_parts parts cn = (True, cn') \<Longrightarrow> cn_sent cn' = cn_sent cn @ concat parts"
  by (induction parts arbitrary: cn) (auto split: prod.splits bool.splits dest: send_all_ok)

lemma send_chunk_ok: "send_chunk payload cn = (True, cn') \<Longrightarrow> cn_sent cn' = cn_sent cn @ chunk_text payload"
  unfolding send_chunk_def chunk_text_def by (drule send_parts_ok) simp

text \<open>The chunked transfer coding, read back: sizes in hexadecimal, a chunk of size zero at the end.\<close>

definition chunk_hex_value :: "char \<Rightarrow> nat option" where
  "chunk_hex_value c =
     (if 48 \<le> byte c \<and> byte c \<le> 57 then Some (byte c - 48)
      else if 97 \<le> byte c \<and> byte c \<le> 102 then Some (byte c - 87) else None)"

definition is_hex :: "char \<Rightarrow> bool" where
  "is_hex c \<longleftrightarrow> chunk_hex_value c \<noteq> None"

definition hex_number :: "string \<Rightarrow> nat" where
  "hex_number digits = foldl (\<lambda>n c. n * 16 + the (chunk_hex_value c)) 0 digits"

function decode_chunks :: "string \<Rightarrow> string list option" where
  "decode_chunks s =
     (let digits = takeWhile is_hex s; rest = dropWhile is_hex s; n = hex_number digits in
      if digits = [] \<or> take 2 rest \<noteq> crlf then None
      else if n = 0 then (if drop 2 rest = crlf then Some [] else None)
      else if length rest < n + 4 \<or> take 2 (drop (n + 2) rest) \<noteq> crlf then None
      else map_option ((#) (take n (drop 2 rest))) (decode_chunks (drop (n + 4) rest)))"
  by pat_completeness auto
termination
proof (relation "measure length")
  fix s :: string and digits rest n
  assume *: "digits = takeWhile is_hex s" "rest = dropWhile is_hex s" "\<not> (length rest < n + 4 \<or> take 2 (drop (n + 2) rest) \<noteq> crlf)"
  have "length rest \<le> length s" using *(2) by (simp add: length_dropWhile_le)
  moreover have "n + 4 \<le> length rest" using *(3) by (metis not_le)
  ultimately show "(drop (n + 4) rest, s) \<in> measure length" by simp
qed simp

declare decode_chunks.simps [simp del]

lemma hex_digit_value: "n < 16 \<Longrightarrow> chunk_hex_value (hex_digit n) = Some n"
  by (auto simp: chunk_hex_value_def hex_digit_def byte_char_of)

lemma hex_text_number: "hex_text n \<noteq> [] \<and> (\<forall>c\<in>set (hex_text n). is_hex c) \<and> hex_number (hex_text n) = n"
proof (induction n rule: hex_text.induct)
  case (1 n)
  show ?case
  proof (cases "n < 16")
    case True
    then show ?thesis using hex_digit_value [OF True] by (simp add: hex_text.simps is_hex_def hex_number_def)
  next
    case False
    then show ?thesis
      using 1 hex_digit_value [of "n mod 16"] by (subst (1 2 3) hex_text.simps) (simp add: is_hex_def hex_number_def)
  qed
qed

lemma takeWhile_hex: "takeWhile is_hex (hex_text n @ crlf @ s) = hex_text n \<and> dropWhile is_hex (hex_text n @ crlf @ s) = crlf @ s"
proof -
  have "\<not> is_hex (CHR 0x0D)" by (simp add: is_hex_def chunk_hex_value_def byte_def)
  then show ?thesis
    using hex_text_number [of n] by (simp add: takeWhile_append2 dropWhile_append2 crlf_def)
qed

lemma decode_chunk:
  assumes "payload \<noteq> []"
  shows "decode_chunks (chunk_text payload @ s) = map_option ((#) payload) (decode_chunks s)"
proof -
  note hex = takeWhile_hex [of "length payload" "payload @ crlf @ s"] hex_text_number [of "length payload"]
  have "length crlf = 2" by (simp add: crlf_def)
  then show ?thesis
    using assms hex by (subst decode_chunks.simps) (simp add: chunk_text_def Let_def)
qed

lemma decode_chunk_end: "decode_chunks chunk_end = Some []"
proof -
  have "hex_text 0 = ''0''" by (simp add: hex_text.simps hex_digit_def char_of_def bit_simps)
  then have "chunk_end = hex_text 0 @ crlf @ crlf" by (simp add: chunk_end_def)
  then show ?thesis
    using takeWhile_hex [of 0 crlf] hex_text_number [of 0] by (subst decode_chunks.simps) (simp add: Let_def crlf_def)
qed

lemma decode_stream:
  "\<forall>e\<in>set events. e \<noteq> [] \<Longrightarrow> decode_chunks (concat (map chunk_text events) @ chunk_end) = Some events"
  by (induction events) (simp_all add: decode_chunk decode_chunk_end)

end
