(* ===== verification/Utf8_Spec.thy ===== *)
theory Utf8_Spec
  imports Prelude
begin

text \<open>
  The abstract specification of UTF-8 against which the three UTF-8 routines of the program
  are verified: Unicode scalar values, their encoding, the strings made of encodings, and the
  table of well-formed byte sequences (Unicode, table 3-7) proved equivalent to it.
\<close>

definition scalar_value :: "nat \<Rightarrow> bool" where
  "scalar_value n \<longleftrightarrow> n < 0xD800 \<or> (0xE000 \<le> n \<and> n \<le> 0x10FFFF)"

definition utf8_encode :: "nat \<Rightarrow> string" where
  "utf8_encode n = map char_of
     (if n < 0x80 then [n]
      else if n < 0x800 then [0xC0 + n div 64, 0x80 + n mod 64]
      else if n < 0x10000 then [0xE0 + n div 4096, 0x80 + n div 64 mod 64, 0x80 + n mod 64]
      else [0xF0 + n div 262144, 0x80 + n div 4096 mod 64, 0x80 + n div 64 mod 64,
            0x80 + n mod 64])"

inductive valid_utf8 :: "string \<Rightarrow> bool" where
  valid_utf8_Nil: "valid_utf8 []"
| valid_utf8_scalar: "scalar_value n \<Longrightarrow> valid_utf8 s \<Longrightarrow> valid_utf8 (utf8_encode n @ s)"

definition continuation :: "char \<Rightarrow> bool" where
  "continuation c \<longleftrightarrow> 0x80 \<le> byte c \<and> byte c \<le> 0xBF"

definition second_ok :: "char \<Rightarrow> char \<Rightarrow> bool" where
  "second_ok a b \<longleftrightarrow> continuation b \<and>
     (byte a = 0xE0 \<longrightarrow> 0xA0 \<le> byte b) \<and> (byte a = 0xED \<longrightarrow> byte b < 0xA0) \<and>
     (byte a = 0xF0 \<longrightarrow> 0x90 \<le> byte b) \<and> (byte a = 0xF4 \<longrightarrow> byte b < 0x90)"

fun well_formed_unit :: "string \<Rightarrow> bool" where
  "well_formed_unit [a] \<longleftrightarrow> byte a < 0x80"
| "well_formed_unit [a, b] \<longleftrightarrow> 0xC2 \<le> byte a \<and> byte a \<le> 0xDF \<and> second_ok a b"
| "well_formed_unit [a, b, c] \<longleftrightarrow>
     0xE0 \<le> byte a \<and> byte a \<le> 0xEF \<and> second_ok a b \<and> continuation c"
| "well_formed_unit [a, b, c, d] \<longleftrightarrow>
     0xF0 \<le> byte a \<and> byte a \<le> 0xF4 \<and> second_ok a b \<and> continuation c \<and> continuation d"
| "well_formed_unit _ \<longleftrightarrow> False"

lemma base64_digits: "r < 64 \<Longrightarrow> (q * 64 + r) div 64 = (q::nat)" "r < 64 \<Longrightarrow> (q * 64 + r) mod 64 = (r::nat)"
  by simp_all

lemma mod_64_le [simp]: "n mod 64 \<le> (63::nat)"
  using mod_less_divisor [of 64 n] by linarith

lemma div_mod_64_less:
  assumes "n div (k * 64) = q" and "n < (q * 64 + b) * k" and "0 < k"
  shows "n div k mod 64 < (b::nat)"
proof -
  have "n div k div 64 = q" using assms(1) by (simp add: div_mult2_eq)
  moreover have "n div k < q * 64 + b" using assms(2,3) by (simp add: less_mult_imp_div_less)
  ultimately show ?thesis using div_mult_mod_eq [of "n div k" 64] by linarith
qed

lemma utf8_encode_well_formed: "scalar_value n \<Longrightarrow> well_formed_unit (utf8_encode n)"
proof -
  assume n: "scalar_value n"
  consider "n < 0x80" | "0x80 \<le> n" "n < 0x800" | "0x800 \<le> n" "n < 0x10000" | "0x10000 \<le> n"
    by linarith
  then show ?thesis
  proof cases
    case 1 then show ?thesis by (simp add: utf8_encode_def byte_simps)
  next
    case 2
    then have "0xC0 + n div 64 < 256" "0xC2 \<le> 0xC0 + n div 64" "0xC0 + n div 64 \<le> 0xDF"
      "n mod 64 < 64" by simp_all
    with 2 show ?thesis
      by (simp add: utf8_encode_def byte_simps second_ok_def continuation_def)
  next
    case 3
    with n have "0xE0 + n div 4096 < 256" "0xE0 + n div 4096 \<le> 0xEF"
      "n div 4096 = 0 \<longrightarrow> 32 \<le> n div 64 mod 64" "n mod 64 < 64"
      by (simp_all add: scalar_value_def) linarith+
    moreover have "n div 4096 = 13 \<longrightarrow> n div 64 mod 64 < 32"
      using n 3 div_mod_64_less [of n 64 13 32] by (auto simp: scalar_value_def)
    ultimately show ?thesis using 3
      by (simp add: utf8_encode_def byte_simps second_ok_def continuation_def)
  next
    case 4
    with n have "n \<le> 0x10FFFF" by (auto simp: scalar_value_def)
    with 4 have "0xF0 + n div 262144 < 256" "0xF0 + n div 262144 \<le> 0xF4"
      "n div 262144 = 0 \<longrightarrow> 16 \<le> n div 4096 mod 64" "n mod 64 < 64"
      by simp_all linarith+
    moreover have "n div 262144 = 4 \<longrightarrow> n div 4096 mod 64 < 16"
      using \<open>n \<le> 0x10FFFF\<close> div_mod_64_less [of n 4096 4 16] by auto
    ultimately show ?thesis using 4
      by (simp add: utf8_encode_def byte_simps second_ok_def continuation_def)
  qed
qed

lemma well_formed_unit_encode:
  assumes "well_formed_unit u"
  shows "\<exists>n. scalar_value n \<and> u = utf8_encode n"
proof -
  consider (one) a where "u = [a]" "byte a < 0x80"
    | (two) a b where "u = [a, b]" "0xC2 \<le> byte a" "byte a \<le> 0xDF" "continuation b"
    | (three) a b c where "u = [a, b, c]" "0xE0 \<le> byte a" "byte a \<le> 0xEF" "second_ok a b"
        "continuation c"
    | (four) a b c d where "u = [a, b, c, d]" "0xF0 \<le> byte a" "byte a \<le> 0xF4" "second_ok a b"
        "continuation c" "continuation d"
    using assms by (cases u rule: well_formed_unit.cases) (auto simp: second_ok_def)
  then show ?thesis
  proof cases
    case one
    then have "scalar_value (byte a) \<and> u = utf8_encode (byte a)"
      by (simp add: scalar_value_def utf8_encode_def)
    then show ?thesis by blast
  next
    case two
    obtain x y where x: "byte a = 0xC0 + x" "2 \<le> x" "x < 32" and y: "byte b = 0x80 + y" "y < 64"
      using two by (intro that [of "byte a - 0xC0" "byte b - 0x80"]) (auto simp: continuation_def)
    then have "scalar_value (x * 64 + y) \<and> u = utf8_encode (x * 64 + y)"
      using two(1) by (auto simp: scalar_value_def utf8_encode_def char_eq_iff_byte)
    then show ?thesis by blast
  next
    case three
    obtain x y z where x: "byte a = 0xE0 + x" "x < 16" and y: "byte b = 0x80 + y" "y < 64"
      and z: "byte c = 0x80 + z" "z < 64"
      using three
      by (intro that [of "byte a - 0xE0" "byte b - 0x80" "byte c - 0x80"])
         (auto simp: continuation_def second_ok_def)
    define n where "n = (x * 64 + y) * 64 + z"
    have "x = 0 \<longrightarrow> 32 \<le> y" "x = 13 \<longrightarrow> y < 32" using three(4) x y by (auto simp: second_ok_def)
    moreover from this x y z have "scalar_value n"
      by (cases "x \<le> 12"; cases "x = 13") (auto simp: scalar_value_def n_def)
    moreover from calculation x y z have "0x800 \<le> n" "n < 0x10000"
      by (auto simp: n_def)
    moreover have "n div 4096 = x" "n div 64 mod 64 = y" "n mod 64 = z"
    proof -
      have "n div 64 = x * 64 + y" "n mod 64 = z" unfolding n_def by (rule base64_digits, rule z)+
      moreover have "(x * 64 + y) div 64 = x" "(x * 64 + y) mod 64 = y"
        by (rule base64_digits, rule y)+
      ultimately show "n div 4096 = x" "n div 64 mod 64 = y" "n mod 64 = z"
        using div_mult2_eq [of n 64 64] by simp_all
    qed
    ultimately have "scalar_value n \<and> u = utf8_encode n"
      using three(1) x y z by (simp add: utf8_encode_def char_eq_iff_byte)
    then show ?thesis by blast
  next
    case four
    obtain x y z w where x: "byte a = 0xF0 + x" "x < 5" and y: "byte b = 0x80 + y" "y < 64"
      and z: "byte c = 0x80 + z" "z < 64" and w: "byte d = 0x80 + w" "w < 64"
      using four
      by (intro that [of "byte a - 0xF0" "byte b - 0x80" "byte c - 0x80" "byte d - 0x80"])
         (auto simp: continuation_def second_ok_def)
    define n where "n = ((x * 64 + y) * 64 + z) * 64 + w"
    have "x = 0 \<longrightarrow> 16 \<le> y" "x = 4 \<longrightarrow> y < 16" using four(4) x y by (auto simp: second_ok_def)
    with x y z w have "scalar_value n" "0x10000 \<le> n"
      by (auto simp: scalar_value_def n_def)
    moreover have "n div 262144 = x" "n div 4096 mod 64 = y" "n div 64 mod 64 = z" "n mod 64 = w"
    proof -
      have "n div 64 = (x * 64 + y) * 64 + z" "n mod 64 = w"
        unfolding n_def by (rule base64_digits, rule w)+
      moreover have "((x * 64 + y) * 64 + z) div 64 = x * 64 + y" "((x * 64 + y) * 64 + z) mod 64 = z"
        by (rule base64_digits, rule z)+
      moreover have "(x * 64 + y) div 64 = x" "(x * 64 + y) mod 64 = y"
        by (rule base64_digits, rule y)+
      ultimately show "n div 262144 = x" "n div 4096 mod 64 = y" "n div 64 mod 64 = z" "n mod 64 = w"
        using div_mult2_eq [of n 64 64] div_mult2_eq [of n 4096 64] by simp_all
    qed
    ultimately have "scalar_value n \<and> u = utf8_encode n"
      using four(1) x y z w by (simp add: utf8_encode_def char_eq_iff_byte)
    then show ?thesis by blast
  qed
qed

text \<open>The table is the encoding: a unit is well formed exactly when it encodes a scalar value.\<close>

lemma well_formed_unit_iff: "well_formed_unit u \<longleftrightarrow> (\<exists>n. scalar_value n \<and> u = utf8_encode n)"
  using well_formed_unit_encode utf8_encode_well_formed by blast

lemma valid_utf8_unit: "well_formed_unit u \<Longrightarrow> valid_utf8 s \<Longrightarrow> valid_utf8 (u @ s)"
  using well_formed_unit_encode valid_utf8_scalar by blast

lemma valid_utf8_append: "valid_utf8 s \<Longrightarrow> valid_utf8 t \<Longrightarrow> valid_utf8 (s @ t)"
  by (induction rule: valid_utf8.induct) (auto intro: valid_utf8.intros)

lemma valid_utf8_ascii: "list_all (\<lambda>c. byte c < 0x80) s \<Longrightarrow> valid_utf8 s"
proof (induction s)
  case (Cons c s)
  then show ?case using valid_utf8_unit [of "[c]" s] by simp
qed (rule valid_utf8_Nil)

text \<open>A valid string is empty or starts with a well-formed unit before a valid string.\<close>

lemma valid_utf8_cases:
  assumes "valid_utf8 s"
  obtains "s = []" | u r where "well_formed_unit u" "valid_utf8 r" "s = u @ r"
  using assms by (cases rule: valid_utf8.cases) (auto intro: utf8_encode_well_formed)

lemma valid_utf8_induct [consumes 1, case_names Nil unit]:
  assumes "valid_utf8 s" and "P []"
    and "\<And>u r. well_formed_unit u \<Longrightarrow> valid_utf8 r \<Longrightarrow> P r \<Longrightarrow> P (u @ r)"
  shows "P s"
  using assms(1) by (induction rule: valid_utf8.induct) (auto intro: assms utf8_encode_well_formed)

end
