(* ===== verification/Json.thy ===== *)
theory Json
  imports Utf8_Spec "HOL-Library.Char_ord" "HOL-Library.List_Lexorder"
begin

text \<open>
  The bounded JSON reader of \<^verbatim>\<open>src/io/json.cpp\<close>: the value type, the recursive-descent parser
  with its position, depth limit and the two allocation budgets, and the readers of numbers.

  \<^item> \<open>parser\<close> is the class \<^verbatim>\<open>Parser\<close> without its error field: \<^verbatim>\<open>fail\<close> records the first error and every
    caller returns at once, so an operation returns either the error with its offset or its
    result with the new parser state.
  \<^item> \<open>peek\<close> is a guarded \<^verbatim>\<open>input_[position_]\<close>: \<open>None\<close> is \<^verbatim>\<open>position_ == input_.size()\<close>.
  \<^item> \<^verbatim>\<open>Value::Object\<close>, a \<^verbatim>\<open>std::map\<close>, is the list of its entries in the order of the keys.
  \<^item> Allocation failure (the \<^verbatim>\<open>catch\<close> clauses of \<^verbatim>\<open>parse\<close>) is not modelled.
\<close>

subsection \<open>Values\<close>

datatype json_value =
    JNull
  | JBool bool
  | JNumber string
  | JString string
  | JArray "json_value list"
  | JObject "(string \<times> json_value) list"

definition is_null :: "json_value \<Rightarrow> bool" where
  "is_null v = (v = JNull)"

fun as_bool :: "json_value \<Rightarrow> bool option" where
  "as_bool (JBool b) = Some b"
| "as_bool _ = None"

fun as_number :: "json_value \<Rightarrow> string option" where
  "as_number (JNumber t) = Some t"
| "as_number _ = None"

fun as_string :: "json_value \<Rightarrow> string option" where
  "as_string (JString s) = Some s"
| "as_string _ = None"

fun as_array :: "json_value \<Rightarrow> json_value list option" where
  "as_array (JArray vs) = Some vs"
| "as_array _ = None"

fun as_object :: "json_value \<Rightarrow> (string \<times> json_value) list option" where
  "as_object (JObject ms) = Some ms"
| "as_object _ = None"

definition find_value :: "json_value \<Rightarrow> string \<Rightarrow> json_value option" where
  "find_value v key = (case v of JObject ms \<Rightarrow> map_of ms key | _ \<Rightarrow> None)"

text \<open>\<^verbatim>\<open>std::map::emplace\<close>: a new key goes to its place in the order, an old one is kept.\<close>

fun emplace :: "string \<Rightarrow> json_value \<Rightarrow> (string \<times> json_value) list \<Rightarrow> (string \<times> json_value) list" where
  "emplace k v [] = [(k, v)]"
| "emplace k v ((k', v') # ms) =
     (if k < k' then (k, v) # (k', v') # ms
      else if k = k' then (k', v') # ms
      else (k', v') # emplace k v ms)"

subsection \<open>Characters\<close>

definition is_json_whitespace :: "char \<Rightarrow> bool" where
  "is_json_whitespace c \<longleftrightarrow> c = CHR '' '' \<or> c = CHR 0x09 \<or> c = CHR 0x0A \<or> c = CHR 0x0D"

definition is_decimal_digit :: "char \<Rightarrow> bool" where
  "is_decimal_digit c \<longleftrightarrow> byte (CHR ''0'') \<le> byte c \<and> byte c \<le> byte (CHR ''9'')"

definition hex_value :: "char \<Rightarrow> nat option" where
  "hex_value c =
     (if byte (CHR ''0'') \<le> byte c \<and> byte c \<le> byte (CHR ''9'') then Some (byte c - byte (CHR ''0''))
      else if byte (CHR ''a'') \<le> byte c \<and> byte c \<le> byte (CHR ''f'')
        then Some (10 + byte c - byte (CHR ''a''))
      else if byte (CHR ''A'') \<le> byte c \<and> byte c \<le> byte (CHR ''F'')
        then Some (10 + byte c - byte (CHR ''A''))
      else None)"

subsection \<open>Parser state and errors\<close>

datatype error_code =
    kInputTooLarge | kUnexpectedEnd | kUnexpectedToken | kInvalidLiteral | kInvalidNumber
  | kInvalidString | kInvalidEscape | kInvalidUnicodeEscape | kInvalidUnicodeScalar
  | kInvalidUtf8 | kDuplicateKey | kNestingTooDeep | kTooManyValues | kTooManyContainerItems
  | kTrailingCharacters

datatype json_error = Json_Error (code: error_code) (offset: nat)

record parser =
  p_input :: string
  p_max_depth :: nat
  p_max_values :: nat
  p_max_container_items :: nat
  p_value_count :: nat
  p_container_item_count :: nat
  p_position :: nat

definition fail :: "error_code \<Rightarrow> nat \<Rightarrow> json_error + 'a" where
  "fail c off = Inl (Json_Error c off)"

definition peek :: "parser \<Rightarrow> char option" where
  "peek p = (if p_position p < length (p_input p) then Some (p_input p ! p_position p) else None)"

definition advance :: "nat \<Rightarrow> parser \<Rightarrow> parser" where
  "advance n p = p\<lparr>p_position := p_position p + n\<rparr>"

lemma advance_sel [simp]:
  "p_input (advance n p) = p_input p" "p_max_depth (advance n p) = p_max_depth p"
  "p_max_values (advance n p) = p_max_values p"
  "p_max_container_items (advance n p) = p_max_container_items p"
  "p_value_count (advance n p) = p_value_count p"
  "p_container_item_count (advance n p) = p_container_item_count p"
  "p_position (advance n p) = p_position p + n"
  by (simp_all add: advance_def)

function advance_while :: "(char \<Rightarrow> bool) \<Rightarrow> parser \<Rightarrow> parser" where
  "advance_while P p =
     (case peek p of Some c \<Rightarrow> if P c then advance_while P (advance 1 p) else p | None \<Rightarrow> p)"
  by pat_completeness auto
termination
  by (relation "measure (\<lambda>(P, p). length (p_input p) - p_position p)")
     (auto simp: peek_def split: if_splits)

declare advance_while.simps [simp del]

definition skip_whitespace :: "parser \<Rightarrow> parser" where
  "skip_whitespace p = advance_while is_json_whitespace p"

definition consume_value :: "nat \<Rightarrow> parser \<Rightarrow> json_error + parser" where
  "consume_value off p =
     (if p_value_count p \<ge> p_max_values p then fail kTooManyValues off
      else Inr (p\<lparr>p_value_count := p_value_count p + 1\<rparr>))"

definition consume_container_item :: "nat \<Rightarrow> parser \<Rightarrow> json_error + parser" where
  "consume_container_item off p =
     (if p_container_item_count p \<ge> p_max_container_items p then fail kTooManyContainerItems off
      else Inr (p\<lparr>p_container_item_count := p_container_item_count p + 1\<rparr>))"

subsection \<open>Literals and numbers\<close>

definition parse_literal :: "string \<Rightarrow> parser \<Rightarrow> json_error + parser" where
  "parse_literal literal p =
     (if length (p_input p) - p_position p < length literal \<or>
         take (length literal) (drop (p_position p) (p_input p)) \<noteq> literal
      then fail kInvalidLiteral (p_position p)
      else Inr (advance (length literal) p))"

definition number_sign :: "parser \<Rightarrow> json_error + parser" where
  "number_sign p =
     (if peek p = Some (CHR ''-'') then
        let p = advance 1 p in
        if peek p = None then fail kInvalidNumber (p_position p) else Inr p
      else Inr p)"

definition number_integer :: "parser \<Rightarrow> json_error + parser" where
  "number_integer p =
     (case peek p of
        Some c \<Rightarrow>
          if c = CHR ''0'' then
            let p = advance 1 p in
            (case peek p of
               Some d \<Rightarrow> if is_decimal_digit d then fail kInvalidNumber (p_position p) else Inr p
             | None \<Rightarrow> Inr p)
          else if byte (CHR ''1'') \<le> byte c \<and> byte c \<le> byte (CHR ''9'') then
            Inr (advance_while is_decimal_digit (advance 1 p))
          else fail kInvalidNumber (p_position p)
      | None \<Rightarrow> fail kInvalidNumber (p_position p))"

definition number_digits :: "parser \<Rightarrow> json_error + parser" where
  "number_digits p =
     (case peek p of
        Some d \<Rightarrow> if is_decimal_digit d then Inr (advance_while is_decimal_digit (advance 1 p))
                  else fail kInvalidNumber (p_position p)
      | None \<Rightarrow> fail kInvalidNumber (p_position p))"

definition number_fraction :: "parser \<Rightarrow> json_error + parser" where
  "number_fraction p =
     (if peek p = Some (CHR ''.'') then number_digits (advance 1 p) else Inr p)"

definition number_exponent :: "parser \<Rightarrow> json_error + parser" where
  "number_exponent p =
     (if peek p = Some (CHR ''e'') \<or> peek p = Some (CHR ''E'') then
        let p = advance 1 p;
            p = (if peek p = Some (CHR ''+'') \<or> peek p = Some (CHR ''-'') then advance 1 p else p)
        in number_digits p
      else Inr p)"

definition parse_number :: "parser \<Rightarrow> json_error + json_value \<times> parser" where
  "parse_number p =
     (case number_sign p of Inl e \<Rightarrow> Inl e | Inr p1 \<Rightarrow>
      (case number_integer p1 of Inl e \<Rightarrow> Inl e | Inr p2 \<Rightarrow>
       (case number_fraction p2 of Inl e \<Rightarrow> Inl e | Inr p3 \<Rightarrow>
        (case number_exponent p3 of Inl e \<Rightarrow> Inl e | Inr p4 \<Rightarrow>
           Inr (JNumber (take (p_position p4 - p_position p) (drop (p_position p) (p_input p))), p4)))))"

subsection \<open>Strings\<close>

fun parse_hex4_loop :: "nat \<Rightarrow> nat \<Rightarrow> parser \<Rightarrow> json_error + nat \<times> parser" where
  "parse_hex4_loop 0 v p = Inr (v, p)"
| "parse_hex4_loop (Suc k) v p =
     (case peek p of
        None \<Rightarrow> fail kInvalidUnicodeEscape (p_position p)
      | Some c \<Rightarrow>
          (case hex_value c of
             None \<Rightarrow> fail kInvalidUnicodeEscape (p_position p)
           | Some digit \<Rightarrow>
               parse_hex4_loop k (take_bit 16 (push_bit 4 v OR digit)) (advance 1 p)))"

definition parse_hex4 :: "parser \<Rightarrow> json_error + nat \<times> parser" where
  "parse_hex4 p = parse_hex4_loop 4 0 p"

definition append_utf8 :: "nat \<Rightarrow> string" where
  "append_utf8 scalar =
     (if scalar \<le> 0x7F then [char_of scalar]
      else if scalar \<le> 0x7FF then
        [char_of (0xC0 OR drop_bit 6 scalar), char_of (0x80 OR (scalar AND 0x3F))]
      else if scalar \<le> 0xFFFF then
        [char_of (0xE0 OR drop_bit 12 scalar), char_of (0x80 OR (drop_bit 6 scalar AND 0x3F)),
         char_of (0x80 OR (scalar AND 0x3F))]
      else
        [char_of (0xF0 OR drop_bit 18 scalar), char_of (0x80 OR (drop_bit 12 scalar AND 0x3F)),
         char_of (0x80 OR (drop_bit 6 scalar AND 0x3F)), char_of (0x80 OR (scalar AND 0x3F))])"

definition copy_valid_utf8 :: "parser \<Rightarrow> json_error + string \<times> parser" where
  "copy_valid_utf8 p =
     (let start = p_position p;
          lead = byte (p_input p ! p_position p);
          len = (if lead \<ge> 0xC2 \<and> lead \<le> 0xDF then 2
                 else if lead \<ge> 0xE0 \<and> lead \<le> 0xEF then 3
                 else if lead \<ge> 0xF0 \<and> lead \<le> 0xF4 then 4 else 0)
      in if len = 0 then fail kInvalidUtf8 start
         else if length (p_input p) - p_position p < len then fail kInvalidUtf8 start
         else let second = byte (p_input p ! (p_position p + 1)) in
           if (second AND 0xC0) \<noteq> 0x80 \<or> (lead = 0xE0 \<and> second < 0xA0) \<or>
              (lead = 0xED \<and> second > 0x9F) \<or> (lead = 0xF0 \<and> second < 0x90) \<or>
              (lead = 0xF4 \<and> second > 0x8F)
           then fail kInvalidUtf8 start
           else if list_ex (\<lambda>i. (byte (p_input p ! (p_position p + i)) AND 0xC0) \<noteq> 0x80) [2..<len]
           then fail kInvalidUtf8 start
           else Inr (take len (drop (p_position p) (p_input p)), advance len p))"

definition parse_unicode_escape :: "nat \<Rightarrow> parser \<Rightarrow> json_error + string \<times> parser" where
  "parse_unicode_escape escape_offset p =
     (case parse_hex4 p of Inl e \<Rightarrow> Inl e | Inr (first, p) \<Rightarrow>
        if first \<ge> 0xD800 \<and> first \<le> 0xDBFF then
          if length (p_input p) - p_position p < 2 \<or> p_input p ! p_position p \<noteq> CHR 0x5C \<or>
             p_input p ! (p_position p + 1) \<noteq> CHR ''u''
          then fail kInvalidUnicodeScalar escape_offset
          else
            (case parse_hex4 (advance 2 p) of Inl e \<Rightarrow> Inl e | Inr (second, p) \<Rightarrow>
               if second < 0xDC00 \<or> second > 0xDFFF
               then fail kInvalidUnicodeScalar (p_position p - 4)
               else Inr (append_utf8 (0x10000 + push_bit 10 (first - 0xD800) + (second - 0xDC00)), p))
        else if first \<ge> 0xDC00 \<and> first \<le> 0xDFFF
        then fail kInvalidUnicodeScalar escape_offset
        else Inr (append_utf8 first, p))"

definition parse_escape :: "parser \<Rightarrow> json_error + string \<times> parser" where
  "parse_escape p =
     (let escape_offset = p_position p; p = advance 1 p in
      case peek p of None \<Rightarrow> fail kUnexpectedEnd (p_position p) | Some escape \<Rightarrow>
        let p = advance 1 p in
        if escape = CHR 0x22 \<or> escape = CHR 0x5C \<or> escape = CHR ''/'' then Inr ([escape], p)
        else if escape = CHR ''b'' then Inr ([CHR 0x08], p)
        else if escape = CHR ''f'' then Inr ([CHR 0x0C], p)
        else if escape = CHR ''n'' then Inr ([CHR 0x0A], p)
        else if escape = CHR ''r'' then Inr ([CHR 0x0D], p)
        else if escape = CHR ''t'' then Inr ([CHR 0x09], p)
        else if escape = CHR ''u'' then parse_unicode_escape escape_offset p
        else fail kInvalidEscape (p_position p - 1))"

text \<open>
  Every lexical routine only moves the position forward, inside the input; it leaves the
  input, the limits and the counters alone and reports errors at offsets of the input.
\<close>

definition moves :: "parser \<Rightarrow> parser \<Rightarrow> bool" where
  "moves p q \<longleftrightarrow> (\<exists>n. q = advance n p) \<and>
     (p_position p \<le> length (p_input p) \<longrightarrow> p_position q \<le> length (p_input p))"

definition lexes :: "parser \<Rightarrow> json_error + 'a \<times> parser \<Rightarrow> bool" where
  "lexes p r \<longleftrightarrow> (case r of
      Inl e \<Rightarrow> p_position p \<le> length (p_input p) \<longrightarrow> offset e \<le> length (p_input p)
    | Inr (_, q) \<Rightarrow> moves p q \<and> p_position p < p_position q)"

definition lexes_unit :: "parser \<Rightarrow> json_error + parser \<Rightarrow> bool" where
  "lexes_unit p r \<longleftrightarrow> (case r of
      Inl e \<Rightarrow> p_position p \<le> length (p_input p) \<longrightarrow> offset e \<le> length (p_input p)
    | Inr q \<Rightarrow> moves p q)"

lemma moves_refl [simp]: "moves p p"
proof -
  have "p = advance 0 p" by (simp add: advance_def)
  then show ?thesis unfolding moves_def by blast
qed

lemma advance_advance [simp]: "advance m (advance n p) = advance (n + m) p"
  by (simp add: advance_def add.assoc)

lemma advance_0 [simp]: "advance 0 p = p"
  by (simp add: advance_def)

lemma moves_trans: "moves p q \<Longrightarrow> moves q r \<Longrightarrow> moves p r"
  by (auto simp: moves_def)

lemma moves_sel:
  assumes "moves p q"
  shows "p_input q = p_input p" "p_max_depth q = p_max_depth p" "p_max_values q = p_max_values p"
    "p_max_container_items q = p_max_container_items p" "p_value_count q = p_value_count p"
    "p_container_item_count q = p_container_item_count p" "p_position p \<le> p_position q"
  using assms by (auto simp: moves_def)

lemma moves_bound: "moves p q \<Longrightarrow> p_position p \<le> length (p_input p) \<Longrightarrow> p_position q \<le> length (p_input p)"
  by (simp add: moves_def)

lemma moves_advance: "p_position p + n \<le> length (p_input p) \<Longrightarrow> moves p (advance n p)"
  by (auto simp: moves_def)

lemma peek_Some: "peek p = Some c \<Longrightarrow> p_position p < length (p_input p) \<and> p_input p ! p_position p = c"
  by (simp add: peek_def split: if_splits)

lemma moves_peek: "peek p = Some c \<Longrightarrow> moves p (advance (Suc 0) p)"
  by (rule moves_advance) (auto dest: peek_Some)

lemma moves_advance_while: "moves p (advance_while P p)"
proof (induction P p rule: advance_while.induct)
  case (1 P p)
  then show ?case
    by (subst advance_while.simps) (auto split: option.splits intro: moves_trans [OF moves_peek])
qed

lemma moves_peek_while: "peek p = Some c \<Longrightarrow> moves p (advance_while P (advance (Suc 0) p))"
  by (rule moves_trans [OF moves_peek moves_advance_while])

lemma moves_peek_twice:
  "peek p = Some c \<Longrightarrow> peek (advance (Suc 0) p) = Some d \<Longrightarrow> moves p (advance (Suc (Suc 0)) p)"
  using moves_trans [OF moves_peek moves_peek, of p c d] by simp

lemma moves_skip_whitespace [simp]: "moves p (skip_whitespace p)"
  by (simp add: skip_whitespace_def moves_advance_while)

lemma skip_whitespace_sel [simp]:
  "p_input (skip_whitespace p) = p_input p" "p_max_depth (skip_whitespace p) = p_max_depth p"
  "p_max_values (skip_whitespace p) = p_max_values p"
  "p_max_container_items (skip_whitespace p) = p_max_container_items p"
  "p_value_count (skip_whitespace p) = p_value_count p"
  "p_container_item_count (skip_whitespace p) = p_container_item_count p"
  "p_position p \<le> p_position (skip_whitespace p)"
  using moves_sel [OF moves_skip_whitespace] by blast+

lemma lexes_simps [simp]:
  "lexes p (fail c off) \<longleftrightarrow> (p_position p \<le> length (p_input p) \<longrightarrow> off \<le> length (p_input p))"
  "lexes p (Inr (x, q)) \<longleftrightarrow> moves p q \<and> p_position p < p_position q"
  "lexes_unit p (fail c off) \<longleftrightarrow> (p_position p \<le> length (p_input p) \<longrightarrow> off \<le> length (p_input p))"
  "lexes_unit p (Inr q) \<longleftrightarrow> moves p q"
  by (auto simp: lexes_def lexes_unit_def fail_def)

lemma lexes_Inl: "lexes p (Inl e) \<Longrightarrow> p_position p \<le> length (p_input p) \<Longrightarrow> offset e \<le> length (p_input p)"
  by (simp add: lexes_def)

text \<open>Sequencing: a routine started further on lexes from here as well.\<close>

lemma lexes_after: "lexes q r \<Longrightarrow> moves p q \<Longrightarrow> lexes p r"
  by (auto simp: lexes_def moves_bound moves_sel split: sum.splits prod.splits
        intro: moves_trans dest: moves_sel(7))

lemma lexes_unit_after: "lexes_unit q r \<Longrightarrow> moves p q \<Longrightarrow> lexes_unit p r"
  by (auto simp: lexes_unit_def moves_bound moves_sel split: sum.splits intro: moves_trans)

lemma lexes_parse_literal: "lexes_unit p (parse_literal w p)"
  by (auto simp: parse_literal_def moves_def)

lemma lexes_number_digits: "lexes_unit p (number_digits p)"
  by (auto simp: number_digits_def split: option.splits intro: moves_peek_while)

lemma lexes_number_sign: "lexes_unit p (number_sign p)"
  by (auto simp: number_sign_def Let_def dest: peek_Some intro: moves_peek)

lemma lexes_number_integer:
  "case number_integer p of Inl e \<Rightarrow> lexes_unit p (Inl e :: json_error + parser)
   | Inr q \<Rightarrow> moves p q \<and> p_position p < p_position q"
proof -
  have "Suc (p_position p) \<le> p_position (advance_while P (advance (Suc 0) p))" for P
    using moves_sel(7) [OF moves_advance_while, of "advance (Suc 0) p" P] by simp
  then show ?thesis
    by (auto simp: number_integer_def Let_def fail_def lexes_unit_def Suc_le_eq split: option.splits
          dest: peek_Some intro: moves_peek moves_peek_while)
qed

lemma lexes_number_fraction: "lexes_unit p (number_fraction p)"
  by (auto simp: number_fraction_def intro!: lexes_unit_after [OF lexes_number_digits] moves_peek)

lemma lexes_number_exponent: "lexes_unit p (number_exponent p)"
  by (auto simp: number_exponent_def Let_def
        intro!: lexes_unit_after [OF lexes_number_digits] intro: moves_peek moves_peek_twice)

lemma lexes_parse_number: "lexes p (parse_number p)"
proof (cases "number_sign p")
  case (Inl e)
  with lexes_number_sign [of p] show ?thesis by (simp add: parse_number_def lexes_def lexes_unit_def)
next
  case (Inr p1)
  then have m1: "moves p p1" using lexes_number_sign [of p] by simp
  show ?thesis
  proof (cases "number_integer p1")
    case (Inl e)
    with \<open>number_sign p = Inr p1\<close> m1 lexes_number_integer [of p1] show ?thesis
      by (simp add: parse_number_def lexes_def lexes_unit_def moves_bound moves_sel(1))
  next
    case (Inr p2)
    with m1 lexes_number_integer [of p1] have m2: "moves p p2" "p_position p < p_position p2"
      using moves_sel(7) [OF m1] by (auto intro: moves_trans)
    note eqs = \<open>number_sign p = Inr p1\<close> \<open>number_integer p1 = Inr p2\<close>
    show ?thesis
    proof (cases "number_fraction p2")
      case (Inl e)
      with eqs m2 lexes_unit_after [OF lexes_number_fraction m2(1)] show ?thesis
        by (simp add: parse_number_def lexes_def lexes_unit_def)
    next
      case (Inr p3)
      then have m3: "moves p p3" "p_position p < p_position p3"
        using m2 lexes_number_fraction [of p2] moves_sel(7) [of p2 p3] by (auto intro: moves_trans)
      then show ?thesis
        using eqs Inr lexes_unit_after [OF lexes_number_exponent m3(1)]
          lexes_number_exponent [of p3] moves_sel(7) [of p3]
        by (cases "number_exponent p3") (force simp: parse_number_def lexes_def lexes_unit_def)+
    qed
  qed
qed

lemma lexes_parse_hex4_loop: "0 < k \<Longrightarrow> lexes p (parse_hex4_loop k v p)"
proof (induction k arbitrary: v p)
  case (Suc k)
  show ?case
  proof (cases "peek p")
    case (Some c)
    then have "p_position p < length (p_input p)" by (auto dest: peek_Some)
    moreover have "lexes p (parse_hex4_loop k v' (advance 1 p))" if "0 < k" for v'
      using lexes_after [OF Suc.IH [OF that] moves_peek [OF Some]] by simp
    ultimately show ?thesis
      using Some moves_peek [OF Some] by (cases "k = 0") (auto split: option.splits)
  qed simp
qed simp

lemma lexes_parse_hex4: "lexes p (parse_hex4 p)"
  by (simp add: parse_hex4_def lexes_parse_hex4_loop)

lemma lexes_copy_valid_utf8: "lexes p (copy_valid_utf8 p)"
  by (auto simp: copy_valid_utf8_def Let_def intro: moves_advance)

lemma lexes_parse_unicode_escape:
  "off \<le> p_position p \<Longrightarrow> lexes p (parse_unicode_escape off p)"
proof (cases "parse_hex4 p")
  case (Inl e)
  then show ?thesis using lexes_parse_hex4 [of p] by (simp add: parse_unicode_escape_def lexes_def)
next
  case (Inr r)
  assume off: "off \<le> p_position p"
  obtain first q where r: "r = (first, q)" by (cases r)
  with Inr have m: "moves p q" "p_position p < p_position q" using lexes_parse_hex4 [of p] by auto
  show ?thesis
  proof (cases "parse_hex4 (advance 2 q)")
    case (Inl e)
    then show ?thesis
      using Inr r m off lexes_parse_hex4 [of "advance 2 q"] moves_sel(1) [OF m(1)]
      by (auto simp: parse_unicode_escape_def lexes_def fail_def)
  next
    case inner: (Inr r2)
    obtain second q2 where r2: "r2 = (second, q2)" by (cases r2)
    with inner have m2: "moves (advance 2 q) q2" "p_position q + 2 < p_position q2"
      using lexes_parse_hex4 [of "advance 2 q"] by auto
    have "moves p q2 \<and> p_position q2 \<le> length (p_input p)"
      if "\<not> length (p_input p) - p_position q < 2"
    proof -
      have "moves q (advance 2 q)" using that moves_sel(1) [OF m(1)] by (intro moves_advance) simp
      then have "moves q q2" by (rule moves_trans) (rule m2(1))
      then show ?thesis using that moves_sel(1) [OF m(1)] moves_bound [of q q2] moves_trans [OF m(1)]
        by auto
    qed
    with m m2(2) off show ?thesis
      using Inr r inner r2 moves_sel(1) [OF m(1)]
      by (auto simp: parse_unicode_escape_def)
  qed
qed

lemma lexes_parse_escape: "peek p = Some c \<Longrightarrow> lexes p (parse_escape p)"
proof -
  assume c: "peek p = Some c"
  have "lexes p (parse_unicode_escape (p_position p) (advance 2 p))"
    if "peek (advance (Suc 0) p) = Some d" for d
    using that c moves_peek_twice [OF c that] lexes_parse_unicode_escape [of "p_position p" "advance 2 p"]
    by (auto intro: lexes_after simp: eval_nat_numeral)
  moreover have "p_position p < length (p_input p)" using c by (auto dest: peek_Some)
  moreover have "moves p (advance 2 p) \<and> p_position p + 2 \<le> length (p_input p)"
    if "peek (advance (Suc 0) p) = Some d" for d
    using moves_peek_twice [OF c that] peek_Some [OF that] by (simp add: eval_nat_numeral)
  ultimately show ?thesis
    by (cases "peek (advance (Suc 0) p)") (simp_all add: parse_escape_def Let_def numeral_2_eq_2)
qed

function parse_string_loop :: "parser \<Rightarrow> string \<Rightarrow> json_error + string \<times> parser" where
  "parse_string_loop p output =
     (case peek p of
        None \<Rightarrow> fail kUnexpectedEnd (p_position p)
      | Some c \<Rightarrow>
          if c = CHR 0x22 then Inr (output, advance 1 p)
          else if c = CHR 0x5C then
            (case parse_escape p of Inl e \<Rightarrow> Inl e | Inr (s, q) \<Rightarrow> parse_string_loop q (output @ s))
          else if byte c \<le> 0x1F then fail kInvalidString (p_position p)
          else if byte c < 0x80 then parse_string_loop (advance 1 p) (output @ [c])
          else
            (case copy_valid_utf8 p of Inl e \<Rightarrow> Inl e | Inr (s, q) \<Rightarrow> parse_string_loop q (output @ s)))"
  by pat_completeness auto
termination
proof (relation "measure (\<lambda>(p, out). length (p_input p) - p_position p)", goal_cases)
  case (2 p out c r s q)
  then show ?case using lexes_parse_escape [of p c] moves_sel [of p q] peek_Some [of p c]
    by (auto simp: diff_less_mono2)
next
  case (4 p out c r s q)
  then show ?case using lexes_copy_valid_utf8 [of p] moves_sel [of p q] peek_Some [of p c]
    by (auto simp: diff_less_mono2)
qed (auto dest: peek_Some)

declare parse_string_loop.simps [simp del]

definition parse_string :: "parser \<Rightarrow> json_error + string \<times> parser" where
  "parse_string p = parse_string_loop (advance 1 p) []"

lemma lexes_parse_string_loop: "lexes p (parse_string_loop p out)"
proof (induction p out rule: parse_string_loop.induct)
  case (1 p out)
  show ?case
  proof (cases "peek p")
    case None
    then show ?thesis by (simp add: parse_string_loop.simps [of p])
  next
    case (Some c)
    have after: "lexes p (case r of Inl e \<Rightarrow> Inl e | Inr (s, q) \<Rightarrow> parse_string_loop q (out @ s))"
      if "lexes p r" "\<And>s q. r = Inr (s, q) \<Longrightarrow> lexes q (parse_string_loop q (out @ s))" for r
    proof (cases r)
      case (Inr a)
      with that show ?thesis by (cases a) (auto intro: lexes_after)
    qed (use that in \<open>simp add: lexes_def\<close>)
    show ?thesis
      using 1 Some after [OF lexes_parse_escape [OF Some]] after [OF lexes_copy_valid_utf8]
        moves_peek [OF Some] peek_Some [OF Some]
      by (subst parse_string_loop.simps) (auto intro: lexes_after)
  qed
qed

lemma lexes_parse_string: "peek p = Some c \<Longrightarrow> lexes p (parse_string p)"
  unfolding parse_string_def using lexes_after [OF lexes_parse_string_loop moves_peek] by simp

subsection \<open>Arrays, objects and values\<close>

text \<open>
  \<open>parse_value\<close> holds the switch of \<^verbatim>\<open>parse_value\<close> with the entries of \<^verbatim>\<open>parse_array\<close> and
  \<^verbatim>\<open>parse_object\<close> (depth check, the opening bracket, the empty container);
  \<open>parse_array_items\<close> and \<open>parse_object_members\<close> are their \<^verbatim>\<open>while (true)\<close> loops.
\<close>

function (sequential)
  parse_value :: "nat \<Rightarrow> parser \<Rightarrow> json_error + json_value \<times> parser"
  and parse_array_items :: "nat \<Rightarrow> json_value list \<Rightarrow> parser \<Rightarrow> json_error + json_value \<times> parser"
  and parse_object_members ::
    "nat \<Rightarrow> (string \<times> json_value) list \<Rightarrow> parser \<Rightarrow> json_error + json_value \<times> parser"
where
  "parse_value depth p0 =
     (let p1 = skip_whitespace p0 in
      case peek p1 of
        None \<Rightarrow> fail kUnexpectedEnd (p_position p1)
      | Some c \<Rightarrow>
        (case consume_value (p_position p1) p1 of Inl e \<Rightarrow> Inl e | Inr p \<Rightarrow>
           if c = CHR ''n'' then
             (case parse_literal ''null'' p of Inl e \<Rightarrow> Inl e | Inr q \<Rightarrow> Inr (JNull, q))
           else if c = CHR ''t'' then
             (case parse_literal ''true'' p of Inl e \<Rightarrow> Inl e | Inr q \<Rightarrow> Inr (JBool True, q))
           else if c = CHR ''f'' then
             (case parse_literal ''false'' p of Inl e \<Rightarrow> Inl e | Inr q \<Rightarrow> Inr (JBool False, q))
           else if c = CHR 0x22 then
             (case parse_string p of Inl e \<Rightarrow> Inl e | Inr (s, q) \<Rightarrow> Inr (JString s, q))
           else if c = CHR ''['' then
             (if depth \<ge> p_max_depth p then fail kNestingTooDeep (p_position p)
              else let q = skip_whitespace (advance 1 p) in
                if peek q = Some (CHR '']'') then Inr (JArray [], advance 1 q)
                else parse_array_items depth [] q)
           else if c = CHR ''{'' then
             (if depth \<ge> p_max_depth p then fail kNestingTooDeep (p_position p)
              else let q = skip_whitespace (advance 1 p) in
                if peek q = Some (CHR ''}'') then Inr (JObject [], advance 1 q)
                else parse_object_members depth [] q)
           else if c = CHR ''-'' \<or> is_decimal_digit c then parse_number p
           else fail kUnexpectedToken (p_position p)))"
| "parse_array_items depth values p0 =
     (case consume_container_item (p_position p0) p0 of Inl e \<Rightarrow> Inl e | Inr p \<Rightarrow>
       (case parse_value (depth + 1) p of Inl e \<Rightarrow> Inl e | Inr (v, q0) \<Rightarrow>
          let q = skip_whitespace q0 in
          (case peek q of
             None \<Rightarrow> fail kUnexpectedEnd (p_position q)
           | Some c \<Rightarrow>
               if c = CHR '']'' then Inr (JArray (values @ [v]), advance 1 q)
               else if c \<noteq> CHR '','' then fail kUnexpectedToken (p_position q)
               else parse_array_items depth (values @ [v]) (advance 1 q))))"
| "parse_object_members depth values p0 =
     (let p1 = skip_whitespace p0 in
      case peek p1 of
        None \<Rightarrow> fail kUnexpectedEnd (p_position p1)
      | Some c \<Rightarrow>
        if c \<noteq> CHR 0x22 then fail kUnexpectedToken (p_position p1) else
        (case consume_container_item (p_position p1) p1 of Inl e \<Rightarrow> Inl e | Inr p \<Rightarrow>
          (case parse_string p of Inl e \<Rightarrow> Inl e | Inr (key, q0) \<Rightarrow>
             if key \<in> fst ` set values then fail kDuplicateKey (p_position p) else
             let q1 = skip_whitespace q0 in
             (case peek q1 of
                None \<Rightarrow> fail kUnexpectedEnd (p_position q1)
              | Some d \<Rightarrow>
                  if d \<noteq> CHR '':'' then fail kUnexpectedToken (p_position q1) else
                  (case parse_value (depth + 1) (advance 1 q1) of Inl e \<Rightarrow> Inl e | Inr (v, r0) \<Rightarrow>
                     let r = skip_whitespace r0 in
                     (case peek r of
                        None \<Rightarrow> fail kUnexpectedEnd (p_position r)
                      | Some f \<Rightarrow>
                          if f = CHR ''}'' then Inr (JObject (emplace key v values), advance 1 r)
                          else if f \<noteq> CHR '','' then fail kUnexpectedToken (p_position r)
                          else parse_object_members depth (emplace key v values) (advance 1 r)))))))"
  by pat_completeness auto

text \<open>
  What a successful run reads, as an inductive relation with one rule per successful path:
  \<open>reads_value d p v q\<close> when the value \<open>v\<close> stands at the position of \<open>p\<close>, nested \<open>d\<close> deep, and
  \<open>q\<close> is the parser after it. The properties of parsed values are rule inductions over it. It
  is stated before the functions are known to terminate: the loops go on from the position a
  nested \<open>parse_value\<close> returns, so termination needs that this position is a later one.
\<close>

inductive reads_value :: "nat \<Rightarrow> parser \<Rightarrow> json_value \<Rightarrow> parser \<Rightarrow> bool"
  and reads_items :: "nat \<Rightarrow> json_value list \<Rightarrow> parser \<Rightarrow> json_value \<Rightarrow> parser \<Rightarrow> bool"
  and reads_members :: "nat \<Rightarrow> (string \<times> json_value) list \<Rightarrow> parser \<Rightarrow> json_value \<Rightarrow> parser \<Rightarrow> bool"
where
  reads_null: "peek (skip_whitespace p0) = Some (CHR ''n'') \<Longrightarrow>
    consume_value (p_position (skip_whitespace p0)) (skip_whitespace p0) = Inr p \<Longrightarrow>
    parse_literal ''null'' p = Inr q \<Longrightarrow> reads_value d p0 JNull q"
| reads_true: "peek (skip_whitespace p0) = Some (CHR ''t'') \<Longrightarrow>
    consume_value (p_position (skip_whitespace p0)) (skip_whitespace p0) = Inr p \<Longrightarrow>
    parse_literal ''true'' p = Inr q \<Longrightarrow> reads_value d p0 (JBool True) q"
| reads_false: "peek (skip_whitespace p0) = Some (CHR ''f'') \<Longrightarrow>
    consume_value (p_position (skip_whitespace p0)) (skip_whitespace p0) = Inr p \<Longrightarrow>
    parse_literal ''false'' p = Inr q \<Longrightarrow> reads_value d p0 (JBool False) q"
| reads_string: "peek (skip_whitespace p0) = Some (CHR 0x22) \<Longrightarrow>
    consume_value (p_position (skip_whitespace p0)) (skip_whitespace p0) = Inr p \<Longrightarrow>
    parse_string p = Inr (s, q) \<Longrightarrow> reads_value d p0 (JString s) q"
| reads_number: "peek (skip_whitespace p0) = Some c \<Longrightarrow> c = CHR ''-'' \<or> is_decimal_digit c \<Longrightarrow>
    consume_value (p_position (skip_whitespace p0)) (skip_whitespace p0) = Inr p \<Longrightarrow>
    parse_number p = Inr (v, q) \<Longrightarrow> reads_value d p0 v q"
| reads_empty_array: "peek (skip_whitespace p0) = Some (CHR ''['') \<Longrightarrow>
    consume_value (p_position (skip_whitespace p0)) (skip_whitespace p0) = Inr p \<Longrightarrow>
    d < p_max_depth p \<Longrightarrow> peek (skip_whitespace (advance 1 p)) = Some (CHR '']'') \<Longrightarrow>
    reads_value d p0 (JArray []) (advance 1 (skip_whitespace (advance 1 p)))"
| reads_array: "peek (skip_whitespace p0) = Some (CHR ''['') \<Longrightarrow>
    consume_value (p_position (skip_whitespace p0)) (skip_whitespace p0) = Inr p \<Longrightarrow>
    d < p_max_depth p \<Longrightarrow> reads_items d [] (skip_whitespace (advance 1 p)) v q \<Longrightarrow>
    reads_value d p0 v q"
| reads_empty_object: "peek (skip_whitespace p0) = Some (CHR ''{'') \<Longrightarrow>
    consume_value (p_position (skip_whitespace p0)) (skip_whitespace p0) = Inr p \<Longrightarrow>
    d < p_max_depth p \<Longrightarrow> peek (skip_whitespace (advance 1 p)) = Some (CHR ''}'') \<Longrightarrow>
    reads_value d p0 (JObject []) (advance 1 (skip_whitespace (advance 1 p)))"
| reads_object: "peek (skip_whitespace p0) = Some (CHR ''{'') \<Longrightarrow>
    consume_value (p_position (skip_whitespace p0)) (skip_whitespace p0) = Inr p \<Longrightarrow>
    d < p_max_depth p \<Longrightarrow> reads_members d [] (skip_whitespace (advance 1 p)) v q \<Longrightarrow>
    reads_value d p0 v q"
| reads_last_item: "consume_container_item (p_position p0) p0 = Inr p \<Longrightarrow>
    reads_value (d + 1) p v q \<Longrightarrow> peek (skip_whitespace q) = Some (CHR '']'') \<Longrightarrow>
    reads_items d vs p0 (JArray (vs @ [v])) (advance 1 (skip_whitespace q))"
| reads_next_item: "consume_container_item (p_position p0) p0 = Inr p \<Longrightarrow>
    reads_value (d + 1) p v q \<Longrightarrow> peek (skip_whitespace q) = Some (CHR '','') \<Longrightarrow>
    reads_items d (vs @ [v]) (advance 1 (skip_whitespace q)) w r \<Longrightarrow> reads_items d vs p0 w r"
| reads_last_member: "peek (skip_whitespace p0) = Some (CHR 0x22) \<Longrightarrow>
    consume_container_item (p_position (skip_whitespace p0)) (skip_whitespace p0) = Inr p \<Longrightarrow>
    parse_string p = Inr (key, q) \<Longrightarrow> key \<notin> fst ` set ms \<Longrightarrow>
    peek (skip_whitespace q) = Some (CHR '':'') \<Longrightarrow>
    reads_value (d + 1) (advance 1 (skip_whitespace q)) v r \<Longrightarrow>
    peek (skip_whitespace r) = Some (CHR ''}'') \<Longrightarrow>
    reads_members d ms p0 (JObject (emplace key v ms)) (advance 1 (skip_whitespace r))"
| reads_next_member: "peek (skip_whitespace p0) = Some (CHR 0x22) \<Longrightarrow>
    consume_container_item (p_position (skip_whitespace p0)) (skip_whitespace p0) = Inr p \<Longrightarrow>
    parse_string p = Inr (key, q) \<Longrightarrow> key \<notin> fst ` set ms \<Longrightarrow>
    peek (skip_whitespace q) = Some (CHR '':'') \<Longrightarrow>
    reads_value (d + 1) (advance 1 (skip_whitespace q)) v r \<Longrightarrow>
    peek (skip_whitespace r) = Some (CHR '','') \<Longrightarrow>
    reads_members d (emplace key v ms) (advance 1 (skip_whitespace r)) w t \<Longrightarrow>
    reads_members d ms p0 w t"

lemma parse_reads_partial:
  "parse_value_parse_array_items_parse_object_members_dom (Inl (d, p)) \<Longrightarrow>
     parse_value d p = Inr (v, q) \<Longrightarrow> reads_value d p v q"
  "parse_value_parse_array_items_parse_object_members_dom (Inr (Inl (d, vs, p))) \<Longrightarrow>
     parse_array_items d vs p = Inr (v, q) \<Longrightarrow> reads_items d vs p v q"
  "parse_value_parse_array_items_parse_object_members_dom (Inr (Inr (d, ms, p))) \<Longrightarrow>
     parse_object_members d ms p = Inr (v, q) \<Longrightarrow> reads_members d ms p v q"
proof (induction d p and d vs p and d ms p arbitrary: v q and v q and v q
    rule: parse_value_parse_array_items_parse_object_members.pinduct)
  case (1 depth p0)
  show ?case
  proof (cases "peek (skip_whitespace p0)")
    case None
    with 1(4) show ?thesis by (simp add: parse_value.psimps [OF 1(1)] Let_def fail_def)
  next
    case (Some c)
    show ?thesis
    proof (cases "consume_value (p_position (skip_whitespace p0)) (skip_whitespace p0)")
      case (Inl e)
      with 1(4) Some show ?thesis by (simp add: parse_value.psimps [OF 1(1)] Let_def)
    next
      case (Inr p)
      note eqs = parse_value.psimps [OF 1(1)] Some Inr
      note IH = 1(2) [OF refl Some Inr _ _ _ _ _ _ refl] 1(3) [OF refl Some Inr _ _ _ _ _ _ _ refl]
      consider "c = CHR ''n''" | "c = CHR ''t''" | "c = CHR ''f''" | "c = CHR 0x22" | "c = CHR ''[''"
        | "c = CHR ''{''" | "c \<notin> {CHR ''n'', CHR ''t'', CHR ''f'', CHR 0x22, CHR ''['', CHR ''{''}"
        by blast
      then show ?thesis
      proof cases
        case 5
        with 1(4) IH(1) reads_empty_array [OF Some [unfolded 5] Inr]
        show ?thesis by (auto simp: eqs Let_def fail_def split: if_splits
            intro: reads_array [OF Some [unfolded 5] Inr])
      next
        case 6
        with 1(4) IH(2) reads_empty_object [OF Some [unfolded 6] Inr]
        show ?thesis by (auto simp: eqs Let_def fail_def split: if_splits
            intro: reads_object [OF Some [unfolded 6] Inr])
      next
        case 7
        with 1(4) have "c = CHR ''-'' \<or> is_decimal_digit c" "parse_number p = Inr (v, q)"
          by (simp_all add: eqs Let_def fail_def split: if_splits)
        then show ?thesis by (rule reads_number [OF Some _ Inr])
      qed (use 1(4) Some Inr in \<open>auto simp: eqs Let_def split: sum.splits
            intro: reads_null reads_true reads_false reads_string\<close>)
    qed
  qed
next
  case (2 depth vs p0)
  from 2(4) show ?case
    by (auto simp: parse_array_items.psimps [OF 2(1)] Let_def fail_def simp del: One_nat_def
        split: option.splits sum.splits if_splits prod.splits
        intro: reads_last_item reads_next_item dest: 2(2,3))
next
  case (3 depth ms p0)
  note IH = 3(2,3) [OF refl _ _ _ _ refl _ refl, unfolded not_not]
  from 3(4) show ?case
    by (auto simp: parse_object_members.psimps [OF 3(1)] Let_def fail_def simp del: One_nat_def
        split: option.splits sum.splits if_splits prod.splits
        intro: reads_last_member reads_next_member dest: IH)
qed

definition ahead :: "parser \<Rightarrow> parser \<Rightarrow> bool" where
  "ahead p q \<longleftrightarrow> p_input q = p_input p \<and> p_position p \<le> p_position q"

lemma ahead_refl: "ahead p p"
  by (simp add: ahead_def)

lemma ahead_trans: "ahead p q \<Longrightarrow> ahead q r \<Longrightarrow> ahead p r"
  by (auto simp: ahead_def)

lemma moves_ahead: "moves p q \<Longrightarrow> ahead p q"
  by (simp add: ahead_def moves_sel)

lemma consume_Inr:
  "consume_value off p = Inr q \<Longrightarrow>
     q = p\<lparr>p_value_count := p_value_count p + 1\<rparr> \<and> p_value_count p < p_max_values p"
  "consume_container_item off p = Inr q \<Longrightarrow>
     q = p\<lparr>p_container_item_count := p_container_item_count p + 1\<rparr>
     \<and> p_container_item_count p < p_max_container_items p"
  by (auto simp: consume_value_def consume_container_item_def fail_def split: if_splits)

lemma ahead_step:
  "ahead p q \<Longrightarrow> ahead p (advance n q)"
  "ahead p q \<Longrightarrow> ahead p (skip_whitespace q)"
  "consume_value off q = Inr r \<Longrightarrow> ahead p q \<Longrightarrow> ahead p r"
  "consume_container_item off q = Inr r \<Longrightarrow> ahead p q \<Longrightarrow> ahead p r"
  "parse_literal w q = Inr r \<Longrightarrow> ahead p q \<Longrightarrow> ahead p r"
  "parse_string q = Inr (s, r) \<Longrightarrow> ahead p q \<Longrightarrow> ahead p r"
  "parse_number q = Inr (v, r) \<Longrightarrow> ahead p q \<Longrightarrow> ahead p r"
proof -
  show "ahead p q \<Longrightarrow> ahead p (advance n q)" by (simp add: ahead_def)
  show "ahead p q \<Longrightarrow> ahead p (skip_whitespace q)"
    by (rule ahead_trans [OF _ moves_ahead [OF moves_skip_whitespace]])
  show "consume_value off q = Inr r \<Longrightarrow> ahead p q \<Longrightarrow> ahead p r"
    "consume_container_item off q = Inr r \<Longrightarrow> ahead p q \<Longrightarrow> ahead p r"
    by (auto dest!: consume_Inr simp: ahead_def)
  show "parse_literal w q = Inr r \<Longrightarrow> ahead p q \<Longrightarrow> ahead p r"
    using lexes_parse_literal [of q w] by (auto intro: ahead_trans moves_ahead)
  show "parse_string q = Inr (s, r) \<Longrightarrow> ahead p q \<Longrightarrow> ahead p r"
    using lexes_parse_string_loop [of "advance 1 q" "[]"]
    by (auto simp: parse_string_def ahead_def dest: moves_sel)
  show "parse_number q = Inr (v, r) \<Longrightarrow> ahead p q \<Longrightarrow> ahead p r"
    using lexes_parse_number [of q] by (auto intro: ahead_trans moves_ahead)
qed

lemma reads_ahead:
  "reads_value d p v q \<Longrightarrow> ahead r p \<Longrightarrow> ahead r q"
  "reads_items d vs p v q \<Longrightarrow> ahead r p \<Longrightarrow> ahead r q"
  "reads_members d ms p v q \<Longrightarrow> ahead r p \<Longrightarrow> ahead r q"
  by (induction rule: reads_value_reads_items_reads_members.inducts) (meson ahead_step)+

text \<open>The unread part of the input, and what shortens it.\<close>

definition unread :: "parser \<Rightarrow> nat" where
  "unread p = length (p_input p) - p_position p"

lemma ahead_unread: "ahead p q \<Longrightarrow> unread q \<le> unread p"
  by (auto simp: ahead_def unread_def)

lemma unread_peek: "peek q = Some c \<Longrightarrow> ahead p q \<Longrightarrow> unread (advance 1 q) < unread p"
  by (auto simp: unread_def ahead_def dest: peek_Some)

lemma unread_bracket:
  assumes "peek p1 = Some c" "p1 = skip_whitespace p0" "consume_value off p1 = Inr p"
  shows "unread (skip_whitespace (advance 1 p)) < unread p0"
proof -
  have "peek p = Some c" using assms(1,3) consume_Inr(1) [of off p1 p] by (simp add: peek_def split: if_splits)
  then have "unread (advance 1 p) < unread p" by (rule unread_peek) (rule ahead_refl)
  moreover have "unread (skip_whitespace (advance 1 p)) \<le> unread (advance 1 p)"
    by (rule ahead_unread) (rule ahead_step(2) [OF ahead_refl])
  moreover have "unread p \<le> unread p0"
    using assms by (intro ahead_unread) (auto intro: ahead_step ahead_refl)
  ultimately show ?thesis by linarith
qed

lemma parse_terminates: "All parse_value_parse_array_items_parse_object_members_dom"
proof (relation "measure (\<lambda>x. case x of
      Inl (d, p) \<Rightarrow> 2 * unread p
    | Inr (Inl (d, vs, p)) \<Rightarrow> 2 * unread p + 1
    | Inr (Inr (d, ms, p)) \<Rightarrow> 2 * unread p + 1)", goal_cases)
  case 1 show ?case by simp
next
  case (2 depth p0 p1 c p q)
  then show ?case using unread_bracket [of p1 c p0 "p_position p1" p] by auto
next
  case (3 depth p0 p1 c p q)
  then show ?case using unread_bracket [of p1 c p0 "p_position p1" p] by auto
next
  case (4 depth vs p0 p)
  then have "unread p \<le> unread p0" by (intro ahead_unread ahead_step(4) [OF _ ahead_refl])
  then show ?case by simp
next
  case (5 depth vs p0 p r v q0 q c)
  then have "reads_value (depth + 1) p v q0" by (auto intro: parse_reads_partial)
  then have "ahead p0 q" using 5 by (metis ahead_step(2,4) ahead_refl reads_ahead(1))
  with 5 show ?case using unread_peek [of q c p0] by simp
next
  case (6 depth ms p0 p1 c p r key q0 q d)
  then have "ahead p0 q" by (metis ahead_step(2,4,6) ahead_refl)
  with 6 show ?case using unread_peek [of q d p0] by simp
next
  case (7 depth ms p0 p1 c p r key q0 q d s v t0 t e)
  then have "reads_value (depth + 1) (advance 1 q) v t0" by (auto intro: parse_reads_partial)
  then have "ahead p0 t" using 7 by (metis ahead_step(1,2,4,6) ahead_refl reads_ahead(1))
  with 7 show ?case using unread_peek [of t e p0] by simp
qed

termination parse_value
  by (rule parse_terminates)

declare parse_value.simps [simp del] parse_array_items.simps [simp del] parse_object_members.simps [simp del]

lemma parse_reads:
  "parse_value d p = Inr (v, q) \<Longrightarrow> reads_value d p v q"
  using parse_terminates by (blast intro: parse_reads_partial)

subsection \<open>The entry point\<close>

record parse_options =
  max_input_bytes :: nat
  max_nesting_depth :: nat
  max_values :: nat
  max_container_items :: nat

definition default_parse_options :: parse_options where
  "default_parse_options =
     \<lparr>max_input_bytes = 100000000, max_nesting_depth = 128, max_values = 1000000,
      max_container_items = 1000000\<rparr>"

definition kAbsoluteMaxNestingDepth :: nat where
  "kAbsoluteMaxNestingDepth = 1024"

definition parser_run :: "parser \<Rightarrow> json_error + json_value" where
  "parser_run p =
     (case parse_value 0 (skip_whitespace p) of Inl e \<Rightarrow> Inl e | Inr (root, q0) \<Rightarrow>
        let q = skip_whitespace q0 in
        if p_position q \<noteq> length (p_input q) then fail kTrailingCharacters (p_position q)
        else Inr root)"

definition json_parse :: "string \<Rightarrow> parse_options \<Rightarrow> json_error + json_value" where
  "json_parse input options =
     (if length input > max_input_bytes options then fail kInputTooLarge (max_input_bytes options)
      else parser_run
        \<lparr>p_input = input,
         p_max_depth = min (max_nesting_depth options) kAbsoluteMaxNestingDepth,
         p_max_values = max_values options,
         p_max_container_items = max_container_items options,
         p_value_count = 0, p_container_item_count = 0, p_position = 0\<rparr>)"

subsection \<open>Reading integers\<close>

text \<open>
  \<^verbatim>\<open>std::from_chars\<close> in base 10: it takes the longest run of digits (after an optional minus sign
  for a signed type) and returns the value with the unread rest, or nothing when there is no
  digit or the value does not fit.
\<close>

definition decimal_value :: "string \<Rightarrow> nat" where
  "decimal_value ds = fold (\<lambda>c n. n * 10 + (byte c - byte (CHR ''0''))) ds 0"

definition from_chars_uint64 :: "string \<Rightarrow> (nat \<times> string) option" where
  "from_chars_uint64 t =
     (let ds = takeWhile is_decimal_digit t; n = decimal_value ds in
      if ds = [] \<or> n > 2 ^ 64 - 1 then None else Some (n, dropWhile is_decimal_digit t))"

definition from_chars_int64 :: "string \<Rightarrow> (int \<times> string) option" where
  "from_chars_int64 t =
     (let negative = (t \<noteq> [] \<and> hd t = CHR ''-'');
          u = (if negative then tl t else t);
          ds = takeWhile is_decimal_digit u;
          n = (if negative then - int (decimal_value ds) else int (decimal_value ds))
      in if ds = [] \<or> n < - (2 ^ 63) \<or> n > 2 ^ 63 - 1 then None
         else Some (n, dropWhile is_decimal_digit u))"

definition is_integer :: "string \<Rightarrow> bool" where
  "is_integer t \<longleftrightarrow> list_all (\<lambda>c. c \<notin> set ''.eE'') t"

definition to_uint64 :: "string \<Rightarrow> nat option" where
  "to_uint64 t =
     (if \<not> is_integer t \<or> t = [] \<or> hd t = CHR ''-'' then None
      else case from_chars_uint64 t of
        Some (parsed, rest) \<Rightarrow> if rest \<noteq> [] then None else Some parsed
      | None \<Rightarrow> None)"

definition to_int64 :: "string \<Rightarrow> int option" where
  "to_int64 t =
     (if \<not> is_integer t \<or> t = [] then None
      else case from_chars_int64 t of
        Some (parsed, rest) \<Rightarrow> if rest \<noteq> [] then None else Some parsed
      | None \<Rightarrow> None)"

subsection \<open>Names of types and errors\<close>

definition type_to_string :: "json_value \<Rightarrow> string" where
  "type_to_string v = (case v of
      JNull \<Rightarrow> ''null'' | JBool _ \<Rightarrow> ''bool'' | JNumber _ \<Rightarrow> ''number'' | JString _ \<Rightarrow> ''string''
    | JArray _ \<Rightarrow> ''array'' | JObject _ \<Rightarrow> ''object'')"

definition error_to_string :: "error_code \<Rightarrow> string" where
  "error_to_string c = (case c of
      kInputTooLarge \<Rightarrow> ''JSON input exceeds the configured byte limit''
    | kUnexpectedEnd \<Rightarrow> ''unexpected end of JSON input''
    | kUnexpectedToken \<Rightarrow> ''unexpected JSON token''
    | kInvalidLiteral \<Rightarrow> ''invalid JSON literal''
    | kInvalidNumber \<Rightarrow> ''invalid JSON number''
    | kInvalidString \<Rightarrow> ''invalid character in JSON string''
    | kInvalidEscape \<Rightarrow> ''invalid JSON string escape''
    | kInvalidUnicodeEscape \<Rightarrow> ''invalid JSON Unicode escape''
    | kInvalidUnicodeScalar \<Rightarrow> ''invalid JSON Unicode surrogate pair''
    | kInvalidUtf8 \<Rightarrow> ''invalid UTF-8 in JSON string''
    | kDuplicateKey \<Rightarrow> ''duplicate JSON object key''
    | kNestingTooDeep \<Rightarrow> ''JSON nesting exceeds the configured depth limit''
    | kTooManyValues \<Rightarrow> ''JSON value count exceeds the configured limit''
    | kTooManyContainerItems \<Rightarrow> ''JSON container item count exceeds the configured limit''
    | kTrailingCharacters \<Rightarrow> ''non-whitespace characters follow the JSON value'')"

end
