(* ===== verification/Json_Sound.thy ===== *)
theory Json_Sound
  imports Json
begin

text \<open>
  What the JSON reader guarantees: the strings it returns are valid UTF-8, the values respect
  the depth limit and the two budgets, objects have distinct keys in order, numbers follow the
  grammar, and errors are reported at offsets of the input.
\<close>

lemma parse_hex4_unfold: "parse_hex4 p = parse_hex4_loop (Suc (Suc (Suc (Suc 0)))) 0 p"
  by (simp add: parse_hex4_def numeral_eq_Suc)

lemmas json_eval = json_parse_def parser_run_def default_parse_options_def
  kAbsoluteMaxNestingDepth_def parse_value.simps parse_array_items.simps
  parse_object_members.simps parse_literal_def parse_number_def number_sign_def number_integer_def
  number_fraction_def number_exponent_def number_digits_def parse_string_def
  parse_string_loop.simps parse_escape_def parse_unicode_escape_def parse_hex4_unfold
  copy_valid_utf8_def consume_value_def consume_container_item_def skip_whitespace_def
  advance_while.simps is_json_whitespace_def is_decimal_digit_def hex_value_def peek_def fail_def
  advance_def byte_def append_utf8_def Let_def

subsection \<open>Strings are valid UTF-8\<close>

lemma or_low_bits: "b < 2 ^ n \<Longrightarrow> push_bit n k OR b = push_bit n k + (b::nat)"
proof -
  assume "b < 2 ^ n"
  then have "take_bit n b = b" by (simp add: take_bit_nat_eq_self)
  then have "push_bit n k AND b = push_bit n k AND take_bit n b" by simp
  also have "\<dots> = 0" by (auto simp: bit_eq_iff bit_simps)
  finally show ?thesis by (simp add: disjunctive_add_eq_or)
qed

lemma or_lead_bits:
  "x < 64 \<Longrightarrow> 0x80 OR x = 0x80 + (x::nat)" "x < 64 \<Longrightarrow> 0xC0 OR x = 0xC0 + (x::nat)"
  "x < 16 \<Longrightarrow> 0xE0 OR x = 0xE0 + (x::nat)" "x < 8 \<Longrightarrow> 0xF0 OR x = 0xF0 + (x::nat)"
  using or_low_bits [of x 7 1] or_low_bits [of x 6 3] or_low_bits [of x 4 14]
    or_low_bits [of x 3 30]
  by (simp_all add: push_bit_eq_mult)

lemma and_low_bits: "x AND 0x3F = (x::nat) mod 64"
  using take_bit_eq_mask [of 6 x] by (simp add: take_bit_eq_mod mask_eq_exp_minus_1)

lemma and_high_bits: "b < 256 \<Longrightarrow> b AND 0xC0 = 64 * ((b::nat) div 64)"
proof -
  assume "b < 256"
  then have b: "take_bit 8 b = b" by (simp add: take_bit_nat_eq_self)
  have "take_bit 8 b AND push_bit 6 (mask 2) = push_bit 6 (drop_bit 6 (take_bit 8 b))"
    by (rule bit_eqI) (auto simp: bit_simps)
  then show ?thesis by (simp add: b push_bit_eq_mult drop_bit_eq_div mask_eq_exp_minus_1 mult.commute)
qed

lemma continuation_and: "(byte c AND 0xC0) = 0x80 \<longleftrightarrow> continuation c"
  using byte_less [of c] by (auto simp: and_high_bits continuation_def)

text \<open>The reader's encoder is the encoding of the specification.\<close>

lemma append_utf8_encode: "n \<le> 0x10FFFF \<Longrightarrow> append_utf8 n = utf8_encode n"
proof -
  assume n: "n \<le> 0x10FFFF"
  have "n div 64 < 64" if "n \<le> 0x7FF" using that by linarith
  moreover have "n div 4096 < 16" if "n \<le> 0xFFFF" using that by linarith
  moreover have "n div 262144 < 8" using n by linarith
  ultimately show ?thesis
    by (auto simp: append_utf8_def utf8_encode_def drop_bit_eq_div and_low_bits or_lead_bits)
qed

lemma copy_valid_utf8_unit:
  assumes "copy_valid_utf8 p = Inr (s, q)"
  shows "well_formed_unit s"
proof -
  have upts: "[0..<2] = [0, 1::nat]" "[0..<3] = [0, 1, 2::nat]" "[0..<4] = [0, 1, 2, 3::nat]"
    "[2..<3] = [2::nat]" "[2..<4] = [2, 3::nat]"
    by (simp_all add: upt_rec)
  let ?i = "p_position p"
  let ?b = "\<lambda>k. p_input p ! (?i + k)"
  have unit: "take n (drop ?i (p_input p)) = map ?b [0..<n]"
    if "\<not> length (p_input p) - ?i < n" "n \<noteq> 0" for n
    using that by (intro take_drop_nths) linarith
  show ?thesis
    using assms
    by (auto simp: copy_valid_utf8_def Let_def fail_def unit upts continuation_and [simplified]
        second_ok_def split: if_splits)
qed

lemma parse_hex4_loop_less:
  "parse_hex4_loop k v p = Inr (n, q) \<Longrightarrow> v < 65536 \<Longrightarrow> n < 65536"
proof (induction k arbitrary: v p)
  case (Suc k)
  have "take_bit 16 (push_bit 4 v OR d) < 65536" for d :: nat
    using take_bit_nat_less_exp [of 16 "push_bit 4 v OR d"] by simp
  with Suc show ?case by (fastforce simp: fail_def split: option.splits)
qed simp

lemma parse_hex4_less: "parse_hex4 p = Inr (n, q) \<Longrightarrow> n < 65536"
  unfolding parse_hex4_def by (erule parse_hex4_loop_less) simp

lemma append_utf8_unit: "scalar_value n \<Longrightarrow> well_formed_unit (append_utf8 n)"
  by (subst append_utf8_encode) (auto simp: scalar_value_def utf8_encode_well_formed)

lemma surrogate_pair_scalar:
  assumes "0xD800 \<le> a" "a \<le> 0xDBFF" "0xDC00 \<le> b" "b \<le> 0xDFFF"
  shows "scalar_value (0x10000 + push_bit 10 (a - 0xD800) + (b - 0xDC00))"
    "scalar_value (0x2400 + (push_bit 10 (a - 0xD800) + b))"
proof -
  have "a - 0xD800 \<le> 1023" using assms by linarith
  then show "scalar_value (0x10000 + push_bit 10 (a - 0xD800) + (b - 0xDC00))"
    "scalar_value (0x2400 + (push_bit 10 (a - 0xD800) + b))"
    using assms by (auto simp: scalar_value_def push_bit_eq_mult)
qed

lemma parse_unicode_escape_unit:
  assumes "parse_unicode_escape off p = Inr (s, q)"
  shows "well_formed_unit s"
proof -
  obtain a p1 where a: "parse_hex4 p = Inr (a, p1)"
    using assms by (auto simp: parse_unicode_escape_def split: sum.splits)
  show ?thesis
  proof (cases "0xD800 \<le> a \<and> a \<le> 0xDBFF")
    case True
    with assms a show ?thesis
      by (auto simp: parse_unicode_escape_def fail_def split: if_splits sum.splits prod.splits
          intro!: append_utf8_unit surrogate_pair_scalar)
  next
    case False
    with assms a have "s = append_utf8 a" "\<not> (0xDC00 \<le> a \<and> a \<le> 0xDFFF)"
      by (auto simp: parse_unicode_escape_def fail_def split: if_splits)
    moreover have "scalar_value a"
      using False calculation parse_hex4_less [OF a] by (auto simp: scalar_value_def)
    ultimately show ?thesis by (simp add: append_utf8_unit)
  qed
qed

lemma parse_escape_unit:
  assumes "parse_escape p = Inr (s, q)"
  shows "well_formed_unit s"
  using assms
  by (auto simp: parse_escape_def Let_def fail_def byte_def split: option.splits if_splits
      intro: parse_unicode_escape_unit)

lemma parse_string_loop_valid:
  "parse_string_loop p out = Inr (s, q) \<Longrightarrow> valid_utf8 out \<Longrightarrow> valid_utf8 s"
proof (induction p out rule: parse_string_loop.induct)
  case (1 p out)
  have unit: "valid_utf8 (out @ u)" if "well_formed_unit u" for u
    using that 1(5) valid_utf8_append valid_utf8_unit [OF that valid_utf8_Nil] by simp
  obtain c where c: "peek p = Some c"
    using 1(4) by (cases "peek p") (simp_all add: parse_string_loop.simps [of p] fail_def)
  show ?case
  proof (cases "c = CHR 0x22")
    case True
    with 1(4,5) c show ?thesis by (simp add: parse_string_loop.simps [of p])
  next
    case False
    note eq = 1(4) [unfolded parse_string_loop.simps [of p]]
    show ?thesis
      using False eq c 1(1) [OF c False] 1(2) [OF c False] 1(3) [OF c False]
        unit [OF parse_escape_unit] unit [OF copy_valid_utf8_unit] unit [of "[c]"]
      by (auto simp: fail_def split: if_splits sum.splits prod.splits)
  qed
qed

lemma parse_string_valid: "parse_string p = Inr (s, q) \<Longrightarrow> valid_utf8 s"
  unfolding parse_string_def by (erule parse_string_loop_valid) (rule valid_utf8_Nil)

subsection \<open>Numbers follow the grammar\<close>

definition digits1 :: "string \<Rightarrow> bool" where
  "digits1 ds \<longleftrightarrow> ds \<noteq> [] \<and> list_all is_decimal_digit ds"

definition json_number :: "string \<Rightarrow> bool" where
  "json_number t \<longleftrightarrow> (\<exists>sg int frac ex. t = sg @ int @ frac @ ex \<and> sg \<in> {[], ''-''} \<and>
     digits1 int \<and> (hd int = CHR ''0'' \<longrightarrow> int = ''0'') \<and>
     (frac = [] \<or> (\<exists>ds. frac = CHR ''.'' # ds \<and> digits1 ds)) \<and>
     (ex = [] \<or> (\<exists>e s ds. ex = e # s @ ds \<and> e \<in> set ''eE'' \<and> s \<in> {[], ''+'', ''-''} \<and> digits1 ds)))"

text \<open>The bytes between two positions of the parser.\<close>

definition consumed :: "parser \<Rightarrow> parser \<Rightarrow> string" where
  "consumed p q = take (p_position q - p_position p) (drop (p_position p) (p_input p))"

lemma consumed_append: "moves p q \<Longrightarrow> moves q r \<Longrightarrow> consumed p r = consumed p q @ consumed q r"
proof -
  assume m: "moves p q" "moves q r"
  then obtain m n where q: "q = advance m p" and r: "r = advance n q" by (auto simp: moves_def)
  then show ?thesis by (simp add: consumed_def take_add add.commute)
qed

lemma consumed_refl [simp]: "consumed p p = []"
  by (simp add: consumed_def)

lemma consumed_peek: "peek p = Some c \<Longrightarrow> consumed p (advance (Suc 0) p) = [c]"
  by (auto simp: consumed_def dest!: peek_Some) (simp add: hd_drop_conv_nth take_Suc)

lemma consumed_while: "list_all P (consumed p (advance_while P p))"
proof (induction P p rule: advance_while.induct)
  case (1 P p)
  show ?case
  proof (cases "peek p")
    case (Some c)
    with 1 consumed_append [OF moves_peek [OF Some] moves_advance_while, of P] consumed_peek [OF Some]
    show ?thesis by (subst advance_while.simps) auto
  qed (simp add: advance_while.simps)
qed

lemma consumed_digits:
  assumes "peek p = Some c" "is_decimal_digit c"
  shows "digits1 (consumed p (advance_while is_decimal_digit (advance (Suc 0) p)))
    \<and> hd (consumed p (advance_while is_decimal_digit (advance (Suc 0) p))) = c"
  using assms consumed_append [OF moves_peek [OF assms(1)] moves_advance_while, of is_decimal_digit]
    consumed_peek [OF assms(1)] consumed_while [of is_decimal_digit "advance (Suc 0) p"]
  by (simp add: digits1_def)

lemma number_digits_text: "number_digits p = Inr q \<Longrightarrow> digits1 (consumed p q)"
  using consumed_digits [of p] by (auto simp: number_digits_def fail_def split: option.splits if_splits)

lemma number_sign_text: "number_sign p = Inr q \<Longrightarrow> consumed p q \<in> {[], ''-''}"
  by (auto simp: number_sign_def Let_def fail_def consumed_peek split: if_splits)

lemma number_integer_text:
  "number_integer p = Inr q \<Longrightarrow>
     digits1 (consumed p q) \<and> (hd (consumed p q) = CHR ''0'' \<longrightarrow> consumed p q = ''0'')"
  using consumed_digits [of p]
  by (auto simp: number_integer_def Let_def fail_def consumed_peek digits1_def is_decimal_digit_def
      byte_def split: option.splits if_splits)

lemma number_fraction_text:
  assumes "number_fraction p = Inr q"
  shows "consumed p q = [] \<or> (\<exists>ds. consumed p q = CHR ''.'' # ds \<and> digits1 ds)"
proof (cases "peek p = Some (CHR ''.'')")
  case True
  with assms have d: "number_digits (advance 1 p) = Inr q" by (simp add: number_fraction_def)
  then have "moves (advance 1 p) q" using lexes_number_digits [of "advance 1 p"] by simp
  then show ?thesis
    using consumed_append [OF moves_peek [OF True]] consumed_peek [OF True] number_digits_text [OF d]
    by simp
qed (use assms in \<open>simp add: number_fraction_def\<close>)

lemma number_exponent_text:
  assumes "number_exponent p = Inr q"
  shows "consumed p q = [] \<or> (\<exists>e s ds. consumed p q = e # s @ ds \<and> e \<in> set ''eE'' \<and>
     s \<in> {[], ''+'', ''-''} \<and> digits1 ds)"
proof (cases "\<exists>c. peek p = Some c \<and> c \<in> set ''eE''")
  case True
  then obtain c where c: "peek p = Some c" "c \<in> set ''eE''" by blast
  let ?p1 = "advance 1 p"
  define p2 where "p2 = (if peek ?p1 = Some (CHR ''+'') \<or> peek ?p1 = Some (CHR ''-'') then advance 1 ?p1 else ?p1)"
  have d: "number_digits p2 = Inr q"
    using assms c by (auto simp: number_exponent_def Let_def p2_def)
  have m: "moves p ?p1" "moves ?p1 p2" "moves p2 q"
    using moves_peek [OF c(1)] moves_peek [of ?p1] lexes_number_digits [of p2] d
    by (auto simp: p2_def)
  have "consumed ?p1 p2 \<in> {[], ''+'', ''-''}"
    using consumed_peek [of ?p1] by (auto simp: p2_def)
  moreover have "consumed p q = c # consumed ?p1 p2 @ consumed p2 q"
    using consumed_append [OF m(1) moves_trans [OF m(2,3)]] consumed_append [OF m(2,3)]
      consumed_peek [OF c(1)] by simp
  ultimately show ?thesis using c(2) number_digits_text [OF d] by blast
next
  case False
  then have "\<not> (peek p = Some (CHR ''e'') \<or> peek p = Some (CHR ''E''))" by auto
  with assms show ?thesis by (simp add: number_exponent_def)
qed

lemma parse_number_text:
  assumes "parse_number p = Inr (v, q)"
  shows "\<exists>t. v = JNumber t \<and> json_number t"
proof -
  obtain p1 p2 p3 where s: "number_sign p = Inr p1" "number_integer p1 = Inr p2"
      "number_fraction p2 = Inr p3" "number_exponent p3 = Inr q" and v: "v = JNumber (consumed p q)"
    using assms by (auto simp: parse_number_def consumed_def split: sum.splits)
  have m: "moves p p1" "moves p1 p2" "moves p2 p3" "moves p3 q"
    using s lexes_number_sign [of p] lexes_number_integer [of p1] lexes_number_fraction [of p2]
      lexes_number_exponent [of p3] by auto
  have "consumed p q = consumed p p1 @ consumed p1 p2 @ consumed p2 p3 @ consumed p3 q"
    using consumed_append [OF m(1) moves_trans [OF m(2) moves_trans [OF m(3,4)]]]
      consumed_append [OF m(2) moves_trans [OF m(3,4)]] consumed_append [OF m(3,4)] by simp
  with number_sign_text [OF s(1)] number_integer_text [OF s(2)] number_fraction_text [OF s(3)]
    number_exponent_text [OF s(4)]
  have "json_number (consumed p q)" unfolding json_number_def by blast
  with v show ?thesis by blast
qed

subsection \<open>Well-formed values, depth and budgets\<close>

fun wf_value :: "json_value \<Rightarrow> bool" where
  "wf_value (JNumber t) \<longleftrightarrow> json_number t"
| "wf_value (JString s) \<longleftrightarrow> valid_utf8 s"
| "wf_value (JArray vs) \<longleftrightarrow> (\<forall>v\<in>set vs. wf_value v)"
| "wf_value (JObject ms) \<longleftrightarrow> sorted_wrt (<) (map fst ms) \<and> (\<forall>(k, v)\<in>set ms. valid_utf8 k \<and> wf_value v)"
| "wf_value _ \<longleftrightarrow> True"

text \<open>The nesting of containers, the number of values and the number of container items.\<close>

fun nesting :: "json_value \<Rightarrow> nat" where
  "nesting (JArray vs) = Suc (foldr max (map nesting vs) 0)"
| "nesting (JObject ms) = Suc (foldr max (map (\<lambda>(k, v). nesting v) ms) 0)"
| "nesting _ = 0"

fun count_values :: "json_value \<Rightarrow> nat" where
  "count_values (JArray vs) = Suc (sum_list (map count_values vs))"
| "count_values (JObject ms) = Suc (sum_list (map (\<lambda>(k, v). count_values v) ms))"
| "count_values _ = 1"

fun count_items :: "json_value \<Rightarrow> nat" where
  "count_items (JArray vs) = sum_list (map (\<lambda>v. Suc (count_items v)) vs)"
| "count_items (JObject ms) = sum_list (map (\<lambda>(k, v). Suc (count_items v)) ms)"
| "count_items _ = 0"

lemma foldr_max_le: "foldr max xs 0 \<le> n \<longleftrightarrow> (\<forall>x\<in>set xs. x \<le> (n::nat))"
  by (induction xs) auto

lemma set_emplace: "k \<notin> fst ` set ms \<Longrightarrow> set (emplace k v ms) = insert (k, v) (set ms)"
  by (induction k v ms rule: emplace.induct) (auto split: if_splits)

lemma sum_list_emplace:
  "k \<notin> fst ` set ms \<Longrightarrow> sum_list (map f (emplace k v ms)) = f (k, v) + sum_list (map f ms)"
  for f :: "string \<times> json_value \<Rightarrow> nat"
  by (induction ms) auto

lemma keys_emplace: "set (map fst (emplace k v ms)) = insert k (set (map fst ms))"
  by (induction k v ms rule: emplace.induct) (simp_all add: insert_commute)

lemma sorted_emplace:
  "sorted_wrt (<) (map fst ms) \<Longrightarrow> sorted_wrt (<) (map fst (emplace k v ms))"
proof (induction ms)
  case (Cons m ms)
  then show ?case
    using keys_emplace [of k v ms] by (cases m) (force simp: not_less_iff_gr_or_eq)
qed simp

text \<open>A run that reads \<open>nv\<close> values and \<open>ni\<close> container items, within the budgets.\<close>

definition spends :: "parser \<Rightarrow> parser \<Rightarrow> nat \<Rightarrow> nat \<Rightarrow> bool" where
  "spends p q nv ni \<longleftrightarrow>
     p_max_depth q = p_max_depth p \<and> p_max_values q = p_max_values p \<and>
     p_max_container_items q = p_max_container_items p \<and>
     p_value_count q = p_value_count p + nv \<and>
     p_container_item_count q = p_container_item_count p + ni \<and>
     (p_value_count p \<le> p_max_values p \<longrightarrow> p_value_count q \<le> p_max_values p) \<and>
     (p_container_item_count p \<le> p_max_container_items p \<longrightarrow>
      p_container_item_count q \<le> p_max_container_items p)"

lemma spends_trans: "spends p q a b \<Longrightarrow> spends q r c d \<Longrightarrow> spends p r (a + c) (b + d)"
  by (auto simp: spends_def)

lemma spends_moves: "moves p q \<Longrightarrow> spends p q 0 0"
  by (simp add: spends_def moves_sel)

lemma spends_lex:
  "spends p (skip_whitespace p) 0 0" "spends p (advance n p) 0 0"
  "consume_value off p = Inr q \<Longrightarrow> spends p q 1 0"
  "consume_container_item off p = Inr q \<Longrightarrow> spends p q 0 1"
  "parse_literal w p = Inr q \<Longrightarrow> spends p q 0 0"
  "parse_string p = Inr (s, q) \<Longrightarrow> spends p q 0 0"
  "parse_number p = Inr (v, q) \<Longrightarrow> spends p q 0 0"
proof -
  show "spends p (skip_whitespace p) 0 0" by (rule spends_moves) simp
  show "spends p (advance n p) 0 0" by (simp add: spends_def)
  show "consume_value off p = Inr q \<Longrightarrow> spends p q 1 0" "consume_container_item off p = Inr q \<Longrightarrow> spends p q 0 1"
    by (auto dest!: consume_Inr simp: spends_def)
  show "parse_literal w p = Inr q \<Longrightarrow> spends p q 0 0"
    using lexes_parse_literal [of p w] by (auto intro: spends_moves)
  show "parse_string p = Inr (s, q) \<Longrightarrow> spends p q 0 0"
    using lexes_parse_string_loop [of "advance 1 p" "[]"]
    by (auto simp: parse_string_def spends_def dest: moves_sel)
  show "parse_number p = Inr (v, q) \<Longrightarrow> spends p q 0 0"
    using lexes_parse_number [of p] by (auto intro: spends_moves)
qed

lemma spends_open:
  assumes "consume_value off (skip_whitespace p0) = Inr p"
  shows "spends p0 p 1 0" "spends p0 (skip_whitespace (advance 1 p)) 1 0"
    "spends p0 (advance 1 (skip_whitespace (advance 1 p))) 1 0"
proof -
  show 1: "spends p0 p 1 0" using spends_trans [OF spends_lex(1) spends_lex(3) [OF assms]] by simp
  show 2: "spends p0 (skip_whitespace (advance 1 p)) 1 0"
    using spends_trans [OF 1 spends_trans [OF spends_lex(2) spends_lex(1)]] by simp
  show "spends p0 (advance 1 (skip_whitespace (advance 1 p))) 1 0"
    using spends_trans [OF 2 spends_lex(2)] by simp
qed

lemma spends_close: "spends p q a b \<Longrightarrow> spends p (advance 1 (skip_whitespace q)) a b"
  using spends_trans [OF _ spends_trans [OF spends_lex(1) spends_lex(2)], of p q a b 1] by simp

lemma spends_member:
  assumes "consume_container_item off (skip_whitespace p0) = Inr p" "parse_string p = Inr (key, q)"
    "spends (advance 1 (skip_whitespace q)) r a b"
  shows "spends p0 (advance 1 (skip_whitespace r)) a (Suc b)"
proof -
  have "spends p0 q 0 1"
    using spends_trans [OF spends_trans [OF spends_lex(1) spends_lex(4) [OF assms(1)]]
        spends_lex(6) [OF assms(2)]] by simp
  then show ?thesis
    using spends_trans [OF spends_close assms(3)] spends_close by fastforce
qed

lemma spends_depth: "spends p q a b \<Longrightarrow> p_max_depth q = p_max_depth p"
  by (simp add: spends_def)

lemma wf_emplace:
  "wf_value (JObject ms) \<Longrightarrow> key \<notin> fst ` set ms \<Longrightarrow> valid_utf8 key \<Longrightarrow> wf_value v \<Longrightarrow>
   wf_value (JObject (emplace key v ms))"
  by (auto simp: sorted_emplace set_emplace)

lemma reads_sound:
  "reads_value d p v q \<Longrightarrow>
     wf_value v \<and> spends p q (count_values v) (count_items v) \<and>
     (d \<le> p_max_depth p \<longrightarrow> d + nesting v \<le> p_max_depth p)"
  "reads_items d vs p w q \<Longrightarrow>
     \<exists>us. w = JArray (vs @ us) \<and> (\<forall>u\<in>set us. wf_value u) \<and>
       spends p q (sum_list (map count_values us)) (sum_list (map (\<lambda>u. Suc (count_items u)) us)) \<and>
       (d < p_max_depth p \<longrightarrow> (\<forall>u\<in>set us. Suc d + nesting u \<le> p_max_depth p))"
  "reads_members d ms p w q \<Longrightarrow> wf_value (JObject ms) \<Longrightarrow>
     \<exists>ns nv ni. w = JObject ns \<and> wf_value (JObject ns) \<and> spends p q nv ni \<and>
       sum_list (map (\<lambda>(k, v). count_values v) ns) = sum_list (map (\<lambda>(k, v). count_values v) ms) + nv \<and>
       sum_list (map (\<lambda>(k, v). Suc (count_items v)) ns)
         = sum_list (map (\<lambda>(k, v). Suc (count_items v)) ms) + ni \<and>
       (d < p_max_depth p \<longrightarrow> (\<forall>(k, v)\<in>set ns. (k, v) \<in> set ms \<or> Suc d + nesting v \<le> p_max_depth p))"
proof (induction rule: reads_value_reads_items_reads_members.inducts)
  case (reads_null p0 p q d)
  then show ?case
    using spends_trans [OF spends_open(1) spends_lex(5)] by fastforce
next
  case (reads_true p0 p q d)
  then show ?case
    using spends_trans [OF spends_open(1) spends_lex(5)] by fastforce
next
  case (reads_false p0 p q d)
  then show ?case
    using spends_trans [OF spends_open(1) spends_lex(5)] by fastforce
next
  case (reads_string p0 p s q d)
  then show ?case
    using spends_trans [OF spends_open(1) spends_lex(6)] parse_string_valid by fastforce
next
  case (reads_number p0 c p v q d)
  then obtain t where "v = JNumber t" "json_number t" using parse_number_text by blast
  with reads_number show ?case
    using spends_trans [OF spends_open(1) spends_lex(7)] by fastforce
next
  case (reads_empty_array p0 p d)
  with spends_open(3) [OF reads_empty_array(2)] show ?case by (auto simp: spends_def)
next
  case (reads_array p0 p d v q)
  note opened = spends_open(2) [OF reads_array(2)]
  obtain us where us: "v = JArray us" "\<forall>u\<in>set us. wf_value u"
    "spends (skip_whitespace (advance 1 p)) q (sum_list (map count_values us))
       (sum_list (map (\<lambda>u. Suc (count_items u)) us))"
    "\<forall>u\<in>set us. Suc d + nesting u \<le> p_max_depth p"
    using reads_array by auto
  moreover have "foldr max (map nesting us) 0 \<le> p_max_depth p - Suc d"
    using us(4) by (auto simp: foldr_max_le)
  ultimately show ?case
    using spends_trans [OF opened us(3)] spends_depth [OF opened] reads_array(3) by auto
next
  case (reads_empty_object p0 p d)
  with spends_open(3) [OF reads_empty_object(2)] show ?case by (auto simp: spends_def)
next
  case (reads_object p0 p d v q)
  note opened = spends_open(2) [OF reads_object(2)]
  obtain ns where ns: "v = JObject ns" "wf_value (JObject ns)"
    "spends (skip_whitespace (advance 1 p)) q (sum_list (map (\<lambda>(k, v). count_values v) ns))
       (sum_list (map (\<lambda>(k, v). Suc (count_items v)) ns))"
    "\<forall>(k, v)\<in>set ns. Suc d + nesting v \<le> p_max_depth p"
    using reads_object by auto
  moreover have "foldr max (map (\<lambda>(k, v). nesting v) ns) 0 \<le> p_max_depth p - Suc d"
    using ns(4) by (auto simp: foldr_max_le)
  ultimately show ?case
    using spends_trans [OF opened ns(3)] spends_depth [OF opened] reads_object(3) by auto
next
  case (reads_last_item p0 p d v q vs)
  note item = spends_lex(4) [OF reads_last_item(1)]
  have "spends p0 (advance 1 (skip_whitespace q)) (count_values v) (Suc (count_items v))"
    using reads_last_item spends_close [OF spends_trans [OF item]] by fastforce
  then show ?case using reads_last_item spends_depth [OF item] by (intro exI [of _ "[v]"]) auto
next
  case (reads_next_item p0 p d v q vs w r)
  note item = spends_lex(4) [OF reads_next_item(1)]
  have step: "spends p0 (advance 1 (skip_whitespace q)) (count_values v) (Suc (count_items v))"
    using reads_next_item spends_close [OF spends_trans [OF item]] by fastforce
  from reads_next_item obtain us where "w = JArray ((vs @ [v]) @ us)" "\<forall>u\<in>set us. wf_value u"
    "spends (advance 1 (skip_whitespace q)) r (sum_list (map count_values us))
       (sum_list (map (\<lambda>u. Suc (count_items u)) us))"
    "d < p_max_depth p0 \<longrightarrow> (\<forall>u\<in>set us. Suc d + nesting u \<le> p_max_depth p0)"
    using spends_depth [OF step] by auto
  then show ?case
    using reads_next_item spends_depth [OF item] spends_trans [OF step]
    by (intro exI [of _ "v # us"]) auto
next
  case (reads_last_member p0 p key q ms d v r)
  have "spends p0 (advance 1 (skip_whitespace q)) 0 1"
    using spends_trans [OF spends_trans [OF spends_lex(1) spends_lex(4) [OF reads_last_member(2)]]
        spends_lex(6) [OF reads_last_member(3)]] spends_close by fastforce
  then show ?case
    using reads_last_member spends_member [OF reads_last_member(2,3)] parse_string_valid
    by (intro exI [of _ "emplace key v ms"] exI [of _ "count_values v"]
        exI [of _ "Suc (count_items v)"])
      (auto simp: sum_list_emplace set_emplace sorted_emplace dest!: spends_depth)
next
  case (reads_next_member p0 p key q ms d v r w t)
  have key: "valid_utf8 key" using parse_string_valid reads_next_member(3) by blast
  have pre: "spends p0 (advance 1 (skip_whitespace q)) 0 1"
    using spends_trans [OF spends_trans [OF spends_lex(1) spends_lex(4) [OF reads_next_member(2)]]
        spends_lex(6) [OF reads_next_member(3)]] spends_close by fastforce
  have step: "spends p0 (advance 1 (skip_whitespace r)) (count_values v) (Suc (count_items v))"
    using reads_next_member spends_member [OF reads_next_member(2,3)] by blast
  have "wf_value (JObject (emplace key v ms))"
    using reads_next_member key by (intro wf_emplace) auto
  with reads_next_member obtain ns nv ni where ns: "w = JObject ns" "wf_value (JObject ns)"
    "spends (advance 1 (skip_whitespace r)) t nv ni"
    "sum_list (map (\<lambda>(k, v). count_values v) ns)
       = sum_list (map (\<lambda>(k, v). count_values v) (emplace key v ms)) + nv"
    "sum_list (map (\<lambda>(k, v). Suc (count_items v)) ns)
       = sum_list (map (\<lambda>(k, v). Suc (count_items v)) (emplace key v ms)) + ni"
    "d < p_max_depth p0 \<longrightarrow> (\<forall>(k, u)\<in>set ns. (k, u) \<in> set (emplace key v ms)
       \<or> Suc d + nesting u \<le> p_max_depth p0)"
    using spends_depth [OF step] by auto
  then show ?case
    using reads_next_member spends_trans [OF step ns(3)] spends_depth [OF pre]
    by (intro exI [of _ ns] exI [of _ "count_values v + nv"] exI [of _ "Suc (count_items v) + ni"])
      (auto simp: sum_list_emplace set_emplace)
qed

subsection \<open>Errors lie inside the input\<close>

definition inside :: "parser \<Rightarrow> parser \<Rightarrow> bool" where
  "inside r q \<longleftrightarrow> p_input q = p_input r \<and>
     (p_position r \<le> length (p_input r) \<longrightarrow> p_position q \<le> length (p_input r))"

definition located :: "parser \<Rightarrow> json_error \<Rightarrow> bool" where
  "located r e \<longleftrightarrow> (p_position r \<le> length (p_input r) \<longrightarrow> offset e \<le> length (p_input r))"

lemma inside_refl: "inside r r"
  by (simp add: inside_def)

lemma inside_moves: "inside r q \<Longrightarrow> moves q t \<Longrightarrow> inside r t"
  by (auto simp: inside_def moves_sel dest: moves_bound)

lemma consume_peek:
  "consume_value off q = Inr t \<Longrightarrow> peek t = peek q" "consume_container_item off q = Inr t \<Longrightarrow> peek t = peek q"
  by (auto dest!: consume_Inr simp: peek_def)

lemma inside_step:
  "inside r q \<Longrightarrow> inside r (skip_whitespace q)"
  "peek q = Some c \<Longrightarrow> inside r q \<Longrightarrow> inside r (advance 1 q)"
  "consume_value off q = Inr t \<Longrightarrow> inside r q \<Longrightarrow> inside r t"
  "consume_container_item off q = Inr t \<Longrightarrow> inside r q \<Longrightarrow> inside r t"
  "parse_literal w q = Inr t \<Longrightarrow> inside r q \<Longrightarrow> inside r t"
  "parse_string q = Inr (s, t) \<Longrightarrow> peek q = Some c \<Longrightarrow> inside r q \<Longrightarrow> inside r t"
  "parse_number q = Inr (v, t) \<Longrightarrow> inside r q \<Longrightarrow> inside r t"
proof -
  show "inside r q \<Longrightarrow> inside r (skip_whitespace q)" by (rule inside_moves [OF _ moves_skip_whitespace])
  show "peek q = Some c \<Longrightarrow> inside r q \<Longrightarrow> inside r (advance 1 q)"
    by (auto intro: inside_moves moves_peek)
  show "consume_value off q = Inr t \<Longrightarrow> inside r q \<Longrightarrow> inside r t"
    "consume_container_item off q = Inr t \<Longrightarrow> inside r q \<Longrightarrow> inside r t"
    by (auto dest!: consume_Inr simp: inside_def)
  show "parse_literal w q = Inr t \<Longrightarrow> inside r q \<Longrightarrow> inside r t"
    using lexes_parse_literal [of q w] by (auto intro: inside_moves)
  show "parse_string q = Inr (s, t) \<Longrightarrow> peek q = Some c \<Longrightarrow> inside r q \<Longrightarrow> inside r t"
    using lexes_parse_string [of q c] by (auto intro: inside_moves)
  show "parse_number q = Inr (v, t) \<Longrightarrow> inside r q \<Longrightarrow> inside r t"
    using lexes_parse_number [of q] by (auto intro: inside_moves)
qed

lemma reads_inside:
  "reads_value d p v q \<Longrightarrow> inside r p \<Longrightarrow> inside r q"
  "reads_items d vs p v q \<Longrightarrow> inside r p \<Longrightarrow> inside r q"
  "reads_members d ms p v q \<Longrightarrow> inside r p \<Longrightarrow> inside r q"
  by (induction rule: reads_value_reads_items_reads_members.inducts)
     (metis inside_step consume_peek)+

lemma located_lex:
  "inside r q \<Longrightarrow> located r (Json_Error c (p_position q))"
  "consume_value (p_position q) q = Inl e \<Longrightarrow> inside r q \<Longrightarrow> located r e"
  "consume_container_item (p_position q) q = Inl e \<Longrightarrow> inside r q \<Longrightarrow> located r e"
  "parse_literal w q = Inl e \<Longrightarrow> inside r q \<Longrightarrow> located r e"
  "parse_string q = Inl e \<Longrightarrow> peek q = Some d \<Longrightarrow> inside r q \<Longrightarrow> located r e"
  "parse_number q = Inl e \<Longrightarrow> inside r q \<Longrightarrow> located r e"
  using lexes_parse_literal [of q w] lexes_parse_string [of q d] lexes_parse_number [of q]
  by (auto simp: located_def inside_def consume_value_def consume_container_item_def fail_def
      lexes_def lexes_unit_def split: if_splits)

text \<open>
  The error of one round: it lies inside the input, or a nested call reports it.
\<close>

lemma value_error:
  assumes err: "parse_value d p0 = Inl e" and ins: "inside r p0"
  obtains "located r e"
  | p where "peek (skip_whitespace p0) = Some (CHR ''['')"
      "consume_value (p_position (skip_whitespace p0)) (skip_whitespace p0) = Inr p"
      "\<not> d \<ge> p_max_depth p" "peek (skip_whitespace (advance 1 p)) \<noteq> Some (CHR '']'')"
      "parse_array_items d [] (skip_whitespace (advance 1 p)) = Inl e"
      "inside r (skip_whitespace (advance 1 p))"
  | p where "peek (skip_whitespace p0) = Some (CHR ''{'')"
      "consume_value (p_position (skip_whitespace p0)) (skip_whitespace p0) = Inr p"
      "\<not> d \<ge> p_max_depth p" "peek (skip_whitespace (advance 1 p)) \<noteq> Some (CHR ''}'')"
      "parse_object_members d [] (skip_whitespace (advance 1 p)) = Inl e"
      "inside r (skip_whitespace (advance 1 p))"
proof (cases "peek (skip_whitespace p0)")
  case None
  with err ins have "located r e"
    by (auto simp: parse_value.simps [of d p0] fail_def Let_def intro: located_lex inside_step)
  then show thesis by (rule that)
next
  case (Some c)
  show thesis
  proof (cases "consume_value (p_position (skip_whitespace p0)) (skip_whitespace p0)")
    case (Inl e')
    with err ins Some have "located r e"
      by (auto simp: parse_value.simps [of d p0] Let_def intro: located_lex(2) inside_step)
    then show thesis by (rule that)
  next
    case (Inr p)
    have p: "inside r p" "peek p = Some c"
      using inside_step(3) [OF Inr inside_step(1) [OF ins]] consume_peek(1) [OF Inr] Some by simp_all
    then have q: "inside r (skip_whitespace (advance 1 p))" using inside_step(1,2) by blast
    note eqs = parse_value.simps [of d p0] Some Inr Let_def
    have deep: "located r (Json_Error kNestingTooDeep (p_position p))"
      using p(1) by (rule located_lex)
    consider "c = CHR ''n''" | "c = CHR ''t''" | "c = CHR ''f''" | "c = CHR 0x22" | "c = CHR ''[''"
      | "c = CHR ''{''" | "c \<notin> {CHR ''n'', CHR ''t'', CHR ''f'', CHR 0x22, CHR ''['', CHR ''{''}"
      by blast
    then show thesis
    proof cases
      case 4
      with err have "parse_string p = Inl e" by (auto simp: eqs split: sum.splits)
      then have "located r e" using p(2,1) by (rule located_lex)
      then show thesis by (rule that)
    next
      case 5
      with err deep have "located r e \<or> (\<not> d \<ge> p_max_depth p \<and>
          peek (skip_whitespace (advance 1 p)) \<noteq> Some (CHR '']'') \<and>
          parse_array_items d [] (skip_whitespace (advance 1 p)) = Inl e)"
        by (auto simp: eqs fail_def split: if_splits)
      with Some Inr 5 q that(1,2) show thesis by blast
    next
      case 6
      with err deep have "located r e \<or> (\<not> d \<ge> p_max_depth p \<and>
          peek (skip_whitespace (advance 1 p)) \<noteq> Some (CHR ''}'') \<and>
          parse_object_members d [] (skip_whitespace (advance 1 p)) = Inl e)"
        by (auto simp: eqs fail_def split: if_splits)
      with Some Inr 6 q that(1,3) show thesis by blast
    next
      case 7
      with err have "parse_number p = Inl e \<or> e = Json_Error kUnexpectedToken (p_position p)"
        by (auto simp: eqs fail_def split: if_splits)
      then have "located r e" using located_lex(1,6) p(1) by blast
      then show thesis by (rule that)
    qed (rule that(1), use err p(1) in \<open>auto simp: eqs split: sum.splits intro: located_lex(4)\<close>)+
  qed
qed

lemma items_error:
  assumes err: "parse_array_items d vs p0 = Inl e" and ins: "inside r p0"
  obtains "located r e"
  | p where "consume_container_item (p_position p0) p0 = Inr p" "inside r p"
      "parse_value (d + 1) p = Inl e"
  | p v q where "consume_container_item (p_position p0) p0 = Inr p"
      "parse_value (d + 1) p = Inr (v, q)" "peek (skip_whitespace q) = Some (CHR '','')"
      "parse_array_items d (vs @ [v]) (advance 1 (skip_whitespace q)) = Inl e"
      "inside r (advance 1 (skip_whitespace q))"
proof (cases "consume_container_item (p_position p0) p0")
  case (Inl e')
  with err ins have "located r e"
    by (auto simp: parse_array_items.simps [of d] intro: located_lex(3))
  then show thesis by (rule that)
next
  case item: (Inr p)
  then have p: "inside r p" using ins by (rule inside_step)
  show thesis
  proof (cases "parse_value (d + 1) p")
    case (Inl e')
    with err item have "e' = e" by (simp add: parse_array_items.simps [of d])
    with Inl item p that(2) show thesis by blast
  next
    case inner: (Inr x)
    obtain v q where x: "x = (v, q)" by (cases x)
    have q: "inside r (skip_whitespace q)"
      using reads_inside(1) [OF parse_reads [OF inner [unfolded x]] p] by (rule inside_step)
    then have "located r e \<or> (peek (skip_whitespace q) = Some (CHR '','') \<and>
        parse_array_items d (vs @ [v]) (advance 1 (skip_whitespace q)) = Inl e)"
      using err item inner x located_lex(1) [OF q]
      by (auto simp: parse_array_items.simps [of d vs p0] Let_def fail_def simp del: One_nat_def
          split: if_splits option.splits)
    with item inner x that(1,3) inside_step(2) [OF _ q] show thesis by blast
  qed
qed

lemma member_key:
  assumes "peek (skip_whitespace p0) = Some (CHR 0x22)" "inside r p0"
    "consume_container_item (p_position (skip_whitespace p0)) (skip_whitespace p0) = Inr p"
  shows "inside r p" "peek p = Some (CHR 0x22)"
    "parse_string p = Inr (k, q) \<Longrightarrow> inside r (skip_whitespace q)"
proof -
  show "inside r p" "peek p = Some (CHR 0x22)"
    using inside_step(4) [OF assms(3) inside_step(1) [OF assms(2)]] consume_peek(2) [OF assms(3)]
      assms(1) by simp_all
  then show "parse_string p = Inr (k, q) \<Longrightarrow> inside r (skip_whitespace q)"
    using inside_step(1,6) by blast
qed

lemma members_error:
  assumes err: "parse_object_members d ms p0 = Inl e" and ins: "inside r p0"
  obtains "located r e"
  | p k q where "peek (skip_whitespace p0) = Some (CHR 0x22)"
      "consume_container_item (p_position (skip_whitespace p0)) (skip_whitespace p0) = Inr p"
      "parse_string p = Inr (k, q)" "k \<notin> fst ` set ms" "peek (skip_whitespace q) = Some (CHR '':'')"
      "parse_value (d + 1) (advance 1 (skip_whitespace q)) = Inl e"
      "inside r (advance 1 (skip_whitespace q))"
  | p k q v t where "peek (skip_whitespace p0) = Some (CHR 0x22)"
      "consume_container_item (p_position (skip_whitespace p0)) (skip_whitespace p0) = Inr p"
      "parse_string p = Inr (k, q)" "k \<notin> fst ` set ms" "peek (skip_whitespace q) = Some (CHR '':'')"
      "parse_value (d + 1) (advance 1 (skip_whitespace q)) = Inr (v, t)"
      "peek (skip_whitespace t) = Some (CHR '','')"
      "parse_object_members d (emplace k v ms) (advance 1 (skip_whitespace t)) = Inl e"
      "inside r (advance 1 (skip_whitespace t))"
proof -
  let ?p1 = "skip_whitespace p0"
  note unfold = err [unfolded parse_object_members.simps [of d ms p0] Let_def]
  have p1: "inside r ?p1" using ins by (rule inside_step)
  consider "peek ?p1 \<noteq> Some (CHR 0x22)"
    | e' where "peek ?p1 = Some (CHR 0x22)" "consume_container_item (p_position ?p1) ?p1 = Inl e'"
    | p where "peek ?p1 = Some (CHR 0x22)" "consume_container_item (p_position ?p1) ?p1 = Inr p"
    by (cases "consume_container_item (p_position ?p1) ?p1") auto
  then show thesis
  proof cases
    case 1
    with unfold located_lex(1) [OF p1] have "located r e"
      by (auto simp: fail_def split: option.splits)
    then show thesis by (rule that)
  next
    case 2
    with unfold p1 have "located r e" by (auto intro: located_lex(3))
    then show thesis by (rule that)
  next
    case (3 p)
    note key = member_key [OF 3(1) ins 3(2)]
    show thesis
    proof (cases "parse_string p")
      case (Inl e')
      with unfold 3 located_lex(5) [OF Inl key(2,1)] have "located r e" by simp
      then show thesis by (rule that)
    next
      case (Inr x)
      obtain k q where x: "x = (k, q)" by (cases x)
      have q: "inside r (skip_whitespace q)" using key(3) Inr x by blast
      let ?q1 = "advance 1 (skip_whitespace q)"
      have "located r e \<or> (k \<notin> fst ` set ms \<and> peek (skip_whitespace q) = Some (CHR '':'') \<and>
          (parse_value (d + 1) ?q1 = Inl e \<or> (\<exists>v t. parse_value (d + 1) ?q1 = Inr (v, t) \<and>
             (located r e \<or> e = Json_Error kUnexpectedEnd (p_position (skip_whitespace t)) \<or>
              e = Json_Error kUnexpectedToken (p_position (skip_whitespace t)) \<or>
              (peek (skip_whitespace t) = Some (CHR '','') \<and>
               parse_object_members d (emplace k v ms) (advance 1 (skip_whitespace t)) = Inl e)))))"
        using unfold 3 Inr x located_lex(1) [OF q] located_lex(1) [OF key(1)]
        by (auto simp: fail_def simp del: One_nat_def split: if_splits option.splits sum.splits)
      moreover have "inside r ?q1" if "peek (skip_whitespace q) = Some (CHR '':'')"
        using that q by (rule inside_step)
      moreover have "inside r (skip_whitespace t)"
        if "peek (skip_whitespace q) = Some (CHR '':'')" "parse_value (d + 1) ?q1 = Inr (v, t)" for v t
        using reads_inside(1) [OF parse_reads [OF that(2)] inside_step(2) [OF that(1) q]]
        by (rule inside_step)
      ultimately show thesis
        using that 3 Inr x located_lex(1) inside_step(2) by metis
    qed
  qed
qed

lemma parse_located:
  "parse_value d p = Inl e \<Longrightarrow> inside r p \<Longrightarrow> located r e"
  "parse_array_items d vs p = Inl e \<Longrightarrow> inside r p \<Longrightarrow> located r e"
  "parse_object_members d ms p = Inl e \<Longrightarrow> inside r p \<Longrightarrow> located r e"
proof (induction d p and d vs p and d ms p arbitrary: e and e and e
    rule: parse_value_parse_array_items_parse_object_members.induct)
  case (1 depth p0)
  show ?case
    using 1(3,4)
  proof (cases rule: value_error)
    case (2 p)
    then show ?thesis using 1(1) [OF refl 2(1,2) _ _ _ _ _ _ refl] by simp
  next
    case (3 p)
    then show ?thesis using 1(2) [OF refl 3(1,2) _ _ _ _ _ _ _ refl] by simp
  qed
next
  case (2 depth vs p0)
  show ?case
    using 2(3,4)
  proof (cases rule: items_error)
    case (2 p)
    then show ?thesis using "2.IH"(1) by blast
  next
    case (3 p v q)
    then show ?thesis using "2.IH"(2) [OF 3(1,2) refl refl 3(3)] by simp
  qed
next
  case (3 depth ms p0)
  show ?case
    using 3(3,4)
  proof (cases rule: members_error)
    case (2 p k q)
    then show ?thesis using "3.IH"(1) [OF refl 2(1) _ 2(2,3) refl 2(4) refl 2(5)] by simp
  next
    case (3 p k q v t)
    then show ?thesis
      using "3.IH"(2) [OF refl 3(1) _ 3(2,3) refl 3(4) refl 3(5) _ 3(6) refl refl 3(7)] by simp
  qed
qed

subsection \<open>Decimal text\<close>

lemma digit_char: "d < 10 \<Longrightarrow> is_decimal_digit (char_of (48 + d)) \<and> byte (char_of (48 + d)) = 48 + d"
  by (simp add: is_decimal_digit_def byte_simps) (simp add: byte_def)

lemma to_string_nat_digits: "digits1 (to_string_nat n)"
proof (induction n rule: to_string_nat.induct)
  case (1 n)
  then show ?case
    using digit_char [of n] digit_char [of "n mod 10"]
    by (subst to_string_nat.simps) (auto simp: digits1_def)
qed

lemma to_string_nat_value: "decimal_value (to_string_nat n) = n"
proof (induction n rule: to_string_nat.induct)
  case (1 n)
  have b: "byte (CHR ''0'') = 48" by (simp add: byte_def)
  show ?case
    using 1 digit_char [of n] digit_char [of "n mod 10"]
    by (subst to_string_nat.simps) (auto simp: decimal_value_def b)
qed

lemma digits1_takeWhile: "digits1 ds \<Longrightarrow> takeWhile is_decimal_digit ds = ds \<and> dropWhile is_decimal_digit ds = []"
  by (auto simp: digits1_def list_all_iff takeWhile_eq_all_conv dropWhile_eq_Nil_conv)

lemma digit_not_special:
  "is_decimal_digit c \<Longrightarrow> c \<noteq> CHR ''-'' \<and> c \<noteq> CHR ''.'' \<and> c \<noteq> CHR ''e'' \<and> c \<noteq> CHR ''E''"
  by (auto simp: is_decimal_digit_def byte_def)

lemma digits1_integer:
  assumes "digits1 ds"
  shows "is_integer ds" "is_integer (CHR ''-'' # ds)" "ds \<noteq> []" "hd ds \<noteq> CHR ''-''"
  using assms digit_not_special by (cases ds; auto simp: digits1_def is_integer_def list_all_iff)+

lemmas to_string_nat_lex [simp] =
  digits1_integer [OF to_string_nat_digits]
  digits1_takeWhile [OF to_string_nat_digits, THEN conjunct1]
  digits1_takeWhile [OF to_string_nat_digits, THEN conjunct2]
  to_string_nat_value

lemma to_uint64_to_string: "to_uint64 (to_string_nat n) = (if n < 2 ^ 64 then Some n else None)"
  by (simp add: to_uint64_def from_chars_uint64_def Let_def)

lemma to_int64_to_string:
  "to_int64 (to_string_int i) = (if - (2 ^ 63) \<le> i \<and> i < 2 ^ 63 then Some i else None)"
  by (auto simp: to_int64_def from_chars_int64_def to_string_int_def Let_def)

subsection \<open>Properties of the reader\<close>

lemma json_parse_ok:
  assumes "json_parse input options = Inr v"
  shows "wf_value v \<and> nesting v \<le> min (max_nesting_depth options) kAbsoluteMaxNestingDepth \<and>
    count_values v \<le> max_values options \<and> count_items v \<le> max_container_items options \<and>
    length input \<le> max_input_bytes options"
proof -
  define p where "p = \<lparr>p_input = input,
    p_max_depth = min (max_nesting_depth options) kAbsoluteMaxNestingDepth,
    p_max_values = max_values options, p_max_container_items = max_container_items options,
    p_value_count = 0, p_container_item_count = 0, p_position = 0\<rparr>"
  have len: "length input \<le> max_input_bytes options" and run: "parser_run p = Inr v"
    using assms by (auto simp: json_parse_def p_def fail_def split: if_splits)
  obtain q where "parse_value 0 (skip_whitespace p) = Inr (v, q)"
    using run by (auto simp: parser_run_def Let_def fail_def split: sum.splits if_splits)
  from reads_sound(1) [OF parse_reads [OF this]] len show ?thesis
    by (simp add: spends_def p_def)
qed

text \<open>
  C19. A value that \<open>json_parse\<close> returns is well formed (strings and keys are valid UTF-8, numbers
  follow the JSON grammar, object keys are distinct and in order), it nests no deeper than the
  configured limit and never deeper than 1024 levels, and its values and container items stay
  within the configured budgets.
\<close>

theorem json_parse_sound:
  assumes "json_parse input options = Inr v"
  shows "wf_value v \<and> nesting v \<le> min (max_nesting_depth options) kAbsoluteMaxNestingDepth \<and>
    count_values v \<le> max_values options \<and> count_items v \<le> max_container_items options \<and>
    length input \<le> max_input_bytes options"
  by (rule json_parse_ok [OF assms])

theorem json_parse_sound_witness:
  "wf_value (JArray [JNumber ''-1'', JString ''a'']) \<and>
   nesting (JArray [JNumber ''-1'', JString ''a'']) \<le> 128"
proof -
  have "json_parse [CHR ''['', CHR ''-'', CHR ''1'', CHR '','', CHR 0x22, CHR ''a'', CHR 0x22, CHR '']'']
      default_parse_options = Inr (JArray [JNumber ''-1'', JString ''a''])"
    by (simp add: json_eval)
  from json_parse_sound [OF this] show ?thesis by (simp add: default_parse_options_def)
qed

text \<open>
  Every error of \<open>json_parse\<close> carries an offset of the input (its length at most).
\<close>

theorem json_parse_error_offset:
  assumes "json_parse input options = Inl e"
  shows "offset e \<le> length input"
proof (cases "length input > max_input_bytes options")
  case True
  with assms show ?thesis by (auto simp: json_parse_def fail_def)
next
  case False
  define p where "p = \<lparr>p_input = input,
    p_max_depth = min (max_nesting_depth options) kAbsoluteMaxNestingDepth,
    p_max_values = max_values options, p_max_container_items = max_container_items options,
    p_value_count = 0, p_container_item_count = 0, p_position = 0\<rparr>"
  have run: "parser_run p = Inl e" using False assms by (simp add: json_parse_def p_def)
  have start: "inside p (skip_whitespace p)" by (rule inside_step(1) [OF inside_refl])
  have "located p e"
  proof (cases "parse_value 0 (skip_whitespace p)")
    case (Inl e')
    with run parse_located(1) [OF _ start] show ?thesis by (simp add: parser_run_def)
  next
    case (Inr x)
    obtain v q where x: "x = (v, q)" by (cases x)
    have "inside p (skip_whitespace q)"
      using reads_inside(1) [OF parse_reads [OF Inr [unfolded x]] start] by (rule inside_step)
    with run Inr x located_lex(1) show ?thesis
      by (auto simp: parser_run_def Let_def fail_def split: if_splits)
  qed
  then show ?thesis by (simp add: located_def p_def)
qed

theorem json_parse_error_offset_witness:
  "json_parse ''[1,]'' default_parse_options = Inl (Json_Error kUnexpectedToken 3) \<and>
   (3::nat) \<le> length ''[1,]''"
proof -
  have *: "json_parse ''[1,]'' default_parse_options = Inl (Json_Error kUnexpectedToken 3)"
    by (simp add: json_eval)
  from json_parse_error_offset [OF *] * show ?thesis by simp
qed

text \<open>
  Reading back the decimal text of an unsigned integer gives that integer when it fits in 64
  bits and nothing otherwise; the signed reader does the same on the signed 64-bit range.
\<close>

theorem integer_text_roundtrip:
  "to_uint64 (to_string_nat n) = (if n < 2 ^ 64 then Some n else None) \<and>
   to_int64 (to_string_int i) = (if - (2 ^ 63) \<le> i \<and> i < 2 ^ 63 then Some i else None)"
  by (simp only: to_uint64_to_string to_int64_to_string)

end
