(* ===== verification/Json_Print.thy ===== *)
theory Json_Print
  imports Json_Sound
begin

text \<open>
  The text side of the JSON interface. \<open>append_json_string\<close> is the escaping routine that every
  response of \<^verbatim>\<open>src/server/openai_protocol.cpp\<close> is built with. \<open>print_json\<close> is the compact text of
  a JSON value, the specification the responses are compared with; the main result is that the
  reader of \<^verbatim>\<open>src/io/json.cpp\<close> gives back the value whose text it reads.
\<close>

subsection \<open>Quoted strings\<close>

definition kHex :: string where
  "kHex = ''0123456789abcdef''"

definition append_json_byte :: "string \<Rightarrow> char \<Rightarrow> string" where
  "append_json_byte output c =
     (if c = CHR 0x22 then output @ [CHR 0x5C, CHR 0x22]
      else if c = CHR 0x5C then output @ [CHR 0x5C, CHR 0x5C]
      else if c = CHR 0x08 then output @ [CHR 0x5C, CHR ''b'']
      else if c = CHR 0x0C then output @ [CHR 0x5C, CHR ''f'']
      else if c = CHR 0x0A then output @ [CHR 0x5C, CHR ''n'']
      else if c = CHR 0x0D then output @ [CHR 0x5C, CHR ''r'']
      else if c = CHR 0x09 then output @ [CHR 0x5C, CHR ''t'']
      else if byte c < 0x20 then
        output @ [CHR 0x5C, CHR ''u'', CHR ''0'', CHR ''0''] @
          [kHex ! (drop_bit 4 (byte c) AND 0x0F)] @ [kHex ! (byte c AND 0x0F)]
      else output @ [c])"

definition append_json_string :: "string \<Rightarrow> string \<Rightarrow> string" where
  "append_json_string output text =
     foldl append_json_byte (output @ [CHR 0x22]) text @ [CHR 0x22]"

text \<open>The same text without the output it is appended to.\<close>

abbreviation escape :: "string \<Rightarrow> string" where
  "escape s \<equiv> concat (map (append_json_byte []) s)"

definition quoted :: "string \<Rightarrow> string" where
  "quoted s = CHR 0x22 # escape s @ [CHR 0x22]"

lemma append_json_byte_append: "append_json_byte output c = output @ append_json_byte [] c"
  by (simp add: append_json_byte_def)

lemma append_json_string_quoted: "append_json_string output s = output @ quoted s"
proof -
  have "foldl append_json_byte acc s = acc @ escape s" for acc
  proof (induction s arbitrary: acc)
    case (Cons c s)
    then show ?case using append_json_byte_append [of acc c] by simp
  qed simp
  then show ?thesis by (simp add: append_json_string_def quoted_def)
qed

subsection \<open>The text of a value\<close>

fun join_comma :: "string list \<Rightarrow> string" where
  "join_comma [] = []"
| "join_comma [s] = s"
| "join_comma (s # t # ts) = s @ CHR '','' # join_comma (t # ts)"

fun print_json :: "json_value \<Rightarrow> string" where
  "print_json JNull = ''null''"
| "print_json (JBool b) = (if b then ''true'' else ''false'')"
| "print_json (JNumber t) = t"
| "print_json (JString s) = quoted s"
| "print_json (JArray vs) = CHR ''['' # join_comma (map print_json vs) @ '']''"
| "print_json (JObject ms) =
     CHR ''{'' # join_comma (map (\<lambda>(k, v). quoted k @ CHR '':'' # print_json v) ms) @ ''}''"

text \<open>
  A value whose text is JSON: valid UTF-8 strings, grammatical numbers, distinct keys in any
  order. The reader keeps its objects in key order: \<open>normal\<close> is the value as it holds it.
\<close>

fun printable :: "json_value \<Rightarrow> bool" where
  "printable (JNumber t) \<longleftrightarrow> json_number t"
| "printable (JString s) \<longleftrightarrow> valid_utf8 s"
| "printable (JArray vs) \<longleftrightarrow> (\<forall>v\<in>set vs. printable v)"
| "printable (JObject ms) \<longleftrightarrow> distinct (map fst ms) \<and> (\<forall>(k, v)\<in>set ms. valid_utf8 k \<and> printable v)"
| "printable _ \<longleftrightarrow> True"

definition emplace_all :: "(string \<times> json_value) list \<Rightarrow> (string \<times> json_value) list \<Rightarrow> (string \<times> json_value) list" where
  "emplace_all acc ms = foldl (\<lambda>acc (k, v). emplace k v acc) acc ms"

fun normal :: "json_value \<Rightarrow> json_value" where
  "normal (JArray vs) = JArray (map normal vs)"
| "normal (JObject ms) = JObject (emplace_all [] (map (\<lambda>(k, v). (k, normal v)) ms))"
| "normal v = v"

subsection \<open>The unread text\<close>

definition unread_text :: "parser \<Rightarrow> string" where
  "unread_text p = drop (p_position p) (p_input p)"

lemma rest_advance [simp]: "unread_text (advance n p) = drop n (unread_text p)"
  by (simp add: unread_text_def add.commute)

lemma drop_one_Cons [simp]: "drop 1 (x # xs) = xs"
  by simp

lemma peek_rest: "peek p = (case unread_text p of [] \<Rightarrow> None | c # _ \<Rightarrow> Some c)"
  by (auto simp: peek_def unread_text_def hd_drop_conv_nth [symmetric] split: list.splits)

lemma rest_nth: "i < length (unread_text p) \<Longrightarrow> p_input p ! (p_position p + i) = unread_text p ! i"
  by (simp add: unread_text_def)

lemma rest_length: "length (p_input p) - p_position p = length (unread_text p)"
  by (simp add: unread_text_def)

lemma advance_while_rest:
  assumes "unread_text p = ds @ z" "list_all P ds" "z = [] \<or> \<not> P (hd z)"
  shows "advance_while P p = advance (length ds) p"
  using assms
proof (induction ds arbitrary: p)
  case Nil
  then show ?case by (subst advance_while.simps) (auto simp: peek_rest split: list.splits)
next
  case (Cons d ds)
  then have "advance_while P (advance 1 p) = advance (length ds) (advance 1 p)" by simp
  with Cons show ?case by (subst advance_while.simps) (simp add: peek_rest)
qed

lemma skip_whitespace_rest: "unread_text p = [] \<or> \<not> is_json_whitespace (hd (unread_text p)) \<Longrightarrow> skip_whitespace p = p"
  using advance_while_rest [of p "[]" "unread_text p" is_json_whitespace] by (simp add: skip_whitespace_def)

lemma parse_literal_rest: "unread_text p = w @ z \<Longrightarrow> parse_literal w p = Inr (advance (length w) p)"
  by (simp add: parse_literal_def rest_length) (simp add: unread_text_def)

subsection \<open>Reading a quoted string\<close>

lemma hex_value_kHex: "k < 16 \<Longrightarrow> hex_value (kHex ! k) = Some k"
proof -
  assume "k < 16"
  then have "k \<in> set [0..<16]" by simp
  then show ?thesis unfolding kHex_def
    by (simp add: upt_rec, elim disjE) (simp_all add: hex_value_def is_decimal_digit_def byte_def)
qed

lemma parse_hex4_control:
  assumes "unread_text p = [CHR ''0'', CHR ''0'', kHex ! a, kHex ! b] @ z" "a < 2" "b < 16"
  shows "parse_hex4 p = Inr (16 * a + b, advance 4 p)"
proof -
  have zero: "hex_value (CHR ''0'') = Some 0" by (simp add: hex_value_def is_decimal_digit_def byte_def)
  have t: "take_bit 16 n = n" if "n < 65536" for n :: nat using that by (simp add: take_bit_nat_eq_self)
  have ab: "push_bit 4 a OR b = 16 * a + b"
    using or_low_bits [of b 4 a] assms(3) by (simp add: push_bit_eq_mult)
  show ?thesis
    using assms hex_value_kHex [of a] hex_value_kHex [of b]
    by (simp add: parse_hex4_unfold peek_rest zero ab t del: One_nat_def)
qed

lemma parse_string_loop_plain:
  assumes "unread_text p = c # z" "c \<noteq> CHR 0x22" "c \<noteq> CHR 0x5C" "0x20 \<le> byte c" "byte c < 0x80"
  shows "parse_string_loop p out = parse_string_loop (advance 1 p) (out @ [c])"
  using assms by (subst parse_string_loop.simps) (simp add: peek_rest)

lemma parse_string_loop_escape:
  assumes "unread_text p = CHR 0x5C # z" "parse_escape p = Inr (s, q)"
  shows "parse_string_loop p out = parse_string_loop q (out @ s)"
  using assms by (subst parse_string_loop.simps) (simp add: peek_rest)

text \<open>The escapes of two characters, each with the byte it stands for.\<close>

definition short_escapes :: "(char \<times> char) list" where
  "short_escapes = [(CHR 0x22, CHR 0x22), (CHR 0x5C, CHR 0x5C), (CHR ''b'', CHR 0x08),
     (CHR ''f'', CHR 0x0C), (CHR ''n'', CHR 0x0A), (CHR ''r'', CHR 0x0D), (CHR ''t'', CHR 0x09)]"

lemma parse_escape_short:
  assumes "unread_text p = CHR 0x5C # e # z"
    "(e, c) \<in> set short_escapes"
  shows "parse_escape p = Inr ([c], advance 2 p)"
  using assms by (auto simp: short_escapes_def parse_escape_def peek_rest Let_def simp del: One_nat_def)

lemma parse_escape_control:
  assumes "unread_text p = CHR 0x5C # CHR ''u'' # CHR ''0'' # CHR ''0'' # (kHex ! (byte c div 16)) #
      (kHex ! (byte c mod 16)) # z" "byte c < 0x20"
  shows "parse_escape p = Inr ([c], advance 6 p)"
proof -
  have "byte c div 16 < 2" using assms(2) by linarith
  then have hex: "parse_hex4 (advance 2 p) = Inr (byte c, advance 4 (advance 2 p))"
    using parse_hex4_control [of "advance 2 p" "byte c div 16" "byte c mod 16" z] assms(1) by simp
  then show ?thesis
    using assms by (simp add: parse_escape_def parse_unicode_escape_def append_utf8_def peek_rest Let_def
        del: One_nat_def)
qed

lemma append_json_byte_cases:
  obtains (short) e where "append_json_byte [] c = [CHR 0x5C, e]" "(e, c) \<in> set short_escapes"
  | (control) "byte c < 0x20" "append_json_byte [] c = [CHR 0x5C, CHR ''u'', CHR ''0'', CHR ''0'',
        kHex ! (byte c div 16), kHex ! (byte c mod 16)]"
  | (plain) "append_json_byte [] c = [c]" "0x20 \<le> byte c" "c \<noteq> CHR 0x22" "c \<noteq> CHR 0x5C"
proof (cases "c \<in> snd ` set short_escapes")
  case True
  then obtain e where "(e, c) \<in> set short_escapes" by auto
  moreover from this have "append_json_byte [] c = [CHR 0x5C, e]"
    by (auto simp: short_escapes_def append_json_byte_def)
  ultimately show thesis using short by blast
next
  case False
  have mask: "n AND 15 = n mod 16" for n :: nat
    using take_bit_eq_mask [of 4 n] by (simp add: take_bit_eq_mod mask_eq_exp_minus_1)
  have eq: "append_json_byte [] c = (if byte c < 0x20 then [CHR 0x5C, CHR ''u'', CHR ''0'', CHR ''0'',
        kHex ! ((byte c div 16) mod 16), kHex ! (byte c mod 16)] else [c])"
    using False by (simp add: short_escapes_def append_json_byte_def mask drop_bit_eq_div)
  show thesis
  proof (cases "byte c < 0x20")
    case True
    then have "byte c div 16 mod 16 = byte c div 16" by simp
    with True eq control show thesis by simp
  next
    case False
    with eq plain \<open>c \<notin> snd ` set short_escapes\<close> show thesis by (simp add: short_escapes_def)
  qed
qed

lemma parse_string_loop_byte:
  assumes "unread_text p = append_json_byte [] c @ z" "byte c < 0x80"
  shows "parse_string_loop p out
    = parse_string_loop (advance (length (append_json_byte [] c)) p) (out @ [c])"
proof (cases c rule: append_json_byte_cases)
  case short
  with assms(1) show ?thesis
    using parse_string_loop_escape [OF _ parse_escape_short] by (simp add: numeral_2_eq_2)
next
  case control
  have "parse_string_loop p out = parse_string_loop (advance 6 p) (out @ [c])"
    using assms(1) control by (intro parse_string_loop_escape parse_escape_control) simp_all
  moreover have "length (append_json_byte [] c) = 6" using control by simp
  ultimately show ?thesis by simp
next
  case plain
  with assms show ?thesis using parse_string_loop_plain [of p c z out] by simp
qed

text \<open>A code point above the ASCII range stands for itself.\<close>

lemma copy_valid_utf8_rest:
  assumes "unread_text p = u @ z" "well_formed_unit u" "1 < length u"
  shows "copy_valid_utf8 p = Inr (u, advance (length u) p)"
proof -
  have nth: "p_input p ! (p_position p + i) = u ! i" if "i < length u" for i
    using that assms(1) rest_nth [of i p] by (simp add: nth_append)
  have first: "p_input p ! p_position p = u ! 0" using nth [of 0] assms(3) by (cases u) simp_all
  have take: "take (length u) (drop (p_position p) (p_input p)) = u"
    using assms(1) by (simp add: unread_text_def)
  have len: "(if 0xC2 \<le> byte (u ! 0) \<and> byte (u ! 0) \<le> 0xDF then 2
      else if 0xE0 \<le> byte (u ! 0) \<and> byte (u ! 0) \<le> 0xEF then 3
      else if 0xF0 \<le> byte (u ! 0) \<and> byte (u ! 0) \<le> 0xF4 then 4 else 0) = length u"
    using assms(2,3) by (cases u rule: well_formed_unit.cases) simp_all
  have ok: "second_ok (u ! 0) (u ! 1)" and later: "\<forall>i\<in>{2..<length u}. continuation (u ! i)"
    using assms(2,3) by (cases u rule: well_formed_unit.cases; auto simp: less_Suc_eq numeral_2_eq_2)+
  have second: "\<not> ((byte (u ! 1) AND 0xC0) \<noteq> 0x80 \<or> (byte (u ! 0) = 0xE0 \<and> byte (u ! 1) < 0xA0) \<or>
      (byte (u ! 0) = 0xED \<and> byte (u ! 1) > 0x9F) \<or> (byte (u ! 0) = 0xF0 \<and> byte (u ! 1) < 0x90) \<or>
      (byte (u ! 0) = 0xF4 \<and> byte (u ! 1) > 0x8F))"
    using ok continuation_and [of "u ! 1"] by (auto simp: second_ok_def)
  have others: "\<not> list_ex (\<lambda>i. (byte (p_input p ! (p_position p + i)) AND 0xC0) \<noteq> 0x80) [2..<length u]"
    using later by (simp add: list_ex_iff nth continuation_and [simplified])
  have "copy_valid_utf8 p = (if length u = 0 then fail kInvalidUtf8 (p_position p)
     else if length (unread_text p) < length u then fail kInvalidUtf8 (p_position p) else
     Inr (u, advance (length u) p))"
    unfolding copy_valid_utf8_def Let_def first len rest_length nth [OF assms(3)] take
    using second others by (simp only: if_False refl)
  then show ?thesis using assms by auto
qed

lemma escape_high: "list_all (\<lambda>c. 0x80 \<le> byte c) u \<Longrightarrow> escape u = u"
proof (induction u)
  case (Cons c u)
  have "append_json_byte [] c = [c]"
  proof (cases c rule: append_json_byte_cases)
    case (short e)
    with Cons(2) show ?thesis by (auto simp: short_escapes_def byte_def)
  qed (use Cons(2) in auto)
  with Cons show ?case by simp
qed simp

lemma well_formed_unit_high:
  "well_formed_unit u \<Longrightarrow> 1 < length u \<Longrightarrow> list_all (\<lambda>c. 0x80 \<le> byte c) u"
  by (cases u rule: well_formed_unit.cases) (simp_all add: second_ok_def continuation_def)

lemma escape_unit: "well_formed_unit u \<Longrightarrow> 1 < length u \<Longrightarrow> escape u = u \<and> 0x80 \<le> byte (hd u)"
  by (rule conjI [OF escape_high [OF well_formed_unit_high]], assumption, assumption,
      drule (1) well_formed_unit_high, cases u, simp_all)

lemma parse_string_loop_rest:
  "valid_utf8 s \<Longrightarrow> unread_text p = escape s @ CHR 0x22 # z \<Longrightarrow>
   parse_string_loop p out = Inr (out @ s, advance (length (escape s) + 1) p)"
proof (induction s arbitrary: p out rule: valid_utf8_induct)
  case Nil
  then show ?case by (subst parse_string_loop.simps) (simp add: peek_rest)
next
  case (unit u s)
  note 2 = unit
  show ?case
  proof (cases "length u = 1")
    case True
    then obtain c where c: "u = [c]" by (auto simp: length_Suc_conv)
    let ?e = "append_json_byte [] c"
    have "parse_string_loop p out = parse_string_loop (advance (length ?e) p) (out @ [c])"
      using 2 c by (intro parse_string_loop_byte [where z = "escape s @ CHR 0x22 # z"]) simp_all
    also have "\<dots> = Inr ((out @ [c]) @ s, advance (length (escape s) + 1) (advance (length ?e) p))"
      using 2 c by simp
    finally show ?thesis using c by (simp add: add.assoc)
  next
    case False
    with 2(1) have len: "1 < length u" by (cases u) auto
    obtain a w where u: "u = a # w" using len by (cases u) auto
    have "unread_text p = escape u @ escape s @ CHR 0x22 # z" using 2(4) by simp
    then have head: "unread_text p = a # w @ escape s @ CHR 0x22 # z" and high: "0x80 \<le> byte a"
      unfolding conjunct1 [OF escape_unit [OF 2(1) len]]
      using escape_unit [OF 2(1) len] u by simp_all
    have copy: "copy_valid_utf8 p = Inr (u, advance (length u) p)"
      using 2 len escape_unit [OF 2(1) len] by (intro copy_valid_utf8_rest) simp_all
    have "parse_string_loop p out = parse_string_loop (advance (length u) p) (out @ u)"
      using copy head high u
      by (subst parse_string_loop.simps) (auto simp: peek_rest byte_def)
    also have "\<dots> = Inr ((out @ u) @ s, advance (length (escape s) + 1) (advance (length u) p))"
      using 2 escape_unit [OF 2(1) len] by (intro 2(3)) simp
    finally show ?thesis using escape_unit [OF 2(1) len] by (simp add: add.assoc)
  qed
qed

lemma parse_string_quoted:
  assumes "valid_utf8 s" "unread_text p = quoted s @ z"
  shows "parse_string p = Inr (s, advance (length (quoted s)) p)"
  using parse_string_loop_rest [OF assms(1), of "advance 1 p" z "[]"] assms(2)
  by (simp add: parse_string_def quoted_def)

subsection \<open>Reading a number\<close>

definition ends_number :: "string \<Rightarrow> bool" where
  "ends_number z \<longleftrightarrow> z = [] \<or> \<not> is_decimal_digit (hd z) \<and> hd z \<notin> set ''.eE''"

lemma number_digits_rest:
  assumes "unread_text p = ds @ z" "digits1 ds" "z = [] \<or> \<not> is_decimal_digit (hd z)"
  shows "number_digits p = Inr (advance (length ds) p)"
proof -
  obtain d es where ds: "ds = d # es" using assms(2) by (cases ds) (auto simp: digits1_def)
  have "advance_while is_decimal_digit (advance 1 p) = advance (length es) (advance 1 p)"
    using assms ds by (intro advance_while_rest) (auto simp: digits1_def)
  with assms ds show ?thesis by (simp add: number_digits_def peek_rest digits1_def)
qed

lemma number_integer_rest:
  assumes "unread_text p = ds @ z" "digits1 ds" "hd ds = CHR ''0'' \<longrightarrow> ds = ''0''"
    "z = [] \<or> \<not> is_decimal_digit (hd z)"
  shows "number_integer p = Inr (advance (length ds) p)"
proof -
  obtain d es where ds: "ds = d # es" using assms(2) by (cases ds) (auto simp: digits1_def)
  show ?thesis
  proof (cases "d = CHR ''0''")
    case True
    with assms ds show ?thesis
      by (cases z) (simp_all add: number_integer_def peek_rest Let_def)
  next
    case False
    have "byte d \<noteq> byte (CHR ''0'')" using False by simp
    then have "byte (CHR ''1'') \<le> byte d \<and> byte d \<le> byte (CHR ''9'')"
      using assms(2) ds by (auto simp: digits1_def is_decimal_digit_def byte_def)
    moreover have "advance_while is_decimal_digit (advance 1 p) = advance (length es) (advance 1 p)"
      using assms ds by (intro advance_while_rest) (auto simp: digits1_def)
    ultimately show ?thesis using assms(1) ds False by (simp add: number_integer_def peek_rest)
  qed
qed

lemma digits1_hd: "digits1 ds \<Longrightarrow> is_decimal_digit (hd (ds @ z)) \<and> ds \<noteq> []"
  by (cases ds) (simp_all add: digits1_def)

lemma number_fraction_rest:
  assumes "unread_text p = frac @ z" "frac = [] \<or> (\<exists>ds. frac = CHR ''.'' # ds \<and> digits1 ds)"
    "z = [] \<or> \<not> is_decimal_digit (hd z) \<and> hd z \<noteq> CHR ''.''"
  shows "number_fraction p = Inr (advance (length frac) p)"
  using assms(2)
proof
  assume "frac = []"
  with assms show ?thesis by (cases z) (simp_all add: number_fraction_def peek_rest)
next
  assume "\<exists>ds. frac = CHR ''.'' # ds \<and> digits1 ds"
  then obtain ds where ds: "frac = CHR ''.'' # ds" "digits1 ds" by blast
  then have "number_digits (advance 1 p) = Inr (advance (length ds) (advance 1 p))"
    using assms by (intro number_digits_rest) auto
  with assms(1) ds show ?thesis by (simp add: number_fraction_def peek_rest)
qed

lemma number_exponent_rest:
  assumes "unread_text p = ex @ z" "ends_number z"
    "ex = [] \<or> (\<exists>e s ds. ex = e # s @ ds \<and> e \<in> set ''eE'' \<and> s \<in> {[], ''+'', ''-''} \<and> digits1 ds)"
  shows "number_exponent p = Inr (advance (length ex) p)"
  using assms(3)
proof
  assume "ex = []"
  with assms show ?thesis by (cases z) (auto simp: number_exponent_def peek_rest ends_number_def)
next
  assume "\<exists>e s ds. ex = e # s @ ds \<and> e \<in> set ''eE'' \<and> s \<in> {[], ''+'', ''-''} \<and> digits1 ds"
  then obtain e s ds where ex: "ex = e # s @ ds" "e \<in> set ''eE''" "s \<in> {[], ''+'', ''-''}" "digits1 ds"
    by blast
  let ?p = "advance (length s) (advance 1 p)"
  have r: "unread_text (advance 1 p) = s @ ds @ z" using assms(1) ex by simp
  have d: "number_digits ?p = Inr (advance (length ds) ?p)"
    using assms ex r by (intro number_digits_rest) (auto simp: ends_number_def)
  have sign: "(if peek (advance 1 p) = Some (CHR ''+'') \<or> peek (advance 1 p) = Some (CHR ''-'')
      then advance 1 (advance 1 p) else advance 1 p) = ?p"
    using ex(3,4) digits1_hd [OF ex(4), of z] r
    by (cases ds) (auto simp: peek_rest is_decimal_digit_def byte_def simp del: rest_advance)
  have "number_exponent p = number_digits ?p"
    using assms(1) ex(1,2) sign by (auto simp: number_exponent_def Let_def peek_rest simp del: rest_advance)
  with d ex show ?thesis by simp
qed

lemma parse_number_rest:
  assumes "json_number t" "unread_text p = t @ z" "ends_number z"
  shows "parse_number p = Inr (JNumber t, advance (length t) p)"
proof -
  obtain sg ip frac ex where t: "t = sg @ ip @ frac @ ex" "sg \<in> {[], ''-''}" "digits1 ip"
      "hd ip = CHR ''0'' \<longrightarrow> ip = ''0''"
    and f: "frac = [] \<or> (\<exists>ds. frac = CHR ''.'' # ds \<and> digits1 ds)"
    and e: "ex = [] \<or> (\<exists>e s ds. ex = e # s @ ds \<and> e \<in> set ''eE'' \<and> s \<in> {[], ''+'', ''-''} \<and> digits1 ds)"
    using assms(1) unfolding json_number_def by blast
  let ?p1 = "advance (length sg) p"
  let ?p2 = "advance (length ip) ?p1"
  let ?p3 = "advance (length frac) ?p2"
  have ez: "ex @ z = [] \<or> \<not> is_decimal_digit (hd (ex @ z)) \<and> hd (ex @ z) \<noteq> CHR ''.''"
    using e assms(3) by (auto simp: ends_number_def is_decimal_digit_def byte_def)
  have fz: "frac @ ex @ z = [] \<or> \<not> is_decimal_digit (hd (frac @ ex @ z))"
    using f ez by (auto simp: is_decimal_digit_def byte_def)
  have 1: "number_sign p = Inr ?p1"
    using t(2) digits1_hd [OF t(3), of "frac @ ex @ z"] assms(2) t(1)
    by (cases ip) (auto simp: number_sign_def peek_rest Let_def is_decimal_digit_def byte_def)
  have 2: "number_integer ?p1 = Inr ?p2"
    using assms(2) t fz by (intro number_integer_rest [where z = "frac @ ex @ z"]) simp_all
  have 3: "number_fraction ?p2 = Inr ?p3"
    using assms(2) t f ez by (intro number_fraction_rest [where z = "ex @ z"]) simp_all
  have 4: "number_exponent ?p3 = Inr (advance (length ex) ?p3)"
    using assms(2,3) t e by (intro number_exponent_rest) simp_all
  have "take (length t) (drop (p_position p) (p_input p)) = t"
    using assms(2) by (simp add: unread_text_def)
  then show ?thesis using t(1) by (simp add: parse_number_def 1 2 3 4 add.assoc del: advance_advance)
qed

subsection \<open>Reading a value\<close>

text \<open>The parser after \<open>n\<close> more bytes, \<open>v\<close> more values and \<open>i\<close> more container items.\<close>

definition bump :: "nat \<Rightarrow> nat \<Rightarrow> nat \<Rightarrow> parser \<Rightarrow> parser" where
  "bump n v i p = p\<lparr>p_position := p_position p + n, p_value_count := p_value_count p + v,
     p_container_item_count := p_container_item_count p + i\<rparr>"

lemma bump_simps [simp]:
  "bump n v i (bump n' v' i' p) = bump (n' + n) (v' + v) (i' + i) p"
  "unread_text (bump n v i p) = drop n (unread_text p)"
  "p_max_depth (bump n v i p) = p_max_depth p" "p_max_values (bump n v i p) = p_max_values p"
  "p_max_container_items (bump n v i p) = p_max_container_items p"
  "p_value_count (bump n v i p) = p_value_count p + v"
  "p_container_item_count (bump n v i p) = p_container_item_count p + i"
  "bump 0 0 0 p = p"
  by (simp_all add: bump_def unread_text_def add.commute add.left_commute)

lemma advance_bump: "advance n p = bump n 0 0 p"
  by (simp add: advance_def bump_def)

lemma consume_bump:
  "p_value_count p < p_max_values p \<Longrightarrow> consume_value off p = Inr (bump 0 1 0 p)"
  "p_container_item_count p < p_max_container_items p \<Longrightarrow> consume_container_item off p = Inr (bump 0 0 1 p)"
  by (simp_all add: consume_value_def consume_container_item_def bump_def)

text \<open>The value \<open>v\<close> at \<open>p\<close> is read to its end: what the induction over values carries.\<close>

definition reads_text :: "json_value \<Rightarrow> bool" where
  "reads_text v \<longleftrightarrow> (\<forall>d p z. unread_text p = print_json v @ z \<longrightarrow> ends_number z \<longrightarrow>
     d + nesting v \<le> p_max_depth p \<longrightarrow> p_value_count p + count_values v \<le> p_max_values p \<longrightarrow>
     p_container_item_count p + count_items v \<le> p_max_container_items p \<longrightarrow>
     parse_value d p = Inr (normal v, bump (length (print_json v)) (count_values v) (count_items v) p))"

lemma reads_textD:
  assumes "reads_text v" "unread_text p = print_json v @ z" "ends_number z"
    "d + nesting v \<le> p_max_depth p" "p_value_count p + count_values v \<le> p_max_values p"
    "p_container_item_count p + count_items v \<le> p_max_container_items p"
  shows "parse_value d p = Inr (normal v, bump (length (print_json v)) (count_values v) (count_items v) p)"
  using assms by (auto simp: reads_text_def)

lemma separators [simp]:
  "ends_number (CHR '','' # z)" "ends_number (CHR '']'' # z)" "ends_number (CHR ''}'' # z)" "ends_number []"
  "\<not> is_json_whitespace (CHR '','')" "\<not> is_json_whitespace (CHR '']'')"
  "\<not> is_json_whitespace (CHR ''}'')" "\<not> is_json_whitespace (CHR '':'')"
  "\<not> is_json_whitespace (CHR 0x22)" "\<not> is_json_whitespace (CHR ''['')" "\<not> is_json_whitespace (CHR ''{'')"
  by (simp_all add: ends_number_def is_decimal_digit_def is_json_whitespace_def byte_def)

lemma parse_array_items_rest:
  assumes "vs \<noteq> []" "\<forall>v\<in>set vs. reads_text v \<and> Suc d + nesting v \<le> p_max_depth p"
    "unread_text p = join_comma (map print_json vs) @ CHR '']'' # z"
    "p_value_count p + sum_list (map count_values vs) \<le> p_max_values p"
    "p_container_item_count p + sum_list (map (\<lambda>v. Suc (count_items v)) vs) \<le> p_max_container_items p"
  shows "parse_array_items d acc p = Inr (JArray (acc @ map normal vs),
    bump (length (join_comma (map print_json vs)) + 1) (sum_list (map count_values vs))
      (sum_list (map (\<lambda>v. Suc (count_items v)) vs)) p)"
  using assms
proof (induction vs arbitrary: acc p)
  case (Cons v vs)
  note prems = Cons.prems and IH = Cons.IH
  define y where "y = (case vs of [] \<Rightarrow> CHR '']'' # z | _ \<Rightarrow> CHR '','' # join_comma (map print_json vs) @ CHR '']'' # z)"
  have src: "unread_text p = print_json v @ y" using Cons(4) by (cases vs) (simp_all add: y_def)
  have y: "ends_number y" "\<not> is_json_whitespace (hd y)" "y \<noteq> []" by (cases vs; simp add: y_def)+
  let ?q = "bump (length (print_json v)) (count_values v) (Suc (count_items v)) p"
  have item: "consume_container_item (p_position p) p = Inr (bump 0 0 1 p)"
    using Cons(6) by (intro consume_bump) simp
  have val: "parse_value (d + 1) (bump 0 0 1 p) = Inr (normal v, ?q)"
    using reads_textD [of v "bump 0 0 1 p" y "d + 1"] Cons src y by simp
  have skip: "skip_whitespace ?q = ?q" using src y by (intro skip_whitespace_rest) simp
  show ?case
  proof (cases vs)
    case Nil
    then show ?thesis using item val skip src
      by (subst parse_array_items.simps) (simp add: peek_rest y_def advance_bump)
  next
    case (Cons w ws)
    let ?r = "bump 1 0 0 ?q"
    have "parse_array_items d (acc @ [normal v]) ?r = Inr (JArray ((acc @ [normal v]) @ map normal vs),
      bump (length (join_comma (map print_json vs)) + 1) (sum_list (map count_values vs))
      (sum_list (map (\<lambda>v. Suc (count_items v)) vs)) ?r)"
      using prems src Cons by (intro IH) (simp_all add: y_def)
    with Cons item val skip src show ?thesis
      by (subst parse_array_items.simps) (simp add: peek_rest y_def advance_bump algebra_simps)
  qed
qed simp

abbreviation print_member :: "string \<times> json_value \<Rightarrow> string" where
  "print_member \<equiv> \<lambda>(k, v). quoted k @ CHR '':'' # print_json v"

abbreviation normal_member :: "string \<times> json_value \<Rightarrow> string \<times> json_value" where
  "normal_member \<equiv> \<lambda>(k, v). (k, normal v)"

lemma parse_object_members_rest:
  assumes "ms \<noteq> []" "\<forall>(k, v)\<in>set ms. valid_utf8 k \<and> reads_text v \<and> Suc d + nesting v \<le> p_max_depth p"
    "distinct (map fst ms)" "fst ` set ms \<inter> fst ` set acc = {}"
    "unread_text p = join_comma (map print_member ms) @ CHR ''}'' # z"
    "p_value_count p + sum_list (map (\<lambda>(k, v). count_values v) ms) \<le> p_max_values p"
    "p_container_item_count p + sum_list (map (\<lambda>(k, v). Suc (count_items v)) ms) \<le> p_max_container_items p"
  shows "parse_object_members d acc p = Inr (JObject (emplace_all acc (map normal_member ms)),
    bump (length (join_comma (map print_member ms)) + 1) (sum_list (map (\<lambda>(k, v). count_values v) ms))
      (sum_list (map (\<lambda>(k, v). Suc (count_items v)) ms)) p)"
  using assms
proof (induction ms arbitrary: acc p)
  case (Cons m ms)
  note prems = Cons.prems and IH = Cons.IH
  obtain k v where m: "m = (k, v)" by (cases m)
  define y where "y = (case ms of [] \<Rightarrow> CHR ''}'' # z | _ \<Rightarrow> CHR '','' # join_comma (map print_member ms) @ CHR ''}'' # z)"
  have src: "unread_text p = quoted k @ CHR '':'' # print_json v @ y"
    using prems(5) m by (cases ms) (simp_all add: y_def)
  have y: "ends_number y" "\<not> is_json_whitespace (hd y)" "y \<noteq> []" by (cases ms; simp add: y_def)+
  have quote: "peek p = Some (CHR 0x22)" "skip_whitespace p = p"
    using src by (simp add: peek_rest quoted_def, intro skip_whitespace_rest) (simp add: quoted_def)
  let ?k = "bump (length (quoted k)) 0 1 p"
  let ?q = "bump (length (print_json v)) (count_values v) (count_items v) (bump 1 0 0 ?k)"
  have item: "consume_container_item (p_position p) p = Inr (bump 0 0 1 p)"
    using prems(7) m by (intro consume_bump) simp
  have key: "parse_string (bump 0 0 1 p) = Inr (k, ?k)"
    using parse_string_quoted [of k "bump 0 0 1 p"] prems(2) m src by (simp add: advance_bump)
  have val: "parse_value (d + 1) (bump 1 0 0 ?k) = Inr (normal v, ?q)"
    using prems(2,6,7) m src y by (intro reads_textD [where z = y]) auto
  have skips: "skip_whitespace ?k = ?k" "skip_whitespace ?q = ?q"
    using src y by (auto intro!: skip_whitespace_rest)
  have new: "k \<notin> fst ` set acc" using prems(4) m by auto
  note step = skips item key val src quote new
  have keys: "fst ` set (emplace k (normal v) acc) = insert k (fst ` set acc)"
    using keys_emplace [of k "normal v" acc] by simp
  show ?case
  proof (cases ms)
    case Nil
    then show ?thesis using step m
      by (subst parse_object_members.simps) (simp add: peek_rest y_def advance_bump emplace_all_def Let_def)
  next
    case (Cons w ws)
    let ?r = "bump 1 0 0 ?q"
    have "parse_object_members d (emplace k (normal v) acc) ?r =
      Inr (JObject (emplace_all (emplace k (normal v) acc) (map normal_member ms)),
      bump (length (join_comma (map print_member ms)) + 1) (sum_list (map (\<lambda>(k, v). count_values v) ms))
      (sum_list (map (\<lambda>(k, v). Suc (count_items v)) ms)) ?r)"
      using prems(1-4,6,7) src Cons m keys by (intro IH) (auto simp: y_def)
    with Cons step m show ?thesis
      by (subst parse_object_members.simps)
         (simp add: peek_rest y_def advance_bump emplace_all_def Let_def algebra_simps)
  qed
qed simp

text \<open>The start of a value: its first byte decides which branch of the switch runs.\<close>

lemma parse_value_start:
  assumes "unread_text p = c # z" "\<not> is_json_whitespace c" "p_value_count p < p_max_values p"
  shows "skip_whitespace p = p" "peek p = Some c" "consume_value (p_position p) p = Inr (bump 0 1 0 p)"
  using assms skip_whitespace_rest [of p] consume_bump(1) [of p] by (simp_all add: peek_rest)

lemma json_number_start:
  assumes "json_number t"
  obtains c w where "t = c # w" "c = CHR ''-'' \<or> is_decimal_digit c"
proof -
  obtain sg ip r where t: "t = sg @ ip @ r" "sg \<in> {[], ''-''}" "digits1 ip"
    using assms unfolding json_number_def by blast
  then have "t \<noteq> []" "hd t = CHR ''-'' \<or> is_decimal_digit (hd t)"
    using digits1_hd [OF t(3), of r] by auto
  then show thesis using that by (cases t) auto
qed

lemma reads_text_number: "json_number t \<Longrightarrow> reads_text (JNumber t)"
  unfolding reads_text_def
proof (intro allI impI, goal_cases)
  case (1 d p z)
  obtain c w where c: "t = c # w" "c = CHR ''-'' \<or> is_decimal_digit c"
    using 1(1) by (rule json_number_start)
  have not_space: "\<not> is_json_whitespace c" and others: "c \<notin> set ''ntf[{'' \<union> {CHR 0x22}"
    using c(2) by (auto simp: is_json_whitespace_def is_decimal_digit_def byte_def)
  note start = parse_value_start [of p c "w @ z", OF _ not_space]
  have "parse_number (bump 0 1 0 p) = Inr (JNumber t, bump (length t) 1 0 p)"
    using parse_number_rest [OF 1(1), of "bump 0 1 0 p" z] 1 by (simp add: advance_bump)
  with 1 start c others show ?case
    by (subst parse_value.simps) (auto simp: Let_def)
qed

lemma reads_text_literal: "reads_text JNull" "reads_text (JBool b)" "valid_utf8 s \<Longrightarrow> reads_text (JString s)"
proof -
  have space: "\<not> is_json_whitespace (CHR ''n'')" "\<not> is_json_whitespace (CHR ''t'')" "\<not> is_json_whitespace (CHR ''f'')"
    by (simp_all add: is_json_whitespace_def)
  have literal: "parse_literal w (bump 0 1 0 p) = Inr (bump (length w) 1 0 p)" if "unread_text p = w @ z" for w p z
    using that parse_literal_rest [of "bump 0 1 0 p" w z] by (simp add: advance_bump)
  show "reads_text JNull" unfolding reads_text_def
    using space literal [of _ "''null''"] parse_value_start [where c = "CHR ''n''"]
    by (subst parse_value.simps) (auto simp: Let_def)
  show "reads_text (JBool b)" unfolding reads_text_def
    using space literal [of _ "''true''"] literal [of _ "''false''"]
      parse_value_start [where c = "CHR ''t''"] parse_value_start [where c = "CHR ''f''"]
    by (subst parse_value.simps) (cases b; auto simp: Let_def)
  show "reads_text (JString s)" if "valid_utf8 s" unfolding reads_text_def
  proof (intro allI impI, goal_cases)
    case (1 d p z)
    then have "parse_string (bump 0 1 0 p) = Inr (s, bump (length (quoted s)) 1 0 p)"
      using parse_string_quoted [OF that, of "bump 0 1 0 p" z] by (simp add: advance_bump)
    with 1 parse_value_start [of p "CHR 0x22" "escape s @ CHR 0x22 # z"] show ?case
      by (subst parse_value.simps) (simp add: Let_def quoted_def)
  qed
qed

lemma print_json_start:
  "printable v \<Longrightarrow> \<exists>c w. print_json v = c # w \<and> \<not> is_json_whitespace c \<and> c \<noteq> CHR '']''"
proof (cases v)
  case (JNumber t)
  moreover assume "printable v"
  ultimately obtain c w where "t = c # w" "c = CHR ''-'' \<or> is_decimal_digit c"
    using json_number_start [of t] by auto
  with JNumber show ?thesis by (auto simp: is_json_whitespace_def is_decimal_digit_def byte_def)
qed (auto simp: quoted_def is_json_whitespace_def)

lemma join_comma_start: "s = c # w \<Longrightarrow> \<exists>w'. join_comma (s # ts) = c # w'"
  by (cases ts) auto

lemma foldr_max_upper: "x \<in> set xs \<Longrightarrow> x \<le> foldr max xs (0::nat)"
  using foldr_max_le [of xs "foldr max xs 0"] by simp

lemma reads_text_array:
  assumes "\<forall>v\<in>set vs. printable v \<and> reads_text v"
  shows "reads_text (JArray vs)"
  unfolding reads_text_def
proof (intro allI impI, goal_cases)
  case (1 d p z)
  note start = parse_value_start [of p "CHR ''[''" "join_comma (map print_json vs) @ CHR '']'' # z"]
  let ?q = "bump 1 1 0 p"
  show ?case
  proof (cases vs)
    case Nil
    have "skip_whitespace ?q = ?q" using 1(1) Nil by (intro skip_whitespace_rest) simp
    with 1 start Nil show ?thesis
      by (subst parse_value.simps) (simp add: Let_def advance_bump peek_rest)
  next
    case (Cons w ws)
    obtain c x where "print_json w = c # x" "\<not> is_json_whitespace c" "c \<noteq> CHR '']''"
      using print_json_start [of w] assms Cons by auto
    moreover from this obtain y where y: "join_comma (map print_json vs) = c # y"
      using join_comma_start [of "print_json w" c x] Cons by auto
    ultimately have q: "skip_whitespace ?q = ?q" "peek ?q \<noteq> Some (CHR '']'')"
      using 1(1) by (auto intro!: skip_whitespace_rest simp: peek_rest)
    have "\<forall>v\<in>set vs. Suc d + nesting v \<le> p_max_depth p"
      using 1(3) foldr_max_upper [of _ "map nesting vs"] by fastforce
    then have "parse_array_items d [] ?q = Inr (JArray ([] @ map normal vs),
      bump (length (join_comma (map print_json vs)) + 1) (sum_list (map count_values vs))
        (sum_list (map (\<lambda>v. Suc (count_items v)) vs)) ?q)"
      using 1 assms Cons by (intro parse_array_items_rest) auto
    with 1 start q show ?thesis
      by (subst parse_value.simps) (simp add: Let_def advance_bump)
  qed
qed

lemma reads_text_object:
  assumes "distinct (map fst ms)" "\<forall>(k, v)\<in>set ms. valid_utf8 k \<and> printable v \<and> reads_text v"
  shows "reads_text (JObject ms)"
  unfolding reads_text_def
proof (intro allI impI, goal_cases)
  case (1 d p z)
  note start = parse_value_start [of p "CHR ''{''" "join_comma (map print_member ms) @ CHR ''}'' # z"]
  let ?q = "bump 1 1 0 p"
  show ?case
  proof (cases ms)
    case Nil
    have "skip_whitespace ?q = ?q" using 1(1) Nil by (intro skip_whitespace_rest) simp
    with 1 start Nil show ?thesis
      by (subst parse_value.simps) (simp add: Let_def advance_bump peek_rest emplace_all_def)
  next
    case (Cons m ms')
    obtain x where "print_member m = CHR 0x22 # x" by (cases m) (auto simp: quoted_def)
    then obtain y where "join_comma (map print_member ms) = CHR 0x22 # y"
      using join_comma_start [of "print_member m" "CHR 0x22" x] Cons by auto
    then have q: "skip_whitespace ?q = ?q" "peek ?q \<noteq> Some (CHR ''}'')"
      using 1(1) by (auto intro!: skip_whitespace_rest simp: peek_rest)
    have "\<forall>(k, v)\<in>set ms. Suc d + nesting v \<le> p_max_depth p"
      using 1(3) foldr_max_upper [of _ "map (\<lambda>(k, v). nesting v) ms"] by fastforce
    then have "parse_object_members d [] ?q = Inr (JObject (emplace_all [] (map normal_member ms)),
      bump (length (join_comma (map print_member ms)) + 1) (sum_list (map (\<lambda>(k, v). count_values v) ms))
      (sum_list (map (\<lambda>(k, v). Suc (count_items v)) ms)) ?q)"
      using 1 assms Cons by (intro parse_object_members_rest) auto
    with 1 start q show ?thesis
      by (subst parse_value.simps) (simp add: Let_def advance_bump)
  qed
qed

lemma reads_text_printable: "printable v \<Longrightarrow> reads_text v"
proof (induction v rule: printable.induct)
  case (3 vs)
  then show ?case by (intro reads_text_array) auto
next
  case (4 ms)
  then show ?case by (intro reads_text_object) auto
qed (simp_all add: reads_text_number reads_text_literal)

text \<open>A well-formed value is printable, and already in the order the reader keeps.\<close>

lemma emplace_last: "\<forall>k'\<in>fst ` set acc. k' < k \<Longrightarrow> emplace k v acc = acc @ [(k, v)]"
  by (induction acc) (auto simp: less_not_sym)

lemma emplace_all_sorted: "sorted_wrt (<) (map fst (acc @ ms)) \<Longrightarrow> emplace_all acc ms = acc @ ms"
proof (induction ms arbitrary: acc)
  case (Cons m ms)
  then have "emplace (fst m) (snd m) acc = acc @ [m]"
    by (subst emplace_last) (auto simp: sorted_wrt_append)
  with Cons show ?case by (simp add: emplace_all_def case_prod_beta)
qed (simp add: emplace_all_def)

lemma wf_value_printable: "wf_value v \<Longrightarrow> printable v \<and> normal v = v"
proof (induction v rule: wf_value.induct)
  case (4 ms)
  have ms: "map normal_member ms = ms" "\<forall>(k, v)\<in>set ms. valid_utf8 k \<and> printable v"
    using 4 by (auto intro!: map_idI)
  have "distinct (map fst ms)"
    using 4(2) strict_sorted_iff [of "map fst ms"] by simp
  with ms emplace_all_sorted [of "[]" ms] 4(2) show ?case by simp
qed (auto intro: map_idI)

subsection \<open>Reading back what was printed\<close>

text \<open>The limits a document has to respect.\<close>

definition limits_ok :: "parse_options \<Rightarrow> json_value \<Rightarrow> bool" where
  "limits_ok options v \<longleftrightarrow> length (print_json v) \<le> max_input_bytes options \<and>
     nesting v \<le> min (max_nesting_depth options) kAbsoluteMaxNestingDepth \<and>
     count_values v \<le> max_values options \<and> count_items v \<le> max_container_items options"

lemma json_parse_printable:
  assumes "printable v" "limits_ok options v"
  shows "json_parse (print_json v) options = Inr (normal v)"
proof -
  define p where "p = \<lparr>p_input = print_json v,
    p_max_depth = min (max_nesting_depth options) kAbsoluteMaxNestingDepth,
    p_max_values = max_values options, p_max_container_items = max_container_items options,
    p_value_count = 0, p_container_item_count = 0, p_position = 0\<rparr>"
  let ?q = "bump (length (print_json v)) (count_values v) (count_items v) p"
  have src: "unread_text p = print_json v" by (simp add: unread_text_def p_def)
  obtain c w where "print_json v = c # w" "\<not> is_json_whitespace c"
    using print_json_start [OF assms(1)] by blast
  then have "skip_whitespace p = p" using src by (intro skip_whitespace_rest) simp
  moreover have "parse_value 0 p = Inr (normal v, ?q)"
    using reads_textD [OF reads_text_printable [OF assms(1)], of p "[]" 0] assms(2) src
    by (simp add: p_def limits_ok_def)
  moreover have "skip_whitespace ?q = ?q" using src by (intro skip_whitespace_rest) simp
  ultimately have "parser_run p = Inr (normal v)"
    by (simp add: parser_run_def bump_def p_def)
  then show ?thesis using assms(2) by (simp add: json_parse_def p_def limits_ok_def)
qed

text \<open>
  C16. Reading the compact text of a well-formed JSON value that respects the configured limits
  gives back that value: no accepted document is misread, and none within the limits is refused.
\<close>

theorem json_parse_print_roundtrip:
  assumes "wf_value v" "length (print_json v) \<le> max_input_bytes options"
    "nesting v \<le> min (max_nesting_depth options) kAbsoluteMaxNestingDepth"
    "count_values v \<le> max_values options" "count_items v \<le> max_container_items options"
  shows "json_parse (print_json v) options = Inr v"
  using json_parse_printable [of v options] wf_value_printable [OF assms(1)] assms
  by (simp add: limits_ok_def)

theorem json_parse_print_roundtrip_witness:
  "json_parse (print_json (JObject [(''a'', JArray [JNumber ''12'', JNull]), (''b'', JString [CHR 0x0A])]))
     default_parse_options
   = Inr (JObject [(''a'', JArray [JNumber ''12'', JNull]), (''b'', JString [CHR 0x0A])])"
proof (rule json_parse_print_roundtrip)
  have "json_number ''12''"
    unfolding json_number_def
    by (rule exI [of _ "[]"], rule exI [of _ "''12''"], rule exI [of _ "[]"], rule exI [of _ "[]"])
       (simp add: digits1_def is_decimal_digit_def byte_def)
  then show "wf_value (JObject [(''a'', JArray [JNumber ''12'', JNull]), (''b'', JString [CHR 0x0A])])"
    by (simp add: valid_utf8_ascii byte_def less_char_def)
qed (simp_all add: quoted_def append_json_byte_def default_parse_options_def kAbsoluteMaxNestingDepth_def)

end
