(* ===== verification/Binary64.thy ===== *)
theory Binary64
  imports Complex_Main Prelude "HOL-Library.Log_Nat"
begin

text \<open>
  Binary64 numbers as the code uses them: rounding of a rational number to the nearest double
  (ties to even), and the values that an elapsed time can take with \<^verbatim>\<open>isfinite\<close>, \<^verbatim>\<open>< 0.0\<close> and \<^verbatim>\<open>+\<close>.
\<close>

subsection \<open>Rounding to binary64\<close>

definition two_pow :: "int \<Rightarrow> rat" where
  "two_pow e = (if 0 \<le> e then 2 ^ nat e else 1 / 2 ^ nat (- e))"

text \<open>The exponent \<open>e\<close> with \<open>2 ^ e \<le> x < 2 ^ (e + 1)\<close> of a positive rational.\<close>

definition binary_exponent :: "rat \<Rightarrow> int" where
  "binary_exponent x =
     (let (n, d) = quotient_of x; k = bitlen n - bitlen d
      in if two_pow k \<le> x then k else k - 1)"

definition round_half_even :: "rat \<Rightarrow> int" where
  "round_half_even y =
     (let n = \<lfloor>y\<rfloor>; f = y - of_int n in
      if f < 1 / 2 \<or> (f = 1 / 2 \<and> even n) then n else n + 1)"

text \<open>The unit in the last place: 53 significant bits, down to the least subnormal.\<close>

definition double_ulp :: "rat \<Rightarrow> rat" where
  "double_ulp x = two_pow (max (binary_exponent x - 52) (- 1074))"

definition round_double :: "rat \<Rightarrow> rat option" where
  "round_double x =
     (if x = 0 then Some 0
      else let u = double_ulp x; r = of_int (round_half_even (x / u)) * u in
        if r = 0 \<or> r \<ge> 2 ^ 1024 then None else Some r)"

subsection \<open>Doubles\<close>

datatype double = Finite rat | Infinite bool | NaN

definition isfinite :: "double \<Rightarrow> bool" where
  "isfinite x = (case x of Finite _ \<Rightarrow> True | _ \<Rightarrow> False)"

text \<open>\<^verbatim>\<open>x < 0.0\<close>: false for a NaN.\<close>

definition negative_double :: "double \<Rightarrow> bool" where
  "negative_double x = (case x of Finite r \<Rightarrow> r < 0 | Infinite s \<Rightarrow> s | NaN \<Rightarrow> False)"

text \<open>The sum rounded to nearest; \<open>Infinite True\<close> is the negative infinity.\<close>

definition nearest_double :: "rat \<Rightarrow> double" where
  "nearest_double x =
     (if x = 0 then Finite 0
      else let u = double_ulp \<bar>x\<bar>; r = of_int (round_half_even (\<bar>x\<bar> / u)) * u in
        if r \<ge> 2 ^ 1024 then Infinite (x < 0) else Finite (if x < 0 then - r else r))"

definition add_double :: "double \<Rightarrow> double \<Rightarrow> double" where
  "add_double x y =
     (case (x, y) of
        (Finite a, Finite b) \<Rightarrow> nearest_double (a + b)
      | (Infinite s, Finite _) \<Rightarrow> Infinite s
      | (Finite _, Infinite s) \<Rightarrow> Infinite s
      | (Infinite s, Infinite s') \<Rightarrow> if s = s' then Infinite s else NaN
      | _ \<Rightarrow> NaN)"

lemma isfinite_simps [simp]: "isfinite (Finite r)" "\<not> isfinite (Infinite s)" "\<not> isfinite NaN"
  by (simp_all add: isfinite_def)

lemma negative_double_simps [simp]:
  "negative_double (Finite r) = (r < 0)" "negative_double (Infinite s) = s" "\<not> negative_double NaN"
  by (simp_all add: negative_double_def)

lemma add_double_zero [simp]: "add_double (Finite 0) (Finite 0) = Finite 0"
  by (simp add: add_double_def nearest_double_def)

subsection \<open>Rounding is correct\<close>

lemma two_pow_powi: "two_pow e = 2 powi e"
  by (simp add: two_pow_def power_int_def inverse_eq_divide power_one_over)

lemma two_pow_pos [simp]: "0 < two_pow e"
  by (simp add: two_pow_def)

lemma two_pow_add: "two_pow (a + b) = two_pow a * two_pow b"
  by (simp add: two_pow_powi power_int_add)

lemma round_half_even_error: "\<bar>of_int (round_half_even y) - y\<bar> \<le> 1 / 2"
proof -
  have "of_int \<lfloor>y\<rfloor> \<le> y" "y < of_int \<lfloor>y\<rfloor> + 1" by (rule of_int_floor_le, linarith)
  then show ?thesis by (auto simp: round_half_even_def Let_def abs_le_iff)
qed

lemma bitlen_two_pow:
  assumes "0 < n"
  shows "two_pow (bitlen n - 1) \<le> of_int n" "of_int n < two_pow (bitlen n)"
proof -
  have b: "2 ^ nat (bitlen n - 1) \<le> n" "n < 2 ^ nat (bitlen n)" "0 < bitlen n"
    using bitlen_bounds [OF assms] bitlen_nonneg [of n] assms by (auto simp: order_less_le)
  then have "(2::rat) ^ nat (bitlen n - 1) \<le> of_int n" "of_int n < (2::rat) ^ nat (bitlen n)"
    by (metis of_int_le_iff of_int_numeral of_int_power, metis of_int_less_iff of_int_numeral of_int_power)
  with b(3) show "two_pow (bitlen n - 1) \<le> of_int n" "of_int n < two_pow (bitlen n)"
    by (simp_all add: two_pow_def)
qed

lemma binary_exponent_bounds:
  assumes "0 < x"
  shows "two_pow (binary_exponent x) \<le> x \<and> x < two_pow (binary_exponent x + 1)"
proof -
  obtain n d where q: "quotient_of x = (n, d)" by (cases "quotient_of x")
  have d: "0 < d" using quotient_of_denom_pos [OF q] .
  have x: "x * of_int d = of_int n" using quotient_of_div [OF q] d by simp
  have "0 < (of_int n :: rat)" unfolding x [symmetric] using assms d by simp
  then have n: "0 < n" by simp
  let ?k = "bitlen n - bitlen d"
  have "two_pow (?k - 1) * of_int d < two_pow (?k - 1) * two_pow (bitlen d)"
    using bitlen_two_pow [OF d] by simp
  also have "\<dots> = two_pow (bitlen n - 1)" by (simp add: two_pow_add [symmetric])
  also have "\<dots> \<le> x * of_int d" using bitlen_two_pow [OF n] x by simp
  finally have low: "two_pow (?k - 1) < x" using d by simp
  have "x * of_int d < two_pow (bitlen n)" using bitlen_two_pow [OF n] x by simp
  also have "\<dots> = two_pow (?k + 1) * two_pow (bitlen d - 1)" by (simp add: two_pow_add [symmetric])
  also have "\<dots> \<le> two_pow (?k + 1) * of_int d" using bitlen_two_pow [OF d] by simp
  finally have "x < two_pow (?k + 1)" using d by simp
  with low q show ?thesis by (auto simp: binary_exponent_def Let_def)
qed

lemma round_double_error:
  assumes "round_double x = Some r"
  shows "\<bar>r - x\<bar> \<le> double_ulp x / 2"
proof -
  have u: "0 < double_ulp x" by (simp add: double_ulp_def)
  have "of_int (round_half_even (x / double_ulp x)) * double_ulp x - x
      = (of_int (round_half_even (x / double_ulp x)) - x / double_ulp x) * double_ulp x"
    using u by (simp add: algebra_simps)
  then have "\<bar>of_int (round_half_even (x / double_ulp x)) * double_ulp x - x\<bar>
      = \<bar>of_int (round_half_even (x / double_ulp x)) - x / double_ulp x\<bar> * double_ulp x"
    using u by (simp only: abs_mult abs_of_pos)
  also have "\<dots> \<le> 1 / 2 * double_ulp x"
    using u by (intro mult_right_mono round_half_even_error) simp
  finally show ?thesis using assms u by (auto simp: round_double_def Let_def split: if_splits)
qed

lemma round_double_zero: "round_double x = Some 0 \<longleftrightarrow> x = 0"
  by (simp add: round_double_def Let_def)

end
