(* ===== verification/Json_Number.thy ===== *)
theory Json_Number
  imports Json_Print Binary64
begin

text \<open>
  \<^verbatim>\<open>Number::to_double\<close> of \<^verbatim>\<open>src/io/json.cpp\<close>. \<^verbatim>\<open>std::from_chars\<close> in the general format reads an optional minus
  sign, digits with an optional point and an optional exponent, and returns the binary64 value
  nearest to the decimal one (ties to even). It reports \<^verbatim>\<open>result_out_of_range\<close>, and the
  conversion fails, when the nearest value overflows or when a nonzero decimal rounds to zero.
  Values are rational numbers, so the model has one zero: \<^verbatim>\<open>-0.0 == 0.0\<close> in the code as well.
  The spellings \<^verbatim>\<open>inf\<close> and \<^verbatim>\<open>nan\<close> are refused here and by the \<^verbatim>\<open>isfinite\<close> test of the code.
\<close>

subsection \<open>Reading the decimal text\<close>

definition ten_pow :: "int \<Rightarrow> rat" where
  "ten_pow e = (if 0 \<le> e then 10 ^ nat e else 1 / 10 ^ nat (- e))"

definition from_chars_exponent :: "string \<Rightarrow> int \<times> string" where
  "from_chars_exponent t =
     (case t of
        [] \<Rightarrow> (0, t)
      | c # u \<Rightarrow>
          if c = CHR ''e'' \<or> c = CHR ''E'' then
            let negative = (u \<noteq> [] \<and> hd u = CHR ''-'');
                v = (if u \<noteq> [] \<and> (hd u = CHR ''-'' \<or> hd u = CHR ''+'') then tl u else u);
                ds = takeWhile is_decimal_digit v;
                n = int (decimal_value ds)
            in if ds = [] then (0, t) else (if negative then - n else n, dropWhile is_decimal_digit v)
          else (0, t))"

definition from_chars_double :: "string \<Rightarrow> (rat \<times> string) option" where
  "from_chars_double t =
     (let negative = (t \<noteq> [] \<and> hd t = CHR ''-'');
          u = (if negative then tl t else t);
          ip = takeWhile is_decimal_digit u;
          u1 = dropWhile is_decimal_digit u;
          pt = (u1 \<noteq> [] \<and> hd u1 = CHR ''.'');
          fp = (if pt then takeWhile is_decimal_digit (tl u1) else []);
          u2 = (if pt then dropWhile is_decimal_digit (tl u1) else u1);
          (ex, u3) = from_chars_exponent u2
      in if ip = [] \<and> fp = [] then None
         else case round_double (of_nat (decimal_value (ip @ fp)) * ten_pow (ex - int (length fp))) of
             None \<Rightarrow> None
           | Some r \<Rightarrow> Some (if negative then - r else r, u3))"

definition to_double :: "string \<Rightarrow> rat option" where
  "to_double t =
     (if t = [] then None
      else case from_chars_double t of
        Some (parsed, rest) \<Rightarrow> if rest \<noteq> [] then None else Some parsed
      | None \<Rightarrow> None)"

end
