(* ===== verification/Generation_Types.thy ===== *)
theory Generation_Types
  imports Binary64
begin

text \<open>
  The records that the generation controller and the speculative service share:
  \<^verbatim>\<open>ReferenceStepResult\<close> and the runner status of \<^verbatim>\<open>runtime/reference_runner.h\<close>, the stop reason, the
  timing and \<^verbatim>\<open>GenerationControl\<close> of \<^verbatim>\<open>runtime/reference_engine.h\<close>. Elapsed times are binary64
  numbers.
\<close>

subsection \<open>The runner\<close>

definition kReferenceVocabularySize :: nat where
  "kReferenceVocabularySize = 248320"

datatype reference_runner_error =
  RNone | RInvalidDependency | RInvalidModelWeights | RInvalidRequestState | RInvalidLayerSchedule |
  RCudaFailure | RAllocationFailure | RInvalidRunner | RPoisoned | RTokenOutOfRange | RCapacityExceeded |
  RTraceUnavailable | RNonFiniteLogits | RStateCommitFailure | RInvalidStepOptions | RRouteEvidenceFailure |
  RCancelled

record runner_status =
  rs_error :: reference_runner_error
  rs_cuda_error :: int
  rs_layer :: "nat option"
  rs_operation :: "string option"
  rs_retired_prefill_quanta :: nat

definition runner_status_none :: runner_status where
  "runner_status_none = \<lparr>rs_error = RNone, rs_cuda_error = 0, rs_layer = None, rs_operation = None,
     rs_retired_prefill_quanta = 0\<rparr>"

definition runner_ok :: "runner_status \<Rightarrow> bool" where
  "runner_ok s \<longleftrightarrow> rs_error s = RNone \<and> rs_cuda_error s = 0"

lemma runner_ok_none [simp]: "runner_ok runner_status_none"
  by (simp add: runner_ok_def runner_status_none_def)

record step_logits =
  lg_predicted_token_id :: nat
  lg_chosen_logit :: double
  lg_max_log_probability :: double
  lg_logsumexp :: double

record reference_step =
  sr_position :: nat
  sr_input_token_id :: nat
  sr_logits :: "step_logits option"
  sr_timing :: "double option"
  sr_prediction :: "nat option"

text \<open>An outcome counts only when it carries a value and its status is ok.\<close>

type_synonym 'a outcome = "'a option \<times> runner_status"

definition outcome_ok :: "'a outcome \<Rightarrow> 'a option" where
  "outcome_ok r = (if runner_ok (snd r) then fst r else None)"

subsection \<open>The state of a generation\<close>

datatype stop_reason = SImEnd | SMaxNewTokens | SCancelled

datatype prefill_execution_mode = LegacyC512Tiled | WholeRequestLayerMajor

record generation_timing =
  gt_prefix_execution :: "double list"
  gt_finish_prefill :: double
  gt_prompt_prefill :: double
  gt_time_to_first_token :: double
  gt_subsequent_token :: "double list"
  gt_decode_after_first :: double
  gt_total_generation :: double
  gt_commit_prefill :: double

record generation_control =
  gc_generated_token_ids :: "nat list"
  gc_steps :: "reference_step list"
  gc_stop_reason :: stop_reason
  gc_timing :: generation_timing
  gc_prefill_execution_mode :: prefill_execution_mode
  gc_prefill_logical_panel_count :: nat
  gc_prefill_route_layer_pass_count :: nat

definition initial_timing :: generation_timing where
  "initial_timing = \<lparr>gt_prefix_execution = [], gt_finish_prefill = Finite 0, gt_prompt_prefill = Finite 0,
     gt_time_to_first_token = Finite 0, gt_subsequent_token = [], gt_decode_after_first = Finite 0,
     gt_total_generation = Finite 0, gt_commit_prefill = Finite 0\<rparr>"

definition initial_control :: generation_control where
  "initial_control = \<lparr>gc_generated_token_ids = [], gc_steps = [], gc_stop_reason = SMaxNewTokens,
     gc_timing = initial_timing, gc_prefill_execution_mode = LegacyC512Tiled,
     gc_prefill_logical_panel_count = 0, gc_prefill_route_layer_pass_count = 0\<rparr>"

subsection \<open>Options of a generation\<close>

text \<open>
  \<^verbatim>\<open>GenerationControlOptions\<close> without the callback, which is an operation on the host state. The two
  enumerations hold only their named values, so the validity tests on them are always true.
\<close>

datatype logits_mode = FullStatistics | PredictedTokenOnly

datatype mlp_schedule_tactic =
  PerOperatorPanel | LayerWideP40ExactFullM | PromptWideP40WholeCore | PromptWideP40ProjectionReset |
  PromptWideP40PackedProjection | PromptWideP40PackedNvfp4V2 | PromptWideP40VllmMarlinParity

record generation_options =
  go_max_new_tokens :: nat
  go_stop_token_id :: nat
  go_max_sequence_length :: nat
  go_prefill_chunk_size :: nat
  go_capture_trace :: bool
  go_logits_mode :: logits_mode
  go_prefill_all_prompt_tokens :: bool
  go_prefill_single_arbitrary_tile :: bool
  go_prefill_whole_request_layer_major :: bool
  go_prefill_mlp_schedule_tactic :: mlp_schedule_tactic

text \<open>
  The callbacks of a request, on a host state \<open>'w\<close>: the token observer (token, index, elapsed time;
  false stops the generation), the cancellation probe, and the clock.
\<close>

record 'w host =
  h_committed_token :: "(nat \<Rightarrow> nat \<Rightarrow> double \<Rightarrow> 'w \<Rightarrow> bool \<times> 'w) option"
  h_cancel :: "('w \<Rightarrow> bool \<times> 'w) option"
  h_elapsed :: "'w \<Rightarrow> double \<times> 'w"

definition commit_callback :: "'w host \<Rightarrow> nat \<Rightarrow> nat \<Rightarrow> double \<Rightarrow> 'w \<Rightarrow> bool \<times> 'w" where
  "commit_callback h token index ms w =
     (case h_committed_token h of None \<Rightarrow> (True, w) | Some f \<Rightarrow> f token index ms w)"

definition cancel_requested :: "'w host \<Rightarrow> 'w \<Rightarrow> bool \<times> 'w" where
  "cancel_requested h w = (case h_cancel h of None \<Rightarrow> (False, w) | Some f \<Rightarrow> f w)"

end
