(* ===== verification/Openai_Protocol.thy ===== *)
theory Openai_Protocol
  imports Json_Number Generation_Types
begin

text \<open>
  The request side of \<^verbatim>\<open>src/server/openai_protocol.cpp\<close>: \<open>parse_openai_request\<close> turns the body of a
  chat or text completion request into a bounded greedy generation request, or into the error
  the client gets. Every early return of the source is an \<open>Inl\<close> branch, in the order of the
  source; \<^verbatim>\<open>std::uint32_t\<close> fields are natural numbers that \<open>parse_uint32\<close> keeps below \<open>2 ^ 32\<close>.
\<close>

subsection \<open>Requests and errors\<close>

datatype openai_endpoint = kChatCompletions | kCompletions

datatype openai_prompt_kind = kChatMessages | kRawText | kTokenIds

record chat_message =
  role :: string
  content :: string

record openai_request =
  rq_endpoint :: openai_endpoint
  rq_prompt_kind :: openai_prompt_kind
  rq_model :: string
  rq_messages :: "chat_message list"
  rq_prompt :: string
  rq_prompt_token_ids :: "nat list"
  rq_max_tokens :: nat
  rq_seed :: "int option"
  rq_stream :: bool
  rq_include_usage :: bool

record openai_error =
  http_status :: int
  err_code :: string
  err_message :: string
  err_param :: string

type_synonym 'a checked = "openai_error + 'a"

definition protocol_error :: "string \<Rightarrow> string \<Rightarrow> string \<Rightarrow> int \<Rightarrow> openai_error" where
  "protocol_error ec message param status =
     \<lparr>http_status = status, err_code = ec, err_message = message, err_param = param\<rparr>"

abbreviation bad_request :: "string \<Rightarrow> string \<Rightarrow> string \<Rightarrow> openai_error" where
  "bad_request ec message param \<equiv> protocol_error ec message param 400"

definition default_request :: openai_request where
  "default_request =
     \<lparr>rq_endpoint = kChatCompletions, rq_prompt_kind = kChatMessages, rq_model = [], rq_messages = [],
      rq_prompt = [], rq_prompt_token_ids = [], rq_max_tokens = 16, rq_seed = None,
      rq_stream = False, rq_include_usage = False\<rparr>"

definition kAbsoluteRequestMaxSequenceLength :: nat where
  "kAbsoluteRequestMaxSequenceLength = 262144"

subsection \<open>Checks on members\<close>

text \<open>The first member, in key order, that is not an allowed one.\<close>

definition unexpected_member :: "(string \<times> json_value) list \<Rightarrow> string list \<Rightarrow> string option" where
  "unexpected_member object allowed = List.find (\<lambda>key. key \<notin> set allowed) (map fst object)"

definition parse_uint32 :: "json_value \<Rightarrow> nat option" where
  "parse_uint32 v =
     (case as_number v of
        None \<Rightarrow> None
      | Some number \<Rightarrow>
          (case to_uint64 number of
             None \<Rightarrow> None
           | Some parsed \<Rightarrow> if parsed > 2 ^ 32 - 1 then None else Some parsed))"

definition is_number :: "json_value \<Rightarrow> rat \<Rightarrow> bool" where
  "is_number v expected =
     (case as_number v of
        None \<Rightarrow> False
      | Some number \<Rightarrow> (case to_double number of None \<Rightarrow> False | Some parsed \<Rightarrow> parsed = expected))"

subsection \<open>Chat messages\<close>

definition message_path :: "nat \<Rightarrow> string" where
  "message_path index = ''messages['' @ to_string_nat index @ '']''"

definition parse_message :: "nat \<Rightarrow> json_value \<Rightarrow> chat_message checked" where
  "parse_message index v =
     (case as_object v of
        None \<Rightarrow> Inl (bad_request ''invalid_messages'' ''each message must be an object'' (message_path index))
      | Some message \<Rightarrow>
        (case unexpected_member message [''role'', ''content''] of
           Some unexpected \<Rightarrow>
             Inl (bad_request ''unsupported_message_field'' (''unsupported message field: '' @ unexpected)
                    (message_path index @ ''.'' @ unexpected))
         | None \<Rightarrow>
           (case (Option.bind (find_value v ''role'') as_string, Option.bind (find_value v ''content'') as_string) of
              (Some r, Some c) \<Rightarrow>
                if r \<noteq> ''system'' \<and> r \<noteq> ''user'' \<and> r \<noteq> ''assistant''
                then Inl (bad_request ''unsupported_message_role''
                       ''only system, user, and assistant roles are supported''
                       (message_path index @ ''.role''))
                else Inr \<lparr>role = r, content = c\<rparr>
            | _ \<Rightarrow> Inl (bad_request ''unsupported_message'' ''message role and content must be strings''
                     (message_path index)))))"

fun parse_message_list :: "nat \<Rightarrow> json_value list \<Rightarrow> chat_message list \<Rightarrow> chat_message list checked" where
  "parse_message_list index [] acc = Inr acc"
| "parse_message_list index (v # vs) acc =
     and_then (parse_message index v) (\<lambda>m. parse_message_list (index + 1) vs (acc @ [m]))"

definition expected_role :: "chat_message list \<Rightarrow> nat \<Rightarrow> string" where
  "expected_role messages index =
     (if (index - (if role (hd messages) = ''system'' then 1 else 0)) mod 2 = 0 then ''user'' else ''assistant'')"

definition check_alternation :: "chat_message list \<Rightarrow> unit checked" where
  "check_alternation messages =
     (let start = (if role (hd messages) = ''system'' then 1 else 0) in
      if start = length messages then
        Inl (bad_request ''invalid_messages'' ''a system message must be followed by a user message'' ''messages'')
      else case List.find (\<lambda>index. role (messages ! index) \<noteq> expected_role messages index) [start..<length messages] of
          Some index \<Rightarrow>
            Inl (bad_request ''invalid_messages''
              ''messages must alternate user and assistant after an optional leading system message''
              (message_path index @ ''.role''))
        | None \<Rightarrow>
            require (role (last messages) = ''user'')
              (bad_request ''invalid_messages'' ''the final chat message must have role user''
                 (message_path (length messages - 1) @ ''.role'')))"

definition parse_messages :: "json_value \<Rightarrow> openai_request \<Rightarrow> openai_request checked" where
  "parse_messages v request =
     (case as_array v of
        None \<Rightarrow> Inl (bad_request ''invalid_messages'' ''messages must be a non-empty array'' ''messages'')
      | Some [] \<Rightarrow> Inl (bad_request ''invalid_messages'' ''messages must be a non-empty array'' ''messages'')
      | Some messages \<Rightarrow>
          and_then (parse_message_list 0 messages (rq_messages request)) (\<lambda>ms.
          and_then (check_alternation ms) (\<lambda>_.
          Inr (request\<lparr>rq_messages := ms, rq_prompt_kind := kChatMessages\<rparr>))))"

subsection \<open>Prompts\<close>

definition prompt_path :: "nat \<Rightarrow> string" where
  "prompt_path index = ''prompt['' @ to_string_nat index @ '']''"

fun parse_token_ids :: "nat \<Rightarrow> json_value list \<Rightarrow> nat list \<Rightarrow> nat list checked" where
  "parse_token_ids index [] acc = Inr acc"
| "parse_token_ids index (v # vs) acc =
     (case parse_uint32 v of
        None \<Rightarrow> Inl (bad_request ''invalid_prompt'' ''token-id prompt must contain unsigned integers'' (prompt_path index))
      | Some n \<Rightarrow>
          if n \<ge> kReferenceVocabularySize
          then Inl (bad_request ''invalid_prompt'' ''token id is outside the pinned vocabulary'' (prompt_path index))
          else parse_token_ids (index + 1) vs (acc @ [n]))"

definition parse_prompt :: "json_value \<Rightarrow> openai_request \<Rightarrow> openai_request checked" where
  "parse_prompt v request =
     (case v of
        JString prompt \<Rightarrow>
          if prompt = [] then Inl (bad_request ''invalid_prompt'' ''prompt must not be empty'' ''prompt'')
          else Inr (request\<lparr>rq_prompt := prompt, rq_prompt_kind := kRawText\<rparr>)
      | JArray ids \<Rightarrow>
          if ids = [] then Inl (bad_request ''invalid_prompt'' ''token-id prompt must not be empty'' ''prompt'')
          else and_then (parse_token_ids 0 ids (rq_prompt_token_ids request)) (\<lambda>tokens.
               Inr (request\<lparr>rq_prompt_token_ids := tokens, rq_prompt_kind := kTokenIds\<rparr>))
      | _ \<Rightarrow> Inl (bad_request ''unsupported_prompt''
               ''prompt must be one string or one flat token-id array'' ''prompt''))"

subsection \<open>The request\<close>

definition request_parse_options :: "nat \<Rightarrow> parse_options" where
  "request_parse_options maximum_sequence_length =
     \<lparr>max_input_bytes = 4 * 1024 * 1024, max_nesting_depth = 32,
      max_values = maximum_sequence_length + 256,
      max_container_items = maximum_sequence_length + 256\<rparr>"

definition common_members :: "string list" where
  "common_members = [''model'', ''max_tokens'', ''max_completion_tokens'', ''temperature'',
     ''top_p'', ''n'', ''seed'', ''stream'', ''stream_options'', ''stop'']"

definition payload_member :: "openai_endpoint \<Rightarrow> string" where
  "payload_member endpoint = (if endpoint = kChatCompletions then ''messages'' else ''prompt'')"

definition parse_model :: "json_value \<Rightarrow> string \<Rightarrow> string checked" where
  "parse_model doc served_model =
     (case Option.bind (find_value doc ''model'') as_string of
        None \<Rightarrow> Inl (bad_request ''invalid_model'' ''model must be a non-empty string'' ''model'')
      | Some model \<Rightarrow>
          if model = [] then Inl (bad_request ''invalid_model'' ''model must be a non-empty string'' ''model'')
          else if model \<noteq> served_model
          then Inl (protocol_error ''model_not_found'' ''the requested model is not served'' ''model'' 404)
          else Inr model)"

definition parse_payload :: "json_value \<Rightarrow> openai_endpoint \<Rightarrow> openai_request \<Rightarrow> openai_request checked" where
  "parse_payload doc endpoint request =
     (case find_value doc (payload_member endpoint) of
        None \<Rightarrow> Inl (bad_request ''missing_parameter'' (payload_member endpoint @ '' is required'')
                  (payload_member endpoint))
      | Some payload \<Rightarrow>
          if endpoint = kChatCompletions then parse_messages payload request else parse_prompt payload request)"

definition parse_max_tokens :: "json_value \<Rightarrow> nat \<Rightarrow> openai_request \<Rightarrow> openai_request checked" where
  "parse_max_tokens doc maximum_output_tokens request =
     (let max_tokens = find_value doc ''max_tokens'';
          max_completion_tokens = find_value doc ''max_completion_tokens''
      in if max_tokens \<noteq> None \<and> max_completion_tokens \<noteq> None then
           Inl (bad_request ''conflicting_parameters''
             ''specify only one of max_tokens and max_completion_tokens'' ''max_tokens'')
         else case (if max_tokens \<noteq> None then max_tokens else max_completion_tokens) of
             None \<Rightarrow> Inl (bad_request ''missing_parameter''
               ''max_tokens or max_completion_tokens is required by this bounded evaluation gateway''
               ''max_tokens'')
           | Some selected \<Rightarrow>
               (case parse_uint32 selected of
                  Some n \<Rightarrow>
                    if n = 0 \<or> n > maximum_output_tokens then
                      Inl (bad_request ''invalid_max_tokens''
                        ''max_tokens must be within the configured positive limit''
                        (if max_tokens \<noteq> None then ''max_tokens'' else ''max_completion_tokens''))
                    else Inr (request\<lparr>rq_max_tokens := n\<rparr>)
                | None \<Rightarrow>
                    Inl (bad_request ''invalid_max_tokens''
                      ''max_tokens must be within the configured positive limit''
                      (if max_tokens \<noteq> None then ''max_tokens'' else ''max_completion_tokens''))))"

definition check_capacity :: "nat \<Rightarrow> openai_request \<Rightarrow> unit checked" where
  "check_capacity maximum_sequence_length request =
     (if rq_prompt_kind request = kTokenIds then
        let required_steps = length (rq_prompt_token_ids request) + rq_max_tokens request - 1 in
        require (required_steps \<le> maximum_sequence_length)
          (bad_request ''context_length_exceeded''
             ''prompt tokens plus requested output exceed the configured sequence capacity'' ''prompt'')
      else Inr ())"

definition check_sampling :: "json_value \<Rightarrow> unit checked" where
  "check_sampling doc =
     (case find_value doc ''temperature'' of
        None \<Rightarrow> Inl (bad_request ''missing_parameter''
          ''temperature=0 must be explicit because this gateway does not implement the OpenAI sampling default''
          ''temperature'')
      | Some temperature \<Rightarrow>
          if \<not> is_number temperature 0 then
            Inl (bad_request ''unsupported_sampling'' ''only greedy temperature=0 is supported'' ''temperature'')
          else and_then (case find_value doc ''top_p'' of
              None \<Rightarrow> Inr ()
            | Some top_p \<Rightarrow> require (is_number top_p 1)
                (bad_request ''unsupported_sampling'' ''only top_p=1 is supported'' ''top_p'')) (\<lambda>_.
          case find_value doc ''n'' of
              None \<Rightarrow> Inr ()
            | Some n \<Rightarrow> require (parse_uint32 n = Some 1)
                (bad_request ''unsupported_batch'' ''only n=1 is supported'' ''n'')))"

definition parse_seed :: "json_value \<Rightarrow> openai_request \<Rightarrow> openai_request checked" where
  "parse_seed doc request =
     (case find_value doc ''seed'' of
        None \<Rightarrow> Inr request
      | Some seed \<Rightarrow>
          (case Option.bind (as_number seed) to_int64 of
             None \<Rightarrow> Inl (bad_request ''invalid_seed'' ''seed must be a signed 64-bit integer'' ''seed'')
           | Some n \<Rightarrow> Inr (request\<lparr>rq_seed := Some n\<rparr>)))"

definition check_stop :: "json_value \<Rightarrow> unit checked" where
  "check_stop doc =
     (case find_value doc ''stop'' of
        None \<Rightarrow> Inr ()
      | Some stop \<Rightarrow> require (is_null stop)
          (bad_request ''unsupported_stop'' ''custom stop sequences are not supported'' ''stop''))"

definition parse_stream :: "json_value \<Rightarrow> openai_request \<Rightarrow> openai_request checked" where
  "parse_stream doc request =
     (case find_value doc ''stream'' of
        None \<Rightarrow> Inr request
      | Some stream \<Rightarrow>
          (case as_bool stream of
             None \<Rightarrow> Inl (bad_request ''invalid_stream'' ''stream must be a boolean'' ''stream'')
           | Some enabled \<Rightarrow> Inr (request\<lparr>rq_stream := enabled\<rparr>)))"

definition parse_stream_options :: "json_value \<Rightarrow> openai_request \<Rightarrow> openai_request checked" where
  "parse_stream_options doc request =
     (case find_value doc ''stream_options'' of
        None \<Rightarrow> Inr request
      | Some stream_options \<Rightarrow>
          if \<not> rq_stream request then
            Inl (bad_request ''invalid_stream_options'' ''stream_options requires stream=true'' ''stream_options'')
          else case as_object stream_options of
            None \<Rightarrow> Inl (bad_request ''invalid_stream_options'' ''stream_options must be an object'' ''stream_options'')
          | Some object \<Rightarrow>
            (case unexpected_member object [''include_usage''] of
               Some unexpected \<Rightarrow>
                 Inl (bad_request ''unsupported_parameter'' (''unsupported stream option: '' @ unexpected)
                   (''stream_options.'' @ unexpected))
             | None \<Rightarrow>
               (case find_value stream_options ''include_usage'' of
                  None \<Rightarrow> Inr request
                | Some include_usage \<Rightarrow>
                    (case as_bool include_usage of
                       None \<Rightarrow> Inl (bad_request ''invalid_stream_options''
                         ''include_usage must be a boolean'' ''stream_options.include_usage'')
                     | Some enabled \<Rightarrow> Inr (request\<lparr>rq_include_usage := enabled\<rparr>)))))"

definition parse_openai_request ::
  "string \<Rightarrow> openai_endpoint \<Rightarrow> string \<Rightarrow> nat \<Rightarrow> nat \<Rightarrow> openai_request checked" where
  "parse_openai_request body endpoint served_model maximum_output_tokens maximum_sequence_length =
     (if served_model = [] \<or> maximum_output_tokens = 0 \<or> maximum_sequence_length = 0 \<or>
         maximum_sequence_length > kAbsoluteRequestMaxSequenceLength
      then Inl (protocol_error ''server_configuration_error''
             ''served model, output limit, and sequence capacity are not configured'' [] 500)
      else case json_parse body (request_parse_options maximum_sequence_length) of
        Inl _ \<Rightarrow> Inl (bad_request ''invalid_json'' ''request body is not valid bounded JSON'' [])
      | Inr doc \<Rightarrow>
        (case as_object doc of
           None \<Rightarrow> Inl (bad_request ''invalid_request'' ''request body must be a JSON object'' [])
         | Some object \<Rightarrow>
           (case unexpected_member object (common_members @ [payload_member endpoint]) of
              Some unexpected \<Rightarrow>
                Inl (bad_request ''unsupported_parameter'' (''unsupported request parameter: '' @ unexpected) unexpected)
            | None \<Rightarrow>
              and_then (parse_model doc served_model) (\<lambda>model.
              and_then (parse_payload doc endpoint
                (default_request\<lparr>rq_endpoint := endpoint, rq_max_tokens := min 16 maximum_output_tokens,
                   rq_model := model\<rparr>)) (\<lambda>request.
              and_then (parse_max_tokens doc maximum_output_tokens request) (\<lambda>request.
              and_then (check_capacity maximum_sequence_length request) (\<lambda>_.
              and_then (check_sampling doc) (\<lambda>_.
              and_then (parse_seed doc request) (\<lambda>request.
              and_then (check_stop doc) (\<lambda>_.
              and_then (parse_stream doc request) (\<lambda>request.
              parse_stream_options doc request)))))))))))"

end
