(* ===== verification/Openai_Request.thy ===== *)
theory Openai_Request
  imports Openai_Protocol
begin

text \<open>
  What an accepted request guarantees the generation engine, what a refused one reports, and
  that a well-formed request within the configured limits is accepted.
\<close>

subsection \<open>Messages\<close>

text \<open>The roles of a dialogue: an optional system message, then user and assistant in turn, user last.\<close>

definition dialogue :: "string list \<Rightarrow> bool" where
  "dialogue roles \<longleftrightarrow>
     (let turns = (if roles \<noteq> [] \<and> hd roles = ''system'' then tl roles else roles) in
      odd (length turns) \<and>
      (\<forall>i<length turns. turns ! i = (if even i then ''user'' else ''assistant'')))"

lemma parse_message_list_roles:
  "parse_message_list index vs acc = Inr ms \<Longrightarrow> length ms = length acc + length vs \<and> take (length acc) ms = acc"
proof (induction index vs acc rule: parse_message_list.induct)
  case (2 index v vs acc)
  then obtain m where "parse_message index v = Inr m" "parse_message_list (index + 1) vs (acc @ [m]) = Inr ms"
    by (auto simp: and_then_eq_Inr)
  from 2(1) [OF this] show ?case
    by (auto simp: min_def) (metis append_eq_conv_conj append_take_drop_id length_append_singleton append_assoc take_add)
qed simp

lemma check_alternation_dialogue:
  assumes "check_alternation ms = Inr ()" "ms \<noteq> []"
  shows "dialogue (map role ms)"
proof -
  define start where "start = (if role (hd ms) = ''system'' then 1 else (0::nat))"
  have start: "start \<noteq> length ms" and last: "role (last ms) = ''user''"
    and alt: "\<forall>i\<in>{start..<length ms}. role (ms ! i) = expected_role ms i"
    using assms(1) unfolding check_alternation_def Let_def start_def [symmetric]
    by (auto simp: find_None_iff split: if_splits option.splits)
  have less: "start < length ms" using start assms(2) by (cases ms) (auto simp: start_def split: if_splits)
  have role: "role (ms ! (start + i)) = (if even i then ''user'' else ''assistant'')" if "i < length ms - start" for i
    using that alt by (auto simp: expected_role_def start_def even_iff_mod_2_eq_zero odd_iff_mod_2_eq_one)
  obtain n where n: "length ms - start = Suc n" using less by (metis Suc_diff_Suc)
  then have "length ms - 1 = start + n" using less by linarith
  then have "last ms = ms ! (start + n)" using assms(2) by (simp add: last_conv_nth)
  with last role [of n] n have "(if even n then ''user'' else ''assistant'') = ''user''" by simp
  then have odd: "odd (length ms - start)" using n by (simp split: if_splits)
  have turns: "(if map role ms \<noteq> [] \<and> hd (map role ms) = ''system'' then tl (map role ms) else map role ms)
      = map role (drop start ms)"
    using assms(2) by (simp add: start_def hd_map map_tl drop_Suc)
  show ?thesis unfolding dialogue_def Let_def turns using odd role by simp
qed

lemma parse_messages_ok:
  assumes "parse_messages v request = Inr r" "rq_messages request = []"
  shows "dialogue (map role (rq_messages r)) \<and>
    r = request\<lparr>rq_messages := rq_messages r, rq_prompt_kind := kChatMessages\<rparr>"
proof -
  obtain u us ms where v: "as_array v = Some (u # us)" and ms: "parse_message_list 0 (u # us) [] = Inr ms"
    and alt: "check_alternation ms = Inr ()" and r: "r = request\<lparr>rq_messages := ms, rq_prompt_kind := kChatMessages\<rparr>"
    using assms by (auto simp: parse_messages_def and_then_eq_Inr simp del: parse_message_list.simps
        split: option.splits list.splits)
  have "ms \<noteq> []" using parse_message_list_roles [OF ms] by auto
  with alt r show ?thesis by (simp add: check_alternation_dialogue)
qed

subsection \<open>Prompts and limits\<close>

lemma parse_uint32_less: "parse_uint32 v = Some n \<Longrightarrow> n < 2 ^ 32"
  by (auto simp: parse_uint32_def split: option.splits if_splits)

lemma parse_token_ids_ok:
  "parse_token_ids index vs acc = Inr ids \<Longrightarrow> \<forall>n\<in>set acc. n < kReferenceVocabularySize \<Longrightarrow>
   length ids = length acc + length vs \<and> (\<forall>n\<in>set ids. n < kReferenceVocabularySize)"
  by (induction index vs acc rule: parse_token_ids.induct) (auto split: option.splits if_splits)

lemma parse_prompt_ok:
  assumes "parse_prompt v request = Inr r" "rq_prompt_token_ids request = []" "wf_value v"
  shows "(\<exists>s. r = request\<lparr>rq_prompt := s, rq_prompt_kind := kRawText\<rparr> \<and> s \<noteq> [] \<and> valid_utf8 s) \<or>
    (\<exists>ids. r = request\<lparr>rq_prompt_token_ids := ids, rq_prompt_kind := kTokenIds\<rparr> \<and> ids \<noteq> [] \<and>
       (\<forall>n\<in>set ids. n < kReferenceVocabularySize))"
proof (cases v)
  case (JArray vs)
  then obtain ids where "vs \<noteq> []" "parse_token_ids 0 vs [] = Inr ids"
      "r = request\<lparr>rq_prompt_token_ids := ids, rq_prompt_kind := kTokenIds\<rparr>"
    using assms by (auto simp: parse_prompt_def and_then_eq_Inr split: if_splits)
  with parse_token_ids_ok [of 0 vs "[]" ids] show ?thesis by auto
qed (use assms in \<open>auto simp: parse_prompt_def split: if_splits\<close>)

lemma parse_max_tokens_ok:
  "parse_max_tokens doc limit request = Inr r \<Longrightarrow>
   \<exists>n. r = request\<lparr>rq_max_tokens := n\<rparr> \<and> 1 \<le> n \<and> n \<le> limit"
  by (auto simp: parse_max_tokens_def Let_def split: option.splits if_splits)

lemma check_capacity_ok:
  "check_capacity limit request = Inr () \<longleftrightarrow>
     (rq_prompt_kind request = kTokenIds \<longrightarrow>
        length (rq_prompt_token_ids request) + rq_max_tokens request - 1 \<le> limit)"
  by (simp add: check_capacity_def Let_def)

lemma same_update [simp]:
  "r = r\<lparr>rq_seed := s\<rparr> \<longleftrightarrow> s = rq_seed r" "r = r\<lparr>rq_stream := b\<rparr> \<longleftrightarrow> b = rq_stream r"
  "r = r\<lparr>rq_include_usage := b\<rparr> \<longleftrightarrow> b = rq_include_usage r"
  by (cases r; auto)+

lemma parse_seed_ok: "parse_seed doc request = Inr r \<Longrightarrow> \<exists>s. r = request\<lparr>rq_seed := s\<rparr>"
  by (auto simp: parse_seed_def split: option.splits)

lemma parse_stream_ok: "parse_stream doc request = Inr r \<Longrightarrow> \<exists>s. r = request\<lparr>rq_stream := s\<rparr>"
  by (auto simp: parse_stream_def split: option.splits)

lemma parse_stream_options_ok:
  "parse_stream_options doc request = Inr r \<Longrightarrow> \<not> rq_include_usage request \<Longrightarrow>
   \<exists>u. r = request\<lparr>rq_include_usage := u\<rparr> \<and> (u \<longrightarrow> rq_stream request)"
  by (auto simp: parse_stream_options_def split: option.splits if_splits)

lemma find_value_wf: "wf_value v \<Longrightarrow> find_value v k = Some w \<Longrightarrow> wf_value w"
  by (cases v) (auto simp: find_value_def dest: map_of_SomeD)

text \<open>The steps of a successful run, in order.\<close>

lemma parse_openai_request_steps:
  assumes "parse_openai_request body endpoint served outputs capacity = Inr r"
  obtains doc object model r1 r2 r3 r4 where
    "json_parse body (request_parse_options capacity) = Inr doc" "as_object doc = Some object"
    "unexpected_member object (common_members @ [payload_member endpoint]) = None"
    "parse_model doc served = Inr model"
    "parse_payload doc endpoint (default_request\<lparr>rq_endpoint := endpoint,
       rq_max_tokens := min 16 outputs, rq_model := model\<rparr>) = Inr r1"
    "parse_max_tokens doc outputs r1 = Inr r2" "check_capacity capacity r2 = Inr ()"
    "check_sampling doc = Inr ()" "parse_seed doc r2 = Inr r3" "check_stop doc = Inr ()"
    "parse_stream doc r3 = Inr r4" "parse_stream_options doc r4 = Inr r"
    "served \<noteq> []" "capacity \<le> kAbsoluteRequestMaxSequenceLength"
  using assms unfolding parse_openai_request_def
  by (auto simp: and_then_eq_Inr split: if_splits sum.splits option.splits)

subsection \<open>Accepted requests\<close>

lemma default_request_sel [simp]:
  "rq_messages default_request = []" "rq_prompt_token_ids default_request = []"
  "\<not> rq_include_usage default_request"
  by (simp_all add: default_request_def)

lemma parse_payload_ok:
  assumes "parse_payload doc endpoint request = Inr r" "wf_value doc"
    "rq_messages request = []" "rq_prompt_token_ids request = []"
  shows "\<exists>kind ms s ids. r = request\<lparr>rq_messages := ms, rq_prompt := s, rq_prompt_token_ids := ids,
      rq_prompt_kind := kind\<rparr> \<and> (endpoint = kChatCompletions \<longleftrightarrow> kind = kChatMessages) \<and>
    (kind = kChatMessages \<longrightarrow> dialogue (map role ms)) \<and>
    (kind = kRawText \<longrightarrow> s \<noteq> [] \<and> valid_utf8 s) \<and>
    (kind = kTokenIds \<longrightarrow> ids \<noteq> [] \<and> (\<forall>n\<in>set ids. n < kReferenceVocabularySize))"
proof -
  obtain w where w: "find_value doc (payload_member endpoint) = Some w"
    using assms(1) by (auto simp: parse_payload_def split: option.splits)
  show ?thesis
  proof (cases endpoint)
    case kChatCompletions
    then have "parse_messages w request = Inr r" using assms(1) w by (simp add: parse_payload_def)
    from parse_messages_ok [OF this assms(3)] kChatCompletions show ?thesis
      by (intro exI [of _ kChatMessages] exI [of _ "rq_messages r"] exI [of _ "rq_prompt request"]
          exI [of _ "rq_prompt_token_ids request"]) (cases request, cases r, simp)
  next
    case kCompletions
    then have "parse_prompt w request = Inr r" using assms(1) w by (simp add: parse_payload_def)
    from parse_prompt_ok [OF this assms(4) find_value_wf [OF assms(2) w]] show ?thesis
    proof
      assume "\<exists>s. r = request\<lparr>rq_prompt := s, rq_prompt_kind := kRawText\<rparr> \<and> s \<noteq> [] \<and> valid_utf8 s"
      then show ?thesis using kCompletions
        by (intro exI [of _ kRawText] exI [of _ "rq_messages request"] exI [of _ "rq_prompt r"]
            exI [of _ "rq_prompt_token_ids request"]) auto
    next
      assume "\<exists>ids. r = request\<lparr>rq_prompt_token_ids := ids, rq_prompt_kind := kTokenIds\<rparr> \<and> ids \<noteq> [] \<and>
        (\<forall>n\<in>set ids. n < kReferenceVocabularySize)"
      then show ?thesis using kCompletions
        by (intro exI [of _ kTokenIds] exI [of _ "rq_messages request"] exI [of _ "rq_prompt request"]
            exI [of _ "rq_prompt_token_ids r"]) auto
    qed
  qed
qed

lemma json_parse_wf: "json_parse body options = Inr v \<Longrightarrow> wf_value v"
  using json_parse_ok by blast

text \<open>
  C11. An accepted request is bounded: it names the served model, asks for at least one and at most
  the configured number of tokens, and its token ids are in the vocabulary and fit, together
  with the output, in the configured sequence capacity. A text prompt is nonempty valid UTF-8,
  chat messages form a dialogue that ends with the user, and usage is only asked for a stream.
\<close>

theorem accepted_request_bounded:
  assumes "parse_openai_request body endpoint served outputs capacity = Inr r"
  shows "rq_endpoint r = endpoint \<and> rq_model r = served \<and>
    1 \<le> rq_max_tokens r \<and> rq_max_tokens r \<le> outputs \<and>
    (endpoint = kChatCompletions \<longleftrightarrow> rq_prompt_kind r = kChatMessages) \<and>
    (rq_prompt_kind r = kChatMessages \<longrightarrow> dialogue (map role (rq_messages r))) \<and>
    (rq_prompt_kind r = kRawText \<longrightarrow> rq_prompt r \<noteq> [] \<and> valid_utf8 (rq_prompt r)) \<and>
    (rq_prompt_kind r = kTokenIds \<longrightarrow> rq_prompt_token_ids r \<noteq> [] \<and>
       (\<forall>n\<in>set (rq_prompt_token_ids r). n < kReferenceVocabularySize) \<and>
       length (rq_prompt_token_ids r) + rq_max_tokens r - 1 \<le> capacity) \<and>
    (rq_include_usage r \<longrightarrow> rq_stream r)"
  using assms
proof (cases rule: parse_openai_request_steps)
  case (1 doc object model r1 r2 r3 r4)
  let ?r0 = "default_request\<lparr>rq_endpoint := endpoint, rq_max_tokens := min 16 outputs, rq_model := model\<rparr>"
  have model: "model = served" using 1(4) by (auto simp: parse_model_def split: option.splits if_splits)
  obtain kind ms s ids where r1: "r1 = ?r0\<lparr>rq_messages := ms, rq_prompt := s, rq_prompt_token_ids := ids,
      rq_prompt_kind := kind\<rparr>" and kind: "endpoint = kChatCompletions \<longleftrightarrow> kind = kChatMessages"
    "kind = kChatMessages \<longrightarrow> dialogue (map role ms)" "kind = kRawText \<longrightarrow> s \<noteq> [] \<and> valid_utf8 s"
    "kind = kTokenIds \<longrightarrow> ids \<noteq> [] \<and> (\<forall>n\<in>set ids. n < kReferenceVocabularySize)"
    using parse_payload_ok [OF 1(5) json_parse_wf [OF 1(1)]] by auto
  obtain n where n: "r2 = r1\<lparr>rq_max_tokens := n\<rparr>" "1 \<le> n" "n \<le> outputs"
    using parse_max_tokens_ok [OF 1(6)] by blast
  obtain seed st where "r3 = r2\<lparr>rq_seed := seed\<rparr>" "r4 = r3\<lparr>rq_stream := st\<rparr>"
    using parse_seed_ok [OF 1(9)] parse_stream_ok [OF 1(11)] by blast
  moreover obtain u where "r = r4\<lparr>rq_include_usage := u\<rparr>" "u \<longrightarrow> rq_stream r4"
    using parse_stream_options_ok [OF 1(12)] calculation n r1 by auto
  ultimately show ?thesis using model r1 n kind 1(7) by (simp add: check_capacity_ok)
qed

text \<open>
  C33. An accepted request is greedy and names nothing the gateway would ignore: its body is a JSON
  object with known members only, temperature is present with value zero, and \<^verbatim>\<open>top_p\<close>, \<^verbatim>\<open>n\<close> and
  \<^verbatim>\<open>stop\<close>, where present, are 1, 1 and null.
\<close>

theorem accepted_request_greedy:
  assumes "parse_openai_request body endpoint served outputs capacity = Inr r"
  shows "\<exists>members. json_parse body (request_parse_options capacity) = Inr (JObject members) \<and>
    fst ` set members \<subseteq> set (common_members @ [payload_member endpoint]) \<and>
    (\<exists>t. find_value (JObject members) ''temperature'' = Some (JNumber t) \<and> to_double t = Some 0) \<and>
    (\<forall>v. find_value (JObject members) ''top_p'' = Some v \<longrightarrow> (\<exists>t. v = JNumber t \<and> to_double t = Some 1)) \<and>
    (\<forall>v. find_value (JObject members) ''n'' = Some v \<longrightarrow> parse_uint32 v = Some 1) \<and>
    (\<forall>v. find_value (JObject members) ''stop'' = Some v \<longrightarrow> v = JNull)"
  using assms
proof (cases rule: parse_openai_request_steps)
  case (1 doc object model r1 r2 r3 r4)
  have number: "\<exists>t. v = JNumber t \<and> to_double t = Some x" if "is_number v x" for v x
    using that by (cases v) (auto simp: is_number_def split: option.splits)
  have doc: "doc = JObject object" using 1(2) by (cases doc) auto
  have keys: "fst ` set object \<subseteq> set (common_members @ [payload_member endpoint])"
    using 1(3) by (auto simp: unexpected_member_def find_None_iff)
  have stop: "\<forall>v. find_value doc ''stop'' = Some v \<longrightarrow> v = JNull"
    using 1(10) by (auto simp: check_stop_def is_null_def split: option.splits json_value.splits)
  obtain v where v: "find_value doc ''temperature'' = Some v" "is_number v 0"
    using 1(8) by (auto simp: check_sampling_def split: option.splits if_splits)
  with number have temperature: "\<exists>t. find_value doc ''temperature'' = Some (JNumber t) \<and> to_double t = Some 0"
    by metis
  have "\<forall>v. find_value doc ''top_p'' = Some v \<longrightarrow> is_number v 1"
    and n: "\<forall>v. find_value doc ''n'' = Some v \<longrightarrow> parse_uint32 v = Some 1"
    using v 1(8) by (auto simp: check_sampling_def and_then_eq_Inr)
  with number have top_p: "\<forall>v. find_value doc ''top_p'' = Some v \<longrightarrow> (\<exists>t. v = JNumber t \<and> to_double t = Some 1)"
    by metis
  show ?thesis
    using 1(1) keys temperature top_p n stop unfolding doc by (intro exI [of _ object]) (simp only: simp_thms)
qed

subsection \<open>Errors\<close>

lemma parse_message_status: "parse_message index v = Inl e \<Longrightarrow> http_status e = 400"
  by (auto simp: parse_message_def protocol_error_def split: option.splits prod.splits if_splits)

lemma parse_message_list_status: "parse_message_list index vs acc = Inl e \<Longrightarrow> http_status e = 400"
  by (induction index vs acc rule: parse_message_list.induct)
     (auto simp: and_then_eq_Inl dest: parse_message_status)

lemma check_alternation_status: "check_alternation ms = Inl e \<Longrightarrow> http_status e = 400"
  by (auto simp: check_alternation_def protocol_error_def Let_def split: option.splits if_splits)

lemma parse_token_ids_status: "parse_token_ids index vs acc = Inl e \<Longrightarrow> http_status e = 400"
  by (induction index vs acc rule: parse_token_ids.induct)
     (auto simp: protocol_error_def split: option.splits if_splits)

lemma parse_payload_status: "parse_payload doc endpoint request = Inl e \<Longrightarrow> http_status e = 400"
  by (auto simp: parse_payload_def parse_messages_def parse_prompt_def protocol_error_def and_then_eq_Inl
      simp del: parse_message_list.simps parse_token_ids.simps
      split: option.splits if_splits list.splits json_value.splits
      dest: parse_message_list_status check_alternation_status parse_token_ids_status)

lemma parse_max_tokens_status: "parse_max_tokens doc limit request = Inl e \<Longrightarrow> http_status e = 400"
  by (auto simp: parse_max_tokens_def protocol_error_def Let_def split: option.splits if_splits)

lemma checks_status:
  "check_capacity limit request = Inl e \<Longrightarrow> http_status e = 400"
  "check_sampling doc = Inl e \<Longrightarrow> http_status e = 400"
  "parse_seed doc request = Inl e \<Longrightarrow> http_status e = 400"
  "check_stop doc = Inl e \<Longrightarrow> http_status e = 400"
  "parse_stream doc request = Inl e \<Longrightarrow> http_status e = 400"
  "parse_stream_options doc request = Inl e \<Longrightarrow> http_status e = 400"
  by (auto simp: check_capacity_def check_sampling_def parse_seed_def check_stop_def parse_stream_def
      parse_stream_options_def protocol_error_def and_then_eq_Inl Let_def split: option.splits if_splits)

lemmas request_status = parse_payload_status parse_max_tokens_status checks_status

text \<open>The limits the server was started with cannot serve anything.\<close>

definition misconfigured :: "string \<Rightarrow> nat \<Rightarrow> nat \<Rightarrow> bool" where
  "misconfigured served outputs capacity \<longleftrightarrow>
     served = [] \<or> outputs = 0 \<or> capacity = 0 \<or> capacity > kAbsoluteRequestMaxSequenceLength"

text \<open>The body is an object with no unknown member that names a model, and not the served one.\<close>

definition asks_other_model :: "string \<Rightarrow> openai_endpoint \<Rightarrow> string \<Rightarrow> nat \<Rightarrow> bool" where
  "asks_other_model body endpoint served capacity \<longleftrightarrow>
     (case json_parse body (request_parse_options capacity) of
        Inr (JObject members) \<Rightarrow>
          unexpected_member members (common_members @ [payload_member endpoint]) = None \<and>
          (case find_value (JObject members) ''model'' of
             Some (JString model) \<Rightarrow> model \<noteq> [] \<and> model \<noteq> served
           | _ \<Rightarrow> False)
      | _ \<Rightarrow> False)"

fun_cases as_string_SomeE: "as_string v = Some s"

lemma parse_model_status:
  "parse_model doc served = Inl e \<Longrightarrow>
     http_status e = (case find_value doc ''model'' of
       Some (JString model) \<Rightarrow> if model \<noteq> [] \<and> model \<noteq> served then 404 else 400 | _ \<Rightarrow> 400)"
  "parse_model doc served = Inr m \<Longrightarrow> find_value doc ''model'' = Some (JString served)"
  by (auto simp: parse_model_def protocol_error_def Option.bind_eq_Some_conv
      elim: as_string_SomeE split: option.splits if_splits json_value.splits)

text \<open>
  C37. The status of every outcome of the request parser: 500 exactly when the server's own limits are at fault,
  404 exactly when a well-formed body names another model than the served one, and 400 for every other refusal.
  No request is accepted by such a server or for such a model.
\<close>

theorem refused_request_status:
  "case parse_openai_request body endpoint served outputs capacity of
     Inl e \<Rightarrow> http_status e =
       (if misconfigured served outputs capacity then 500
        else if asks_other_model body endpoint served capacity then 404 else 400)
   | Inr r \<Rightarrow> \<not> misconfigured served outputs capacity \<and> \<not> asks_other_model body endpoint served capacity"
proof (cases "misconfigured served outputs capacity")
  case True
  then show ?thesis by (auto simp: parse_openai_request_def misconfigured_def protocol_error_def)
next
  case False
  note start = parse_openai_request_def misconfigured_def asks_other_model_def
  have bad: "http_status (bad_request c m p) = 400" for c m p by (simp add: protocol_error_def)
  show ?thesis
  proof (cases "json_parse body (request_parse_options capacity)")
    case (Inl e)
    then show ?thesis using False by (simp add: start bad)
  next
    case (Inr doc)
    show ?thesis
    proof (cases "\<exists>members. doc = JObject members \<and>
        unexpected_member members (common_members @ [payload_member endpoint]) = None")
      case True
      then obtain members where doc: "doc = JObject members"
        "unexpected_member members (common_members @ [payload_member endpoint]) = None" by blast
      show ?thesis
      proof (cases "parse_model doc served")
        case m: (Inl e)
        show ?thesis
          using False Inr doc m parse_model_status(1) [OF m]
          by (simp add: start split: option.splits json_value.splits)
      next
        case m: (Inr model)
        then have "\<not> asks_other_model body endpoint served capacity"
          using Inr doc parse_model_status(2) [OF m] by (simp add: asks_other_model_def)
        then show ?thesis
          using False Inr doc m
          by (auto simp: parse_openai_request_def misconfigured_def and_then_eq_Inl
              simp del: One_nat_def split: sum.split dest: request_status)
      qed
    next
      case unknown: False
      then show ?thesis
        using False Inr
        by (cases doc) (auto simp: start bad split: option.split)
    qed
  qed
qed

subsection \<open>A well-formed request is accepted\<close>

definition token_request :: "string \<Rightarrow> nat list \<Rightarrow> nat \<Rightarrow> json_value" where
  "token_request model ids n = JObject
     [(''model'', JString model), (''prompt'', JArray (map (\<lambda>i. JNumber (to_string_nat i)) ids)),
      (''max_tokens'', JNumber (to_string_nat n)), (''temperature'', JNumber ''0'')]"

lemma to_string_nat_0: "to_string_nat 0 = ''0''"
  using char_eq_iff_byte [of 48 "CHR ''0''"] by (simp add: to_string_nat.simps byte_def)

lemma to_string_nat_zero: "hd (to_string_nat n) = CHR ''0'' \<Longrightarrow> to_string_nat n = ''0''"
proof (induction n rule: to_string_nat.induct)
  case (1 n)
  show ?case
  proof (cases "n < 10")
    case True
    then have "byte (char_of (48 + n)) = 48 + n" by (simp add: byte_char_of)
    moreover have "byte (CHR ''0'') = 48" by (simp add: byte_def)
    ultimately have "n = 0" using 1(2) True by (auto simp: to_string_nat.simps [of n])
    then show ?thesis by (simp add: to_string_nat_0)
  next
    case False
    then have eq: "to_string_nat n = to_string_nat (n div 10) @ [char_of (48 + n mod 10)]"
      by (simp add: to_string_nat.simps [of n])
    then have zero: "hd (to_string_nat (n div 10)) = CHR ''0''" using 1(2) by simp
    have "to_string_nat (n div 10) = ''0''" using 1(1) [OF False zero] .
    then have "n div 10 = decimal_value ''0''" using to_string_nat_value [of "n div 10"] by simp
    then have "n div 10 = 0" by (simp add: decimal_value_def byte_def)
    with False show ?thesis by simp
  qed
qed

lemma json_number_to_string: "json_number (to_string_nat n)"
  unfolding json_number_def
  by (rule exI [of _ "[]"], rule exI [of _ "to_string_nat n"], rule exI [of _ "[]"], rule exI [of _ "[]"])
     (use to_string_nat_digits [of n] to_string_nat_zero [of n] in auto)

lemma parse_uint32_to_string: "n < 2 ^ 32 \<Longrightarrow> parse_uint32 (JNumber (to_string_nat n)) = Some n"
  by (simp add: parse_uint32_def to_uint64_to_string)

lemma parse_token_ids_to_string:
  "\<forall>n\<in>set ids. n < kReferenceVocabularySize \<Longrightarrow>
   parse_token_ids index (map (\<lambda>i. JNumber (to_string_nat i)) ids) acc = Inr (acc @ ids)"
proof (induction ids arbitrary: index acc)
  case (Cons n ids)
  then have "parse_uint32 (JNumber (to_string_nat n)) = Some n"
    by (intro parse_uint32_to_string) (simp add: kReferenceVocabularySize_def)
  with Cons show ?case by simp
qed simp

lemma to_double_zero: "to_double ''0'' = Some 0"
  by (simp add: to_double_def from_chars_double_def from_chars_exponent_def is_decimal_digit_def
      decimal_value_def byte_def round_double_def)

lemma token_request_limits:
  assumes "capacity \<le> kAbsoluteRequestMaxSequenceLength" "length ids \<le> capacity"
    "length (print_json (token_request model ids n)) \<le> 4194304"
  shows "limits_ok (request_parse_options capacity) (token_request model ids n)"
proof -
  have depth: "foldr max (map nesting (map (\<lambda>i. JNumber (to_string_nat i)) ids)) 0 = 0"
    by (induction ids) simp_all
  have sums: "sum_list (map count_values (map (\<lambda>i. JNumber (to_string_nat i)) ids)) = length ids"
    "sum_list (map (\<lambda>v. Suc (count_items v)) (map (\<lambda>i. JNumber (to_string_nat i)) ids)) = length ids"
    by (induction ids) simp_all
  show ?thesis
    using assms(2,3) depth sums unfolding limits_ok_def
    by (simp add: token_request_def request_parse_options_def kAbsoluteMaxNestingDepth_def)
qed

lemma token_request_accepted:
  assumes "model \<noteq> []" "valid_utf8 model" "ids \<noteq> []" "\<forall>i\<in>set ids. i < kReferenceVocabularySize"
    "1 \<le> n" "n \<le> outputs" "n < 2 ^ 32" "length ids + n - 1 \<le> capacity"
    "capacity \<le> kAbsoluteRequestMaxSequenceLength"
    "length (print_json (token_request model ids n)) \<le> 4194304"
  shows "parse_openai_request (print_json (token_request model ids n)) kCompletions model outputs capacity
    = Inr (default_request\<lparr>rq_endpoint := kCompletions, rq_model := model, rq_prompt_token_ids := ids,
        rq_prompt_kind := kTokenIds, rq_max_tokens := n\<rparr>)"
proof -
  let ?nums = "map (\<lambda>i. JNumber (to_string_nat i)) ids"
  let ?doc = "JObject [(''max_tokens'', JNumber (to_string_nat n)), (''model'', JString model),
    (''prompt'', JArray ?nums), (''temperature'', JNumber ''0'')]"
  have zero: "json_number ''0''" using json_number_to_string [of 0] by (simp add: to_string_nat_0)
  have "normal (token_request model ids n) = ?doc"
    by (simp add: token_request_def emplace_all_def less_char_def comp_def)
  moreover have "printable (token_request model ids n)"
    using assms(2) zero by (auto simp: token_request_def json_number_to_string intro!: valid_utf8_ascii)
       (simp_all add: byte_def)
  ultimately have parsed: "json_parse (print_json (token_request model ids n)) (request_parse_options capacity) = Inr ?doc"
    using json_parse_printable token_request_limits [of capacity ids model n] assms by simp
  have find: "find_value ?doc ''model'' = Some (JString model)" "find_value ?doc ''prompt'' = Some (JArray ?nums)"
    "find_value ?doc ''max_tokens'' = Some (JNumber (to_string_nat n))"
    "find_value ?doc ''temperature'' = Some (JNumber ''0'')"
    "find_value ?doc ''max_completion_tokens'' = None" "find_value ?doc ''top_p'' = None"
    "find_value ?doc ''n'' = None" "find_value ?doc ''seed'' = None" "find_value ?doc ''stop'' = None"
    "find_value ?doc ''stream'' = None" "find_value ?doc ''stream_options'' = None"
    by (simp_all add: find_value_def)
  have members: "unexpected_member [(''max_tokens'', JNumber (to_string_nat n)), (''model'', JString model),
      (''prompt'', JArray ?nums), (''temperature'', JNumber ''0'')]
      (common_members @ [payload_member kCompletions]) = None"
    by (simp add: unexpected_member_def common_members_def payload_member_def)
  have "is_number (JNumber ''0'') 0" by (simp add: is_number_def to_double_zero)
  moreover have "0 < outputs" "0 < capacity" "n \<noteq> 0" using assms by (cases ids; auto)+
  ultimately show ?thesis using assms parsed find members
    by (simp add: parse_openai_request_def parse_model_def parse_payload_def payload_member_def
        parse_prompt_def parse_token_ids_to_string parse_max_tokens_def parse_uint32_to_string
        check_capacity_def check_sampling_def parse_seed_def check_stop_def parse_stream_def
        parse_stream_options_def default_request_def require_def Let_def)
qed

text \<open>
  C18. A token-id completion request is understood exactly: for any prompt of vocabulary token ids
  and any output length that fits the configured limits, the body that spells them is accepted
  and yields these token ids and this output length, with greedy defaults elsewhere.
\<close>

theorem token_request_roundtrip:
  assumes "model \<noteq> []" "valid_utf8 model" "ids \<noteq> []" "\<forall>i\<in>set ids. i < kReferenceVocabularySize"
    "1 \<le> n" "n \<le> outputs" "n < 2 ^ 32" "length ids + n - 1 \<le> capacity"
    "capacity \<le> kAbsoluteRequestMaxSequenceLength"
    "length (print_json (token_request model ids n)) \<le> 4194304"
  shows "parse_openai_request (print_json (token_request model ids n)) kCompletions model outputs capacity
    = Inr (default_request\<lparr>rq_endpoint := kCompletions, rq_model := model, rq_prompt_token_ids := ids,
        rq_prompt_kind := kTokenIds, rq_max_tokens := n\<rparr>)"
  using assms by (rule token_request_accepted)

subsection \<open>Witnesses\<close>

lemma digit_text: "to_string_nat 7 = ''7''" "to_string_nat 9 = ''9''" "to_string_nat 2 = ''2''"
  using char_eq_iff_byte [of 55 "CHR ''7''"] char_eq_iff_byte [of 57 "CHR ''9''"]
    char_eq_iff_byte [of 50 "CHR ''2''"]
  by (simp_all add: to_string_nat.simps byte_def)

lemma sample_conditions:
  "''q'' \<noteq> []" "valid_utf8 ''q''" "[7, 9] \<noteq> []" "\<forall>i\<in>set [7, 9::nat]. i < kReferenceVocabularySize"
  "(1::nat) \<le> 2" "(2::nat) \<le> 8" "(2::nat) < 2 ^ 32" "length [7, 9] + 2 - 1 \<le> (16::nat)"
  "(16::nat) \<le> kAbsoluteRequestMaxSequenceLength"
  "length (print_json (token_request ''q'' [7, 9] 2)) \<le> 4194304"
  by (simp_all add: kReferenceVocabularySize_def kAbsoluteRequestMaxSequenceLength_def token_request_def
      quoted_def append_json_byte_def digit_text valid_utf8_ascii byte_def)

lemmas sample_accepted = token_request_accepted [OF sample_conditions]

theorem token_request_roundtrip_witness:
  "\<exists>r. parse_openai_request (print_json (token_request ''q'' [7, 9] 2)) kCompletions ''q'' 8 16 = Inr r \<and>
     rq_prompt_token_ids r = [7, 9] \<and> rq_max_tokens r = 2"
  using token_request_roundtrip [OF sample_conditions] by simp

theorem accepted_request_bounded_witness:
  "\<exists>r. parse_openai_request (print_json (token_request ''q'' [7, 9] 2)) kCompletions ''q'' 8 16 = Inr r \<and>
     length (rq_prompt_token_ids r) + rq_max_tokens r - 1 \<le> 16"
  using accepted_request_bounded [OF sample_accepted] sample_accepted by simp

theorem accepted_request_greedy_witness:
  "\<exists>members t. json_parse (print_json (token_request ''q'' [7, 9] 2)) (request_parse_options 16)
       = Inr (JObject members) \<and>
     find_value (JObject members) ''temperature'' = Some (JNumber t) \<and> to_double t = Some 0"
  using accepted_request_greedy [OF sample_accepted] by blast

end
