(* ===== verification/Openai_Responses.thy ===== *)
theory Openai_Responses
  imports Openai_Request
begin

text \<open>
  The response side of \<^verbatim>\<open>src/server/openai_protocol.cpp\<close>: the texts of completions, stream chunks, errors
  and discovery responses, and the bearer-token comparison. The responses are concatenations of
  fixed text and \<open>append_json_string\<close>; each is shown to be the text of a JSON document, so that a
  client reads exactly the fields the server meant.
\<close>

subsection \<open>Shared pieces\<close>

datatype openai_finish_reason = kStop | kLength

definition finish_reason_to_string :: "openai_finish_reason \<Rightarrow> string" where
  "finish_reason_to_string reason = (case reason of kStop \<Rightarrow> ''stop'' | kLength \<Rightarrow> ''length'')"

definition endpoint_to_string :: "openai_endpoint \<Rightarrow> string" where
  "endpoint_to_string endpoint =
     (case endpoint of kChatCompletions \<Rightarrow> ''/v1/chat/completions'' | kCompletions \<Rightarrow> ''/v1/completions'')"

definition prompt_kind_to_string :: "openai_prompt_kind \<Rightarrow> string" where
  "prompt_kind_to_string kind =
     (case kind of kChatMessages \<Rightarrow> ''chat_messages'' | kRawText \<Rightarrow> ''raw_text'' | kTokenIds \<Rightarrow> ''token_ids'')"

record openai_usage =
  prompt_tokens :: nat
  completion_tokens :: nat
  total_tokens :: nat

definition append_common_prefix :: "string \<Rightarrow> string \<Rightarrow> string \<Rightarrow> int \<Rightarrow> string \<Rightarrow> string" where
  "append_common_prefix output i object created model =
     (let output = output @ ''{\"id\":'';
          output = append_json_string output i;
          output = output @ '',\"object\":'';
          output = append_json_string output object;
          output = output @ '',\"created\":'' @ to_string_int created @ '',\"model\":''
      in append_json_string output model)"

definition append_usage :: "string \<Rightarrow> openai_usage \<Rightarrow> string" where
  "append_usage output usage =
     output @ ''{\"prompt_tokens\":'' @ to_string_nat (prompt_tokens usage) @
     '',\"completion_tokens\":'' @ to_string_nat (completion_tokens usage) @
     '',\"total_tokens\":'' @ to_string_nat (total_tokens usage) @ ''}''"

subsection \<open>Completions and chunks\<close>

definition serialize_chat_completion ::
  "string \<Rightarrow> int \<Rightarrow> string \<Rightarrow> string \<Rightarrow> openai_finish_reason \<Rightarrow> openai_usage \<Rightarrow> string" where
  "serialize_chat_completion i created model text finish_reason usage =
     (let output = append_common_prefix [] i ''chat.completion'' created model;
          output = output @ '',\"choices\":[{\"index\":0,\"message\":{\"role\":\"assistant\",\"content\":'';
          output = append_json_string output text;
          output = output @ ''},\"logprobs\":null,\"finish_reason\":'';
          output = append_json_string output (finish_reason_to_string finish_reason);
          output = output @ ''}],\"usage\":'';
          output = append_usage output usage
      in output @ ''}'')"

definition serialize_text_completion ::
  "string \<Rightarrow> int \<Rightarrow> string \<Rightarrow> string \<Rightarrow> openai_finish_reason \<Rightarrow> openai_usage \<Rightarrow> string" where
  "serialize_text_completion i created model text finish_reason usage =
     (let output = append_common_prefix [] i ''text_completion'' created model;
          output = output @ '',\"choices\":[{\"index\":0,\"text\":'';
          output = append_json_string output text;
          output = output @ '',\"logprobs\":null,\"finish_reason\":'';
          output = append_json_string output (finish_reason_to_string finish_reason);
          output = output @ ''}],\"usage\":'';
          output = append_usage output usage
      in output @ ''}'')"

definition append_finish_reason :: "string \<Rightarrow> openai_finish_reason option \<Rightarrow> string" where
  "append_finish_reason output finish_reason =
     (case finish_reason of
        Some reason \<Rightarrow> append_json_string output (finish_reason_to_string reason)
      | None \<Rightarrow> output @ ''null'')"

definition serialize_chat_chunk ::
  "string \<Rightarrow> int \<Rightarrow> string \<Rightarrow> string \<Rightarrow> bool \<Rightarrow> openai_finish_reason option \<Rightarrow> string" where
  "serialize_chat_chunk i created model text_delta include_role finish_reason =
     (let output = append_common_prefix [] i ''chat.completion.chunk'' created model;
          output = output @ '',\"choices\":[{\"index\":0,\"delta\":{'';
          output = (if include_role then output @ ''\"role\":\"assistant\",'' else output);
          output = output @ ''\"content\":'';
          output = append_json_string output text_delta;
          output = output @ ''},\"logprobs\":null,\"finish_reason\":'';
          output = append_finish_reason output finish_reason
      in output @ ''}]}'')"

definition serialize_text_chunk ::
  "string \<Rightarrow> int \<Rightarrow> string \<Rightarrow> string \<Rightarrow> openai_finish_reason option \<Rightarrow> string" where
  "serialize_text_chunk i created model text_delta finish_reason =
     (let output = append_common_prefix [] i ''text_completion'' created model;
          output = output @ '',\"choices\":[{\"index\":0,\"text\":'';
          output = append_json_string output text_delta;
          output = output @ '',\"logprobs\":null,\"finish_reason\":'';
          output = append_finish_reason output finish_reason
      in output @ ''}]}'')"

definition serialize_usage_chunk ::
  "openai_endpoint \<Rightarrow> string \<Rightarrow> int \<Rightarrow> string \<Rightarrow> openai_usage \<Rightarrow> string" where
  "serialize_usage_chunk endpoint i created model usage =
     (let output = append_common_prefix [] i
            (if endpoint = kChatCompletions then ''chat.completion.chunk'' else ''text_completion'') created model;
          output = output @ '',\"choices\":[],\"usage\":'';
          output = append_usage output usage
      in output @ ''}'')"

definition serialize_openai_error :: "openai_error \<Rightarrow> string" where
  "serialize_openai_error error =
     (let output = ''{\"error\":{\"message\":'';
          output = append_json_string output (err_message error);
          output = output @ '',\"type\":\"invalid_request_error\",\"param\":'';
          output = (if err_param error = [] then output @ ''null'' else append_json_string output (err_param error));
          output = output @ '',\"code\":'';
          output = append_json_string output (err_code error)
      in output @ ''}}'')"

subsection \<open>Discovery\<close>

record production_identity =
  profile_id :: string
  decode_route_id :: string
  target_prompt_tokens :: nat
  maximum_output_tokens :: nat
  max_sequence_length :: nat
  request_arena_bytes :: nat
  prefill_supermatrix_projections :: nat
  prefill_supermatrix_sidecar_bytes :: nat
  decode_fp8_output_layers :: nat
  decode_fp8_output_sidecar_bytes :: nat
  decode_gate_up_layers :: nat
  decode_gate_up_sidecar_bytes :: nat
  decode_down_scale6_layers :: nat
  decode_down_scale6_sidecar_bytes :: nat
  decode_down_consumer_order_layers :: nat
  decode_down_consumer_order_sidecar_bytes :: nat
  decode_retained_sidecar_bytes :: nat
  retained_acceleration_sidecar_bytes :: nat
  decode_graph_first_position :: nat
  decode_graph_last_position :: nat
  decode_graph_slots :: nat
  build_testing :: bool
  production_eligible :: bool
  release_qualified :: bool

text \<open>The build flag \<^verbatim>\<open>Q3X_ENABLE_MTP_SERVICE\<close> is the first argument.\<close>

definition append_production_identity :: "bool \<Rightarrow> string \<Rightarrow> production_identity \<Rightarrow> string" where
  "append_production_identity mtp_service output p =
     (let output = append_json_string (output @ ''{\"profile\":'') (profile_id p);
          output = (if mtp_service
            then output @ '',\"mtp_enabled\":true,\"acceleration_candidate\":true,\"maximum_prompt_tokens\":44095''
            else output);
          output = output @ '',\"capacity\":{\"target_prompt_tokens\":'' @ to_string_nat (target_prompt_tokens p);
          output = output @ '',\"maximum_output_tokens\":'' @ to_string_nat (maximum_output_tokens p);
          output = output @ '',\"max_sequence_length\":'' @ to_string_nat (max_sequence_length p);
          output = output @ '',\"request_arena_bytes\":'' @ to_string_nat (request_arena_bytes p);
          output = output @ ''},\"prefill\":{\"supermatrix_projections\":'' @ to_string_nat (prefill_supermatrix_projections p);
          output = output @ '',\"supermatrix_sidecar_bytes\":'' @ to_string_nat (prefill_supermatrix_sidecar_bytes p);
          output = append_json_string (output @ ''},\"decode\":{\"route\":'') (decode_route_id p);
          output = output @ '',\"fp8_output_layers\":'' @ to_string_nat (decode_fp8_output_layers p);
          output = output @ '',\"fp8_output_sidecar_bytes\":'' @ to_string_nat (decode_fp8_output_sidecar_bytes p);
          output = output @ '',\"gate_up_layers\":'' @ to_string_nat (decode_gate_up_layers p);
          output = output @ '',\"gate_up_sidecar_bytes\":'' @ to_string_nat (decode_gate_up_sidecar_bytes p);
          output = output @ '',\"down_scale6_layers\":'' @ to_string_nat (decode_down_scale6_layers p);
          output = output @ '',\"down_scale6_sidecar_bytes\":'' @ to_string_nat (decode_down_scale6_sidecar_bytes p);
          output = output @ '',\"down_consumer_order_layers\":'' @ to_string_nat (decode_down_consumer_order_layers p);
          output = output @ '',\"down_consumer_order_sidecar_bytes\":'' @ to_string_nat (decode_down_consumer_order_sidecar_bytes p);
          output = output @ '',\"retained_sidecar_bytes\":'' @ to_string_nat (decode_retained_sidecar_bytes p);
          output = output @ '',\"graph_cache\":{\"first_position\":'' @ to_string_nat (decode_graph_first_position p);
          output = output @ '',\"last_position\":'' @ to_string_nat (decode_graph_last_position p);
          output = output @ '',\"slots\":'' @ to_string_nat (decode_graph_slots p);
          output = output @ ''}'';
          output = output @ ''},\"retained_acceleration_sidecar_bytes\":'' @ to_string_nat (retained_acceleration_sidecar_bytes p);
          output = output @ '',\"BUILD_TESTING\":'' @ (if build_testing p then ''true'' else ''false'');
          output = output @ '',\"production_eligible\":'' @ (if production_eligible p then ''true'' else ''false'');
          output = output @ '',\"release_qualified\":'' @ (if release_qualified p then ''true'' else ''false'')
      in output @ ''}'')"

definition serialize_models_response :: "bool \<Rightarrow> string \<Rightarrow> int \<Rightarrow> production_identity \<Rightarrow> string" where
  "serialize_models_response mtp_service served_model created production =
     (let output = append_json_string ''{\"object\":\"list\",\"data\":[{\"id\":'' served_model;
          output = output @ '',\"object\":\"model\",\"created\":'' @ to_string_int created @
            '',\"owned_by\":\"qwen3x-orin\",\"q3x_production\":'';
          output = append_production_identity mtp_service output production
      in output @ ''}]}'')"

definition serialize_health_response :: "bool \<Rightarrow> string \<Rightarrow> production_identity \<Rightarrow> string" where
  "serialize_health_response mtp_service served_model production =
     (let output = append_json_string ''{\"status\":\"ok\",\"ready\":true,\"model\":'' served_model;
          output = append_production_identity mtp_service (output @ '',\"q3x_production\":'') production
      in output @ ''}'')"

definition serialize_unhealthy_health_response ::
  "bool \<Rightarrow> string \<Rightarrow> production_identity \<Rightarrow> string \<Rightarrow> string" where
  "serialize_unhealthy_health_response mtp_service served_model production reason =
     (let output = append_json_string ''{\"status\":\"unhealthy\",\"ready\":false,\"model\":'' served_model;
          output = append_json_string (output @ '',\"reason\":'') reason;
          output = append_production_identity mtp_service (output @ '',\"q3x_production\":'') production
      in output @ ''}'')"

definition serialize_p40_whole_core_v10_models_response :: "string \<Rightarrow> int \<Rightarrow> string" where
  "serialize_p40_whole_core_v10_models_response served_model created =
     (let output = append_json_string ''{\"object\":\"list\",\"data\":[{\"id\":'' served_model;
          output = output @ '',\"object\":\"model\",\"created\":'' @ to_string_int created @
            '',\"owned_by\":\"qwen3x-orin\",'';
          output = output @ ''\"q3x_development_route\":{\"id\":\"p40-whole-core-v10\",'';
          output = output @ ''\"numerical_contract\":{\"qualified\":false,\"reason\":'';
          output = append_json_string output ''known-p513-full-state-mismatch-in-inherited-flashinfer-arithmetic'';
          output = output @ '',\"p40000_full_state\":\"not_measured\"},\"evidence\":{\"artifact\":'';
          output = append_json_string output ''qwen36-27b-prefill-p40k-whole-core-direction-2026-08-10.json'';
          output = output @ '',\"sha256\":'';
          output = append_json_string output ''b0847b1f1965570d7311f6b73c137f11e34bc65c893ae76783583bb4fcd7a9fa''
      in output @ ''},\"release_qualified\":false,\"production_eligible\":false}}]}'')"

definition serialize_p40_whole_core_v10_health_response :: "string \<Rightarrow> string" where
  "serialize_p40_whole_core_v10_health_response served_model =
     (let output = append_json_string ''{\"status\":\"ok\",\"ready\":true,\"model\":'' served_model;
          output = output @ '',\"development_route\":\"p40-whole-core-v10\",'';
          output = output @ ''\"numerical_contract\":{\"qualified\":false,\"reason\":'';
          output = append_json_string output ''known-p513-full-state-mismatch-in-inherited-flashinfer-arithmetic'';
          output = output @ '',\"p40000_full_state\":\"not_measured\",\"evidence\":{\"artifact\":'';
          output = append_json_string output ''qwen36-27b-prefill-p40k-whole-core-direction-2026-08-10.json'';
          output = output @ '',\"sha256\":'';
          output = append_json_string output ''b0847b1f1965570d7311f6b73c137f11e34bc65c893ae76783583bb4fcd7a9fa''
      in output @ ''}},\"release_qualified\":false,\"production_eligible\":false}'')"

subsection \<open>Bearer authorization\<close>

text \<open>
  The comparison accumulates differences over the length of the expected header, whatever the
  peer sent; \<^verbatim>\<open>std::size_t\<close> is 64 bits wide.
\<close>

definition bearer_prefix :: string where
  "bearer_prefix = ''Bearer ''"

fun bearer_difference :: "string \<Rightarrow> string \<Rightarrow> nat \<Rightarrow> nat \<Rightarrow> u64 \<Rightarrow> u64" where
  "bearer_difference authorization api_key index 0 difference = difference"
| "bearer_difference authorization api_key index (Suc left) difference =
     (let expected = byte (if index < length bearer_prefix then bearer_prefix ! index
                           else api_key ! (index - length bearer_prefix));
          actual = (if index < length authorization then byte (authorization ! index) else 0)
      in bearer_difference authorization api_key (index + 1) left
           (difference OR word_of_nat (actual XOR expected)))"

definition constant_time_bearer_authorization_matches :: "string \<Rightarrow> string \<Rightarrow> bool" where
  "constant_time_bearer_authorization_matches authorization api_key =
     (let expected_size = length bearer_prefix + length api_key;
          difference = (word_of_nat (length authorization) XOR word_of_nat expected_size :: u64);
          difference = difference OR (if api_key = [] then 1 else 0)
      in bearer_difference authorization api_key 0 expected_size difference = 0)"

subsection \<open>Responses are the text of documents\<close>

lemma json_number_int: "json_number (to_string_int i)"
proof (cases "i < 0")
  case True
  show ?thesis
    unfolding json_number_def to_string_int_def
    by (rule exI [of _ "''-''"], rule exI [of _ "to_string_nat (nat (- i))"], rule exI [of _ "[]"], rule exI [of _ "[]"])
       (use True to_string_nat_digits [of "nat (- i)"] to_string_nat_zero [of "nat (- i)"] in auto)
qed (simp add: to_string_int_def json_number_to_string)

lemma json_number_0: "json_number ''0''"
  using json_number_to_string [of 0] by (simp add: to_string_nat_0)

lemmas json_numbers = json_number_int json_number_to_string json_number_0

lemma quoted_names:
  "quoted ''id'' = ''\"id\"''" "quoted ''object'' = ''\"object\"''" "quoted ''created'' = ''\"created\"''"
  "quoted ''model'' = ''\"model\"''" "quoted ''choices'' = ''\"choices\"''" "quoted ''index'' = ''\"index\"''"
  "quoted ''message'' = ''\"message\"''" "quoted ''role'' = ''\"role\"''" "quoted ''assistant'' = ''\"assistant\"''"
  "quoted ''content'' = ''\"content\"''" "quoted ''logprobs'' = ''\"logprobs\"''"
  "quoted ''finish_reason'' = ''\"finish_reason\"''" "quoted ''usage'' = ''\"usage\"''"
  "quoted ''prompt_tokens'' = ''\"prompt_tokens\"''" "quoted ''completion_tokens'' = ''\"completion_tokens\"''"
  "quoted ''total_tokens'' = ''\"total_tokens\"''" "quoted ''text'' = ''\"text\"''" "quoted ''delta'' = ''\"delta\"''"
  "quoted ''error'' = ''\"error\"''" "quoted ''type'' = ''\"type\"''" "quoted ''param'' = ''\"param\"''"
  "quoted ''code'' = ''\"code\"''" "quoted ''invalid_request_error'' = ''\"invalid_request_error\"''"
  by (simp_all add: quoted_def append_json_byte_def byte_def)

definition usage_doc :: "openai_usage \<Rightarrow> json_value" where
  "usage_doc u = JObject [(''prompt_tokens'', JNumber (to_string_nat (prompt_tokens u))),
     (''completion_tokens'', JNumber (to_string_nat (completion_tokens u))),
     (''total_tokens'', JNumber (to_string_nat (total_tokens u)))]"

definition finish_doc :: "openai_finish_reason option \<Rightarrow> json_value" where
  "finish_doc reason = (case reason of Some r \<Rightarrow> JString (finish_reason_to_string r) | None \<Rightarrow> JNull)"

text \<open>The members every response starts with, before its choices and usage.\<close>

definition response_doc :: "string \<Rightarrow> string \<Rightarrow> int \<Rightarrow> string \<Rightarrow> (string \<times> json_value) list \<Rightarrow> json_value" where
  "response_doc i object created model members = JObject
     ([(''id'', JString i), (''object'', JString object), (''created'', JNumber (to_string_int created)),
       (''model'', JString model)] @ members)"

definition choice_doc :: "(string \<times> json_value) list \<Rightarrow> json_value \<Rightarrow> json_value" where
  "choice_doc payload reason = JArray [JObject ((''index'', JNumber ''0'') # payload @
     [(''logprobs'', JNull), (''finish_reason'', reason)])]"

lemmas response_text = append_common_prefix_def append_usage_def append_finish_reason_def Let_def
  append_json_string_quoted response_doc_def choice_doc_def usage_doc_def finish_doc_def quoted_names

lemma serialize_chat_completion_doc:
  "serialize_chat_completion i created model text reason usage = print_json
     (response_doc i ''chat.completion'' created model
        [(''choices'', choice_doc [(''message'', JObject [(''role'', JString ''assistant''), (''content'', JString text)])]
            (finish_doc (Some reason))), (''usage'', usage_doc usage)])"
  by (simp add: serialize_chat_completion_def response_text)

lemma serialize_text_completion_doc:
  "serialize_text_completion i created model text reason usage = print_json
     (response_doc i ''text_completion'' created model
        [(''choices'', choice_doc [(''text'', JString text)] (finish_doc (Some reason))), (''usage'', usage_doc usage)])"
  by (simp add: serialize_text_completion_def response_text)

lemma serialize_chat_chunk_doc:
  "serialize_chat_chunk i created model delta include_role reason = print_json
     (response_doc i ''chat.completion.chunk'' created model
        [(''choices'', choice_doc [(''delta'', JObject ((if include_role then [(''role'', JString ''assistant'')] else []) @
            [(''content'', JString delta)]))] (finish_doc reason))])"
  by (cases reason) (simp_all add: serialize_chat_chunk_def response_text)

lemma serialize_text_chunk_doc:
  "serialize_text_chunk i created model delta reason = print_json
     (response_doc i ''text_completion'' created model
        [(''choices'', choice_doc [(''text'', JString delta)] (finish_doc reason))])"
  by (cases reason) (simp_all add: serialize_text_chunk_def response_text)

lemma serialize_usage_chunk_doc:
  "serialize_usage_chunk endpoint i created model usage = print_json
     (response_doc i (if endpoint = kChatCompletions then ''chat.completion.chunk'' else ''text_completion'') created model
        [(''choices'', JArray []), (''usage'', usage_doc usage)])"
  by (simp add: serialize_usage_chunk_def response_text)

lemma serialize_openai_error_doc:
  "serialize_openai_error e = print_json (JObject [(''error'', JObject
     [(''message'', JString (err_message e)), (''type'', JString ''invalid_request_error''),
      (''param'', if err_param e = [] then JNull else JString (err_param e)), (''code'', JString (err_code e))])])"
  by (simp add: serialize_openai_error_def Let_def append_json_string_quoted quoted_names)

subsection \<open>Clients read what the server wrote\<close>

lemma valid_utf8_text: "list_all (\<lambda>c. of_char c < (128::nat)) s \<Longrightarrow> valid_utf8 s"
  by (rule valid_utf8_ascii) (simp add: byte_def)

lemma valid_utf8_finish [simp]: "valid_utf8 (finish_reason_to_string reason)"
  by (cases reason) (simp_all add: finish_reason_to_string_def valid_utf8_text)

text \<open>A response document in reading order, and the limits its shape needs.\<close>

lemma response_doc_limits:
  assumes "length (print_json d) \<le> 100000000" "nesting d \<le> 8" "count_values d \<le> 100" "count_items d \<le> 100"
  shows "limits_ok default_parse_options d"
  using assms by (simp add: limits_ok_def default_parse_options_def kAbsoluteMaxNestingDepth_def)

lemmas response_shape = response_doc_def choice_doc_def usage_doc_def finish_doc_def

lemma response_read:
  assumes "printable d" "nesting d \<le> 8" "count_values d \<le> 100" "count_items d \<le> 100"
    "s = print_json d" "length s \<le> 100000000"
  shows "json_parse s default_parse_options = Inr (normal d)"
  using json_parse_printable [OF assms(1) response_doc_limits] assms by simp

text \<open>The documents a client gets, with their members in key order.\<close>

definition read_choice :: "openai_finish_reason option \<Rightarrow> (string \<times> json_value) list \<Rightarrow> json_value" where
  "read_choice reason payload = JArray [JObject ([(''finish_reason'', finish_doc reason),
     (''index'', JNumber ''0''), (''logprobs'', JNull)] @ payload)]"

definition read_usage :: "openai_usage \<Rightarrow> json_value" where
  "read_usage usage = JObject [(''completion_tokens'', JNumber (to_string_nat (completion_tokens usage))),
     (''prompt_tokens'', JNumber (to_string_nat (prompt_tokens usage))),
     (''total_tokens'', JNumber (to_string_nat (total_tokens usage)))]"

definition read_response :: "json_value \<Rightarrow> string \<Rightarrow> string \<Rightarrow> int \<Rightarrow> string \<Rightarrow> (string \<times> json_value) list \<Rightarrow> json_value" where
  "read_response choices i object created model tail = JObject
     ([(''choices'', choices), (''created'', JNumber (to_string_int created)), (''id'', JString i),
       (''model'', JString model), (''object'', JString object)] @ tail)"

lemmas read_shape = response_shape read_choice_def read_usage_def read_response_def json_numbers
  valid_utf8_text emplace_all_def less_char_def

text \<open>
  C21. A client that reads a completion finds the generated text, the finish reason, the identity
  fields and the token counts the server put in, for a chat and for a text completion, whatever
  characters the text holds.
\<close>

theorem completion_response_readable:
  assumes "valid_utf8 i" "valid_utf8 model" "valid_utf8 text"
    "length (serialize_chat_completion i created model text reason usage) \<le> 100000000"
    "length (serialize_text_completion i created model text reason usage) \<le> 100000000"
  shows "json_parse (serialize_chat_completion i created model text reason usage) default_parse_options =
      Inr (read_response (read_choice (Some reason)
          [(''message'', JObject [(''content'', JString text), (''role'', JString ''assistant'')])])
        i ''chat.completion'' created model [(''usage'', read_usage usage)]) \<and>
    json_parse (serialize_text_completion i created model text reason usage) default_parse_options =
      Inr (read_response (read_choice (Some reason) [(''text'', JString text)])
        i ''text_completion'' created model [(''usage'', read_usage usage)])"
  using assms
  by (subst response_read [OF _ _ _ _ serialize_chat_completion_doc],
      simp_all add: read_shape, subst response_read [OF _ _ _ _ serialize_text_completion_doc])
     (simp_all add: read_shape)

theorem completion_response_readable_witness:
  "json_parse (serialize_text_completion ''c'' 5 ''q'' [CHR 0x0A] kStop \<lparr>prompt_tokens = 1, completion_tokens = 1, total_tokens = 2\<rparr>)
     default_parse_options =
   Inr (read_response (read_choice (Some kStop) [(''text'', JString [CHR 0x0A])]) ''c'' ''text_completion'' 5 ''q''
     [(''usage'', read_usage \<lparr>prompt_tokens = 1, completion_tokens = 1, total_tokens = 2\<rparr>)])"
proof -
  let ?u = "\<lparr>prompt_tokens = 1, completion_tokens = 1, total_tokens = 2\<rparr>"
  have "length (serialize_chat_completion ''c'' 5 ''q'' [CHR 0x0A] kStop ?u) \<le> 100000000"
    "length (serialize_text_completion ''c'' 5 ''q'' [CHR 0x0A] kStop ?u) \<le> 100000000"
    by (simp_all add: serialize_chat_completion_def serialize_text_completion_def response_text quoted_def
        append_json_byte_def byte_def finish_reason_to_string_def to_string_int_def to_string_nat.simps)
  then show ?thesis
    by (rule completion_response_readable [THEN conjunct2, rotated 3]) (simp_all add: valid_utf8_text)
qed

text \<open>The chunks of a stream: the ones of tokens, and the one with the usage.\<close>

lemma chat_chunk_readable:
  assumes "valid_utf8 i" "valid_utf8 model" "valid_utf8 delta"
    "length (serialize_chat_chunk i created model delta include_role reason) \<le> 100000000"
  shows "json_parse (serialize_chat_chunk i created model delta include_role reason) default_parse_options =
      Inr (read_response (JArray [JObject [(''delta'', JObject ((''content'', JString delta) #
            (if include_role then [(''role'', JString ''assistant'')] else []))),
          (''finish_reason'', finish_doc reason), (''index'', JNumber ''0''), (''logprobs'', JNull)]])
        i ''chat.completion.chunk'' created model [])"
  using assms
  by (cases reason; cases include_role; subst response_read [OF _ _ _ _ serialize_chat_chunk_doc])
     (simp_all add: read_shape)

lemma text_chunk_readable:
  assumes "valid_utf8 i" "valid_utf8 model" "valid_utf8 delta"
    "length (serialize_text_chunk i created model delta reason) \<le> 100000000"
  shows "json_parse (serialize_text_chunk i created model delta reason) default_parse_options =
      Inr (read_response (read_choice reason [(''text'', JString delta)]) i ''text_completion'' created model [])"
  using assms
  by (cases reason; subst response_read [OF _ _ _ _ serialize_text_chunk_doc]) (simp_all add: read_shape)

lemma usage_chunk_readable:
  assumes "valid_utf8 i" "valid_utf8 model" "length (serialize_usage_chunk endpoint i created model usage) \<le> 100000000"
  shows "json_parse (serialize_usage_chunk endpoint i created model usage) default_parse_options =
      Inr (read_response (JArray []) i (if endpoint = kChatCompletions then ''chat.completion.chunk'' else ''text_completion'')
        created model [(''usage'', read_usage usage)])"
  using assms by (subst response_read [OF _ _ _ _ serialize_usage_chunk_doc]) (simp_all add: read_shape)

text \<open>
  The body of an error response is a JSON document that carries the message, the parameter
  (null when there is none) and the code of the error.
\<close>

theorem error_response_readable:
  assumes "valid_utf8 (err_message e)" "valid_utf8 (err_param e)" "valid_utf8 (err_code e)"
    "length (serialize_openai_error e) \<le> 100000000"
  shows "json_parse (serialize_openai_error e) default_parse_options = Inr (JObject [(''error'', JObject
     [(''code'', JString (err_code e)), (''message'', JString (err_message e)),
      (''param'', if err_param e = [] then JNull else JString (err_param e)),
      (''type'', JString ''invalid_request_error'')])])"
  using assms
  by (subst response_read [OF _ _ _ _ serialize_openai_error_doc]) (simp_all add: read_shape)

theorem error_response_readable_witness:
  "json_parse (serialize_openai_error (bad_request ''c'' ''m'' [])) default_parse_options = Inr (JObject [(''error'', JObject
     [(''code'', JString ''c''), (''message'', JString ''m''), (''param'', JNull),
      (''type'', JString ''invalid_request_error'')])])"
proof -
  have "length (serialize_openai_error (bad_request ''c'' ''m'' [])) \<le> 100000000"
    by (simp add: serialize_openai_error_def protocol_error_def Let_def append_json_string_quoted quoted_def
        append_json_byte_def byte_def)
  from error_response_readable [OF _ _ _ this] show ?thesis
    by (simp add: protocol_error_def valid_utf8_text)
qed

subsection \<open>Bearer authorization\<close>

lemma word_xor_zero: "x XOR y = 0 \<longleftrightarrow> x = y" for x y :: "'a::len word"
proof
  assume "x XOR y = 0"
  then have "x XOR (x XOR y) = x" by simp
  then show "x = y" by (simp add: xor.assoc [symmetric])
qed simp

lemma nat_xor_zero: "x XOR y = 0 \<longleftrightarrow> x = y" for x y :: nat
proof
  assume "x XOR y = 0"
  then have "x XOR (x XOR y) = x" by simp
  then show "x = y" by (simp add: xor.assoc [symmetric])
qed simp

lemma word_of_nat_inject64:
  "m < 2 ^ 64 \<Longrightarrow> n < 2 ^ 64 \<Longrightarrow> (word_of_nat m :: u64) = word_of_nat n \<longleftrightarrow> m = n"
  by (simp add: word_of_nat_eq_iff take_bit_nat_eq_self)

lemma byte_xor_zero: "(word_of_nat (byte a XOR byte b) :: u64) = 0 \<longleftrightarrow> a = b"
proof -
  have "take_bit 8 (byte a XOR byte b) = byte a XOR byte b"
    using byte_less [of a] byte_less [of b] by (simp add: take_bit_nat_eq_self)
  then have "byte a XOR byte b < 256" using take_bit_nat_less_exp [of 8 "byte a XOR byte b"] by simp
  then have "(word_of_nat (byte a XOR byte b) :: u64) = 0 \<longleftrightarrow> byte a XOR byte b = 0"
    by (auto simp: word_of_nat_eq_0_iff dest!: dvd_imp_le)
  also have "\<dots> \<longleftrightarrow> byte a = byte b"
    by (rule nat_xor_zero)
  finally show ?thesis by simp
qed

definition bearer_byte :: "string \<Rightarrow> nat \<Rightarrow> char" where
  "bearer_byte api_key index =
     (if index < length bearer_prefix then bearer_prefix ! index else api_key ! (index - length bearer_prefix))"

definition bearer_step :: "string \<Rightarrow> string \<Rightarrow> nat \<Rightarrow> u64" where
  "bearer_step authorization api_key index =
     word_of_nat ((if index < length authorization then byte (authorization ! index) else 0)
       XOR byte (bearer_byte api_key index))"

lemma bearer_difference_Suc:
  "bearer_difference authorization api_key index (Suc n) difference =
   bearer_difference authorization api_key (index + 1) n (difference OR bearer_step authorization api_key index)"
  by (simp add: bearer_step_def bearer_byte_def Let_def)

lemma bearer_difference_all:
  "bearer_difference authorization api_key index n difference = 0 \<longleftrightarrow>
     difference = 0 \<and> (\<forall>k<n. bearer_step authorization api_key (index + k) = 0)"
proof (induction n arbitrary: index difference)
  case (Suc n)
  have all: "(\<forall>k<Suc n. bearer_step authorization api_key (index + k) = 0) \<longleftrightarrow>
      bearer_step authorization api_key index = 0 \<and>
      (\<forall>k<n. bearer_step authorization api_key (index + 1 + k) = 0)"
    unfolding All_less_Suc2 by (simp only: add_0_right add_Suc_right add_Suc One_nat_def)
  show ?case unfolding bearer_difference_Suc Suc.IH all or_eq_0_iff by (simp only: conj_assoc)
qed simp

lemma bearer_step_zero:
  "index < length authorization \<Longrightarrow>
   bearer_step authorization api_key index = 0 \<longleftrightarrow> authorization ! index = bearer_byte api_key index"
  by (simp only: bearer_step_def if_True byte_xor_zero)

lemma bearer_matches_iff:
  assumes "length authorization < 2 ^ 64" "length api_key + 7 < 2 ^ 64"
  shows "constant_time_bearer_authorization_matches authorization api_key \<longleftrightarrow>
    api_key \<noteq> [] \<and> authorization = ''Bearer '' @ api_key"
proof -
  let ?n = "length bearer_prefix + length api_key"
  let ?d = "(word_of_nat (length authorization) XOR word_of_nat ?n) OR (if api_key = [] then 1 else 0) :: u64"
  have n: "?n = length api_key + 7" by (simp add: bearer_prefix_def)
  have size: "(word_of_nat (length authorization) XOR word_of_nat ?n :: u64) = 0 \<longleftrightarrow> length authorization = ?n"
    using assms unfolding word_xor_zero n by (intro word_of_nat_inject64) simp_all
  have diff: "?d = 0 \<longleftrightarrow> length authorization = ?n \<and> api_key \<noteq> []"
    unfolding or_eq_0_iff size by simp
  have same: "(\<forall>k<?n. bearer_step authorization api_key (0 + k) = 0) \<longleftrightarrow> authorization = bearer_prefix @ api_key"
    if "length authorization = ?n"
    using that by (simp add: bearer_step_zero list_eq_iff_nth_eq bearer_byte_def nth_append)
  have "constant_time_bearer_authorization_matches authorization api_key \<longleftrightarrow>
      (length authorization = ?n \<and> api_key \<noteq> []) \<and> (\<forall>k<?n. bearer_step authorization api_key (0 + k) = 0)"
    unfolding constant_time_bearer_authorization_matches_def Let_def bearer_difference_all diff ..
  with same show ?thesis by (auto simp: bearer_prefix_def)
qed

text \<open>
  C20. The constant-time comparison accepts exactly the header \<^verbatim>\<open>Bearer\<close> followed by the configured
  key, and never accepts when no key is configured. The lengths are those of real strings,
  below the range of \<^verbatim>\<open>std::size_t\<close>.
\<close>

theorem bearer_authorization_exact:
  assumes "length authorization < 2 ^ 64" "length api_key + 7 < 2 ^ 64"
  shows "constant_time_bearer_authorization_matches authorization api_key \<longleftrightarrow>
    api_key \<noteq> [] \<and> authorization = ''Bearer '' @ api_key"
  by (rule bearer_matches_iff [OF assms])

theorem bearer_authorization_exact_witness:
  "constant_time_bearer_authorization_matches ''Bearer k'' ''k'' \<and>
   \<not> constant_time_bearer_authorization_matches ''Bearer '' []"
  using bearer_authorization_exact [of "''Bearer k''" "''k''"] bearer_authorization_exact [of "''Bearer ''" "[]"]
  by simp

end
