(* ===== verification/Prefill_Geometry.thy ===== *)
theory Prefill_Geometry
  imports Generation_Types
begin

text \<open>
  The compile-time geometry of the layer-major prompt prefill: \<^verbatim>\<open>whole_core_request_geometry.h\<close>, the
  constants of \<^verbatim>\<open>prefill_execution_plan.h\<close>, the functions that cut a prompt into operator panels and a
  panel into physical segments, and the arithmetic span ledger built from them.

  Both headers depend on preprocessor switches. They are the fields of \<open>build_config\<close>, and every
  constant that depends on one takes the configuration. \<^verbatim>\<open>uint32_t\<close>, \<^verbatim>\<open>uint64_t\<close> and \<^verbatim>\<open>size_t\<close>
  values are natural numbers: the largest one the arithmetic below produces is under \<open>2 ^ 34\<close>, and
  the one addition of caller-supplied 64-bit values is checked where it is made.
\<close>

named_theorems prefill_consts \<open>constants of the prefill plan headers\<close>

record build_config =
  cfg_whole_core_service :: bool
  cfg_layer_wide_p40_mlp :: bool
  cfg_prompt_wide_p40_whole_core :: bool
  cfg_p40_projection_reset :: bool
  cfg_p40_packed_projection :: bool
  cfg_p40_packed_nvfp4_v2 :: bool
  cfg_p40_vllm_marlin_parity :: bool

subsection \<open>Compiled geometry of the whole-core route\<close>

definition kWholeCoreCompiledSequenceCapacity :: "build_config \<Rightarrow> nat" where
  [prefill_consts]: "kWholeCoreCompiledSequenceCapacity cfg = (if cfg_whole_core_service cfg then 44095 else 40016)"

definition kWholeCoreCompiledPromptStorageTokens :: "build_config \<Rightarrow> nat" where
  [prefill_consts]: "kWholeCoreCompiledPromptStorageTokens cfg =
     (if kWholeCoreCompiledSequenceCapacity cfg = 44095 then 44096 else 40000)"

definition kWholeCoreCompiledPanelCapacity :: "build_config \<Rightarrow> nat" where
  [prefill_consts]: "kWholeCoreCompiledPanelCapacity cfg = (kWholeCoreCompiledPromptStorageTokens cfg + 7999) div 8000"

definition kWholeCoreCompiledConvOffset :: "build_config \<Rightarrow> nat" where
  [prefill_consts]: "kWholeCoreCompiledConvOffset cfg = 20480 * kWholeCoreCompiledPromptStorageTokens cfg"

definition kWholeCoreCompiledZOffset :: "build_config \<Rightarrow> nat" where
  [prefill_consts]: "kWholeCoreCompiledZOffset cfg = 2 * kWholeCoreCompiledConvOffset cfg"

definition kWholeCoreCompiledAOffset :: "build_config \<Rightarrow> nat" where
  [prefill_consts]: "kWholeCoreCompiledAOffset cfg =
     kWholeCoreCompiledZOffset cfg + 12288 * kWholeCoreCompiledPromptStorageTokens cfg"

definition kWholeCoreCompiledBOffset :: "build_config \<Rightarrow> nat" where
  [prefill_consts]: "kWholeCoreCompiledBOffset cfg =
     kWholeCoreCompiledAOffset cfg + 96 * kWholeCoreCompiledPromptStorageTokens cfg"

definition kWholeCoreCompiledGdnOffset :: "build_config \<Rightarrow> nat" where
  [prefill_consts]: "kWholeCoreCompiledGdnOffset cfg =
     kWholeCoreCompiledBOffset cfg + 96 * kWholeCoreCompiledPromptStorageTokens cfg"

definition kWholeCoreCompiledGdnBytes :: "build_config \<Rightarrow> nat" where
  [prefill_consts]: "kWholeCoreCompiledGdnBytes cfg = 70016 * kWholeCoreCompiledPromptStorageTokens cfg"

definition kWholeCoreCompiledOutputOffset :: "build_config \<Rightarrow> nat" where
  [prefill_consts]: "kWholeCoreCompiledOutputOffset cfg =
     kWholeCoreCompiledGdnOffset cfg + kWholeCoreCompiledGdnBytes cfg"

definition kWholeCoreCompiledFamilyBytes :: "build_config \<Rightarrow> nat" where
  [prefill_consts]: "kWholeCoreCompiledFamilyBytes cfg =
     kWholeCoreCompiledOutputOffset cfg + 12288 * kWholeCoreCompiledPromptStorageTokens cfg"

definition kWholeCoreCompiledProcessedQOffset :: "build_config \<Rightarrow> nat" where
  [prefill_consts]: "kWholeCoreCompiledProcessedQOffset cfg = 24576 * kWholeCoreCompiledPromptStorageTokens cfg"

definition kWholeCoreCompiledGateOffset :: "build_config \<Rightarrow> nat" where
  [prefill_consts]: "kWholeCoreCompiledGateOffset cfg = 36864 * kWholeCoreCompiledPromptStorageTokens cfg"

definition kWholeCoreCompiledAttentionBranchOffset :: "build_config \<Rightarrow> nat" where
  [prefill_consts]: "kWholeCoreCompiledAttentionBranchOffset cfg = 12288 * kWholeCoreCompiledPromptStorageTokens cfg"

definition whole_core_prompt_tokens_admitted :: "build_config \<Rightarrow> nat \<Rightarrow> bool" where
  "whole_core_prompt_tokens_admitted cfg tokens \<longleftrightarrow>
     (if cfg_whole_core_service cfg
      then 1 \<le> tokens \<and> tokens \<le> kWholeCoreCompiledSequenceCapacity cfg
      else tokens = 40000)"

definition whole_core_mlp_launch_count :: "build_config \<Rightarrow> nat \<Rightarrow> nat" where
  "whole_core_mlp_launch_count cfg rows =
     (if cfg_whole_core_service cfg
      then 1 + (if 64 \<le> rows then 1 else 0) + (if rows mod 64 \<noteq> 0 then 1 else 0)
      else 2)"

definition kWholeCoreCompiledPersistentBytes :: "build_config \<Rightarrow> nat" where
  [prefill_consts]: "kWholeCoreCompiledPersistentBytes cfg = 78446592 + 65536 * kWholeCoreCompiledSequenceCapacity cfg"

definition kWholeCoreCompiledResidualBytes :: "build_config \<Rightarrow> nat" where
  [prefill_consts]: "kWholeCoreCompiledResidualBytes cfg = 10240 * kWholeCoreCompiledSequenceCapacity cfg"

definition kWholeCoreCompiledLegacyBytes :: "build_config \<Rightarrow> nat" where
  [prefill_consts]: "kWholeCoreCompiledLegacyBytes cfg =
     87130112 + ((96 * kWholeCoreCompiledSequenceCapacity cfg + 255) div 256) * 256"

definition kWholeCoreCompiledRopeBytes :: "build_config \<Rightarrow> nat" where
  [prefill_consts]: "kWholeCoreCompiledRopeBytes cfg = 256 * kWholeCoreCompiledSequenceCapacity cfg"

definition kWholeCoreCompiledArenaBytes :: "build_config \<Rightarrow> nat" where
  [prefill_consts]: "kWholeCoreCompiledArenaBytes cfg =
     kWholeCoreCompiledPersistentBytes cfg + kWholeCoreCompiledResidualBytes cfg +
     kWholeCoreCompiledFamilyBytes cfg + kWholeCoreCompiledLegacyBytes cfg + 10240 +
     kWholeCoreCompiledRopeBytes cfg"

text \<open>The \<^verbatim>\<open>static_assert\<close> on the arena, for both builds.\<close>

lemma arena_bytes:
  "kWholeCoreCompiledArenaBytes cfg =
     (if kWholeCoreCompiledSequenceCapacity cfg = 40016 then 8641684992 else 9508218624)"
  by (simp add: prefill_consts)

subsection \<open>Constants of the execution plan\<close>

definition kPrefillPhysicalSegmentMaximumTokens :: nat where
  [prefill_consts]: "kPrefillPhysicalSegmentMaximumTokens = 512"

definition kPrefillPhysicalSegmentM256Tokens :: nat where
  [prefill_consts]: "kPrefillPhysicalSegmentM256Tokens = 256"

definition kPrefillPhysicalSegmentM64Tokens :: nat where
  [prefill_consts]: "kPrefillPhysicalSegmentM64Tokens = 64"

definition kPrefillPhysicalSegmentM32Tokens :: nat where
  [prefill_consts]: "kPrefillPhysicalSegmentM32Tokens = 32"

definition kPrefillPhysicalSegmentTailMaximumTokens :: nat where
  [prefill_consts]: "kPrefillPhysicalSegmentTailMaximumTokens = 31"

definition kLayerMajorPrefillLegacyPublicTileTokens :: nat where
  [prefill_consts]: "kLayerMajorPrefillLegacyPublicTileTokens = kPrefillPhysicalSegmentMaximumTokens"

definition kLayerMajorPrefillOperatorPanelTokens :: nat where
  [prefill_consts]: "kLayerMajorPrefillOperatorPanelTokens = 8192"

definition kLayerMajorPrefillTrueLargeMPartialPanelTokens :: nat where
  [prefill_consts]: "kLayerMajorPrefillTrueLargeMPartialPanelTokens = 7712"

definition kLayerMajorPrefillPromptWideP40Tokens :: "build_config \<Rightarrow> nat" where
  [prefill_consts]: "kLayerMajorPrefillPromptWideP40Tokens cfg = kWholeCoreCompiledPromptStorageTokens cfg"

definition kLayerMajorPrefillPromptWideP40PanelTokens :: nat where
  [prefill_consts]: "kLayerMajorPrefillPromptWideP40PanelTokens = 8000"

definition kLayerMajorPrefillPromptWideP40PanelCount :: nat where
  [prefill_consts]: "kLayerMajorPrefillPromptWideP40PanelCount = 5"

definition kLayerMajorPrefillLayerWideMlpP40Tokens :: "build_config \<Rightarrow> nat" where
  [prefill_consts]: "kLayerMajorPrefillLayerWideMlpP40Tokens cfg = kLayerMajorPrefillPromptWideP40Tokens cfg"

definition kLayerMajorPrefillLayerWideMlpP40RequestCapacityTokens :: "build_config \<Rightarrow> nat" where
  [prefill_consts]: "kLayerMajorPrefillLayerWideMlpP40RequestCapacityTokens cfg = kWholeCoreCompiledSequenceCapacity cfg"

definition kLayerMajorPrefillPromptWideP40RequestCapacityTokens :: "build_config \<Rightarrow> nat" where
  [prefill_consts]: "kLayerMajorPrefillPromptWideP40RequestCapacityTokens cfg = kLayerMajorPrefillLayerWideMlpP40RequestCapacityTokens cfg"

definition kLayerMajorPrefillProjectionResetFp8GroupedInputLaunchesPerLayer :: nat where
  [prefill_consts]: "kLayerMajorPrefillProjectionResetFp8GroupedInputLaunchesPerLayer = 1"

definition kLayerMajorPrefillProjectionResetFp8OutputLaunchesPerLayer :: nat where
  [prefill_consts]: "kLayerMajorPrefillProjectionResetFp8OutputLaunchesPerLayer = 1"

definition kLayerMajorPrefillProjectionResetFp8PhysicalLaunchesPerRequest :: nat where
  [prefill_consts]: "kLayerMajorPrefillProjectionResetFp8PhysicalLaunchesPerRequest = 128"

definition kLayerMajorPrefillProjectionResetFp8TensorRoleHitsPerRequest :: nat where
  [prefill_consts]: "kLayerMajorPrefillProjectionResetFp8TensorRoleHitsPerRequest = 208"

definition kLayerMajorPrefillProjectionResetNvFp4GateUpLaunchesPerLayer :: nat where
  [prefill_consts]: "kLayerMajorPrefillProjectionResetNvFp4GateUpLaunchesPerLayer = 1"

definition kLayerMajorPrefillProjectionResetNvFp4DownLaunchesPerLayer :: nat where
  [prefill_consts]: "kLayerMajorPrefillProjectionResetNvFp4DownLaunchesPerLayer = 1"

definition kLayerMajorPrefillProjectionResetNvFp4PhysicalLaunchesPerRequest :: nat where
  [prefill_consts]: "kLayerMajorPrefillProjectionResetNvFp4PhysicalLaunchesPerRequest = 128"

definition kLayerMajorPrefillPackedProjectionFp8PhysicalLaunchesPerRequest :: nat where
  [prefill_consts]: "kLayerMajorPrefillPackedProjectionFp8PhysicalLaunchesPerRequest = 128"

definition kLayerMajorPrefillPackedProjectionFp8TensorRoleHitsPerRequest :: nat where
  [prefill_consts]: "kLayerMajorPrefillPackedProjectionFp8TensorRoleHitsPerRequest = 208"

definition kLayerMajorPrefillPackedProjectionNvFp4PhysicalLaunchesPerRequest :: nat where
  [prefill_consts]: "kLayerMajorPrefillPackedProjectionNvFp4PhysicalLaunchesPerRequest = 128"

definition kLayerMajorPrefillPackedProjectionArtifactCount :: nat where
  [prefill_consts]: "kLayerMajorPrefillPackedProjectionArtifactCount = 256"

definition kLayerMajorPrefillPackedProjectionAuthenticatedSourceCount :: nat where
  [prefill_consts]: "kLayerMajorPrefillPackedProjectionAuthenticatedSourceCount = 400"

definition kLayerMajorPrefillPackedNvfp4V2Fp8PhysicalLaunchesPerRequest :: nat where
  [prefill_consts]: "kLayerMajorPrefillPackedNvfp4V2Fp8PhysicalLaunchesPerRequest = 1040"

definition kLayerMajorPrefillPackedNvfp4V2Fp8TensorRoleHitsPerRequest :: nat where
  [prefill_consts]: "kLayerMajorPrefillPackedNvfp4V2Fp8TensorRoleHitsPerRequest = 1040"

definition kLayerMajorPrefillPackedNvfp4V2NvFp4PhysicalLaunchesPerRequest :: nat where
  [prefill_consts]: "kLayerMajorPrefillPackedNvfp4V2NvFp4PhysicalLaunchesPerRequest = 128"

definition kLayerMajorPrefillPackedNvfp4V2ArtifactCount :: nat where
  [prefill_consts]: "kLayerMajorPrefillPackedNvfp4V2ArtifactCount = 128"

definition kLayerMajorPrefillPackedNvfp4V2AuthenticatedSourceCount :: nat where
  [prefill_consts]: "kLayerMajorPrefillPackedNvfp4V2AuthenticatedSourceCount = 192"

definition kLayerMajorPrefillVllmMarlinParityFullSegmentTokens :: nat where
  [prefill_consts]: "kLayerMajorPrefillVllmMarlinParityFullSegmentTokens = 1024"

definition kLayerMajorPrefillVllmMarlinParityTailSegmentTokens :: nat where
  [prefill_consts]: "kLayerMajorPrefillVllmMarlinParityTailSegmentTokens = 64"

definition kLayerMajorPrefillVllmMarlinParityFullSegmentsPerProjection :: nat where
  [prefill_consts]: "kLayerMajorPrefillVllmMarlinParityFullSegmentsPerProjection = 39"

definition kLayerMajorPrefillVllmMarlinParityTailSegmentsPerProjection :: nat where
  [prefill_consts]: "kLayerMajorPrefillVllmMarlinParityTailSegmentsPerProjection = 1"

definition kLayerMajorPrefillVllmMarlinParityGateUpTailOutputTiles :: nat where
  [prefill_consts]: "kLayerMajorPrefillVllmMarlinParityGateUpTailOutputTiles = 136"

definition kLayerMajorPrefillVllmMarlinParityGateUpTailSplitOutputTiles :: nat where
  [prefill_consts]: "kLayerMajorPrefillVllmMarlinParityGateUpTailSplitOutputTiles = 8"

definition kLayerMajorPrefillVllmMarlinParityDownTailOutputTiles :: nat where
  [prefill_consts]: "kLayerMajorPrefillVllmMarlinParityDownTailOutputTiles = 20"

definition kLayerMajorPrefillVllmMarlinParityDownTailSplitOutputTiles :: nat where
  [prefill_consts]: "kLayerMajorPrefillVllmMarlinParityDownTailSplitOutputTiles = 12"

definition kLayerMajorPrefillVllmMarlinParitySegmentsPerProjection :: nat where
  [prefill_consts]: "kLayerMajorPrefillVllmMarlinParitySegmentsPerProjection = 40"

definition kLayerMajorPrefillVllmMarlinParityGateUpSegmentsPerLayer :: nat where
  [prefill_consts]: "kLayerMajorPrefillVllmMarlinParityGateUpSegmentsPerLayer = 40"

definition kLayerMajorPrefillVllmMarlinParityDownSegmentsPerLayer :: nat where
  [prefill_consts]: "kLayerMajorPrefillVllmMarlinParityDownSegmentsPerLayer = 40"

definition kLayerMajorPrefillVllmMarlinParityStandaloneSiluLaunchesPerLayer :: nat where
  [prefill_consts]: "kLayerMajorPrefillVllmMarlinParityStandaloneSiluLaunchesPerLayer = 1"

definition kLayerMajorPrefillVllmMarlinParityStandaloneResidualLaunchesPerLayer :: nat where
  [prefill_consts]: "kLayerMajorPrefillVllmMarlinParityStandaloneResidualLaunchesPerLayer = 1"

definition kLayerMajorPrefillVllmMarlinParityLockClearOperationsPerRequest :: nat where
  [prefill_consts]: "kLayerMajorPrefillVllmMarlinParityLockClearOperationsPerRequest = 1"

definition kLayerMajorPrefillVllmMarlinParityNvFp4PhysicalLaunchesPerRequest :: nat where
  [prefill_consts]: "kLayerMajorPrefillVllmMarlinParityNvFp4PhysicalLaunchesPerRequest = 5120"

definition kLayerMajorPrefillVllmMarlinParityGateUpLogicalRoleHitsPerRequest :: nat where
  [prefill_consts]: "kLayerMajorPrefillVllmMarlinParityGateUpLogicalRoleHitsPerRequest = 64"

definition kLayerMajorPrefillVllmMarlinParityDownLogicalRoleHitsPerRequest :: nat where
  [prefill_consts]: "kLayerMajorPrefillVllmMarlinParityDownLogicalRoleHitsPerRequest = 64"

definition kLayerMajorPrefillVllmMarlinParityFp8PhysicalLaunchesPerRequest :: nat where
  [prefill_consts]: "kLayerMajorPrefillVllmMarlinParityFp8PhysicalLaunchesPerRequest = 1040"

definition kLayerMajorPrefillVllmMarlinParityFp8TensorRoleHitsPerRequest :: nat where
  [prefill_consts]: "kLayerMajorPrefillVllmMarlinParityFp8TensorRoleHitsPerRequest = 1040"

definition kLayerMajorPrefillVllmMarlinParityArtifactCount :: nat where
  [prefill_consts]: "kLayerMajorPrefillVllmMarlinParityArtifactCount = 128"

definition kLayerMajorPrefillVllmMarlinParityAuthenticatedSourceCount :: nat where
  [prefill_consts]: "kLayerMajorPrefillVllmMarlinParityAuthenticatedSourceCount = 192"

definition kLayerMajorPrefillVllmMarlinParityHiddenFeatures :: nat where
  [prefill_consts]: "kLayerMajorPrefillVllmMarlinParityHiddenFeatures = 5120"

definition kLayerMajorPrefillVllmMarlinParityIntermediateFeatures :: nat where
  [prefill_consts]: "kLayerMajorPrefillVllmMarlinParityIntermediateFeatures = 17408"

definition kLayerMajorPrefillVllmMarlinParityMergedGateUpFeatures :: nat where
  [prefill_consts]: "kLayerMajorPrefillVllmMarlinParityMergedGateUpFeatures = 34816"

definition kLayerMajorPrefillLayerWideMlpAlignmentTokens :: nat where
  [prefill_consts]: "kLayerMajorPrefillLayerWideMlpAlignmentTokens = 64"

definition kLayerMajorPrefillMaximumSequenceTokens :: nat where
  [prefill_consts]: "kLayerMajorPrefillMaximumSequenceTokens = 262144"

definition kLayerMajorPrefillLayerCount :: nat where
  [prefill_consts]: "kLayerMajorPrefillLayerCount = 64"

definition kLayerMajorPrefillLinearLayerCount :: nat where
  [prefill_consts]: "kLayerMajorPrefillLinearLayerCount = 48"

definition kLayerMajorPrefillFullLayerCount :: nat where
  [prefill_consts]: "kLayerMajorPrefillFullLayerCount = 16"

definition kLayerMajorPrefillMaximumPanelCount :: nat where
  [prefill_consts]: "kLayerMajorPrefillMaximumPanelCount = (kLayerMajorPrefillMaximumSequenceTokens + kLayerMajorPrefillOperatorPanelTokens - 1) div kLayerMajorPrefillOperatorPanelTokens"

text \<open>The relations between the counts that the header asserts.\<close>

lemma launch_inventory:
  "kLayerMajorPrefillProjectionResetFp8PhysicalLaunchesPerRequest = kLayerMajorPrefillLayerCount *
     (kLayerMajorPrefillProjectionResetFp8GroupedInputLaunchesPerLayer +
      kLayerMajorPrefillProjectionResetFp8OutputLaunchesPerLayer)"
  "kLayerMajorPrefillProjectionResetFp8TensorRoleHitsPerRequest =
     kLayerMajorPrefillLinearLayerCount * 3 + kLayerMajorPrefillFullLayerCount * 4"
  "kLayerMajorPrefillPackedProjectionArtifactCount = kLayerMajorPrefillLayerCount * 4"
  "kLayerMajorPrefillPackedProjectionAuthenticatedSourceCount =
     kLayerMajorPrefillLayerCount * 3 + kLayerMajorPrefillPackedProjectionFp8TensorRoleHitsPerRequest"
  "kLayerMajorPrefillVllmMarlinParityNvFp4PhysicalLaunchesPerRequest = kLayerMajorPrefillLayerCount *
     (kLayerMajorPrefillVllmMarlinParityGateUpSegmentsPerLayer +
      kLayerMajorPrefillVllmMarlinParityDownSegmentsPerLayer)"
  "kLayerMajorPrefillMaximumPanelCount = 32"
  by (simp_all add: prefill_consts)

subsection \<open>Cutting a prompt into panels and a panel into segments\<close>

definition is_nvfp4_true_large_m_prefill_panel_tokens :: "nat \<Rightarrow> bool" where
  "is_nvfp4_true_large_m_prefill_panel_tokens n \<longleftrightarrow>
     n = kLayerMajorPrefillOperatorPanelTokens \<or> n = kLayerMajorPrefillTrueLargeMPartialPanelTokens"

definition next_layer_major_prefill_operator_panel_token_count :: "nat \<Rightarrow> nat" where
  "next_layer_major_prefill_operator_panel_token_count remaining =
     (if remaining \<le> kLayerMajorPrefillOperatorPanelTokens then remaining
      else if remaining < 2 * kLayerMajorPrefillOperatorPanelTokens then (remaining + 1) div 2
      else kLayerMajorPrefillOperatorPanelTokens)"

definition next_prefill_physical_segment_token_count :: "nat \<Rightarrow> nat" where
  "next_prefill_physical_segment_token_count remaining =
     (if kPrefillPhysicalSegmentMaximumTokens \<le> remaining then kPrefillPhysicalSegmentMaximumTokens
      else if kPrefillPhysicalSegmentM256Tokens \<le> remaining then kPrefillPhysicalSegmentM256Tokens
      else if kPrefillPhysicalSegmentM64Tokens \<le> remaining then kPrefillPhysicalSegmentM64Tokens
      else if kPrefillPhysicalSegmentM32Tokens \<le> remaining then kPrefillPhysicalSegmentM32Tokens
      else remaining)"

definition is_prefill_physical_segment_token_count :: "nat \<Rightarrow> bool" where
  "is_prefill_physical_segment_token_count n \<longleftrightarrow>
     n = kPrefillPhysicalSegmentMaximumTokens \<or> n = kPrefillPhysicalSegmentM256Tokens \<or>
     n = kPrefillPhysicalSegmentM64Tokens \<or> n = kPrefillPhysicalSegmentM32Tokens \<or>
     (n \<noteq> 0 \<and> n \<le> kPrefillPhysicalSegmentTailMaximumTokens)"

definition next_layer_major_prefill_physical_segment_token_count :: "nat \<Rightarrow> nat" where
  "next_layer_major_prefill_physical_segment_token_count remaining =
     (if remaining \<le> kPrefillPhysicalSegmentMaximumTokens then remaining
      else if remaining < 2 * kPrefillPhysicalSegmentMaximumTokens then (remaining + 1) div 2
      else kPrefillPhysicalSegmentMaximumTokens)"

definition is_layer_major_prefill_physical_segment_token_count :: "nat \<Rightarrow> bool" where
  "is_layer_major_prefill_physical_segment_token_count n \<longleftrightarrow>
     n \<noteq> 0 \<and> n \<le> kPrefillPhysicalSegmentMaximumTokens"

text \<open>The panel size of the fixed P40 routes, written inline by the plan builder and its validator.\<close>

definition p40_panel_token_count :: "nat \<Rightarrow> nat" where
  "p40_panel_token_count remaining = (if remaining < 8000 then remaining else 8000)"

subsection \<open>Arithmetic span ledger\<close>

definition kLayerMajorPrefillMaximumArithmeticSpanCount :: nat where
  [prefill_consts]: "kLayerMajorPrefillMaximumArithmeticSpanCount =
     (kLayerMajorPrefillOperatorPanelTokens + kPrefillPhysicalSegmentMaximumTokens - 1)
       div kPrefillPhysicalSegmentMaximumTokens"

record arithmetic_span =
  sp_token_offset :: nat
  sp_token_count :: nat

record span_ledger =
  ld_spans :: "arithmetic_span list"
  ld_span_count :: nat
  ld_token_count :: nat

definition empty_span_ledger :: span_ledger where
  "empty_span_ledger =
     \<lparr>ld_spans = replicate kLayerMajorPrefillMaximumArithmeticSpanCount \<lparr>sp_token_offset = 0, sp_token_count = 0\<rparr>,
      ld_span_count = 0, ld_token_count = 0\<rparr>"

text \<open>The loop of the ledger; \<open>None\<close> is the early \<^verbatim>\<open>return {}\<close>.\<close>

function span_ledger_loop :: "nat \<Rightarrow> nat \<Rightarrow> span_ledger \<Rightarrow> (nat \<times> nat \<times> span_ledger) option" where
  "span_ledger_loop offset remaining ledger =
     (if remaining \<noteq> 0 \<and> ld_span_count ledger < length (ld_spans ledger) then
        let n = next_layer_major_prefill_physical_segment_token_count remaining in
        if \<not> is_layer_major_prefill_physical_segment_token_count n \<or> remaining < n then None
        else span_ledger_loop (offset + n) (remaining - n)
               (ledger\<lparr>ld_spans := (ld_spans ledger)[ld_span_count ledger :=
                                      \<lparr>sp_token_offset = offset, sp_token_count = n\<rparr>],
                       ld_span_count := Suc (ld_span_count ledger)\<rparr>)
      else Some (offset, remaining, ledger))"
  by auto
termination
  by (relation "measure (\<lambda>(offset, remaining, ledger). length (ld_spans ledger) - ld_span_count ledger)") auto

declare span_ledger_loop.simps [simp del]

definition make_layer_major_prefill_arithmetic_span_ledger :: "nat \<Rightarrow> span_ledger" where
  "make_layer_major_prefill_arithmetic_span_ledger panel_token_count =
     (if panel_token_count = 0 \<or> kLayerMajorPrefillOperatorPanelTokens < panel_token_count
      then empty_span_ledger
      else case span_ledger_loop 0 panel_token_count empty_span_ledger of
             None \<Rightarrow> empty_span_ledger
           | Some (offset, remaining, ledger) \<Rightarrow>
               if remaining \<noteq> 0 \<or> offset \<noteq> panel_token_count then empty_span_ledger
               else ledger\<lparr>ld_token_count := panel_token_count\<rparr>)"

text \<open>The validator's loop over the first \<open>span_count\<close> spans; \<open>None\<close> is \<^verbatim>\<open>return false\<close>.\<close>

fun check_spans :: "nat \<Rightarrow> nat \<Rightarrow> arithmetic_span list \<Rightarrow> nat option" where
  "check_spans token_count expected [] = Some expected"
| "check_spans token_count expected (sp # sps) =
     (if token_count \<le> expected then None
      else if sp_token_offset sp \<noteq> expected \<or>
              \<not> is_layer_major_prefill_physical_segment_token_count (sp_token_count sp) \<or>
              sp_token_count sp \<noteq>
                next_layer_major_prefill_physical_segment_token_count (token_count - expected)
      then None
      else check_spans token_count (expected + sp_token_count sp) sps)"

definition is_valid_layer_major_prefill_arithmetic_span_ledger :: "span_ledger \<Rightarrow> bool" where
  "is_valid_layer_major_prefill_arithmetic_span_ledger ledger \<longleftrightarrow>
     \<not> (ld_token_count ledger = 0 \<or> kLayerMajorPrefillOperatorPanelTokens < ld_token_count ledger \<or>
        ld_span_count ledger = 0 \<or> length (ld_spans ledger) < ld_span_count ledger) \<and>
     check_spans (ld_token_count ledger) 0 (take (ld_span_count ledger) (ld_spans ledger))
       = Some (ld_token_count ledger)"

subsection \<open>Subdivisions\<close>

text \<open>
  What the plan relies on of a subdivision rule: every piece is nonempty, fits the capacity and the
  remainder, and taking it uses up exactly one of the \<open>\<lceil>r / cap\<rceil>\<close> pieces the remainder needs. Three
  rules of the code satisfy it: physical segments, operator panels, and the panels of the fixed P40 routes.
\<close>

primrec pieces :: "(nat \<Rightarrow> nat) \<Rightarrow> nat \<Rightarrow> nat \<Rightarrow> nat list" where
  "pieces nxt 0 r = []"
| "pieces nxt (Suc k) r = nxt r # pieces nxt k (r - nxt r)"

definition pieces_needed :: "nat \<Rightarrow> nat \<Rightarrow> nat" where
  "pieces_needed cap r = (r + cap - 1) div cap"

locale subdivision =
  fixes cap :: nat and nxt :: "nat \<Rightarrow> nat"
  assumes cap_pos: "0 < cap"
    and nxt_pos: "0 < r \<Longrightarrow> 0 < nxt r"
    and nxt_le: "nxt r \<le> r"
    and nxt_cap: "nxt r \<le> cap"
    and nxt_needed: "0 < r \<Longrightarrow> pieces_needed cap r = Suc (pieces_needed cap (r - nxt r))"
begin

lemma needed_0_iff: "pieces_needed cap r = 0 \<longleftrightarrow> r = 0"
  using cap_pos by (auto simp: pieces_needed_def div_eq_0_iff)

lemma nxt_0: "nxt 0 = 0"
  using nxt_le [of 0] by simp

lemma pieces_sum:
  assumes "k = pieces_needed cap r"
  shows "sum_list (pieces nxt k r) = r"
  using assms
proof (induction k arbitrary: r)
  case 0
  then show ?case by (metis needed_0_iff pieces.simps(1) sum_list.Nil)
next
  case (Suc k)
  then have r: "0 < r" using needed_0_iff by (metis gr0I nat.distinct(1))
  have "k = pieces_needed cap (r - nxt r)" using Suc.prems nxt_needed [OF r] by simp
  then show ?case using Suc.IH nxt_le [of r] by simp
qed

lemma pieces_bounds:
  assumes "k = pieces_needed cap r" and "n \<in> set (pieces nxt k r)"
  shows "0 < n \<and> n \<le> cap"
  using assms
proof (induction k arbitrary: r)
  case (Suc k)
  then have r: "0 < r" using needed_0_iff by (metis gr0I nat.distinct(1))
  have "k = pieces_needed cap (r - nxt r)" using Suc.prems(1) nxt_needed [OF r] by simp
  then show ?case using Suc.IH Suc.prems(2) nxt_pos [OF r] nxt_cap [of r] by auto
qed simp

end

lemma length_pieces [simp]: "length (pieces nxt k r) = k"
  by (induction k arbitrary: r) auto

text \<open>The balanced rule shared by segments and panels: full pieces, then two halves of the tail.\<close>

definition balanced :: "nat \<Rightarrow> nat \<Rightarrow> nat" where
  "balanced cap r = (if r \<le> cap then r else if r < 2 * cap then (r + 1) div 2 else cap)"

lemma balanced_subdivision:
  assumes "0 < cap"
  shows "subdivision cap (balanced cap)"
proof
  fix r :: nat
  show "0 < cap" by fact
  show "0 < r \<Longrightarrow> 0 < balanced cap r" using assms by (auto simp: balanced_def)
  show "balanced cap r \<le> r" by (auto simp: balanced_def)
  show "balanced cap r \<le> cap" by (auto simp: balanced_def)
  assume r: "0 < r"
  show "pieces_needed cap r = Suc (pieces_needed cap (r - balanced cap r))"
  proof (cases "r < 2 * cap")
    case small: True
    show ?thesis
    proof (cases "r \<le> cap")
      case True
      then show ?thesis using r assms by (simp add: pieces_needed_def balanced_def div_nat_eqI)
    next
      case False
      then have "pieces_needed cap r = 2" "pieces_needed cap (r - (r + 1) div 2) = 1"
        using small by (auto simp: pieces_needed_def intro!: div_nat_eqI)
      then show ?thesis using False small by (simp add: balanced_def)
    qed
  next
    case False
    then have "r + cap - 1 = (r - cap + cap - 1) + cap" by simp
    then have "(r + cap - 1) div cap = Suc ((r - cap + cap - 1) div cap)"
      using assms by (simp only: div_add_self2)
    then show ?thesis using False by (simp add: pieces_needed_def balanced_def)
  qed
qed

lemma segment_count_balanced: "next_layer_major_prefill_physical_segment_token_count = balanced 512"
  by (rule ext) (simp add: next_layer_major_prefill_physical_segment_token_count_def balanced_def prefill_consts)

lemma panel_count_balanced: "next_layer_major_prefill_operator_panel_token_count = balanced 8192"
  by (rule ext) (simp add: next_layer_major_prefill_operator_panel_token_count_def balanced_def prefill_consts)

interpretation segment: subdivision 512 next_layer_major_prefill_physical_segment_token_count
  unfolding segment_count_balanced by (rule balanced_subdivision) simp

interpretation operator_panel: subdivision 8192 next_layer_major_prefill_operator_panel_token_count
  unfolding panel_count_balanced by (rule balanced_subdivision) simp

interpretation p40_panel: subdivision 8000 p40_panel_token_count
proof
  fix r :: nat
  assume r: "0 < r"
  show "pieces_needed 8000 r = Suc (pieces_needed 8000 (r - p40_panel_token_count r))"
  proof (cases "r < 8000")
    case True
    then show ?thesis using r by (simp add: pieces_needed_def p40_panel_token_count_def div_nat_eqI)
  next
    case False
    then have "r + 8000 - 1 = (r - 8000 + 8000 - 1) + 8000" by simp
    then have "(r + 8000 - 1) div 8000 = Suc ((r - 8000 + 8000 - 1) div 8000)"
      by (simp only: div_add_self2)
    then show ?thesis using False by (simp add: pieces_needed_def p40_panel_token_count_def)
  qed
qed (auto simp: p40_panel_token_count_def)

subsection \<open>Correctness of the ledger\<close>

text \<open>The spans with the given lengths, laid end to end from an offset.\<close>

primrec spans_of :: "nat \<Rightarrow> nat list \<Rightarrow> arithmetic_span list" where
  "spans_of offset [] = []"
| "spans_of offset (n # ns) = \<lparr>sp_token_offset = offset, sp_token_count = n\<rparr> # spans_of (offset + n) ns"

lemma length_spans_of [simp]: "length (spans_of offset ns) = length ns"
  by (induction ns arbitrary: offset) auto

lemma spans_of_nth:
  "i < length ns \<Longrightarrow> spans_of offset ns ! i =
     \<lparr>sp_token_offset = offset + sum_list (take i ns), sp_token_count = ns ! i\<rparr>"
  by (induction ns arbitrary: offset i) (auto simp: nth_Cons' gr0_conv_Suc split: nat.splits)

lemma spans_of_counts: "map sp_token_count (spans_of offset ns) = ns"
  by (induction ns arbitrary: offset) auto

lemma take_spans_of: "take i (spans_of offset ns) = spans_of offset (take i ns)"
  by (induction ns arbitrary: offset i) (auto simp: take_Cons split: nat.splits)

abbreviation segments :: "nat \<Rightarrow> nat list" where
  "segments r \<equiv> pieces next_layer_major_prefill_physical_segment_token_count (pieces_needed 512 r) r"

definition active_spans :: "span_ledger \<Rightarrow> arithmetic_span list" where
  "active_spans ledger = take (ld_span_count ledger) (ld_spans ledger)"

lemma segments_unfold:
  "0 < r \<Longrightarrow> segments r = next_layer_major_prefill_physical_segment_token_count r #
     segments (r - next_layer_major_prefill_physical_segment_token_count r)"
  by (simp only: segment.nxt_needed pieces.simps)

lemma segment_accepted:
  "0 < r \<Longrightarrow> is_layer_major_prefill_physical_segment_token_count
     (next_layer_major_prefill_physical_segment_token_count r)"
  using segment.nxt_pos [of r] segment.nxt_cap [of r]
  by (simp add: is_layer_major_prefill_physical_segment_token_count_def prefill_consts)

lemma span_ledger_loop_result:
  assumes "ld_span_count l + pieces_needed 512 r \<le> length (ld_spans l)"
  shows "span_ledger_loop off r l = Some (off + r, 0,
     l\<lparr>ld_spans := take (ld_span_count l) (ld_spans l) @ spans_of off (segments r) @
         drop (ld_span_count l + pieces_needed 512 r) (ld_spans l),
       ld_span_count := ld_span_count l + pieces_needed 512 r\<rparr>)"
  using assms
proof (induction "pieces_needed 512 r" arbitrary: off r l)
  case 0
  then have "r = 0" using segment.needed_0_iff by metis
  then show ?case by (simp add: span_ledger_loop.simps pieces_needed_def)
next
  case (Suc k)
  let ?n = "next_layer_major_prefill_physical_segment_token_count r" and ?c = "ld_span_count l"
  let ?l = "l\<lparr>ld_spans := (ld_spans l)[?c := \<lparr>sp_token_offset = off, sp_token_count = ?n\<rparr>],
              ld_span_count := Suc ?c\<rparr>"
  have r: "0 < r" using Suc.hyps(2) segment.needed_0_iff by (metis gr0I nat.distinct(1))
  have k: "pieces_needed 512 (r - ?n) = k" using segment.nxt_needed [OF r] Suc.hyps(2) by simp
  have c: "?c < length (ld_spans l)" using Suc.prems Suc.hyps(2) by simp
  have step: "span_ledger_loop off r l = span_ledger_loop (off + ?n) (r - ?n) ?l"
    using r c segment_accepted [OF r] segment.nxt_le [of r]
    by (subst span_ledger_loop.simps) (simp add: Let_def)
  have "span_ledger_loop (off + ?n) (r - ?n) ?l = Some (off + ?n + (r - ?n), 0,
     ?l\<lparr>ld_spans := take (ld_span_count ?l) (ld_spans ?l) @ spans_of (off + ?n) (segments (r - ?n)) @
         drop (ld_span_count ?l + pieces_needed 512 (r - ?n)) (ld_spans ?l),
       ld_span_count := ld_span_count ?l + pieces_needed 512 (r - ?n)\<rparr>)"
    using Suc.prems Suc.hyps(2) k by (intro Suc.hyps(1)) simp_all
  then show ?case
    unfolding step segments_unfold [OF r] using c segment.nxt_le [of r] k Suc.hyps(2) [symmetric]
    by (simp add: take_Suc_conv_app_nth)
qed

lemma segments_fit: "n \<le> 8192 \<Longrightarrow> pieces_needed 512 n \<le> 16"
proof -
  assume "n \<le> 8192"
  then have "(n + 511) div 512 \<le> (8192 + 511) div 512" by (intro div_le_mono) simp
  then show ?thesis by (simp add: pieces_needed_def)
qed

lemma make_span_ledger:
  assumes "0 < n" "n \<le> 8192"
  shows "make_layer_major_prefill_arithmetic_span_ledger n =
     \<lparr>ld_spans = spans_of 0 (segments n) @
        replicate (16 - pieces_needed 512 n) \<lparr>sp_token_offset = 0, sp_token_count = 0\<rparr>,
      ld_span_count = pieces_needed 512 n, ld_token_count = n\<rparr>"
  using assms segments_fit [OF assms(2)]
  by (simp add: make_layer_major_prefill_arithmetic_span_ledger_def empty_span_ledger_def
        span_ledger_loop_result prefill_consts)

lemma active_spans_make:
  assumes "0 < n" "n \<le> 8192"
  shows "active_spans (make_layer_major_prefill_arithmetic_span_ledger n) = spans_of 0 (segments n)"
  by (simp add: active_spans_def make_span_ledger [OF assms])

lemma check_spans_iff:
  assumes "e \<le> n"
  shows "check_spans n e sps = Some n \<longleftrightarrow> sps = spans_of e (segments (n - e))"
  using assms
proof (induction sps arbitrary: e)
  case Nil
  have "spans_of e (segments (n - e)) = [] \<longleftrightarrow> n - e = 0"
    using segment.needed_0_iff [of "n - e"] length_spans_of by (metis length_0_conv length_pieces)
  then show ?case using Nil by auto
next
  case (Cons sp sps)
  show ?case
  proof (cases "e = n")
    case True
    then show ?thesis by (simp add: pieces_needed_def)
  next
    case False
    let ?n = "next_layer_major_prefill_physical_segment_token_count (n - e)"
    have r: "0 < n - e" using False Cons.prems by simp
    have le: "e + ?n \<le> n" using segment.nxt_le [of "n - e"] Cons.prems by simp
    have IH: "check_spans n (e + ?n) sps = Some n \<longleftrightarrow> sps = spans_of (e + ?n) (segments (n - e - ?n))"
      using Cons.IH [OF le] by simp
    have "check_spans n e (sp # sps) = Some n \<longleftrightarrow>
        sp_token_offset sp = e \<and> sp_token_count sp = ?n \<and> check_spans n (e + ?n) sps = Some n"
      using r segment_accepted [OF r] by auto
    then show ?thesis unfolding IH segments_unfold [OF r] by (cases sp) auto
  qed
qed

text \<open>
  C39. For a panel of 1 to 8192 tokens the ledger holds \<open>\<lceil>n / 512\<rceil>\<close> spans that lie end to end from
  offset 0, cover exactly the \<open>n\<close> tokens and have between 1 and 512 tokens each; the validator accepts it.
\<close>

theorem span_ledger_partitions_panel:
  assumes "0 < n" "n \<le> kLayerMajorPrefillOperatorPanelTokens"
  shows "let l = make_layer_major_prefill_arithmetic_span_ledger n; sps = active_spans l in
     is_valid_layer_major_prefill_arithmetic_span_ledger l \<and> length sps = (n + 511) div 512 \<and>
     sum_list (map sp_token_count sps) = n \<and>
     (\<forall>i < length sps. sp_token_offset (sps ! i) = sum_list (map sp_token_count (take i sps)) \<and>
        1 \<le> sp_token_count (sps ! i) \<and> sp_token_count (sps ! i) \<le> 512)"
proof -
  let ?l = "make_layer_major_prefill_arithmetic_span_ledger n"
  have n: "0 < n" "n \<le> 8192" using assms by (simp_all add: prefill_consts)
  note act = active_spans_make [OF n]
  have "is_valid_layer_major_prefill_arithmetic_span_ledger ?l"
    using n segments_fit [OF n(2)] segment.needed_0_iff [of n] check_spans_iff [of 0 n]
    by (simp add: is_valid_layer_major_prefill_arithmetic_span_ledger_def make_span_ledger prefill_consts)
  moreover have "1 \<le> segments n ! i \<and> segments n ! i \<le> 512" if "i < pieces_needed 512 n" for i
    using segment.pieces_bounds [OF refl nth_mem] that by (simp add: Suc_le_eq)
  ultimately show ?thesis
    unfolding Let_def act
    by (simp add: spans_of_nth spans_of_counts segment.pieces_sum take_map take_spans_of)
       (simp add: pieces_needed_def)
qed

theorem span_ledger_partitions_panel_witness:
  "is_valid_layer_major_prefill_arithmetic_span_ledger (make_layer_major_prefill_arithmetic_span_ledger 513) \<and>
   length (active_spans (make_layer_major_prefill_arithmetic_span_ledger 513)) = 2"
  using span_ledger_partitions_panel [of 513] by (simp add: prefill_consts Let_def)

text \<open>
  The validator accepts a ledger exactly when it is the ledger built for its own token count: no
  other cut of the panel into spans passes.
\<close>

theorem span_ledger_valid_iff_built:
  assumes "length (ld_spans l) = kLayerMajorPrefillMaximumArithmeticSpanCount"
  shows "is_valid_layer_major_prefill_arithmetic_span_ledger l \<longleftrightarrow>
     0 < ld_token_count l \<and> ld_token_count l \<le> kLayerMajorPrefillOperatorPanelTokens \<and>
     ld_span_count l \<le> kLayerMajorPrefillMaximumArithmeticSpanCount \<and>
     active_spans l = active_spans (make_layer_major_prefill_arithmetic_span_ledger (ld_token_count l))"
proof (cases "0 < ld_token_count l \<and> ld_token_count l \<le> 8192")
  case True
  then have n: "0 < ld_token_count l" "ld_token_count l \<le> 8192" by auto
  have "segments (ld_token_count l) \<noteq> []"
    using segment.needed_0_iff [of "ld_token_count l"] n(1) by (metis length_0_conv length_pieces neq0_conv)
  then have ne: "spans_of 0 (segments (ld_token_count l)) \<noteq> []"
    by (metis length_0_conv length_spans_of)
  show ?thesis
    unfolding active_spans_make [OF n]
    using check_spans_iff [of 0 "ld_token_count l" "active_spans l"] assms n ne ne [symmetric]
    by (auto simp: is_valid_layer_major_prefill_arithmetic_span_ledger_def active_spans_def prefill_consts
          intro!: gr0I)
next
  case False
  then show ?thesis
    by (auto simp: is_valid_layer_major_prefill_arithmetic_span_ledger_def prefill_consts)
qed

theorem span_ledger_valid_iff_built_witness:
  "\<not> is_valid_layer_major_prefill_arithmetic_span_ledger
     ((make_layer_major_prefill_arithmetic_span_ledger 513)\<lparr>ld_span_count := 17\<rparr>)"
  using span_ledger_valid_iff_built
    [of "(make_layer_major_prefill_arithmetic_span_ledger 513)\<lparr>ld_span_count := 17\<rparr>"]
  by (simp add: make_span_ledger prefill_consts pieces_needed_def)

end
