(* ===== verification/Gateway_Route.thy ===== *)
theory Gateway_Route
  imports Http_Response Openai_Responses Openai_Request Prefill_Geometry
begin

text \<open>
  Admission in \<^verbatim>\<open>src/server/evaluation_server.cpp\<close>: the bounded queue between the threads, the health latch,
  and \<^verbatim>\<open>handle_connection\<close> up to the point where a job is queued or an answer is sent. One request is
  served per connection, so every response closes it. The identity of the deployment and the clock are
  parameters; the log is left out.
\<close>

subsection \<open>The bounded queue\<close>

record 'a bounded_queue =
  bq_capacity :: nat
  bq_items :: "'a list"
  bq_closed :: bool

definition try_push :: "'a \<Rightarrow> 'a bounded_queue \<Rightarrow> bool \<times> 'a bounded_queue" where
  "try_push v q =
     (if bq_closed q \<or> length (bq_items q) \<ge> bq_capacity q then (False, q)
      else (True, q\<lparr>bq_items := bq_items q @ [v]\<rparr>))"

text \<open>\<open>None\<close>: the caller waits. The first component of the result is what \<^verbatim>\<open>pop\<close> returns.\<close>

definition queue_pop :: "'a bounded_queue \<Rightarrow> ('a option \<times> 'a bounded_queue) option" where
  "queue_pop q =
     (case bq_items q of
        [] \<Rightarrow> if bq_closed q then Some (None, q) else None
      | v # items \<Rightarrow> Some (Some v, q\<lparr>bq_items := items\<rparr>))"

definition queue_close :: "'a bounded_queue \<Rightarrow> 'a bounded_queue" where
  "queue_close q = q\<lparr>bq_closed := True\<rparr>"

subsection \<open>Health\<close>

datatype engine_error =
  kNone | kInvalidArgument | kCapacityExceeded | kArithmeticOverflow | kTokenizerFailure | kResidentLoadFailure |
  kWeightBindFailure | kRequestStateFailure | kRunnerFactoryFailure | kRunnerStepFailure | kRunnerResetFailure |
  kMissingLogits | kMissingTiming | kDecodeFailure | kTraceFailure | kAllocationFailure | kMissingPrediction |
  kPrefillPlanUnavailable | kCancelled

record engine_diagnostic =
  dg_code :: engine_error
  dg_message :: string
  dg_cuda_error :: int

record runtime_health =
  hl_enforced :: bool
  hl_healthy :: bool

definition health_ready :: "runtime_health \<Rightarrow> bool" where
  "health_ready h \<longleftrightarrow> \<not> hl_enforced h \<or> hl_healthy h"

definition fail_closed :: "runtime_health \<Rightarrow> runtime_health" where
  "fail_closed h = (if hl_enforced h then h\<lparr>hl_healthy := False\<rparr> else h)"

text \<open>\<open>receipt_matches\<close>: whether the live receipt of the engine is the one of the sealed route.\<close>

definition observe_health :: "bool \<Rightarrow> runtime_health \<Rightarrow> bool \<times> runtime_health" where
  "observe_health receipt_matches h =
     (if \<not> health_ready h then (False, h)
      else if \<not> hl_enforced h then (True, h)
      else if \<not> receipt_matches then (False, fail_closed h)
      else (True, h))"

definition observe_failure :: "engine_diagnostic \<Rightarrow> runtime_health \<Rightarrow> runtime_health" where
  "observe_failure diagnostic h =
     (if dg_cuda_error diagnostic \<noteq> 0 \<or>
         dg_code diagnostic \<in> {kRunnerResetFailure, kRunnerStepFailure, kMissingLogits, kMissingPrediction,
           kMissingTiming, kPrefillPlanUnavailable}
      then fail_closed h else h)"

subsection \<open>Jobs\<close>

datatype stream_start_state = SsPending | SsSuccess | SsEarlyError

record inference_job =
  jb_request :: openai_request
  jb_id :: string
  jb_request_body_sha256 :: string
  jb_created :: int
  jb_cancelled :: bool
  jb_events :: "string list"
  jb_event_capacity :: nat
  jb_event_stream_closed :: bool
  jb_stream_start :: stream_start_state
  jb_response_ready :: bool
  jb_response_status :: nat
  jb_response_body :: string

definition new_job :: "openai_request \<Rightarrow> string \<Rightarrow> string \<Rightarrow> int \<Rightarrow> nat \<Rightarrow> inference_job" where
  "new_job request i body_sha256 created capacity =
     \<lparr>jb_request = request, jb_id = i, jb_request_body_sha256 = body_sha256, jb_created = created, jb_cancelled = False,
      jb_events = [], jb_event_capacity = capacity, jb_event_stream_closed = False, jb_stream_start = SsPending,
      jb_response_ready = False, jb_response_status = 500, jb_response_body = []\<rparr>"

definition simple_error :: "int \<Rightarrow> string \<Rightarrow> string \<Rightarrow> openai_error" where
  "simple_error n ec message = \<lparr>http_status = n, err_code = ec, err_message = message, err_param = []\<rparr>"

subsection \<open>Routing\<close>

record gateway_options =
  go_build :: build_config
  go_mtp_service :: bool
  go_served_model :: string
  go_maximum_output_tokens :: nat
  go_max_sequence_length :: nat
  go_stream_event_capacity :: nat
  go_development_route :: bool
  go_whole_core_profile :: bool
  go_identity :: production_identity

definition kMaximumRequestsPerConnection :: nat where
  "kMaximumRequestsPerConnection = 1"

definition kProductionRuntimeUnhealthyReason :: string where
  "kProductionRuntimeUnhealthyReason = ''sealed_production_runtime_unhealthy''"

definition is_p40_whole_core_v10_request :: "build_config \<Rightarrow> openai_request \<Rightarrow> bool" where
  "is_p40_whole_core_v10_request cfg request \<longleftrightarrow>
     (if cfg_whole_core_service cfg
      then (rq_prompt_kind request \<noteq> kTokenIds \<or>
            whole_core_prompt_tokens_admitted cfg (length (rq_prompt_token_ids request))) \<and>
           1 \<le> rq_max_tokens request \<and> rq_max_tokens request \<le> 4096
      else rq_endpoint request = kCompletions \<and> rq_prompt_kind request = kTokenIds \<and>
           whole_core_prompt_tokens_admitted cfg (length (rq_prompt_token_ids request)) \<and>
           rq_max_tokens request = 16 \<and> rq_stream request \<and> rq_include_usage request)"

text \<open>What the handler does with a request: drop the connection, send one response, or queue a job.\<close>

datatype route = RDrop | RRespond nat string string | RQueue inference_job

abbreviation respond_error :: "openai_error \<Rightarrow> string \<Rightarrow> route" where
  "respond_error error extra \<equiv> RRespond (nat (http_status error)) (serialize_openai_error error) extra"

definition www_authenticate :: string where
  "www_authenticate = ''WWW-Authenticate: Bearer realm=\"qwen3x-orin\"'' @ crlf"

definition health_route :: "gateway_options \<Rightarrow> runtime_health \<Rightarrow> route" where
  "health_route options health =
     (if \<not> health_ready health
      then RRespond 503 (serialize_unhealthy_health_response (go_mtp_service options) (go_served_model options)
        ((go_identity options)\<lparr>production_eligible := False\<rparr>) kProductionRuntimeUnhealthyReason) []
      else RRespond 200
        (if go_development_route options then serialize_p40_whole_core_v10_health_response (go_served_model options)
         else serialize_health_response (go_mtp_service options) (go_served_model options) (go_identity options)) [])"

definition models_route :: "gateway_options \<Rightarrow> int \<Rightarrow> route" where
  "models_route options now =
     RRespond 200
       (if go_development_route options then serialize_p40_whole_core_v10_models_response (go_served_model options) now
        else serialize_models_response (go_mtp_service options) (go_served_model options) now (go_identity options)) []"

definition contract_error :: "gateway_options \<Rightarrow> openai_error" where
  "contract_error options =
     (let fixed = '' accepts only streaming /v1/completions requests with exactly 40000 token IDs and max_tokens=16 plus stream_options.include_usage=true'' in
      if go_development_route options
      then simple_error 400 ''p40_whole_core_v10_contract'' (''the p40-whole-core-v10 development route'' @ fixed)
      else if cfg_whole_core_service (go_build options)
      then simple_error 400 ''whole_core_exact_decode_contract''
        ''the whole-core service requires 1..44095 prompt tokens and max_tokens from 1 through 4096 within the sequence capacity''
      else simple_error 400 ''p40_whole_core_v1_contract'' (''the p40-whole-core-v1 production profile'' @ fixed))"

definition completion_route :: "gateway_options \<Rightarrow> int \<Rightarrow> nat \<Rightarrow> bool \<Rightarrow> http_request \<Rightarrow> route" where
  "completion_route options now sequence chat request =
     (case parse_openai_request (hq_body request) (if chat then kChatCompletions else kCompletions)
         (go_served_model options) (go_maximum_output_tokens options) (go_max_sequence_length options) of
        Inl error \<Rightarrow> respond_error error []
      | Inr parsed \<Rightarrow>
          if (go_development_route options \<or> go_whole_core_profile options) \<and>
             \<not> is_p40_whole_core_v10_request (go_build options) parsed
          then respond_error (contract_error options) []
          else RQueue (new_job parsed ((if chat then ''chatcmpl-q3x-'' else ''cmpl-q3x-'') @ to_string_nat sequence)
                 (digest_hex (sha256 (hq_body request))) now (go_stream_event_capacity options)))"

definition route_request ::
  "gateway_options \<Rightarrow> string \<Rightarrow> runtime_health \<Rightarrow> int \<Rightarrow> nat \<Rightarrow> http_request \<Rightarrow> route" where
  "route_request options api_key health now sequence request =
     (let models = (hq_target request = ''/v1/models'');
          chat = (hq_target request = ''/v1/chat/completions'');
          completion = (hq_target request = ''/v1/completions'') in
      if hq_method request = ''GET'' \<and> hq_target request = ''/healthz'' then health_route options health
      else if api_key \<noteq> [] \<and> (models \<or> chat \<or> completion) \<and>
              \<not> constant_time_bearer_authorization_matches (hq_authorization request) api_key
      then respond_error (simple_error 401 ''unauthorized'' ''a valid Bearer API key is required'') www_authenticate
      else if (models \<or> chat \<or> completion) \<and> \<not> health_ready health
      then respond_error (simple_error 503 ''production_route_unhealthy''
        ''the sealed production route is unhealthy; restart the server'') []
      else if hq_method request = ''GET'' \<and> models then models_route options now
      else if \<not> chat \<and> \<not> completion
      then respond_error (simple_error 404 ''not_found'' ''the requested endpoint does not exist'') []
      else if hq_method request \<noteq> ''POST''
      then respond_error (simple_error 405 ''method_not_allowed'' ''endpoint requires POST'') (''Allow: POST'' @ crlf)
      else if \<not> is_json_content_type (hq_content_type request)
      then respond_error (simple_error 415 ''unsupported_media_type'' ''Content-Type must be application/json'') []
      else completion_route options now sequence chat request)"

definition read_route ::
  "gateway_options \<Rightarrow> string \<Rightarrow> runtime_health \<Rightarrow> int \<Rightarrow> nat \<Rightarrow> http_read_result \<Rightarrow> route" where
  "read_route options api_key health now sequence read =
     (case hr_value read of
        None \<Rightarrow> if \<not> hr_peer_closed read \<and> hr_error_status read \<noteq> 0
          then respond_error (simple_error (int (hr_error_status read)) ''http_error'' (hr_error_message read)) []
          else RDrop
      | Some request \<Rightarrow> route_request options api_key health now sequence request)"

text \<open>
  The handler until the job is queued: the job to wait for, if any, and the connection. The response to a
  full queue asks the client to retry; the flag for stopping is read at the start and again there.
\<close>

definition admit_connection ::
  "gateway_options \<Rightarrow> string \<Rightarrow> runtime_health \<Rightarrow> bool \<Rightarrow> bool \<Rightarrow> int \<Rightarrow> nat \<Rightarrow> http_read_result \<Rightarrow>
   inference_job bounded_queue \<Rightarrow> connection \<Rightarrow> inference_job option \<times> inference_job bounded_queue \<times> connection" where
  "admit_connection options api_key health stopping stopping_now now sequence read queue cn =
     (if stopping then (None, queue, cn)
      else case read_route options api_key health now sequence read of
        RDrop \<Rightarrow> (None, queue, cn)
      | RRespond n body extra \<Rightarrow> (None, queue, snd (send_fixed_response n body False extra cn))
      | RQueue job \<Rightarrow>
          let (ok, queue) = try_push job queue in
          if ok then (Some job, queue, cn)
          else
            let n = (if stopping_now then 503 else 429);
                error = simple_error (int n) (if stopping_now then ''server_stopping'' else ''queue_full'')
                  (if stopping_now then ''server is stopping'' else ''the bounded inference queue is full'') in
            (None, queue, snd (send_fixed_response n (serialize_openai_error error) False (''Retry-After: 1'' @ crlf) cn)))"

end
