(* ===== verification/Utf8_Output.thy ===== *)
theory Utf8_Output
  imports Utf8_Spec
begin

text \<open>
  The incremental UTF-8 renderer of \<^verbatim>\<open>src/server/utf8_output.h\<close>: bytes of generated tokens go into
  a pending buffer, \<open>render_utf8_output\<close> takes every complete code point out of it, replaces
  ill-formed subsequences by U+FFFD and keeps an incomplete tail for the next token unless the
  output is final. The theory models the loop with its two indices, relates it to a recursion
  on the unread suffix, and shows that the text is well formed, that valid text passes
  unchanged and that the split of the output into tokens does not change the rendered text.
\<close>

subsection \<open>The routine\<close>

definition replacement :: string where
  "replacement = [CHR 0xEF, CHR 0xBF, CHR 0xBD]"

definition utf8_count :: "char \<Rightarrow> nat" where
  "utf8_count c = (let first = byte c in
     if first < 0x80 then 1
     else if first \<ge> 0xc2 \<and> first \<le> 0xdf then 2
     else if first \<ge> 0xe0 \<and> first \<le> 0xef then 3
     else if first \<ge> 0xf0 \<and> first \<le> 0xf4 then 4 else 0)"

definition breaks_sequence :: "char \<Rightarrow> nat \<Rightarrow> char \<Rightarrow> bool" where
  "breaks_sequence f j c = (let first = byte f; b = byte c in
     b < 0x80 \<or> b > 0xbf \<or>
     (j = 1 \<and> ((first = 0xe0 \<and> b < 0xa0) \<or> (first = 0xed \<and> b \<ge> 0xa0) \<or>
               (first = 0xf0 \<and> b < 0x90) \<or> (first = 0xf4 \<and> b \<ge> 0x90))))"

function scan_sequence :: "string \<Rightarrow> nat \<Rightarrow> nat \<Rightarrow> nat \<Rightarrow> nat" where
  "scan_sequence pending i count j =
     (if j < count \<and> i + j < length pending then
        if breaks_sequence (pending ! i) j (pending ! (i + j)) then j
        else scan_sequence pending i count (j + 1)
      else j)"
  by pat_completeness auto
termination
  by (relation "measure (\<lambda>(pending, i, count, j). count - j)") auto

declare scan_sequence.simps [simp del]

lemma scan_sequence_bounds:
  "j \<le> scan_sequence pending i count j"
  "j \<le> count \<Longrightarrow> scan_sequence pending i count j \<le> count"
  "i + j \<le> length pending \<Longrightarrow> i + scan_sequence pending i count j \<le> length pending"
  by (induction pending i count j rule: scan_sequence.induct)
     (subst scan_sequence.simps; auto dest: Suc_leD)+

function render_utf8_loop :: "string \<Rightarrow> bool \<Rightarrow> nat \<Rightarrow> string \<Rightarrow> nat \<times> string" where
  "render_utf8_loop pending final i output =
     (if i < length pending then
        let count = utf8_count (pending ! i) in
        if count = 0 then render_utf8_loop pending final (i + 1) (output @ replacement)
        else let j = scan_sequence pending i count 1 in
          if j = count then
            render_utf8_loop pending final (i + count) (output @ take count (drop i pending))
          else if i + j = length pending \<and> \<not> final then (i, output)
          else render_utf8_loop pending final (i + j) (output @ replacement)
      else (i, output))"
  by pat_completeness auto
termination
  by (relation "measure (\<lambda>(pending, final, i, output). length pending - i)")
     (use scan_sequence_bounds(1) [of 1] in \<open>auto simp: Suc_le_eq intro!: diff_less_mono2\<close>)

declare render_utf8_loop.simps [simp del]

text \<open>The result and the pending buffer the call leaves.\<close>

definition render_utf8_output :: "string \<Rightarrow> bool \<Rightarrow> string \<times> string" where
  "render_utf8_output pending final =
     (let (i, output) = render_utf8_loop pending final 0 [] in (output, drop i pending))"

subsection \<open>The loop as a recursion on the unread bytes\<close>

lemma scan_sequence_shift:
  "i < length p \<Longrightarrow> scan_sequence p i count j = scan_sequence (drop i p) 0 count j"
proof (induction p i count j rule: scan_sequence.induct)
  case (1 p i count j)
  then show ?case
    by (subst (1 2) scan_sequence.simps) (auto simp: less_diff_conv add.commute)
qed

lemma scan_sequence_step:
  "j < count \<Longrightarrow> i + j < length p \<Longrightarrow> \<not> breaks_sequence (p ! i) j (p ! (i + j)) \<Longrightarrow>
   scan_sequence p i count j = scan_sequence p i count (Suc j)"
  by (subst scan_sequence.simps) simp

lemma scan_sequence_stop:
  "\<not> (j < count \<and> i + j < length p \<and> \<not> breaks_sequence (p ! i) j (p ! (i + j))) \<Longrightarrow>
   scan_sequence p i count j = j"
  by (subst scan_sequence.simps) auto

lemma scan_sequence_full_iff:
  "j \<le> count \<Longrightarrow> scan_sequence p i count j = count \<longleftrightarrow>
     (\<forall>k\<in>{j..<count}. i + k < length p \<and> \<not> breaks_sequence (p ! i) k (p ! (i + k)))"
proof (induction "count - j" arbitrary: j)
  case 0
  then show ?case by (simp add: scan_sequence_stop)
next
  case (Suc n)
  have set: "{j..<count} = insert j {Suc j..<count}" using Suc(2) by auto
  show ?case
  proof (cases "j < count \<and> i + j < length p \<and> \<not> breaks_sequence (p ! i) j (p ! (i + j))")
    case True
    with Suc(1) [of "Suc j"] Suc(2) show ?thesis by (simp add: scan_sequence_step set)
  next
    case False
    with Suc(2) show ?thesis by (subst scan_sequence_stop) (auto simp: set)
  qed
qed

lemma scan_sequence_append:
  "j \<le> count \<Longrightarrow> i < length p \<Longrightarrow>
   i + scan_sequence p i count j < length p \<or> scan_sequence p i count j = count \<Longrightarrow>
   scan_sequence (p @ x) i count j = scan_sequence p i count j"
proof (induction "count - j" arbitrary: j)
  case 0
  then show ?case by (simp add: scan_sequence_stop)
next
  case (Suc n)
  show ?case
  proof (cases "j < count \<and> i + j < length p \<and> \<not> breaks_sequence (p ! i) j (p ! (i + j))")
    case True
    then have "scan_sequence p i count j = scan_sequence p i count (Suc j)"
      "scan_sequence (p @ x) i count j = scan_sequence (p @ x) i count (Suc j)"
      using Suc(4) by (auto intro!: scan_sequence_step simp: nth_append)
    with True Suc(1) [of "Suc j"] Suc(2-) show ?thesis by simp
  next
    case False
    then have "scan_sequence p i count j = j" by (rule scan_sequence_stop)
    moreover from this False Suc(2-) have "scan_sequence (p @ x) i count j = j"
      by (intro scan_sequence_stop) (auto simp: nth_append)
    ultimately show ?thesis by simp
  qed
qed

lemma render_utf8_loop_shift:
  "i \<le> length p \<Longrightarrow> render_utf8_loop p f i out =
     (case render_utf8_loop (drop i p) f 0 [] of (k, t) \<Rightarrow> (i + k, out @ t))"
proof (induction "length p - i" arbitrary: p i out rule: less_induct)
  case less
  show ?case
  proof (cases "i < length p")
    case True
    let ?c = "utf8_count (p ! i)"
    let ?j = "scan_sequence p i ?c 1"
    let ?step = "\<lambda>d w. case render_utf8_loop (drop (i + d) p) f 0 [] of (k, t) \<Rightarrow> (i + (d + k), w @ t)"
    have IH: "render_utf8_loop p f (i + d) (out @ w) = ?step d (out @ w)"
      "render_utf8_loop (drop i p) f d w =
         (case render_utf8_loop (drop (i + d) p) f 0 [] of (k, t) \<Rightarrow> (d + k, w @ t))"
      if "0 < d" "i + d \<le> length p" for d w
      using that less(1) [of p "i + d" "out @ w"] less(1) [of "drop i p" d w]
      by (auto simp: add.commute add.assoc split: prod.splits)
    have j: "1 \<le> ?j" "i + ?j \<le> length p"
      using scan_sequence_bounds(1) [of 1 p i ?c] scan_sequence_bounds(3) [of i 1 p ?c] True by auto
    show ?thesis
      using True j IH [of 1] IH [of ?j]
      by (subst (1 2) render_utf8_loop.simps)
         (auto simp: Let_def scan_sequence_shift [symmetric] split: prod.splits)
  next
    case False
    with less(2) show ?thesis by (simp add: render_utf8_loop.simps)
  qed
qed

lemma render_utf8_output_Nil [simp]: "render_utf8_output [] f = ([], [])"
  by (simp add: render_utf8_output_def render_utf8_loop.simps)

text \<open>One round of the loop, stated on the bytes not yet read.\<close>

lemma render_utf8_output_unfold:
  assumes "s \<noteq> []"
  shows "render_utf8_output s f =
    (let count = utf8_count (hd s); j = scan_sequence s 0 count 1 in
     if count = 0 then apfst ((@) replacement) (render_utf8_output (drop 1 s) f)
     else if j = count then apfst ((@) (take count s)) (render_utf8_output (drop count s) f)
     else if j = length s \<and> \<not> f then ([], s)
     else apfst ((@) replacement) (render_utf8_output (drop j s) f))"
proof -
  let ?c = "utf8_count (hd s)"
  let ?j = "scan_sequence s 0 ?c 1"
  have j: "?j \<le> length s"
    using scan_sequence_bounds(3) [of 0 1 s ?c] assms by (simp add: Suc_le_eq)
  have step: "(case render_utf8_loop s f d w of (i, t) \<Rightarrow> (t, drop i s)) =
      apfst ((@) w) (render_utf8_output (drop d s) f)" if "d \<le> length s" for d w
    using that by (subst render_utf8_loop_shift)
      (auto simp: render_utf8_output_def add.commute split: prod.splits)
  have "render_utf8_output s f = (case render_utf8_loop s f 0 [] of (i, t) \<Rightarrow> (t, drop i s))"
    by (simp add: render_utf8_output_def)
  also have "\<dots> = (let count = ?c; j = ?j in
     if count = 0 then apfst ((@) replacement) (render_utf8_output (drop 1 s) f)
     else if j = count then apfst ((@) (take count s)) (render_utf8_output (drop count s) f)
     else if j = length s \<and> \<not> f then ([], s)
     else apfst ((@) replacement) (render_utf8_output (drop j s) f))"
    using assms j step [of 1 replacement] step [of ?c "take ?c s"] step [of ?j replacement]
    by (subst render_utf8_loop.simps) (auto simp: Let_def hd_conv_nth Suc_le_eq)
  finally show ?thesis by (simp only: Let_def)
qed

text \<open>The scan and the table of well-formed units agree.\<close>

lemma breaks_sequence_first: "breaks_sequence f (Suc 0) c \<longleftrightarrow> \<not> second_ok f c"
  by (auto simp: breaks_sequence_def second_ok_def continuation_def Let_def)

lemma breaks_sequence_later: "1 < j \<Longrightarrow> breaks_sequence f j c \<longleftrightarrow> \<not> continuation c"
  by (auto simp: breaks_sequence_def continuation_def Let_def)

lemma utf8_count_le: "utf8_count c \<le> 4"
  by (simp add: utf8_count_def Let_def)

lemma scan_full_well_formed:
  assumes "scan_sequence (a # s) 0 (utf8_count a) 1 = utf8_count a" and "utf8_count a \<noteq> 0"
  shows "utf8_count a \<le> length (a # s) \<and> well_formed_unit (take (utf8_count a) (a # s))"
proof -
  have *: "\<forall>k\<in>{1..<utf8_count a}. k < length (a # s) \<and> \<not> breaks_sequence a k ((a # s) ! k)"
    using assms scan_sequence_full_iff [of 1 "utf8_count a" "a # s" 0] by (simp add: Suc_le_eq)
  consider "utf8_count a = 1" "byte a < 0x80"
    | "utf8_count a = 2" "0xC2 \<le> byte a" "byte a \<le> 0xDF"
    | "utf8_count a = 3" "0xE0 \<le> byte a" "byte a \<le> 0xEF"
    | "utf8_count a = 4" "0xF0 \<le> byte a" "byte a \<le> 0xF4"
    using assms(2) by (auto simp: utf8_count_def Let_def split: if_splits)
  then show ?thesis
  proof cases
    case 1 then show ?thesis by simp
  next
    case 2
    with * have "0 < length s \<and> second_ok a (s ! 0)"
      by (simp add: eval_nat_numeral atLeastLessThanSuc breaks_sequence_first)
    with 2 show ?thesis by (cases s) (simp_all add: numeral_2_eq_2)
  next
    case 3
    with * have "1 < length s \<and> second_ok a (s ! 0) \<and> continuation (s ! 1)"
      by (simp add: eval_nat_numeral atLeastLessThanSuc
          breaks_sequence_first breaks_sequence_later)
    with 3 show ?thesis
      by (cases s; cases "tl s") (simp_all add: eval_nat_numeral)
  next
    case 4
    with * have "2 < length s \<and> second_ok a (s ! 0) \<and> continuation (s ! 1) \<and> continuation (s ! 2)"
      by (simp add: eval_nat_numeral atLeastLessThanSuc
          breaks_sequence_first breaks_sequence_later)
    with 4 show ?thesis
      by (cases s; cases "tl s"; cases "tl (tl s)") (simp_all add: eval_nat_numeral)
  qed
qed

lemma well_formed_unit_scan:
  assumes "well_formed_unit u"
  obtains a v where "u = a # v" "utf8_count a = length u"
    "scan_sequence (u @ x) 0 (utf8_count a) 1 = utf8_count a"
proof -
  obtain a v where u: "u = a # v" using assms by (cases u) auto
  have c: "utf8_count a = length u"
    using assms u by (cases u rule: well_formed_unit.cases) (auto simp: utf8_count_def Let_def)
  have "\<forall>k\<in>{1..<length u}. \<not> breaks_sequence a k (u ! k)"
    using assms u
    by (cases u rule: well_formed_unit.cases)
       (auto simp: eval_nat_numeral atLeastLessThanSuc breaks_sequence_first breaks_sequence_later
         less_Suc_eq_0_disj)
  then have "scan_sequence (u @ x) 0 (utf8_count a) 1 = utf8_count a"
    using u c by (subst scan_sequence_full_iff) (auto simp: nth_append)
  with u c show thesis by (rule that)
qed

lemma render_utf8_output_cases:
  assumes "s \<noteq> []"
  obtains (unit) u r where "well_formed_unit u" "s = u @ r"
      "\<And>x f. render_utf8_output (s @ x) f = apfst ((@) u) (render_utf8_output (r @ x) f)"
  | (ill_formed) j where "0 < j" "j \<le> length s"
      "\<And>x f. render_utf8_output (s @ x) f
         = apfst ((@) replacement) (render_utf8_output (drop j s @ x) f)"
  | (incomplete) "length s < 4" "render_utf8_output s False = ([], s)"
      "render_utf8_output s True = (replacement, [])"
proof -
  obtain a t where s: "s = a # t" using assms by (cases s) auto
  let ?c = "utf8_count a"
  let ?j = "scan_sequence s 0 ?c 1"
  note unfold = render_utf8_output_unfold [of "a # t @ x" for x, simplified Let_def]
  have j: "1 \<le> ?j" "?j \<le> length s"
    using scan_sequence_bounds(1) [of 1 s 0 ?c] scan_sequence_bounds(3) [of 0 1 s ?c] s by auto
  have td: "take k (a # t @ x) = take k (a # t)" "drop k (a # t @ x) = drop k (a # t) @ x"
    if "k \<le> length s" for k x
    using that s take_append [of k s x] drop_append [of k s x] by simp_all
  consider "?c = 0" | "?c \<noteq> 0" "?j = ?c" | "?c \<noteq> 0" "?j \<noteq> ?c" "?j < length s"
    | "?c \<noteq> 0" "?j \<noteq> ?c" "?j = length s"
    using j by linarith
  then show thesis
  proof cases
    case 1
    with s show thesis by (intro ill_formed [of 1]) (simp_all add: unfold)
  next
    case 2
    have full: "?c \<le> length s" "well_formed_unit (take ?c s)"
      using 2 s scan_full_well_formed [of a t] by simp_all
    show thesis
    proof (rule unit [of "take ?c s" "drop ?c s"])
      fix x f
      have "scan_sequence (s @ x) 0 ?c 1 = ?c"
        using 2 s scan_sequence_append [of 1 ?c 0 s x] by (simp add: Suc_le_eq)
      with 2 full s show "render_utf8_output (s @ x) f =
          apfst ((@) (take ?c s)) (render_utf8_output (drop ?c s @ x) f)"
        by (simp add: unfold td)
    qed (use full in simp_all)
  next
    case 3
    show thesis
    proof (rule ill_formed [of ?j])
      fix x f
      have "scan_sequence (s @ x) 0 ?c 1 = ?j"
        using 3 s scan_sequence_append [of 1 ?c 0 s x] by (simp add: Suc_le_eq)
      with 3 s show "render_utf8_output (s @ x) f =
          apfst ((@) replacement) (render_utf8_output (drop ?j s @ x) f)"
        by (simp add: unfold td)
    qed (use j in simp_all)
  next
    case 4
    have "?j \<le> ?c" using scan_sequence_bounds(2) [of 1 ?c s 0] 4 by (simp add: Suc_le_eq)
    with 4 utf8_count_le [of a] have "length s < 4" by linarith
    moreover have "render_utf8_output s False = ([], s)" "render_utf8_output s True = (replacement, [])"
      using 4 s unfold [of "[]"] by simp_all
    ultimately show thesis by (rule incomplete)
  qed
qed

subsection \<open>What the renderer guarantees\<close>

lemma well_formed_replacement: "well_formed_unit replacement"
  by (simp add: replacement_def second_ok_def continuation_def byte_def)

lemma render_valid: "valid_utf8 (fst (render_utf8_output s f))"
proof (induction "length s" arbitrary: s rule: less_induct)
  case less
  show ?case
  proof (cases "s = []")
    case True
    then show ?thesis by (simp add: valid_utf8_Nil)
  next
    case False
    then show ?thesis
    proof (cases rule: render_utf8_output_cases)
      case (unit u r)
      then have "length r < length s" by (cases u) auto
      then show ?thesis using unit(1) unit(3) [of "[]" f] less by (simp add: valid_utf8_unit)
    next
      case (ill_formed j)
      then show ?thesis
        using less [of "drop j s"] ill_formed(3) [of "[]" f]
        by (simp add: valid_utf8_unit well_formed_replacement)
    next
      case incomplete
      then show ?thesis
        using valid_utf8_unit [OF well_formed_replacement valid_utf8_Nil]
        by (cases f) (simp_all add: valid_utf8_Nil)
    qed
  qed
qed

lemma render_split:
  "render_utf8_output (s @ x) f =
     (case render_utf8_output s False of (out, rest) \<Rightarrow>
        apfst ((@) out) (render_utf8_output (rest @ x) f))"
proof (induction "length s" arbitrary: s rule: less_induct)
  case less
  show ?case
  proof (cases "s = []")
    case True
    then show ?thesis by simp
  next
    case False
    then show ?thesis
    proof (cases rule: render_utf8_output_cases)
      case (unit u r)
      then have "length r < length s" by (cases u) auto
      then show ?thesis using unit(3) [of x f] unit(3) [of "[]" False] less [of r]
        by (auto split: prod.splits)
    next
      case (ill_formed j)
      then show ?thesis
        using less [of "drop j s"] ill_formed(3) [of x f] ill_formed(3) [of "[]" False] False
        by (auto split: prod.splits)
    next
      case incomplete
      then show ?thesis by simp
    qed
  qed
qed

lemma render_pending:
  "length (snd (render_utf8_output s f)) < 4 \<and> (f \<longrightarrow> snd (render_utf8_output s f) = [])"
proof (induction "length s" arbitrary: s rule: less_induct)
  case less
  show ?case
  proof (cases "s = []")
    case False
    then show ?thesis
    proof (cases rule: render_utf8_output_cases)
      case (unit u r)
      then have "length r < length s" by (cases u) auto
      then show ?thesis using unit(3) [of "[]" f] less [of r] by (cases f) simp_all
    next
      case (ill_formed j)
      then show ?thesis using less [of "drop j s"] ill_formed(3) [of "[]" f] False
        by (cases f) simp_all
    next
      case incomplete
      then show ?thesis by (cases f) simp_all
    qed
  qed simp
qed

lemma render_unit:
  assumes "well_formed_unit u"
  shows "render_utf8_output (u @ x) f = apfst ((@) u) (render_utf8_output x f)"
proof -
  obtain a v where a: "u = a # v" "utf8_count a = length u"
    "scan_sequence (u @ x) 0 (utf8_count a) 1 = utf8_count a"
    using assms by (rule well_formed_unit_scan)
  then show ?thesis by (subst render_utf8_output_unfold) (simp_all add: Let_def)
qed

lemma render_valid_input: "valid_utf8 s \<Longrightarrow> render_utf8_output s f = (s, [])"
  by (induction rule: valid_utf8_induct) (simp_all add: render_unit)

subsection \<open>Properties of the renderer\<close>

text \<open>
  C23. Whatever bytes the model produced, the rendered text is valid UTF-8; at most three bytes of
  an incomplete code point stay pending, and none once the output is final.
\<close>

theorem render_utf8_output_correct:
  "valid_utf8 (fst (render_utf8_output pending final)) \<and>
   length (snd (render_utf8_output pending final)) < 4 \<and>
   snd (render_utf8_output pending True) = []"
  using render_valid [of pending final] render_pending [of pending final] render_pending [of pending True]
  by simp

text \<open>
  Bytes that are already valid UTF-8 pass through unchanged and nothing stays pending,
  whether or not more output follows.
\<close>

theorem render_utf8_output_identity:
  assumes "valid_utf8 text"
  shows "render_utf8_output text final = (text, [])"
  using assms by (rule render_valid_input)

theorem render_utf8_output_identity_witness:
  "render_utf8_output [CHR ''a'', CHR 0xC3, CHR 0xA9] False = ([CHR ''a'', CHR 0xC3, CHR 0xA9], [])"
proof -
  have "valid_utf8 ([CHR ''a''] @ [CHR 0xC3, CHR 0xA9] @ [])"
    by (rule valid_utf8_unit valid_utf8_Nil | simp add: second_ok_def continuation_def byte_def)+
  from render_utf8_output_identity [OF this, of False] show ?thesis by simp
qed

end
