(* ===== verification/Gateway_Worker.thy ===== *)
theory Gateway_Worker
  imports Gateway_Route Utf8_Output Generation_Types
begin

text \<open>
  One admitted job of the gateway in \<^verbatim>\<open>src/server/evaluation_server.cpp\<close>: the job shared by the two threads, the
  inference worker (\<^verbatim>\<open>execute_job\<close>, \<^verbatim>\<open>observe_gateway_token\<close>, \<^verbatim>\<open>publish_job_error\<close>) and the ingress thread
  (\<^verbatim>\<open>wait_for_stream_start\<close>, \<^verbatim>\<open>stream_response\<close>, \<^verbatim>\<open>wait_for_response\<close> and the end of \<^verbatim>\<open>handle_connection\<close>). Each
  thread is a function of the shared state that does what the code does between two releases of the lock;
  \<open>None\<close> means that it waits or has ended. What the engine does is a parameter: the tokens it commits, what it
  returns, and what it returns when its observer stops it.
\<close>

subsection \<open>The shared job\<close>

definition push_event :: "string \<Rightarrow> bool \<Rightarrow> inference_job \<Rightarrow> (bool \<times> inference_job) option" where
  "push_event event stopping job =
     (if \<not> jb_cancelled job \<and> \<not> stopping \<and> length (jb_events job) \<ge> jb_event_capacity job then None
      else if jb_cancelled job \<or> stopping \<or> jb_event_stream_closed job then Some (False, job)
      else Some (True, job\<lparr>jb_events := jb_events job @ [event],
                           jb_stream_start := (if jb_stream_start job = SsPending then SsSuccess else jb_stream_start job)\<rparr>))"

definition close_events :: "inference_job \<Rightarrow> inference_job" where
  "close_events job = job\<lparr>jb_event_stream_closed := True\<rparr>"

definition set_response :: "nat \<Rightarrow> string \<Rightarrow> inference_job \<Rightarrow> inference_job" where
  "set_response n body job = job\<lparr>jb_response_status := n, jb_response_body := body, jb_response_ready := True\<rparr>"

abbreviation cancel :: "inference_job \<Rightarrow> inference_job" where
  "cancel job \<equiv> job\<lparr>jb_cancelled := True\<rparr>"

subsection \<open>The events of an answer\<close>

record token_event =
  te_index :: nat
  te_text_delta :: string
  te_is_stop_token :: bool

definition token_finished :: "openai_request \<Rightarrow> token_event \<Rightarrow> bool" where
  "token_finished request token \<longleftrightarrow> te_is_stop_token token \<or> te_index token + 1 = rq_max_tokens request"

definition token_delta :: "openai_request \<Rightarrow> string \<Rightarrow> token_event \<Rightarrow> string \<times> string" where
  "token_delta request pending token =
     render_utf8_output (pending @ te_text_delta token) (token_finished request token)"

definition token_payload :: "inference_job \<Rightarrow> string \<Rightarrow> token_event \<Rightarrow> string" where
  "token_payload job delta token =
     (let request = jb_request job;
          finish_reason = (if te_is_stop_token token then Some kStop
                           else if token_finished request token then Some kLength else None) in
      if rq_endpoint request = kChatCompletions
      then serialize_chat_chunk (jb_id job) (jb_created job) (rq_model request) delta (te_index token = 0) finish_reason
      else serialize_text_chunk (jb_id job) (jb_created job) (rq_model request) delta finish_reason)"

text \<open>The observer of the engine; the first component says whether generation goes on.\<close>

definition observe_gateway_token ::
  "bool \<Rightarrow> token_event \<Rightarrow> string \<Rightarrow> inference_job \<Rightarrow> (bool \<times> string \<times> inference_job) option" where
  "observe_gateway_token stopping token pending job =
     (if jb_cancelled job \<or> stopping then Some (False, pending, job)
      else if \<not> rq_stream (jb_request job) then Some (True, pending, job)
      else
        let (delta, pending) = token_delta (jb_request job) pending token in
        case push_event (sse_data (token_payload job delta token)) stopping job of
          None \<Rightarrow> None
        | Some (ok, job) \<Rightarrow> if ok then Some (True, pending, job) else Some (False, pending, cancel job))"

definition done_event :: string where
  "done_event = ''data: [DONE]'' @ [CHR 0x0A, CHR 0x0A]"

record generation =
  gn_prompt_token_ids :: "nat list"
  gn_generated_token_ids :: "nat list"
  gn_generated_text :: string
  gn_stop_reason :: stop_reason

definition usage_for :: "generation \<Rightarrow> openai_usage" where
  "usage_for g = \<lparr>prompt_tokens = length (gn_prompt_token_ids g), completion_tokens = length (gn_generated_token_ids g),
     total_tokens = length (gn_prompt_token_ids g) + length (gn_generated_token_ids g)\<rparr>"

definition usage_event :: "inference_job \<Rightarrow> generation \<Rightarrow> string" where
  "usage_event job g =
     sse_data (serialize_usage_chunk (rq_endpoint (jb_request job)) (jb_id job) (jb_created job)
       (rq_model (jb_request job)) (usage_for g))"

definition finish_reason :: "stop_reason \<Rightarrow> openai_finish_reason" where
  "finish_reason reason = (if reason = SImEnd then kStop else kLength)"

definition completion_body :: "inference_job \<Rightarrow> generation \<Rightarrow> string" where
  "completion_body job g =
     (let request = jb_request job; reason = finish_reason (gn_stop_reason g);
          rendered_text = fst (render_utf8_output (gn_generated_text g) True) in
      if rq_endpoint request = kChatCompletions
      then serialize_chat_completion (jb_id job) (jb_created job) (rq_model request) rendered_text reason (usage_for g)
      else serialize_text_completion (jb_id job) (jb_created job) (rq_model request) rendered_text reason (usage_for g))"

subsection \<open>The inference worker\<close>

type_synonym engine_result = "engine_diagnostic + generation"

record engine_run =
  er_tokens :: "token_event list"
  er_result :: engine_result
  er_interrupted :: engine_result
  er_receipt_matches :: bool

datatype worker_state =
  WQueued | WTokens "token_event list" string | WReturned engine_result | WError openai_error |
  WErrorPush openai_error | WUsage generation | WDoneEvent | WClosing | WEnded

datatype client_phase = CWaiting | CStreaming | CSending string | CDone | CReplied | CLost

text \<open>\<open>gs_delivered\<close> is a history variable: the events whose chunks have been sent.\<close>

record gateway_system =
  gs_job :: inference_job
  gs_health :: runtime_health
  gs_worker :: worker_state
  gs_client :: client_phase
  gs_connection :: connection
  gs_stopping :: bool
  gs_delivered :: "string list"

definition failure_error :: "engine_diagnostic \<Rightarrow> openai_error" where
  "failure_error diagnostic =
     (let client_error = (dg_code diagnostic \<in> {kInvalidArgument, kCapacityExceeded, kTokenizerFailure}) in
      simple_error (if client_error then 400 else 500) (if client_error then ''invalid_request'' else ''engine_error'')
        (if dg_code diagnostic = kTokenizerFailure then ''prompt formatting or tokenization failed''
         else if client_error then dg_message diagnostic
         else ''native inference failed; inspect server logs''))"

definition unhealthy_on_entry :: openai_error where
  "unhealthy_on_entry = simple_error 503 ''production_route_unhealthy''
     ''the sealed production route is unhealthy; restart the server after inspecting its runtime receipt''"

definition unhealthy_after :: openai_error where
  "unhealthy_after = simple_error 503 ''production_route_unhealthy''
     ''the sealed production route changed at runtime; restart the server after inspecting its receipt''"

definition execute_start :: "engine_run \<Rightarrow> gateway_system \<Rightarrow> gateway_system" where
  "execute_start run s =
     s\<lparr>gs_worker :=
       (if \<not> health_ready (gs_health s) then WError unhealthy_on_entry
        else if jb_cancelled (gs_job s) \<or> gs_stopping s then WError (simple_error 503 ''server_stopping'' ''server is stopping'')
        else WTokens (er_tokens run) [])\<rparr>"

text \<open>What follows the return of the engine.\<close>

definition execute_returned :: "engine_run \<Rightarrow> engine_result \<Rightarrow> gateway_system \<Rightarrow> gateway_system" where
  "execute_returned run result s =
     (let job = gs_job s;
          health = (case result of Inl diagnostic \<Rightarrow> observe_failure diagnostic (gs_health s) | Inr _ \<Rightarrow> gs_health s);
          (ok, health) = observe_health (er_receipt_matches run) health;
          s = s\<lparr>gs_health := health\<rparr> in
      if \<not> ok then s\<lparr>gs_worker := WError unhealthy_after\<rparr>
      else if jb_cancelled job \<or> gs_stopping s then s\<lparr>gs_worker := WClosing\<rparr>
      else case result of
        Inl diagnostic \<Rightarrow> s\<lparr>gs_worker := WError (failure_error diagnostic)\<rparr>
      | Inr g \<Rightarrow>
          if gn_stop_reason g = SCancelled then s\<lparr>gs_worker := WClosing\<rparr>
          else if rq_stream (jb_request job)
          then s\<lparr>gs_worker := (if rq_include_usage (jb_request job) then WUsage g else WDoneEvent)\<rparr>
          else s\<lparr>gs_job := set_response 200 (completion_body job g) job, gs_worker := WEnded\<rparr>)"

definition publish_job_error :: "openai_error \<Rightarrow> gateway_system \<Rightarrow> gateway_system" where
  "publish_job_error error s =
     (let job = gs_job s; body = serialize_openai_error error; n = nat (http_status error) in
      if \<not> rq_stream (jb_request job) then s\<lparr>gs_job := set_response n body job, gs_worker := WEnded\<rparr>
      else if jb_stream_start job = SsPending
      then s\<lparr>gs_job := close_events (set_response n body (job\<lparr>jb_stream_start := SsEarlyError\<rparr>)), gs_worker := WEnded\<rparr>
      else s\<lparr>gs_worker := (if jb_cancelled job then WClosing else WErrorPush error)\<rparr>)"

definition worker_step :: "engine_run \<Rightarrow> gateway_system \<Rightarrow> gateway_system option" where
  "worker_step run s =
     (let job = gs_job s; push = (\<lambda>event. push_event event (gs_stopping s) job) in
      case gs_worker s of
        WQueued \<Rightarrow> Some (execute_start run s)
      | WTokens [] pending \<Rightarrow> Some (s\<lparr>gs_worker := WReturned (er_result run)\<rparr>)
      | WTokens (token # tokens) pending \<Rightarrow>
          map_option (\<lambda>(go_on, pending, job).
              s\<lparr>gs_job := job, gs_worker := (if go_on then WTokens tokens pending else WReturned (er_interrupted run))\<rparr>)
            (observe_gateway_token (gs_stopping s) token pending job)
      | WReturned result \<Rightarrow> Some (execute_returned run result s)
      | WError error \<Rightarrow> Some (publish_job_error error s)
      | WErrorPush error \<Rightarrow>
          map_option (\<lambda>(_, job). s\<lparr>gs_job := job, gs_worker := WClosing\<rparr>) (push (sse_data (serialize_openai_error error)))
      | WUsage g \<Rightarrow>
          map_option (\<lambda>(ok, job). if ok then s\<lparr>gs_job := job, gs_worker := WDoneEvent\<rparr>
              else s\<lparr>gs_job := cancel job, gs_worker := WClosing\<rparr>) (push (usage_event job g))
      | WDoneEvent \<Rightarrow> map_option (\<lambda>(_, job). s\<lparr>gs_job := job, gs_worker := WClosing\<rparr>) (push done_event)
      | WClosing \<Rightarrow> Some (s\<lparr>gs_job := close_events job, gs_worker := WEnded\<rparr>)
      | WEnded \<Rightarrow> None)"

subsection \<open>The ingress thread\<close>

text \<open>The fixed response with which the thread ends; a client of an event stream cancels the job then.\<close>

definition client_reply :: "gateway_system \<Rightarrow> gateway_system" where
  "client_reply s =
     (let job = gs_job s;
          (ok, cn) = send_fixed_response (jb_response_status job) (jb_response_body job) False [] (gs_connection s) in
      s\<lparr>gs_connection := cn, gs_client := (if ok then CReplied else CLost),
        gs_job := (if rq_stream (jb_request job) then cancel job else job)\<rparr>)"

definition client_abandon :: "gateway_system \<Rightarrow> gateway_system" where
  "client_abandon s = s\<lparr>gs_client := CLost, gs_job := cancel (gs_job s)\<rparr>"

definition client_start :: "gateway_system \<Rightarrow> gateway_system option" where
  "client_start s =
     (let job = gs_job s in
      if \<not> rq_stream (jb_request job) then (if jb_response_ready job then Some (client_reply s) else None)
      else if jb_stream_start job = SsPending \<and> \<not> jb_event_stream_closed job then None
      else if jb_stream_start job = SsSuccess
      then let (ok, cn) = send_sse_headers False (gs_connection s); s = s\<lparr>gs_connection := cn\<rparr> in
        Some (if ok then s\<lparr>gs_client := CStreaming\<rparr> else client_abandon s)
      else if jb_stream_start job \<noteq> SsEarlyError \<or> \<not> jb_response_ready job then Some (s\<lparr>gs_client := CLost\<rparr>)
      else Some (client_reply s))"

definition client_step :: "gateway_system \<Rightarrow> gateway_system option" where
  "client_step s =
     (let job = gs_job s in
      case gs_client s of
        CWaiting \<Rightarrow> client_start s
      | CStreaming \<Rightarrow>
          (case jb_events job of
             event # events \<Rightarrow> Some (s\<lparr>gs_job := job\<lparr>jb_events := events\<rparr>, gs_client := CSending event\<rparr>)
           | [] \<Rightarrow>
               if \<not> jb_event_stream_closed job then None
               else let (ok, cn) = send_chunk_end (gs_connection s) in
                 Some (s\<lparr>gs_connection := cn, gs_client := (if ok then CDone else CLost), gs_job := cancel job\<rparr>))
      | CSending event \<Rightarrow>
          let (ok, cn) = send_chunk event (gs_connection s); s = s\<lparr>gs_connection := cn\<rparr> in
          Some (if ok then s\<lparr>gs_client := CStreaming, gs_delivered := gs_delivered s @ [event]\<rparr> else client_abandon s)
      | _ \<Rightarrow> None)"

subsection \<open>Both threads and their environment\<close>

text \<open>
  A wait ends with the job abandoned when the server stops or the peer goes away, and in the first wait also
  when the job was cancelled, even if what was waited for has arrived meanwhile.
\<close>

definition wait_broken :: "gateway_system \<Rightarrow> bool" where
  "wait_broken s \<longleftrightarrow> gs_stopping s \<and> gs_client s \<in> {CWaiting, CStreaming} \<or> jb_cancelled (gs_job s) \<and> gs_client s = CWaiting"

inductive thread_step :: "engine_run \<Rightarrow> gateway_system \<Rightarrow> gateway_system \<Rightarrow> bool" for run where
  worker: "worker_step run s = Some s' \<Longrightarrow> thread_step run s s'"
| client: "client_step s = Some s' \<Longrightarrow> thread_step run s s'"
| abandon: "wait_broken s \<Longrightarrow> thread_step run s (client_abandon s)"

text \<open>The environment tells the server to stop, takes the peer away, or has the engine notice a cancellation early.\<close>

inductive gateway_step :: "engine_run \<Rightarrow> gateway_system \<Rightarrow> gateway_system \<Rightarrow> bool" for run where
  thread: "thread_step run s s' \<Longrightarrow> gateway_step run s s'"
| stop: "\<not> gs_stopping s \<Longrightarrow> gateway_step run s (s\<lparr>gs_stopping := True\<rparr>)"
| peer_gone: "gs_client s \<in> {CWaiting, CStreaming} \<Longrightarrow> gateway_step run s (client_abandon s)"
| interrupt: "gs_worker s = WTokens tokens pending \<Longrightarrow> jb_cancelled (gs_job s) \<or> gs_stopping s \<Longrightarrow>
    gateway_step run s (s\<lparr>gs_worker := WReturned (er_interrupted run)\<rparr>)"

text \<open>A job that has just been queued.\<close>

definition fresh_job :: "inference_job \<Rightarrow> bool" where
  "fresh_job job \<longleftrightarrow> \<not> jb_cancelled job \<and> jb_events job = [] \<and> \<not> jb_event_stream_closed job \<and>
     jb_stream_start job = SsPending \<and> \<not> jb_response_ready job"

definition queued :: "inference_job \<Rightarrow> runtime_health \<Rightarrow> gateway_system \<Rightarrow> bool" where
  "queued job health s \<longleftrightarrow> fresh_job job \<and> gs_job s = job \<and> gs_health s = health \<and> gs_worker s = WQueued \<and>
     gs_client s = CWaiting \<and> cn_sent (gs_connection s) = [] \<and> gs_delivered s = []"

inductive reachable :: "engine_run \<Rightarrow> inference_job \<Rightarrow> runtime_health \<Rightarrow> gateway_system \<Rightarrow> bool" for run job health where
  initial: "queued job health s \<Longrightarrow> reachable run job health s"
| step: "reachable run job health s \<Longrightarrow> gateway_step run s s' \<Longrightarrow> reachable run job health s'"

inductive_cases thread_step_cases: "thread_step run s s'"

inductive_cases gateway_step_cases: "gateway_step run s s'"

end
