(* ===== verification/Gateway_Stream.thy ===== *)
theory Gateway_Stream
  imports Gateway_Worker
begin

text \<open>
  The flow of control of one admitted job of the gateway, whatever the interleaving of its two threads: the
  threads never wait for each other for ever, and every run is finite.
\<close>

subsection \<open>Shared facts\<close>

lemma push_event_True:
  "push_event event stopping job = Some (True, job') \<longleftrightarrow>
     \<not> jb_cancelled job \<and> \<not> stopping \<and> \<not> jb_event_stream_closed job \<and> length (jb_events job) < jb_event_capacity job \<and>
     job' = job\<lparr>jb_events := jb_events job @ [event],
       jb_stream_start := (if jb_stream_start job = SsPending then SsSuccess else jb_stream_start job)\<rparr>"
  by (auto simp: push_event_def)

lemma push_event_False:
  "push_event event stopping job = Some (False, job') \<longleftrightarrow>
     job' = job \<and> (jb_cancelled job \<or> stopping \<or> jb_event_stream_closed job \<and> length (jb_events job) < jb_event_capacity job)"
  by (auto simp: push_event_def)

lemma push_event_None:
  "push_event event stopping job = None \<longleftrightarrow>
     \<not> jb_cancelled job \<and> \<not> stopping \<and> jb_event_capacity job \<le> length (jb_events job)"
  by (auto simp: push_event_def)

lemma push_event_cases:
  obtains (full) "push_event event stopping job = None"
  | (refused) "push_event event stopping job = Some (False, job)"
  | (accepted) "push_event event stopping job = Some (True, job\<lparr>jb_events := jb_events job @ [event],
       jb_stream_start := (if jb_stream_start job = SsPending then SsSuccess else jb_stream_start job)\<rparr>)"
  by (cases "push_event event stopping job"; simp add: push_event_def split: if_splits)

lemmas push_event_iffs = push_event_True push_event_False push_event_None

definition same_job :: "inference_job \<Rightarrow> inference_job \<Rightarrow> bool" where
  "same_job job job' \<longleftrightarrow> jb_request job' = jb_request job \<and> jb_id job' = jb_id job \<and>
     jb_created job' = jb_created job \<and> jb_event_capacity job' = jb_event_capacity job"

definition active :: "client_phase \<Rightarrow> bool" where
  "active c \<longleftrightarrow> (case c of CWaiting \<Rightarrow> True | CStreaming \<Rightarrow> True | CSending _ \<Rightarrow> True | _ \<Rightarrow> False)"

lemma active_simps [simp]:
  "active CWaiting" "active CStreaming" "active (CSending e)" "\<not> active CDone" "\<not> active CReplied" "\<not> active CLost"
  by (simp_all add: active_def)

definition streaming_only :: "worker_state \<Rightarrow> bool" where
  "streaming_only w \<longleftrightarrow> (case w of WErrorPush _ \<Rightarrow> True | WUsage _ \<Rightarrow> True | WDoneEvent \<Rightarrow> True | _ \<Rightarrow> False)"

lemma streaming_only_simps [simp]:
  "streaming_only (WErrorPush e)" "streaming_only (WUsage g)" "streaming_only WDoneEvent" "\<not> streaming_only WQueued"
  "\<not> streaming_only (WTokens ts p)" "\<not> streaming_only (WReturned r)" "\<not> streaming_only (WError e)"
  "\<not> streaming_only WClosing" "\<not> streaming_only WEnded"
  by (simp_all add: streaming_only_def)

definition streams :: "client_phase \<Rightarrow> bool" where
  "streams c \<longleftrightarrow> (case c of CStreaming \<Rightarrow> True | CSending _ \<Rightarrow> True | _ \<Rightarrow> False)"

lemma streams_simps [simp]:
  "\<not> streams CWaiting" "streams CStreaming" "streams (CSending e)" "\<not> streams CDone" "\<not> streams CReplied" "\<not> streams CLost"
  by (simp_all add: streams_def)

definition returned_cancelled :: "worker_state \<Rightarrow> bool" where
  "returned_cancelled w \<longleftrightarrow>
     (case w of WReturned (Inr g) \<Rightarrow> gn_stop_reason g = SCancelled | _ \<Rightarrow> False)"

lemma returned_cancelled_simps [simp]:
  "\<not> returned_cancelled WQueued" "\<not> returned_cancelled (WTokens ts p)" "\<not> returned_cancelled (WReturned (Inl d))"
  "returned_cancelled (WReturned (Inr g)) \<longleftrightarrow> gn_stop_reason g = SCancelled" "\<not> returned_cancelled (WError e)"
  "\<not> returned_cancelled (WErrorPush e)" "\<not> returned_cancelled (WUsage g)" "\<not> returned_cancelled WDoneEvent"
  "\<not> returned_cancelled WClosing" "\<not> returned_cancelled WEnded"
  by (simp_all add: returned_cancelled_def)

lemma not_early [simp]: "x \<noteq> SsEarlyError \<longleftrightarrow> x = SsPending \<or> x = SsSuccess"
  by (cases x) simp_all

subsection \<open>The flow of control\<close>

definition flow_inv :: "inference_job \<Rightarrow> gateway_system \<Rightarrow> bool" where
  "flow_inv job s \<longleftrightarrow>
     (let j = gs_job s; streamed = rq_stream (jb_request job); w = gs_worker s; c = gs_client s;
          flagged = (jb_cancelled j \<or> gs_stopping s) in
      same_job job j \<and> length (jb_events j) \<le> jb_event_capacity j \<and>
      (jb_events j \<noteq> [] \<longrightarrow> jb_stream_start j = SsSuccess) \<and>
      (\<not> streamed \<longrightarrow> jb_events j = [] \<and> jb_stream_start j = SsPending \<and> \<not> streaming_only w) \<and>
      (w \<noteq> WEnded \<longrightarrow> \<not> jb_event_stream_closed j \<and> \<not> jb_response_ready j \<and> jb_stream_start j \<noteq> SsEarlyError) \<and>
      (w = WEnded \<longrightarrow> jb_event_stream_closed j \<or> \<not> streamed \<and> jb_response_ready j) \<and>
      (jb_stream_start j = SsEarlyError \<longrightarrow> jb_response_ready j) \<and>
      (streams c \<longrightarrow> streamed \<and> jb_stream_start j = SsSuccess) \<and>
      (\<not> active c \<longrightarrow> jb_cancelled j \<or> w = WEnded) \<and>
      (active c \<and> jb_cancelled j \<longrightarrow> gs_stopping s) \<and>
      (\<not> streamed \<and> (w = WClosing \<or> w = WEnded \<and> \<not> jb_response_ready j) \<longrightarrow> flagged) \<and>
      (returned_cancelled w \<longrightarrow> flagged))"

definition honest_engine :: "engine_run \<Rightarrow> bool" where
  "honest_engine run \<longleftrightarrow> (case er_result run of Inl _ \<Rightarrow> True | Inr g \<Rightarrow> gn_stop_reason g \<noteq> SCancelled)"

lemma worker_step_simps:
  "gs_worker s = WQueued \<Longrightarrow> worker_step run s = Some (execute_start run s)"
  "gs_worker s = WTokens [] p \<Longrightarrow> worker_step run s = Some (s\<lparr>gs_worker := WReturned (er_result run)\<rparr>)"
  "gs_worker s = WReturned r \<Longrightarrow> worker_step run s = Some (execute_returned run r s)"
  "gs_worker s = WError e \<Longrightarrow> worker_step run s = Some (publish_job_error e s)"
  "gs_worker s = WClosing \<Longrightarrow> worker_step run s = Some (s\<lparr>gs_job := close_events (gs_job s), gs_worker := WEnded\<rparr>)"
  "gs_worker s = WEnded \<Longrightarrow> worker_step run s = None"
  by (simp_all add: worker_step_def Let_def)

lemma worker_step_push:
  "gs_worker s = WTokens (token # ts) p \<Longrightarrow> worker_step run s =
     map_option (\<lambda>(go_on, p, job). s\<lparr>gs_job := job, gs_worker := (if go_on then WTokens ts p else WReturned (er_interrupted run))\<rparr>)
       (observe_gateway_token (gs_stopping s) token p (gs_job s))"
  "gs_worker s = WErrorPush e \<Longrightarrow> worker_step run s =
     map_option (\<lambda>(_, job). s\<lparr>gs_job := job, gs_worker := WClosing\<rparr>)
       (push_event (sse_data (serialize_openai_error e)) (gs_stopping s) (gs_job s))"
  "gs_worker s = WUsage g \<Longrightarrow> worker_step run s =
     map_option (\<lambda>(ok, job). if ok then s\<lparr>gs_job := job, gs_worker := WDoneEvent\<rparr>
         else s\<lparr>gs_job := cancel job, gs_worker := WClosing\<rparr>)
       (push_event (usage_event (gs_job s) g) (gs_stopping s) (gs_job s))"
  "gs_worker s = WDoneEvent \<Longrightarrow> worker_step run s =
     map_option (\<lambda>(_, job). s\<lparr>gs_job := job, gs_worker := WClosing\<rparr>) (push_event done_event (gs_stopping s) (gs_job s))"
  by (simp_all add: worker_step_def Let_def)

text \<open>One token: nothing is pushed when the job is flagged or not streamed; otherwise its event is, or refused.\<close>

lemma observe_cases:
  assumes "observe_gateway_token stopping token p job = Some (go_on, p', job')"
  obtains (flagged) "jb_cancelled job \<or> stopping" "\<not> go_on" "job' = job"
  | (plain) "\<not> jb_cancelled job" "\<not> stopping" "\<not> rq_stream (jb_request job)" "go_on" "job' = job" "p' = p"
  | (accepted) delta where "rq_stream (jb_request job)" "go_on" "token_delta (jb_request job) p token = (delta, p')"
      "push_event (sse_data (token_payload job delta token)) stopping job = Some (True, job')"
  | (refused) "\<not> jb_cancelled job" "\<not> stopping" "jb_event_stream_closed job"
proof (cases "jb_cancelled job \<or> stopping")
  case True
  then show ?thesis using assms by (intro flagged) (simp_all add: observe_gateway_token_def)
next
  case False
  show ?thesis
  proof (cases "rq_stream (jb_request job)")
    case no_stream: False
    then show ?thesis using assms False by (intro plain) (simp_all add: observe_gateway_token_def)
  next
    case True
    obtain delta p1 where d: "token_delta (jb_request job) p token = (delta, p1)" by fastforce
    show ?thesis
          proof (cases rule: push_event_cases [of "sse_data (token_payload job delta token)" stopping job])
      case full
      then show ?thesis using assms d True False by (simp add: observe_gateway_token_def)
    next
      case refused
      then show ?thesis using False by (intro that(4)) (simp_all add: push_event_False)
    next
      case accepted
      then show ?thesis using assms d True False by (intro that(3)) (simp_all add: observe_gateway_token_def)
    qed
  qed
qed

lemma flow_streamed: "flow_inv job s \<Longrightarrow> streaming_only (gs_worker s) \<Longrightarrow> rq_stream (jb_request job)"
  by (auto simp: flow_inv_def Let_def)

lemma flow_push:
  assumes inv: "flow_inv job s" and "rq_stream (jb_request job)" "gs_worker s \<noteq> WEnded"
    and push: "push_event e (gs_stopping s) (gs_job s) = Some (ok, j)" and w: "w = WDoneEvent \<or> w = WClosing"
  shows "flow_inv job (s\<lparr>gs_job := j, gs_worker := w\<rparr>)"
    and "\<not> ok \<Longrightarrow> flow_inv job (s\<lparr>gs_job := cancel j, gs_worker := w\<rparr>)"
proof -
  show "flow_inv job (s\<lparr>gs_job := j, gs_worker := w\<rparr>)"
  proof (cases ok)
    case True
    then show ?thesis using assms by (auto simp: push_event_True flow_inv_def Let_def same_job_def)
  next
    case False
    then show ?thesis using assms by (auto simp: push_event_False flow_inv_def Let_def same_job_def)
  qed
  show "\<not> ok \<Longrightarrow> flow_inv job (s\<lparr>gs_job := cancel j, gs_worker := w\<rparr>)"
    using assms by (auto simp: push_event_False flow_inv_def Let_def same_job_def)
qed

lemma flow_worker:
  assumes inv: "flow_inv job s" and step: "worker_step run s = Some s'" and "honest_engine run"
  shows "flow_inv job s'"
proof (cases "gs_worker s")
  case WQueued
  then have "s' = execute_start run s" using step by (simp add: worker_step_simps)
  then show ?thesis using inv WQueued by (simp add: execute_start_def flow_inv_def Let_def)
next
  case (WTokens ts p)
  show ?thesis
  proof (cases ts)
    case Nil
    then have "s' = s\<lparr>gs_worker := WReturned (er_result run)\<rparr>" using WTokens step by (simp add: worker_step_simps)
    moreover have "\<not> returned_cancelled (WReturned (er_result run))"
      using \<open>honest_engine run\<close> by (cases "er_result run") (simp_all add: honest_engine_def)
    ultimately show ?thesis using WTokens inv by (simp add: flow_inv_def Let_def)
  next
    case (Cons token ts')
    then obtain go_on p' j where o: "observe_gateway_token (gs_stopping s) token p (gs_job s) = Some (go_on, p', j)"
      and s': "s' = s\<lparr>gs_job := j, gs_worker := (if go_on then WTokens ts' p' else WReturned (er_interrupted run))\<rparr>"
      using step WTokens by (auto simp: worker_step_push)
    from o show ?thesis
      by (cases rule: observe_cases)
        (use inv WTokens in \<open>auto simp: s' flow_inv_def Let_def push_event_True same_job_def\<close>)
  qed
next
  case (WReturned r)
  then have "s' = execute_returned run r s" using step by (simp add: worker_step_simps)
  then show ?thesis using inv WReturned
    by (cases r) (auto simp: execute_returned_def set_response_def flow_inv_def Let_def same_job_def split: prod.splits)
next
  case (WError e)
  then have "s' = publish_job_error e s" using step by (simp add: worker_step_simps)
  then show ?thesis using inv WError
    by (auto simp: publish_job_error_def set_response_def close_events_def flow_inv_def Let_def same_job_def)
next
  case (WErrorPush e)
  then obtain ok j where push: "push_event (sse_data (serialize_openai_error e)) (gs_stopping s) (gs_job s) = Some (ok, j)"
    and s': "s' = s\<lparr>gs_job := j, gs_worker := WClosing\<rparr>"
    using step by (auto simp: worker_step_push)
  show ?thesis using flow_push(1) [OF inv _ _ push] flow_streamed [OF inv] WErrorPush by (simp add: s')
next
  case (WUsage g)
  then obtain ok j where push: "push_event (usage_event (gs_job s) g) (gs_stopping s) (gs_job s) = Some (ok, j)"
    and s': "s' = (if ok then s\<lparr>gs_job := j, gs_worker := WDoneEvent\<rparr> else s\<lparr>gs_job := cancel j, gs_worker := WClosing\<rparr>)"
    using step by (auto simp: worker_step_push)
  show ?thesis using flow_push [OF inv _ _ push] flow_streamed [OF inv] WUsage by (simp add: s')
next
  case WDoneEvent
  then obtain ok j where push: "push_event done_event (gs_stopping s) (gs_job s) = Some (ok, j)"
    and s': "s' = s\<lparr>gs_job := j, gs_worker := WClosing\<rparr>"
    using step by (auto simp: worker_step_push)
  show ?thesis using flow_push(1) [OF inv _ _ push] flow_streamed [OF inv] WDoneEvent by (simp add: s')
next
  case WClosing
  then have "s' = s\<lparr>gs_job := close_events (gs_job s), gs_worker := WEnded\<rparr>" using step by (simp add: worker_step_simps)
  then show ?thesis using inv WClosing by (simp add: flow_inv_def Let_def same_job_def close_events_def)
next
  case WEnded
  then show ?thesis using step by (simp add: worker_step_simps)
qed

lemma flow_reply: "flow_inv job s \<Longrightarrow> gs_worker s = WEnded \<Longrightarrow> flow_inv job (client_reply s)"
  by (auto simp: flow_inv_def Let_def client_reply_def same_job_def split: prod.splits)

lemma flow_abandon: "flow_inv job s \<Longrightarrow> flow_inv job (client_abandon s)"
  by (auto simp: flow_inv_def Let_def client_abandon_def same_job_def)

lemma flow_connection: "flow_inv job (s\<lparr>gs_connection := cn\<rparr>) = flow_inv job s"
  by (simp add: flow_inv_def)

lemma flow_start:
  assumes inv: "flow_inv job s" and step: "client_start s = Some s'" and c: "gs_client s = CWaiting"
  shows "flow_inv job s'"
proof -
  let ?j = "gs_job s"
  consider (plain) "\<not> rq_stream (jb_request ?j)" "jb_response_ready ?j"
    | (go) "rq_stream (jb_request ?j)" "jb_stream_start ?j = SsSuccess"
    | (never) "rq_stream (jb_request ?j)" "jb_event_stream_closed ?j" "jb_stream_start ?j = SsPending"
    | (early) "rq_stream (jb_request ?j)" "jb_stream_start ?j = SsEarlyError"
    using step by (cases "jb_stream_start ?j") (auto simp: client_start_def Let_def split: if_splits)
  then show ?thesis
  proof cases
    case plain
    then have "gs_worker s = WEnded" using inv by (auto simp: flow_inv_def Let_def)
    then show ?thesis using plain step flow_reply [OF inv] by (simp add: client_start_def)
  next
    case go
    obtain ok cn where h: "send_sse_headers False (gs_connection s) = (ok, cn)" by fastforce
    have "flow_inv job (s\<lparr>gs_connection := cn, gs_client := CStreaming\<rparr>)"
      using inv go c by (auto simp: flow_inv_def Let_def same_job_def)
    then show ?thesis using go step h flow_abandon [of job "s\<lparr>gs_connection := cn\<rparr>"] inv
      by (auto simp: client_start_def Let_def flow_connection split: if_splits)
  next
    case never
    then have "s' = s\<lparr>gs_client := CLost\<rparr>" "gs_worker s = WEnded"
      using step inv by (auto simp: client_start_def Let_def flow_inv_def)
    then show ?thesis using inv by (simp add: flow_inv_def Let_def)
  next
    case early
    then have "s' = client_reply s" "gs_worker s = WEnded"
      using step inv by (auto simp: client_start_def Let_def flow_inv_def)
    then show ?thesis using flow_reply [OF inv] by simp
  qed
qed

lemma flow_client:
  assumes "flow_inv job s" "client_step s = Some s'"
  shows "flow_inv job s'"
proof (cases "gs_client s")
  case CWaiting
  then show ?thesis using assms flow_start by (simp add: client_step_def)
next
  case CStreaming
  then show ?thesis using assms
    by (auto simp: flow_inv_def Let_def client_step_def same_job_def split: prod.splits if_splits list.splits)
next
  case (CSending e)
  then show ?thesis using assms
    by (auto simp: flow_inv_def Let_def client_step_def client_abandon_def same_job_def split: prod.splits if_splits)
qed (use assms in \<open>simp_all add: client_step_def Let_def\<close>)

lemma flow_reachable:
  assumes "reachable run job health s" "honest_engine run"
  shows "flow_inv job s"
  using assms(1)
proof induction
  case (initial s)
  then show ?case by (auto simp: queued_def fresh_job_def flow_inv_def Let_def same_job_def)
next
  case (step s s')
  from step(2) show ?case
  proof cases
    case thread
    then show ?thesis using step(3) assms(2)
      by cases (auto intro: flow_worker flow_client flow_abandon)
  next
    case stop
    then show ?thesis using step(3) by (auto simp: flow_inv_def Let_def)
  next
    case peer_gone
    then show ?thesis using step(3) by (simp add: flow_abandon)
  next
    case (interrupt ts p)
    then show ?thesis using step(3) by (auto simp: flow_inv_def Let_def)
  qed
qed

subsection \<open>Termination and progress\<close>

definition worker_rank :: "engine_run \<Rightarrow> worker_state \<Rightarrow> nat" where
  "worker_rank run w =
     (case w of WQueued \<Rightarrow> 4 * length (er_tokens run) + 20 | WTokens ts _ \<Rightarrow> 4 * length ts + 15 | WReturned _ \<Rightarrow> 12 | WError _ \<Rightarrow> 10 | WErrorPush _ \<Rightarrow> 8
      | WUsage _ \<Rightarrow> 9 | WDoneEvent \<Rightarrow> 6 | WClosing \<Rightarrow> 3 | WEnded \<Rightarrow> 0)"

definition client_rank :: "client_phase \<Rightarrow> nat" where
  "client_rank c = (case c of CWaiting \<Rightarrow> 5 | CStreaming \<Rightarrow> 3 | CSending _ \<Rightarrow> 4 | _ \<Rightarrow> 0)"

text \<open>How many steps a system can still take.\<close>

definition fuel :: "engine_run \<Rightarrow> gateway_system \<Rightarrow> nat" where
  "fuel run s =
     worker_rank run (gs_worker s) + 2 * length (jb_events (gs_job s)) + client_rank (gs_client s) + (if gs_stopping s then 0 else 1)"

lemma observe_fuel:
  "observe_gateway_token stopping token p job = Some (go_on, p', job') \<Longrightarrow>
     length (jb_events job') \<le> length (jb_events job) + (if go_on then 1 else 0)"
  by (auto simp: observe_gateway_token_def Let_def push_event_def split: prod.splits if_splits)

lemma push_fuel: "push_event e stopping job = Some (ok, job') \<Longrightarrow> length (jb_events job') \<le> length (jb_events job) + 1"
  by (auto simp: push_event_def split: if_splits)

lemma worker_fuel:
  assumes "worker_step run s = Some s'"
  shows "fuel run s' < fuel run s"
proof (cases "gs_worker s")
  case (WTokens ts p)
  then show ?thesis using assms
    by (cases ts) (auto simp: worker_step_simps worker_step_push fuel_def worker_rank_def dest!: observe_fuel)
qed (use assms in \<open>auto simp: worker_step_simps worker_step_push fuel_def worker_rank_def execute_start_def execute_returned_def
    publish_job_error_def set_response_def close_events_def Let_def dest!: push_fuel split: prod.splits sum.splits if_splits\<close>)

lemma client_fuel:
  assumes "client_step s = Some s'"
  shows "fuel run s' < fuel run s"
  using assms
  by (cases "gs_client s")
    (auto simp: client_step_def client_start_def client_reply_def client_abandon_def fuel_def client_rank_def Let_def
      split: prod.splits if_splits list.splits)

lemma step_fuel:
  assumes "gateway_step run s s'"
  shows "fuel run s' < fuel run s"
  using assms
proof cases
  case thread
  then show ?thesis
  proof cases
    case abandon
    then show ?thesis by (auto simp: fuel_def client_rank_def client_abandon_def wait_broken_def)
  qed (simp_all add: worker_fuel client_fuel)
next
  case (interrupt ts p)
  then show ?thesis by (simp add: fuel_def worker_rank_def)
qed (auto simp: fuel_def client_rank_def client_abandon_def)

text \<open>
  C7. Every run of a job is finite: no interleaving of the worker, the ingress thread, the peer and the shutdown
  goes on for ever.
\<close>

theorem gateway_terminates: "wf {(s', s). gateway_step run s s'}"
  by (rule wf_subset [OF wf_measure [of "fuel run"]]) (auto simp: step_fuel)

lemma worker_blocked:
  assumes "worker_step run s = None" "gs_worker s \<noteq> WEnded"
  shows "\<exists>e. push_event e (gs_stopping s) (gs_job s) = None"
proof (cases "gs_worker s")
  case (WTokens ts p)
  with assms obtain token ts' where "ts = token # ts'" by (cases ts) (auto simp: worker_step_simps)
  with WTokens assms have "observe_gateway_token (gs_stopping s) token p (gs_job s) = None" by (simp add: worker_step_push)
  then show ?thesis by (auto simp: observe_gateway_token_def Let_def split: if_splits prod.splits option.splits)
qed (use assms in \<open>auto simp: worker_step_simps worker_step_push\<close>)

lemma client_unblocked:
  assumes inv: "flow_inv job s" and "active (gs_client s)"
    and "jb_events (gs_job s) \<noteq> [] \<or> gs_worker s = WEnded"
  shows "client_step s \<noteq> None \<or> wait_broken s"
proof (cases "gs_client s")
  case CWaiting
  then show ?thesis using assms
    by (cases "rq_stream (jb_request job)")
      (auto simp: client_step_def client_start_def wait_broken_def flow_inv_def Let_def same_job_def split: prod.splits)
next
  case CStreaming
  then show ?thesis using assms
    by (auto simp: client_step_def flow_inv_def Let_def split: prod.splits list.splits)
next
  case (CSending e)
  then show ?thesis by (auto simp: client_step_def Let_def split: prod.splits)
qed (use assms(2) in simp_all)

lemma progress:
  assumes inv: "flow_inv job s" and "0 < jb_event_capacity job" and open_end: "gs_worker s \<noteq> WEnded \<or> active (gs_client s)"
  shows "\<exists>s'. thread_step run s s'"
proof (cases "worker_step run s")
  case (Some s')
  then show ?thesis by (auto intro: thread_step.worker)
next
  case None
  have "active (gs_client s) \<and> (jb_events (gs_job s) \<noteq> [] \<or> gs_worker s = WEnded)"
  proof (cases "gs_worker s = WEnded")
    case False
    with None obtain e where "push_event e (gs_stopping s) (gs_job s) = None" using worker_blocked by blast
    then show ?thesis using inv False assms(2) by (auto simp: push_event_None flow_inv_def Let_def same_job_def)
  qed (use open_end in simp)
  then show ?thesis
    using client_unblocked [OF inv] by (blast intro: thread_step.client thread_step.abandon)
qed

text \<open>
  C6. The two threads of a job never wait for each other for ever: as long as the worker has not ended or the
  ingress thread still serves its client, one of them can take a step, without the peer going away and without
  a shutdown. The queue of events has a capacity, and the engine reports a cancellation only when asked for one.
\<close>

theorem gateway_progress:
  assumes "reachable run job health s" "honest_engine run" "0 < jb_event_capacity job"
    "gs_worker s \<noteq> WEnded \<or> active (gs_client s)"
  shows "\<exists>s'. thread_step run s s'"
  using progress [OF flow_reachable [OF assms(1,2)] assms(3,4)] .

subsection \<open>A sample job\<close>

definition sample_job :: "bool \<Rightarrow> inference_job" where
  "sample_job streamed = new_job (default_request\<lparr>rq_model := ''q'', rq_max_tokens := 2, rq_stream := streamed\<rparr>) ''j'' [] 7 1"

definition sample_generation :: generation where
  "sample_generation = \<lparr>gn_prompt_token_ids = [5], gn_generated_token_ids = [6, 7], gn_generated_text = ''ab'',
     gn_stop_reason = SMaxNewTokens\<rparr>"

definition sample_run :: engine_run where
  "sample_run = \<lparr>er_tokens = [\<lparr>te_index = 0, te_text_delta = ''a'', te_is_stop_token = False\<rparr>,
       \<lparr>te_index = 1, te_text_delta = ''b'', te_is_stop_token = False\<rparr>],
     er_result = Inr sample_generation, er_interrupted = Inr (sample_generation\<lparr>gn_stop_reason := SCancelled\<rparr>),
     er_receipt_matches = True\<rparr>"

definition sample_health :: runtime_health where
  "sample_health = \<lparr>hl_enforced = True, hl_healthy = True\<rparr>"

definition sample_start :: "bool \<Rightarrow> gateway_system" where
  "sample_start streamed = \<lparr>gs_job = sample_job streamed, gs_health = sample_health, gs_worker = WQueued, gs_client = CWaiting,
     gs_connection = \<lparr>cn_sent = [], cn_events = replicate 20 (SeSent 500)\<rparr>, gs_stopping = False, gs_delivered = []\<rparr>"

lemma sample_reachable: "reachable sample_run (sample_job streamed) sample_health (sample_start streamed)"
  by (rule reachable.initial)
    (simp add: queued_def fresh_job_def sample_start_def sample_job_def new_job_def)

lemma sample_honest: "honest_engine sample_run"
  by (simp add: honest_engine_def sample_run_def sample_generation_def)

theorem gateway_progress_witness: "\<exists>s'. thread_step sample_run (sample_start True) s'"
  using gateway_progress [OF sample_reachable [of True] sample_honest]
  by (simp add: sample_start_def sample_job_def new_job_def)

text \<open>The two threads in turn, the worker first.\<close>

fun drive :: "nat \<Rightarrow> engine_run \<Rightarrow> gateway_system \<Rightarrow> gateway_system" where
  "drive 0 run s = s"
| "drive (Suc n) run s =
     drive n run (case worker_step run s of Some s' \<Rightarrow> s' | None \<Rightarrow> (case client_step s of Some s' \<Rightarrow> s' | None \<Rightarrow> s))"

lemma drive_reachable: "reachable run job health s \<Longrightarrow> reachable run job health (drive n run s)"
proof (induction n arbitrary: s)
  case (Suc n)
  have "reachable run job health s'" if "worker_step run s = Some s' \<or> client_step s = Some s'" for s'
    using Suc(2) that by (metis gateway_step.thread reachable.step thread_step.client thread_step.worker)
  then show ?case using Suc by (simp split: option.split)
qed simp

end
