(* ===== verification/Gateway_History.thy ===== *)
theory Gateway_History
  imports Gateway_Stream
begin

text \<open>
  What the client of one admitted job receives, whatever the interleaving: a complete event stream carries the
  events of the answer in order.
\<close>

subsection \<open>The expected answer\<close>

fun token_events :: "inference_job \<Rightarrow> string \<Rightarrow> token_event list \<Rightarrow> string list" where
  "token_events job pending [] = []"
| "token_events job pending (token # tokens) =
     (case token_delta (jb_request job) pending token of
        (delta, pending) \<Rightarrow> sse_data (token_payload job delta token) # token_events job pending tokens)"

fun pending_after :: "openai_request \<Rightarrow> string \<Rightarrow> token_event list \<Rightarrow> string" where
  "pending_after request pending [] = pending"
| "pending_after request pending (token # tokens) = pending_after request (snd (token_delta request pending token)) tokens"

definition usage_part :: "inference_job \<Rightarrow> generation \<Rightarrow> string list" where
  "usage_part job g = (if rq_include_usage (jb_request job) then [usage_event job g] else [])"

definition answer_events :: "inference_job \<Rightarrow> token_event list \<Rightarrow> generation \<Rightarrow> string list" where
  "answer_events job tokens g = token_events job [] tokens @ usage_part job g @ [done_event]"

text \<open>The engine and the health of the route let the job succeed.\<close>

definition succeeds :: "engine_run \<Rightarrow> runtime_health \<Rightarrow> bool" where
  "succeeds run health \<longleftrightarrow> health_ready health \<and> er_receipt_matches run \<and>
     (case er_result run of Inl _ \<Rightarrow> False | Inr g \<Rightarrow> gn_stop_reason g \<noteq> SCancelled)"

subsection \<open>The history of the events\<close>

definition in_flight :: "client_phase \<Rightarrow> string list" where
  "in_flight c = (case c of CSending e \<Rightarrow> [e] | _ \<Rightarrow> [])"

lemma in_flight_simps [simp]:
  "in_flight CWaiting = []" "in_flight CStreaming = []" "in_flight (CSending e) = [e]" "in_flight CDone = []"
  by (simp_all add: in_flight_def)

definition pushed :: "gateway_system \<Rightarrow> string list" where
  "pushed s = gs_delivered s @ in_flight (gs_client s) @ jb_events (gs_job s)"

text \<open>The events of an answer that was cut short or ended by an error.\<close>

definition partial_answer :: "engine_run \<Rightarrow> inference_job \<Rightarrow> string list \<Rightarrow> bool" where
  "partial_answer run job xs \<longleftrightarrow> (\<exists>seen rest. er_tokens run = seen @ rest \<and> xs = token_events job [] seen)"

definition answer_shape :: "engine_run \<Rightarrow> inference_job \<Rightarrow> runtime_health \<Rightarrow> bool \<Rightarrow> string list \<Rightarrow> bool" where
  "answer_shape run job health stopping xs \<longleftrightarrow>
     (partial_answer run job xs \<or>
      (\<exists>ys e. partial_answer run job ys \<and> xs = ys @ [sse_data (serialize_openai_error e)]) \<or>
      (\<exists>g. er_result run = Inr g \<and> prefix xs (answer_events job (er_tokens run) g))) \<and>
     (\<not> stopping \<and> succeeds run health \<longrightarrow> (\<exists>g. er_result run = Inr g \<and> xs = answer_events job (er_tokens run) g))"

fun worker_history :: "engine_run \<Rightarrow> inference_job \<Rightarrow> runtime_health \<Rightarrow> bool \<Rightarrow> worker_state \<Rightarrow> string list \<Rightarrow> bool" where
  "worker_history run job health stopping WQueued xs \<longleftrightarrow> xs = []"
| "worker_history run job health stopping (WTokens ts p) xs \<longleftrightarrow>
     (\<exists>seen. er_tokens run = seen @ ts \<and> xs = token_events job [] seen \<and> p = pending_after (jb_request job) [] seen)"
| "worker_history run job health stopping (WReturned r) xs \<longleftrightarrow> partial_answer run job xs \<and>
     (stopping \<or> er_result run = r \<and> xs = token_events job [] (er_tokens run))"
| "worker_history run job health stopping (WError e) xs \<longleftrightarrow> partial_answer run job xs \<and> (stopping \<or> \<not> succeeds run health)"
| "worker_history run job health stopping (WErrorPush e) xs \<longleftrightarrow> partial_answer run job xs \<and> (stopping \<or> \<not> succeeds run health)"
| "worker_history run job health stopping (WUsage g) xs \<longleftrightarrow> er_result run = Inr g \<and>
     rq_include_usage (jb_request job) \<and> xs = token_events job [] (er_tokens run)"
| "worker_history run job health stopping WDoneEvent xs \<longleftrightarrow>
     (\<exists>g. er_result run = Inr g \<and> xs = token_events job [] (er_tokens run) @ usage_part job g)"
| "worker_history run job health stopping WClosing xs \<longleftrightarrow> answer_shape run job health stopping xs"
| "worker_history run job health stopping WEnded xs \<longleftrightarrow> answer_shape run job health stopping xs"

definition sent_text :: "gateway_system \<Rightarrow> bool" where
  "sent_text s \<longleftrightarrow>
     (case gs_client s of
        CWaiting \<Rightarrow> cn_sent (gs_connection s) = [] \<and> gs_delivered s = []
      | CStreaming \<Rightarrow> cn_sent (gs_connection s) = sse_headers False @ concat (map chunk_text (gs_delivered s))
      | CSending _ \<Rightarrow> cn_sent (gs_connection s) = sse_headers False @ concat (map chunk_text (gs_delivered s))
      | CDone \<Rightarrow> cn_sent (gs_connection s) = sse_headers False @ concat (map chunk_text (gs_delivered s)) @ chunk_end \<and>
          jb_events (gs_job s) = [] \<and> gs_worker s = WEnded
      | _ \<Rightarrow> True)"

definition before_return :: "worker_state \<Rightarrow> bool" where
  "before_return w \<longleftrightarrow> (case w of WQueued \<Rightarrow> True | WTokens _ _ \<Rightarrow> True | WReturned _ \<Rightarrow> True | _ \<Rightarrow> False)"

definition history_inv :: "engine_run \<Rightarrow> inference_job \<Rightarrow> runtime_health \<Rightarrow> gateway_system \<Rightarrow> bool" where
  "history_inv run job health s \<longleftrightarrow>
     (before_return (gs_worker s) \<longrightarrow> gs_health s = health) \<and>
     (gs_client s = CLost \<or> gs_client s = CReplied \<or>
      sent_text s \<and> worker_history run job health (gs_stopping s) (gs_worker s) (pushed s))"

lemma token_events_append:
  "token_events job p (xs @ ys) = token_events job p xs @ token_events job (pending_after (jb_request job) p xs) ys"
  by (induction xs arbitrary: p) (simp_all split: prod.splits)

lemma pending_after_append: "pending_after request p (xs @ ys) = pending_after request (pending_after request p xs) ys"
  by (induction xs arbitrary: p) simp_all

lemma token_payload_same: "same_job job job' \<Longrightarrow> token_payload job' delta token = token_payload job delta token"
  by (simp add: token_payload_def same_job_def Let_def)

lemma usage_event_same: "same_job job job' \<Longrightarrow> usage_event job' g = usage_event job g"
  by (simp add: usage_event_def same_job_def)

lemma partial_answerI: "er_tokens run = seen @ rest \<Longrightarrow> partial_answer run job (token_events job [] seen)"
  by (auto simp: partial_answer_def)

lemma partial_shape:
  "partial_answer run job xs \<Longrightarrow> stopping \<or> \<not> succeeds run health \<Longrightarrow> answer_shape run job health stopping xs"
  by (auto simp: answer_shape_def)

lemma worker_history_stop:
  "worker_history run job health stopping w xs \<Longrightarrow> worker_history run job health True w xs"
  by (cases w) (auto simp: answer_shape_def)

subsection \<open>The worker\<close>

lemma worker_frame:
  assumes "worker_step run s = Some s'"
  shows "gs_client s' = gs_client s \<and> gs_connection s' = gs_connection s \<and> gs_delivered s' = gs_delivered s \<and>
    gs_stopping s' = gs_stopping s \<and> (gs_health s' = gs_health s \<or> \<not> before_return (gs_worker s'))"
proof (cases "gs_worker s")
  case (WTokens ts p)
  then show ?thesis using assms by (cases ts) (auto simp: worker_step_simps worker_step_push)
next
  case (WReturned r)
  then have "s' = execute_returned run r s" using assms by (simp add: worker_step_simps)
  then show ?thesis
    by (cases r) (simp_all add: execute_returned_def Let_def before_return_def split: prod.splits)
qed (use assms in \<open>auto simp: worker_step_simps worker_step_push execute_start_def publish_job_error_def Let_def split: if_splits\<close>)

lemma push_events: "push_event e stopping j = Some (ok, j') \<Longrightarrow> jb_events j' = jb_events j @ (if ok then [e] else [])"
  by (auto simp: push_event_def split: if_splits)

lemma flow_active:
  assumes "flow_inv job s" "active (gs_client s)"
  shows "jb_cancelled (gs_job s) \<or> gs_stopping s \<longleftrightarrow> gs_stopping s"
    and "gs_worker s \<noteq> WEnded \<Longrightarrow> \<not> jb_event_stream_closed (gs_job s)" and "same_job job (gs_job s)"
  using assms by (auto simp: flow_inv_def Let_def)

lemma push_refused:
  assumes "flow_inv job s" "active (gs_client s)" "gs_worker s \<noteq> WEnded"
    "push_event e (gs_stopping s) (gs_job s) = Some (False, j)"
  shows "gs_stopping s"
  using flow_active [OF assms(1,2)] assms(3,4) by (auto simp: push_event_False)

lemma answer_shape_prefix:
  assumes "er_result run = Inr g" "prefix xs (answer_events job (er_tokens run) g)"
    "stopping \<or> xs = answer_events job (er_tokens run) g"
  shows "answer_shape run job health stopping xs"
  using assms by (auto simp: answer_shape_def)

lemma history_tokens:
  assumes flow: "flow_inv job s" and c: "active (gs_client s)" and streamed: "rq_stream (jb_request job)"
    and w: "gs_worker s = WTokens (token # ts) p"
    and hist: "worker_history run job health (gs_stopping s) (gs_worker s) (pushed s)"
    and step: "worker_step run s = Some s'"
  shows "worker_history run job health (gs_stopping s) (gs_worker s') (pushed s')"
proof -
  obtain seen where seen: "er_tokens run = seen @ token # ts" "pushed s = token_events job [] seen"
    "p = pending_after (jb_request job) [] seen"
    using hist w by auto
  obtain go_on p' j where o: "observe_gateway_token (gs_stopping s) token p (gs_job s) = Some (go_on, p', j)"
    and s': "s' = s\<lparr>gs_job := j, gs_worker := (if go_on then WTokens ts p' else WReturned (er_interrupted run))\<rparr>"
    using step w by (auto simp: worker_step_push)
  note flags = flow_active [OF flow c]
  from o show ?thesis
  proof (cases rule: observe_cases)
    case flagged
    then show ?thesis using flags(1) seen partial_answerI [OF seen(1), of job] by (simp add: s' pushed_def)
  next
    case plain
    then show ?thesis using flags(3) streamed by (simp add: same_job_def)
  next
    case (accepted delta)
    then have "pushed s' = pushed s @ [sse_data (token_payload job delta token)]" "gs_worker s' = WTokens ts p'"
      using push_events [OF accepted(4)] token_payload_same [OF flags(3)] by (simp_all add: s' pushed_def)
    moreover have "token_delta (jb_request job) p token = (delta, p')" using accepted(3) flags(3) by (simp add: same_job_def)
    ultimately show ?thesis
      using seen by (auto intro!: exI [of _ "seen @ [token]"] simp: token_events_append pending_after_append)
  next
    case refused
    then show ?thesis using flags(2) w by simp
  qed
qed

lemma history_returned:
  assumes flow: "flow_inv job s" and c: "active (gs_client s)" and streamed: "rq_stream (jb_request job)"
    and w: "gs_worker s = WReturned r" and health: "gs_health s = health"
    and hist: "worker_history run job health (gs_stopping s) (gs_worker s) (pushed s)"
  shows "worker_history run job health (gs_stopping s) (gs_worker (execute_returned run r s)) (pushed (execute_returned run r s))"
proof -
  note flags = flow_active [OF flow c]
  have streamed': "rq_stream (jb_request (gs_job s))" "jb_request (gs_job s) = jb_request job"
    using streamed flags(3) by (simp_all add: same_job_def)
  have partial: "partial_answer run job (pushed s)"
    and result: "gs_stopping s \<or> er_result run = r \<and> pushed s = token_events job [] (er_tokens run)"
    using hist w by simp_all
  have unhealthy: "gs_stopping s \<or> \<not> succeeds run health"
    if "\<not> fst (observe_health (er_receipt_matches run)
          (case r of Inl d \<Rightarrow> observe_failure d (gs_health s) | Inr _ \<Rightarrow> gs_health s))"
    using that result health by (cases r) (auto simp: observe_health_def succeeds_def split: if_splits sum.splits)
  have same: "pushed (execute_returned run r s) = pushed s"
    using streamed' by (cases r) (simp_all add: execute_returned_def pushed_def Let_def split: prod.splits)
  show ?thesis
    unfolding same using partial result unhealthy flags(1) streamed'
    by (cases r) (auto simp: execute_returned_def Let_def succeeds_def usage_part_def
      intro: partial_shape split: prod.splits)
qed

lemma history_worker:
  assumes flow: "flow_inv job s" and c: "active (gs_client s)" and streamed: "rq_stream (jb_request job)"
    and health: "before_return (gs_worker s) \<Longrightarrow> gs_health s = health"
    and hist: "worker_history run job health (gs_stopping s) (gs_worker s) (pushed s)"
    and step: "worker_step run s = Some s'"
  shows "worker_history run job health (gs_stopping s) (gs_worker s') (pushed s')"
proof -
  note flags = flow_active [OF flow c]
  show ?thesis
  proof (cases "gs_worker s")
    case WQueued
    then show ?thesis
      using step hist health flags(1) partial_answerI [of run "[]" "er_tokens run" job]
      by (cases "health_ready health"; cases "gs_stopping s")
        (auto simp: worker_step_simps execute_start_def pushed_def before_return_def succeeds_def)
  next
    case (WTokens ts p)
    then show ?thesis
      using step hist history_tokens [OF flow c streamed _ hist step] partial_answerI [of run "er_tokens run" "[]" job]
      by (cases ts) (auto simp: worker_step_simps pushed_def)
  next
    case (WReturned r)
    then show ?thesis
      using step history_returned [OF flow c streamed WReturned _ hist] health by (simp add: worker_step_simps before_return_def)
  next
    case (WError e)
    then show ?thesis
      using step hist flags streamed
      by (cases "jb_stream_start (gs_job s) = SsPending"; cases "gs_stopping s")
        (auto simp: worker_step_simps publish_job_error_def close_events_def set_response_def pushed_def Let_def same_job_def
        intro: partial_shape)
  next
    case (WErrorPush e)
    then obtain ok j where push: "push_event (sse_data (serialize_openai_error e)) (gs_stopping s) (gs_job s) = Some (ok, j)"
      and s': "s' = s\<lparr>gs_job := j, gs_worker := WClosing\<rparr>"
      using step by (auto simp: worker_step_push)
    then show ?thesis
      using hist WErrorPush push_events [OF push] by (auto simp: pushed_def answer_shape_def)
  next
    case (WUsage g)
    then obtain ok j where push: "push_event (usage_event (gs_job s) g) (gs_stopping s) (gs_job s) = Some (ok, j)"
      and s': "s' = (if ok then s\<lparr>gs_job := j, gs_worker := WDoneEvent\<rparr> else s\<lparr>gs_job := cancel j, gs_worker := WClosing\<rparr>)"
      using step by (auto simp: worker_step_push)
    show ?thesis
    proof (cases ok)
      case True
      then show ?thesis
        using hist WUsage push_events [OF push] usage_event_same [OF flags(3)] by (simp add: s' pushed_def usage_part_def)
    next
      case False
      then have "gs_stopping s" using push_refused [OF flow c] push WUsage by auto
      then show ?thesis
        using False hist WUsage push_events [OF push]
        by (auto simp: s' pushed_def answer_events_def intro: answer_shape_prefix)
    qed
  next
    case WDoneEvent
    then obtain ok j where push: "push_event done_event (gs_stopping s) (gs_job s) = Some (ok, j)"
      and s': "s' = s\<lparr>gs_job := j, gs_worker := WClosing\<rparr>"
      using step by (auto simp: worker_step_push)
    obtain g where g: "er_result run = Inr g" "pushed s = token_events job [] (er_tokens run) @ usage_part job g"
      using hist WDoneEvent by auto
    have "pushed s' = pushed s @ (if ok then [done_event] else [])" using push_events [OF push] by (simp add: s' pushed_def)
    moreover have "gs_stopping s" if "\<not> ok" using push_refused [OF flow c] push WDoneEvent that by auto
    ultimately show ?thesis
      using answer_shape_prefix [OF g(1), of "pushed s'" job] by (cases ok) (auto simp: s' g(2) answer_events_def)
  next
    case WClosing
    then show ?thesis using step hist by (auto simp: worker_step_simps pushed_def close_events_def)
  next
    case WEnded
    then show ?thesis using step by (simp add: worker_step_simps)
  qed
qed

subsection \<open>The ingress thread\<close>

lemma history_start:
  assumes flow: "flow_inv job s" and hist: "history_inv run job health s" and c: "gs_client s = CWaiting"
    and step: "client_start s = Some s'"
  shows "history_inv run job health s'"
proof (cases "gs_client s' = CStreaming")
  case True
  obtain ok cn where h: "send_sse_headers False (gs_connection s) = (ok, cn)" by fastforce
  then have "ok \<and> s' = s\<lparr>gs_connection := cn, gs_client := CStreaming\<rparr>"
    using step c True by (auto simp: client_start_def client_reply_def client_abandon_def Let_def split: if_splits prod.splits)
  moreover from this have "cn_sent cn = cn_sent (gs_connection s) @ sse_headers False"
    using h send_all_ok by (simp add: send_sse_headers_def)
  ultimately show ?thesis using hist c by (auto simp: history_inv_def sent_text_def pushed_def)
next
  case False
  then have "gs_client s' = CLost \<or> gs_client s' = CReplied" "gs_worker s' = gs_worker s" "gs_health s' = gs_health s"
    using step by (auto simp: client_start_def client_reply_def client_abandon_def Let_def split: if_splits prod.splits)
  then show ?thesis using hist by (auto simp: history_inv_def)
qed

lemma history_abandon: "history_inv run job health s \<Longrightarrow> history_inv run job health (client_abandon s)"
  by (auto simp: history_inv_def client_abandon_def)

lemma history_client:
  assumes flow: "flow_inv job s" and hist: "history_inv run job health s" and step: "client_step s = Some s'"
  shows "history_inv run job health s'"
proof (cases "gs_client s")
  case CWaiting
  then show ?thesis using history_start [OF flow hist] step by (simp add: client_step_def)
next
  case CStreaming
  show ?thesis
  proof (cases "jb_events (gs_job s)")
    case (Cons e es)
    then show ?thesis using CStreaming hist step
      by (auto simp: client_step_def Let_def history_inv_def sent_text_def pushed_def)
  next
    case Nil
    obtain ok cn where e: "send_chunk_end (gs_connection s) = (ok, cn)" by fastforce
    have closed: "jb_event_stream_closed (gs_job s)"
      and s': "s' = s\<lparr>gs_connection := cn, gs_client := (if ok then CDone else CLost), gs_job := cancel (gs_job s)\<rparr>"
      using Nil CStreaming step e by (auto simp: client_step_def Let_def split: if_splits)
    then have "gs_worker s = WEnded" using flow by (auto simp: flow_inv_def Let_def)
    moreover have "ok \<Longrightarrow> cn_sent cn = cn_sent (gs_connection s) @ chunk_end"
      using e send_all_ok by (simp add: send_chunk_end_def)
    ultimately show ?thesis using CStreaming Nil hist
      by (auto simp: s' history_inv_def sent_text_def pushed_def)
  qed
next
  case (CSending e)
  obtain ok cn where e: "send_chunk e (gs_connection s) = (ok, cn)" by fastforce
  then have s': "s' = (if ok then s\<lparr>gs_connection := cn, gs_client := CStreaming, gs_delivered := gs_delivered s @ [e]\<rparr>
      else client_abandon (s\<lparr>gs_connection := cn\<rparr>))"
    using CSending step by (auto simp: client_step_def Let_def)
  have "ok \<Longrightarrow> cn_sent cn = cn_sent (gs_connection s) @ chunk_text e" using e send_chunk_ok by simp
  then show ?thesis using CSending hist
    by (auto simp: s' history_inv_def sent_text_def pushed_def client_abandon_def)
qed (use step in \<open>simp_all add: client_step_def Let_def\<close>)

lemma history_thread:
  assumes flow: "flow_inv job s" and streamed: "rq_stream (jb_request job)" and hist: "history_inv run job health s"
    and step: "thread_step run s s'"
  shows "history_inv run job health s'"
  using step
proof cases
  case worker
  note frame = worker_frame [OF worker]
  have health: "before_return (gs_worker s) \<Longrightarrow> gs_health s = health" using hist by (simp add: history_inv_def)
  have "before_return (gs_worker s') \<Longrightarrow> before_return (gs_worker s)"
    using worker by (cases "gs_worker s") (auto simp: worker_step_simps worker_step_push before_return_def
      publish_job_error_def Let_def split: if_splits)
  then have "before_return (gs_worker s') \<longrightarrow> gs_health s' = health" using frame health by auto
  moreover have "worker_history run job health (gs_stopping s) (gs_worker s') (pushed s') \<and> sent_text s'"
    if "gs_client s \<noteq> CLost" "gs_client s \<noteq> CReplied"
  proof -
    have sent: "sent_text s" and wh: "worker_history run job health (gs_stopping s) (gs_worker s) (pushed s)"
      using hist that by (auto simp: history_inv_def)
    then have "gs_client s \<noteq> CDone" using worker by (auto simp: sent_text_def worker_step_simps)
    then have "active (gs_client s)" using that by (cases "gs_client s") simp_all
    then show ?thesis
      using history_worker [OF flow _ streamed health wh worker] sent frame \<open>gs_client s \<noteq> CDone\<close>
      by (cases "gs_client s") (simp_all add: sent_text_def)
  qed
  ultimately show ?thesis using frame by (auto simp: history_inv_def)
next
  case client
  then show ?thesis using history_client [OF flow hist] by simp
next
  case abandon
  then show ?thesis using history_abandon [OF hist] by simp
qed

lemma history_reachable:
  assumes "reachable run job health s" "honest_engine run" "rq_stream (jb_request job)"
  shows "history_inv run job health s"
  using assms(1)
proof induction
  case (initial s)
  then show ?case by (auto simp: queued_def fresh_job_def history_inv_def sent_text_def pushed_def)
next
  case (step s s')
  note flow = flow_reachable [OF step(1) assms(2)]
  from step(2) show ?case
  proof cases
    case thread
    then show ?thesis using history_thread [OF flow assms(3) step(3)] by simp
  next
    case stop
    have "sent_text (s\<lparr>gs_stopping := True\<rparr>) = sent_text s" "pushed (s\<lparr>gs_stopping := True\<rparr>) = pushed s"
      by (simp_all add: sent_text_def pushed_def split: client_phase.splits)
    then show ?thesis using stop step(3) worker_history_stop [of run job health "gs_stopping s" "gs_worker s" "pushed s"]
      by (auto simp: history_inv_def)
  next
    case peer_gone
    then show ?thesis using history_abandon [OF step(3)] by simp
  next
    case (interrupt ts p)
    then have "active (gs_client s) \<Longrightarrow> gs_stopping s" using flow_active(1) [OF flow] by blast
    moreover have "gs_client s \<noteq> CLost \<Longrightarrow> gs_client s \<noteq> CReplied \<Longrightarrow> active (gs_client s)"
      using step(3) interrupt by (cases "gs_client s") (auto simp: history_inv_def sent_text_def)
    moreover have "sent_text (s\<lparr>gs_worker := WReturned (er_interrupted run)\<rparr>) = sent_text s" if "active (gs_client s)"
      using that by (cases "gs_client s") (simp_all add: sent_text_def)
    ultimately show ?thesis using step(3) interrupt
      by (auto simp: history_inv_def before_return_def pushed_def intro: partial_answerI)
  qed
qed

subsection \<open>What the client reads\<close>

lemma token_events_nonempty: "e \<in> set (token_events job p tokens) \<Longrightarrow> e \<noteq> []"
  by (induction tokens arbitrary: p) (auto simp: sse_data_def split: prod.splits)

lemma answer_shape_nonempty:
  assumes "answer_shape run job health stopping xs" "e \<in> set xs"
  shows "e \<noteq> []"
proof -
  have events: "\<forall>e\<in>set ys. e \<noteq> []" if "partial_answer run job ys" for ys
    using that token_events_nonempty by (auto simp: partial_answer_def)
  have answer: "\<forall>e\<in>set (answer_events job (er_tokens run) g). e \<noteq> []" for g
    using token_events_nonempty
    by (auto simp: answer_events_def usage_part_def usage_event_def sse_data_def done_event_def)
  from assms(1) consider "partial_answer run job xs"
    | ys err where "partial_answer run job ys" "xs = ys @ [sse_data (serialize_openai_error err)]"
    | g where "prefix xs (answer_events job (er_tokens run) g)"
    by (auto simp: answer_shape_def)
  then show ?thesis
  proof cases
    case 3
    then show ?thesis using answer assms(2) set_mono_prefix by blast
  qed (use events assms(2) in \<open>auto simp: sse_data_def\<close>)
qed

text \<open>
  C5. A client whose event stream was ended by the terminating chunk reads, after the headers, a body in the
  chunked coding that decodes to the events of a possible answer: the events of the tokens in order, cut short,
  followed by one error, or followed by the usage and the end mark. If the server was not told to stop, the
  engine succeeded and the route is healthy, it reads exactly the events of the answer, with none lost,
  repeated or reordered, under every interleaving of the two threads.
\<close>

theorem stream_delivers_answer:
  assumes "reachable run job health s" "honest_engine run" "rq_stream (jb_request job)" "gs_client s = CDone"
  shows "\<exists>body events. cn_sent (gs_connection s) = sse_headers False @ body \<and> decode_chunks body = Some events \<and>
    answer_shape run job health (gs_stopping s) events \<and>
    (\<not> gs_stopping s \<and> succeeds run health \<longrightarrow>
       (\<exists>g. er_result run = Inr g \<and> events = answer_events job (er_tokens run) g))"
proof -
  have "history_inv run job health s" using history_reachable [OF assms(1-3)] .
  then have sent: "cn_sent (gs_connection s) = sse_headers False @ concat (map chunk_text (gs_delivered s)) @ chunk_end"
    and shape: "answer_shape run job health (gs_stopping s) (gs_delivered s)"
    using assms(4) by (auto simp: history_inv_def sent_text_def pushed_def)
  have "decode_chunks (concat (map chunk_text (gs_delivered s)) @ chunk_end) = Some (gs_delivered s)"
    by (rule decode_stream) (use answer_shape_nonempty [OF shape] in blast)
  then show ?thesis using sent shape by (auto simp: answer_shape_def)
qed

theorem stream_delivers_answer_witness:
  "gs_client (drive 20 sample_run (sample_start True)) = CDone \<and>
   (\<exists>body. cn_sent (gs_connection (drive 20 sample_run (sample_start True))) = sse_headers False @ body \<and>
     decode_chunks body = Some (answer_events (sample_job True) (er_tokens sample_run) sample_generation))"
proof -
  let ?s = "drive 20 sample_run (sample_start True)"
  have final: "gs_client ?s = CDone" "\<not> gs_stopping ?s" by code_simp+
  moreover have "rq_stream (jb_request (sample_job True))" "succeeds sample_run sample_health"
    "er_result sample_run = Inr sample_generation"
    by code_simp+
  ultimately show ?thesis
    using stream_delivers_answer [OF drive_reachable [OF sample_reachable [of True]] sample_honest, of 20] by auto
qed

end
