(* ===== verification/Gateway_Reply.thy ===== *)
theory Gateway_Reply
  imports Gateway_History
begin

text \<open>
  The fixed responses of an admitted job: the answer to a request that is not streamed, and the error of a
  stream that never began.
\<close>

definition error_response :: "inference_job \<Rightarrow> bool" where
  "error_response j \<longleftrightarrow> (\<exists>e. jb_response_status j = nat (http_status e) \<and> jb_response_body j = serialize_openai_error e)"

definition plain_response :: "engine_run \<Rightarrow> inference_job \<Rightarrow> inference_job \<Rightarrow> bool" where
  "plain_response run job j \<longleftrightarrow> \<not> rq_stream (jb_request job) \<and>
     (\<exists>g. er_result run = Inr g \<and> jb_response_status j = 200 \<and> jb_response_body j = completion_body job g)"

definition response_ok :: "engine_run \<Rightarrow> inference_job \<Rightarrow> runtime_health \<Rightarrow> bool \<Rightarrow> inference_job \<Rightarrow> bool" where
  "response_ok run job health stopping j \<longleftrightarrow>
     error_response j \<and> (stopping \<or> \<not> succeeds run health) \<or> plain_response run job j"

lemma response_ok_update [simp]:
  "response_ok run job health stopping (j\<lparr>jb_cancelled := b\<rparr>) = response_ok run job health stopping j"
  "response_ok run job health stopping (j\<lparr>jb_events := es\<rparr>) = response_ok run job health stopping j"
  by (simp_all add: response_ok_def error_response_def plain_response_def)

fun worker_ok :: "engine_run \<Rightarrow> runtime_health \<Rightarrow> bool \<Rightarrow> worker_state \<Rightarrow> bool" where
  "worker_ok run health stopping (WReturned r) \<longleftrightarrow> stopping \<or> er_result run = r"
| "worker_ok run health stopping (WError e) \<longleftrightarrow> stopping \<or> \<not> succeeds run health"
| "worker_ok run health stopping w \<longleftrightarrow> True"

definition reply_inv :: "engine_run \<Rightarrow> inference_job \<Rightarrow> runtime_health \<Rightarrow> gateway_system \<Rightarrow> bool" where
  "reply_inv run job health s \<longleftrightarrow>
     (before_return (gs_worker s) \<longrightarrow> gs_health s = health) \<and>
     (gs_client s = CLost \<or>
      worker_ok run health (gs_stopping s) (gs_worker s) \<and>
      (\<not> active (gs_client s) \<longrightarrow> gs_worker s = WEnded) \<and>
      (gs_client s = CWaiting \<longrightarrow> cn_sent (gs_connection s) = []) \<and>
      (jb_response_ready (gs_job s) \<longrightarrow> response_ok run job health (gs_stopping s) (gs_job s)) \<and>
      (gs_client s = CReplied \<longrightarrow> jb_response_ready (gs_job s) \<and>
         cn_sent (gs_connection s) =
           fixed_response_headers (jb_response_status (gs_job s)) (jb_response_body (gs_job s)) False [] @
           jb_response_body (gs_job s)))"

lemma completion_body_same: "same_job job job' \<Longrightarrow> completion_body job' g = completion_body job g"
  by (simp add: completion_body_def same_job_def Let_def)

lemma before_return_back:
  assumes "worker_step run s = Some s'" "before_return (gs_worker s')"
  shows "before_return (gs_worker s)"
  using assms
  by (cases "gs_worker s") (auto simp: worker_step_simps worker_step_push before_return_def publish_job_error_def Let_def
    split: if_splits)

lemma send_fixed_ok:
  "send_fixed_response n body keep extra cn = (True, cn') \<Longrightarrow>
     cn_sent cn' = cn_sent cn @ fixed_response_headers n body keep extra @ body"
  unfolding send_fixed_response_def by (drule send_parts_ok) simp

lemma push_response:
  "push_event e stopping j = Some (ok, j') \<Longrightarrow>
     jb_response_ready j' = jb_response_ready j \<and> jb_response_status j' = jb_response_status j \<and>
     jb_response_body j' = jb_response_body j"
  by (auto simp: push_event_def split: if_splits)

text \<open>A step of the worker while the client is served: the states it reaches, and the response it sets.\<close>

lemma reply_returned:
  assumes flow: "flow_inv job s" and c: "active (gs_client s)" and w: "gs_worker s = WReturned r"
    and health: "gs_health s = health" and ok: "worker_ok run health (gs_stopping s) (gs_worker s)"
  shows "worker_ok run health (gs_stopping s) (gs_worker (execute_returned run r s)) \<and>
    (jb_response_ready (gs_job (execute_returned run r s)) \<longrightarrow>
       response_ok run job health (gs_stopping s) (gs_job (execute_returned run r s)))"
proof -
  note flags = flow_active [OF flow c]
  have unready: "\<not> jb_response_ready (gs_job s)" using flow w by (simp add: flow_inv_def Let_def)
  have result: "gs_stopping s \<or> er_result run = r" using ok w by simp
  have same: "rq_stream (jb_request (gs_job s)) = rq_stream (jb_request job)" using flags(3) by (simp add: same_job_def)
  show ?thesis
    using unready result health flags(1) same completion_body_same [OF flags(3)]
    by (cases r) (auto simp: execute_returned_def Let_def set_response_def response_ok_def plain_response_def
      succeeds_def observe_health_def split: if_splits)
qed

lemma reply_worker:
  assumes flow: "flow_inv job s" and c: "active (gs_client s)"
    and health: "before_return (gs_worker s) \<Longrightarrow> gs_health s = health"
    and ok: "worker_ok run health (gs_stopping s) (gs_worker s)"
    and step: "worker_step run s = Some s'"
  shows "worker_ok run health (gs_stopping s) (gs_worker s') \<and>
    (jb_response_ready (gs_job s') \<longrightarrow> response_ok run job health (gs_stopping s) (gs_job s'))"
proof -
  note flags = flow_active [OF flow c]
  have "gs_worker s \<noteq> WEnded" using step by (auto simp: worker_step_simps)
  then have unready: "\<not> jb_response_ready (gs_job s)" using flow by (simp add: flow_inv_def Let_def)
  show ?thesis
  proof (cases "gs_worker s")
    case WQueued
    then show ?thesis
      using step health flags(1) unready
      by (cases "health_ready health"; cases "gs_stopping s")
        (auto simp: worker_step_simps execute_start_def before_return_def succeeds_def)
  next
    case (WTokens ts p)
    show ?thesis
    proof (cases ts)
      case Nil
      then show ?thesis using WTokens step unready by (auto simp: worker_step_simps)
    next
      case (Cons token ts')
      then obtain go_on p' j where o: "observe_gateway_token (gs_stopping s) token p (gs_job s) = Some (go_on, p', j)"
        and s': "s' = s\<lparr>gs_job := j, gs_worker := (if go_on then WTokens ts' p' else WReturned (er_interrupted run))\<rparr>"
        using step WTokens by (auto simp: worker_step_push)
      from o show ?thesis
      proof (cases rule: observe_cases)
        case (accepted delta)
        then show ?thesis using push_response [OF accepted(4)] unready by (simp add: s')
      qed (use flags(1,2) unready WTokens in \<open>auto simp: s'\<close>)
    qed
  next
    case (WReturned r)
    then show ?thesis
      using step reply_returned [OF flow c WReturned _ ok] health by (simp add: worker_step_simps before_return_def)
  next
    case (WError e)
    then show ?thesis
      using step ok unready
      by (auto simp: worker_step_simps publish_job_error_def set_response_def close_events_def Let_def
        response_ok_def error_response_def split: if_splits)
  qed (use step unready in \<open>auto simp: worker_step_simps worker_step_push close_events_def dest!: push_response split: if_splits\<close>)
qed

lemma reply_client:
  assumes flow: "flow_inv job s" and inv: "reply_inv run job health s" and step: "client_step s = Some s'"
  shows "reply_inv run job health s'"
proof (cases "gs_client s")
  case CWaiting
  have reply: "reply_inv run job health (client_reply s)" if ready: "jb_response_ready (gs_job s)"
  proof -
    obtain ok cn where h: "send_fixed_response (jb_response_status (gs_job s)) (jb_response_body (gs_job s)) False [] (gs_connection s)
        = (ok, cn)" by fastforce
    have "gs_worker s = WEnded" using flow ready by (auto simp: flow_inv_def Let_def)
    moreover have "ok \<Longrightarrow> cn_sent cn = fixed_response_headers (jb_response_status (gs_job s)) (jb_response_body (gs_job s)) False [] @
        jb_response_body (gs_job s)"
      using h inv CWaiting send_fixed_ok by (auto simp: reply_inv_def)
    ultimately show ?thesis using h ready inv CWaiting
      by (auto simp: client_reply_def reply_inv_def before_return_def Let_def)
  qed
  have "jb_stream_start (gs_job s) = SsEarlyError \<Longrightarrow> jb_response_ready (gs_job s)" using flow by (simp add: flow_inv_def Let_def)
  then have "s' = client_reply s \<and> jb_response_ready (gs_job s) \<or> gs_client s' = CLost \<and> gs_worker s' = gs_worker s \<and> gs_health s' = gs_health s \<or>
      (\<exists>cn. s' = s\<lparr>gs_connection := cn, gs_client := CStreaming\<rparr>)"
    using step CWaiting by (auto simp: client_step_def client_start_def client_abandon_def Let_def split: if_splits prod.splits)
  then show ?thesis using reply inv CWaiting by (auto simp: reply_inv_def)
next
  case CStreaming
  show ?thesis
  proof (cases "jb_events (gs_job s)")
    case (Cons e es)
    then show ?thesis using CStreaming inv step
      by (auto simp: client_step_def Let_def reply_inv_def)
  next
    case Nil
    then have "jb_event_stream_closed (gs_job s)" using CStreaming step by (auto simp: client_step_def Let_def split: if_splits)
    then have "gs_worker s = WEnded" using flow by (auto simp: flow_inv_def Let_def)
    then show ?thesis using CStreaming Nil inv step
      by (auto simp: client_step_def Let_def reply_inv_def before_return_def split: if_splits prod.splits)
  qed
next
  case (CSending e)
  then show ?thesis using inv step
    by (auto simp: client_step_def Let_def reply_inv_def client_abandon_def split: if_splits prod.splits)
qed (use step in \<open>simp_all add: client_step_def Let_def\<close>)

lemma reply_abandon: "reply_inv run job health s \<Longrightarrow> reply_inv run job health (client_abandon s)"
  by (auto simp: reply_inv_def client_abandon_def)

lemma reply_thread:
  assumes flow: "flow_inv job s" and inv: "reply_inv run job health s" and step: "thread_step run s s'"
  shows "reply_inv run job health s'"
  using step
proof cases
  case worker
  note frame = worker_frame [OF worker]
  have health: "before_return (gs_worker s) \<Longrightarrow> gs_health s = health" using inv by (simp add: reply_inv_def)
  have "gs_worker s \<noteq> WEnded" using worker by (auto simp: worker_step_simps)
  then have "gs_client s = CLost \<or> active (gs_client s)" using inv by (auto simp: reply_inv_def)
  then show ?thesis
    using reply_worker [OF flow _ health _ worker] inv frame health before_return_back [OF worker] by (auto simp: reply_inv_def)
next
  case client
  then show ?thesis using reply_client [OF flow inv] by simp
next
  case abandon
  then show ?thesis using reply_abandon [OF inv] by simp
qed

lemma reply_reachable:
  assumes "reachable run job health s" "honest_engine run"
  shows "reply_inv run job health s"
  using assms(1)
proof induction
  case (initial s)
  then show ?case by (auto simp: queued_def fresh_job_def reply_inv_def)
next
  case (step s s')
  note flow = flow_reachable [OF step(1) assms(2)]
  from step(2) show ?case
  proof cases
    case thread
    then show ?thesis using reply_thread [OF flow step(3)] by simp
  next
    case stop
    have "worker_ok run health True w" for w by (cases w) simp_all
    then show ?thesis using stop step(3) by (auto simp: reply_inv_def response_ok_def)
  next
    case peer_gone
    then show ?thesis using reply_abandon [OF step(3)] by simp
  next
    case (interrupt ts p)
    then have "active (gs_client s) \<Longrightarrow> gs_stopping s" using flow_active(1) [OF flow] by blast
    then show ?thesis using step(3) interrupt by (auto simp: reply_inv_def before_return_def)
  qed
qed

text \<open>
  C12. A client that was answered without an event stream got exactly one response on a connection with nothing
  before it: the error of the job, or, for a request that is not streamed, status 200 with the completion of what
  the engine generated. If the server was not told to stop, the engine succeeded and the route is healthy, the
  request was not a streamed one and the response is its completion.
\<close>

theorem reply_is_one_response:
  assumes "reachable run job health s" "honest_engine run" "gs_client s = CReplied"
  shows "\<exists>n body. cn_sent (gs_connection s) = fixed_response_headers n body False [] @ body \<and>
    ((\<exists>e. n = nat (http_status e) \<and> body = serialize_openai_error e) \<and> (gs_stopping s \<or> \<not> succeeds run health) \<or>
     \<not> rq_stream (jb_request job) \<and> (\<exists>g. er_result run = Inr g \<and> n = 200 \<and> body = completion_body job g))"
  using reply_reachable [OF assms(1,2)] assms(3)
  by (auto simp: reply_inv_def response_ok_def error_response_def plain_response_def)

theorem reply_is_one_response_witness:
  "gs_client (drive 20 sample_run (sample_start False)) = CReplied \<and>
   cn_sent (gs_connection (drive 20 sample_run (sample_start False))) =
     fixed_response_headers 200 (completion_body (sample_job False) sample_generation) False [] @
     completion_body (sample_job False) sample_generation"
proof -
  let ?s = "drive 20 sample_run (sample_start False)"
  have "gs_client ?s = CReplied" "\<not> gs_stopping ?s" by code_simp+
  moreover have "succeeds sample_run sample_health" "er_result sample_run = Inr sample_generation" by code_simp+
  ultimately show ?thesis
    using reply_is_one_response [OF drive_reachable [OF sample_reachable [of False]] sample_honest, of 20] by auto
qed

end
