(* ===== verification/Gateway_Admission.thy ===== *)
theory Gateway_Admission
  imports Http_Correct Gateway_Reply
begin

text \<open>
  What the gateway lets through: the queue keeps its order and its bound, the health latch never reopens, and a
  job is queued only for an authorised, well-formed completion request on a healthy route.
\<close>

subsection \<open>The bounded queue\<close>

datatype 'a queue_op = QPush 'a | QPop | QClose

text \<open>A sequence of operations, with the values accepted and the values popped; a waiting pop does nothing.\<close>

fun queue_run :: "'a queue_op list \<Rightarrow> 'a bounded_queue \<Rightarrow> 'a list \<times> 'a list \<times> 'a bounded_queue" where
  "queue_run [] q = ([], [], q)"
| "queue_run (QPush v # ops) q =
     (case try_push v q of (ok, q) \<Rightarrow>
        (case queue_run ops q of (ins, outs, q) \<Rightarrow> (if ok then v # ins else ins, outs, q)))"
| "queue_run (QPop # ops) q =
     (case queue_pop q of
        None \<Rightarrow> queue_run ops q
      | Some (None, q) \<Rightarrow> queue_run ops q
      | Some (Some v, q) \<Rightarrow> (case queue_run ops q of (ins, outs, q) \<Rightarrow> (ins, v # outs, q)))"
| "queue_run (QClose # ops) q = queue_run ops (queue_close q)"

lemma queue_ops:
  "try_push v q = (ok, q') \<Longrightarrow> bq_items q' = bq_items q @ (if ok then [v] else []) \<and> bq_capacity q' = bq_capacity q \<and>
     (length (bq_items q) \<le> bq_capacity q \<longrightarrow> length (bq_items q') \<le> bq_capacity q)"
  "queue_pop q = Some (r, q') \<Longrightarrow> bq_items q = (case r of None \<Rightarrow> [] | Some x \<Rightarrow> [x]) @ bq_items q' \<and> bq_capacity q' = bq_capacity q"
  by (auto simp: try_push_def queue_pop_def split: if_splits list.splits)

lemma queue_ok:
  assumes "queue_run ops q = (ins, outs, q')" "length (bq_items q) \<le> bq_capacity q"
  shows "bq_items q @ ins = outs @ bq_items q' \<and> length (bq_items q') \<le> bq_capacity q"
  using assms
proof (induction ops arbitrary: q ins outs)
  case (Cons op ops)
  show ?case
  proof (cases op)
    case (QPush v)
    obtain ok q1 ins1 where push: "try_push v q = (ok, q1)" and run: "queue_run ops q1 = (ins1, outs, q')"
      and ins: "ins = (if ok then v # ins1 else ins1)"
      using Cons.prems(1) QPush by (auto split: prod.splits)
    show ?thesis using Cons.IH [OF run] queue_ops(1) [OF push] Cons.prems(2) by (cases ok) (auto simp: ins)
  next
    case QPop
    show ?thesis
    proof (cases "queue_pop q")
      case None
      then show ?thesis using Cons QPop by simp
    next
      case (Some r)
      obtain v q1 where r: "r = (v, q1)" by fastforce
      obtain outs1 where run: "queue_run ops q1 = (ins, outs1, q')" and outs: "outs = (case v of None \<Rightarrow> outs1 | Some x \<Rightarrow> x # outs1)"
        using Cons.prems(1) QPop Some r by (cases v) (auto split: prod.splits)
      have "queue_pop q = Some (v, q1)" using Some r by simp
      from queue_ops(2) [OF this] show ?thesis using Cons.IH [OF run] Cons.prems(2) by (cases v) (simp_all add: outs)
    qed
  next
    case QClose
    then show ?thesis using Cons.IH [of "queue_close q"] Cons.prems by (simp add: queue_close_def)
  qed
qed simp

text \<open>
  The bounded queue is first in, first out, and within its capacity: over any sequence of operations, what
  was in it followed by the values it accepted is what was popped followed by what is still in it.
\<close>

theorem queue_order_and_bound:
  assumes "queue_run ops q = (ins, outs, q')" "length (bq_items q) \<le> bq_capacity q"
  shows "bq_items q @ ins = outs @ bq_items q' \<and> length (bq_items q') \<le> bq_capacity q"
  using queue_ok [OF assms] .

theorem queue_order_and_bound_witness:
  "bq_items \<lparr>bq_capacity = 2, bq_items = [], bq_closed = False\<rparr> @ [1, 2 :: nat] = [1] @ [2] \<and> length [2 :: nat] \<le> 2"
  using queue_order_and_bound [of "[QPush 1, QPush 2, QPush 3, QPop, QClose, QPush 4]"
    "\<lparr>bq_capacity = 2, bq_items = [], bq_closed = False\<rparr>" "[1, 2 :: nat]" "[1]" "\<lparr>bq_capacity = 2, bq_items = [2], bq_closed = True\<rparr>"]
  by (simp add: try_push_def queue_pop_def queue_close_def)

subsection \<open>The health latch\<close>

datatype health_event = HObserved bool | HFailed engine_diagnostic

fun health_after :: "health_event list \<Rightarrow> runtime_health \<Rightarrow> runtime_health" where
  "health_after [] h = h"
| "health_after (HObserved receipt_matches # events) h = health_after events (snd (observe_health receipt_matches h))"
| "health_after (HFailed diagnostic # events) h = health_after events (observe_failure diagnostic h)"

lemma latch_keeps:
  "\<not> health_ready h \<Longrightarrow> \<not> health_ready (snd (observe_health b h))" "\<not> health_ready h \<Longrightarrow> \<not> health_ready (observe_failure d h)"
  by (simp_all add: health_ready_def observe_health_def observe_failure_def fail_closed_def)

lemma health_latch: "\<not> health_ready h \<Longrightarrow> \<not> health_ready (health_after events h)"
  by (induction events h rule: health_after.induct) (simp_all add: latch_keeps)

subsection \<open>Admission\<close>

lemma route_queued:
  assumes "route_request options api_key health now sequence request = RQueue job"
  shows "hq_method request = ''POST'' \<and> hq_target request \<in> {''/v1/chat/completions'', ''/v1/completions''} \<and>
    (api_key \<noteq> [] \<longrightarrow> constant_time_bearer_authorization_matches (hq_authorization request) api_key) \<and>
    health_ready health \<and> is_json_content_type (hq_content_type request) \<and>
    completion_route options now sequence (hq_target request = ''/v1/chat/completions'') request = RQueue job"
  using assms by (auto simp: route_request_def health_route_def models_route_def Let_def split: if_splits)

lemma completion_queued:
  assumes "completion_route options now sequence chat request = RQueue job"
  shows "parse_openai_request (hq_body request) (if chat then kChatCompletions else kCompletions) (go_served_model options)
      (go_maximum_output_tokens options) (go_max_sequence_length options) = Inr (jb_request job) \<and>
    fresh_job job \<and> jb_event_capacity job = go_stream_event_capacity options \<and>
    jb_request_body_sha256 job = digest_hex (sha256 (hq_body request))"
  using assms by (auto simp: completion_route_def new_job_def fresh_job_def split: sum.splits if_splits)

lemma admit_Some:
  assumes "admit_connection options api_key health stopping stopping_now now sequence read queue cn = (Some job, queue', cn')"
  shows "\<not> stopping \<and> read_route options api_key health now sequence read = RQueue job \<and>
    try_push job queue = (True, queue') \<and> cn' = cn"
  using assms by (auto simp: admit_connection_def Let_def split: if_splits route.splits prod.splits)

text \<open>
  C8. A job reaches the inference queue only for a complete POST request to one of the two completion endpoints
  with a JSON content type, carrying exactly the configured key when one is configured, while the route is
  healthy and the server not stopping, and whose body parses to the request of the job. The job is new, it is the
  last in the queue, the queue is within its capacity, and nothing has been sent.
\<close>

theorem admission_guards:
  assumes "admit_connection options api_key health stopping stopping_now now sequence read queue cn = (Some job, queue', cn')"
    and "length (hq_authorization request) < 2 ^ 64" "length api_key + 7 < 2 ^ 64"
    and "hr_value read = Some request"
  shows "\<not> stopping \<and> hq_method request = ''POST'' \<and>
    hq_target request \<in> {''/v1/chat/completions'', ''/v1/completions''} \<and>
    (api_key = [] \<or> hq_authorization request = ''Bearer '' @ api_key) \<and> health_ready health \<and>
    is_json_content_type (hq_content_type request) \<and>
    parse_openai_request (hq_body request)
      (if hq_target request = ''/v1/chat/completions'' then kChatCompletions else kCompletions) (go_served_model options)
      (go_maximum_output_tokens options) (go_max_sequence_length options) = Inr (jb_request job) \<and>
    fresh_job job \<and> bq_items queue' = bq_items queue @ [job] \<and> length (bq_items queue') \<le> bq_capacity queue \<and> cn' = cn"
proof -
  note admitted = admit_Some [OF assms(1)]
  then have route: "route_request options api_key health now sequence request = RQueue job"
    using assms(4) by (simp add: read_route_def)
  have "api_key = [] \<or> hq_authorization request = ''Bearer '' @ api_key"
    using route_queued [OF route] bearer_matches_iff assms(2-4) by blast
  moreover have "bq_items queue' = bq_items queue @ [job] \<and> length (bq_items queue') \<le> bq_capacity queue"
    using admitted by (auto simp: try_push_def split: if_splits)
  ultimately show ?thesis using admitted route_queued [OF route] completion_queued by blast
qed

definition sample_options :: gateway_options where
  "sample_options = \<lparr>go_build = \<lparr>cfg_whole_core_service = False, cfg_layer_wide_p40_mlp = False, cfg_prompt_wide_p40_whole_core = False,
       cfg_p40_projection_reset = False, cfg_p40_packed_projection = False, cfg_p40_packed_nvfp4_v2 = False,
       cfg_p40_vllm_marlin_parity = False\<rparr>, go_mtp_service = False, go_served_model = ''q'',
     go_maximum_output_tokens = 8, go_max_sequence_length = 16, go_stream_event_capacity = 4,
     go_development_route = False, go_whole_core_profile = False,
     go_identity = \<lparr>profile_id = [], decode_route_id = [], target_prompt_tokens = 0, maximum_output_tokens = 0,
       max_sequence_length = 0, request_arena_bytes = 0, prefill_supermatrix_projections = 0,
       prefill_supermatrix_sidecar_bytes = 0, decode_fp8_output_layers = 0, decode_fp8_output_sidecar_bytes = 0,
       decode_gate_up_layers = 0, decode_gate_up_sidecar_bytes = 0, decode_down_scale6_layers = 0,
       decode_down_scale6_sidecar_bytes = 0, decode_down_consumer_order_layers = 0,
       decode_down_consumer_order_sidecar_bytes = 0, decode_retained_sidecar_bytes = 0,
       retained_acceleration_sidecar_bytes = 0, decode_graph_first_position = 0, decode_graph_last_position = 0,
       decode_graph_slots = 0, build_testing = False, production_eligible = True, release_qualified = False\<rparr>\<rparr>"

definition sample_body :: string where
  "sample_body = print_json (token_request ''q'' [7, 9] 2)"

definition sample_request :: http_request where
  "sample_request = \<lparr>hq_method = ''POST'', hq_target = ''/v1/completions'', hq_content_type = ''application/json'',
     hq_authorization = ''Bearer k'', hq_body = sample_body, hq_keep_alive = True\<rparr>"

definition sample_admitted :: inference_job where
  "sample_admitted = new_job (default_request\<lparr>rq_endpoint := kCompletions, rq_model := ''q'', rq_prompt_token_ids := [7, 9],
       rq_prompt_kind := kTokenIds, rq_max_tokens := 2\<rparr>) (''cmpl-q3x-'' @ to_string_nat 3) (digest_hex (sha256 sample_body)) 7 4"

lemma sample_admission:
  "admit_connection sample_options ''k'' sample_health False False 7 3 (empty_result\<lparr>hr_value := Some sample_request\<rparr>)
     \<lparr>bq_capacity = 1, bq_items = [], bq_closed = False\<rparr> cn =
   (Some sample_admitted, \<lparr>bq_capacity = 1, bq_items = [sample_admitted], bq_closed = False\<rparr>, cn)"
proof -
  have "parse_openai_request sample_body kCompletions ''q'' 8 16 = Inr (jb_request sample_admitted)"
    using sample_accepted by (simp add: sample_body_def sample_admitted_def new_job_def)
  then have "completion_route sample_options 7 3 False sample_request = RQueue sample_admitted"
    by (simp add: completion_route_def sample_request_def sample_options_def sample_admitted_def new_job_def)
  moreover have "constant_time_bearer_authorization_matches ''Bearer k'' ''k''" by (simp add: bearer_matches_iff)
  moreover have "is_json_content_type ''application/json''" by code_simp
  ultimately show ?thesis
    by (simp add: admit_connection_def read_route_def route_request_def sample_request_def sample_health_def health_ready_def
      try_push_def empty_result_def)
qed

theorem admission_guards_witness:
  "hq_authorization sample_request = ''Bearer '' @ ''k'' \<and> fresh_job sample_admitted \<and>
   parse_openai_request sample_body kCompletions ''q'' 8 16 = Inr (jb_request sample_admitted)"
  using admission_guards [OF sample_admission, of sample_request]
  by (simp add: sample_request_def empty_result_def sample_options_def)

text \<open>
  C38. Once a failure of the engine has poisoned the sealed route, nothing that is observed later reopens it: no
  job is ever admitted again, and the queue stays as it is.
\<close>

theorem poisoned_route_stays_closed:
  assumes "hl_enforced health"
    and "dg_code diagnostic \<in> {kRunnerResetFailure, kRunnerStepFailure, kMissingLogits, kMissingPrediction,
      kMissingTiming, kPrefillPlanUnavailable} \<or> dg_cuda_error diagnostic \<noteq> 0"
  shows "fst (admit_connection options api_key (health_after events (observe_failure diagnostic health)) stopping stopping_now
      now sequence read queue cn) = None \<and>
    fst (snd (admit_connection options api_key (health_after events (observe_failure diagnostic health)) stopping stopping_now
      now sequence read queue cn)) = queue"
proof -
  let ?h = "health_after events (observe_failure diagnostic health)"
  have "\<not> health_ready (observe_failure diagnostic health)"
    using assms by (auto simp: observe_failure_def fail_closed_def health_ready_def)
  then have "\<not> health_ready ?h" by (rule health_latch)
  then have closed: "read_route options api_key ?h now sequence read \<noteq> RQueue job" for job
    by (cases "hr_value read") (auto simp: read_route_def dest: route_queued)
  show ?thesis
  proof (cases "read_route options api_key ?h now sequence read")
    case (RQueue job)
    then show ?thesis using closed by blast
  qed (simp_all add: admit_connection_def)
qed

theorem poisoned_route_stays_closed_witness:
  "fst (admit_connection sample_options ''k''
      (health_after [HObserved True] (observe_failure \<lparr>dg_code = kMissingLogits, dg_message = [], dg_cuda_error = 0\<rparr> sample_health))
      False False 7 3 (empty_result\<lparr>hr_value := Some sample_request\<rparr>) \<lparr>bq_capacity = 1, bq_items = [], bq_closed = False\<rparr>
      \<lparr>cn_sent = [], cn_events = []\<rparr>) = None"
  by (rule conjunct1 [OF poisoned_route_stays_closed]) (simp_all add: sample_health_def)

end
