(* ===== verification/Tokenizer_Decode.thy ===== *)
theory Tokenizer_Decode
  imports Prelude
begin

text \<open>
  From token ids to bytes: \<^verbatim>\<open>Tokenizer::decode\<close> of \<^verbatim>\<open>src/text/tokenizer.cpp\<close>. The loaded vocabulary is a record. The
  symbols of vocabulary tokens are collected and turned into bytes when an added token or the end comes, so that
  decoding a sequence is not token by token in the code; it is proved to be so in effect.
\<close>

subsection \<open>Data\<close>

datatype tokenizer_error_code =
  TzNone | TzInvalidArgument | TzIoError | TzTokenizerTooLarge | TzJsonError | TzSchemaMismatch | TzUnsupportedRevision |
  TzInvalidUtf8 | TzUnicodeError | TzRegexError | TzInvalidVocabulary | TzInvalidMerge | TzInputTooLarge | TzTooManyTokens |
  TzInvalidTokenId | TzUnsupportedChat | TzAllocationFailure | TzInternalError

record tokenizer_error =
  tz_code :: tokenizer_error_code
  tz_message :: string
  tz_offset :: nat

definition tokenizer_failure :: "tokenizer_error_code \<Rightarrow> string \<Rightarrow> tokenizer_error" where
  "tokenizer_failure ec message = \<lparr>tz_code = ec, tz_message = message, tz_offset = 0\<rparr>"

record added_token =
  at_content :: string
  at_special :: bool

record tokenizer_data =
  tk_max_input_bytes :: nat
  tk_max_tokens :: nat
  tk_id_to_token :: "string list"
  tk_added_tokens :: "added_token list"
  tk_added_by_id :: "nat \<rightharpoonup> nat"
  tk_byte_decoder :: "nat \<rightharpoonup> nat"

subsection \<open>Code points\<close>

definition continuation_at :: "string \<Rightarrow> nat \<Rightarrow> nat option" where
  "continuation_at input index =
     (if index \<ge> length input then None
      else let v = byte (input ! index) in if v AND 0xC0 = 0x80 then Some v else None)"

text \<open>The code point that starts with a byte, given the continuation bytes that follow, and its length.\<close>

definition code_point :: "nat \<Rightarrow> nat option \<Rightarrow> nat option \<Rightarrow> nat option \<Rightarrow> (nat \<times> nat) option" where
  "code_point b c1 c2 c3 =
     (if b \<le> 0x7F then Some (b, 1)
      else if b \<ge> 0xC2 \<and> b \<le> 0xDF \<and> c1 \<noteq> None
      then Some (push_bit 6 (b AND 0x1F) OR (the c1 AND 0x3F), 2)
      else if b \<ge> 0xE0 \<and> b \<le> 0xEF \<and> c1 \<noteq> None \<and> c2 \<noteq> None
      then if b = 0xE0 \<and> the c1 < 0xA0 \<or> b = 0xED \<and> the c1 \<ge> 0xA0 then None
        else Some (push_bit 12 (b AND 0x0F) OR push_bit 6 (the c1 AND 0x3F) OR (the c2 AND 0x3F), 3)
      else if b \<ge> 0xF0 \<and> b \<le> 0xF4 \<and> c1 \<noteq> None \<and> c2 \<noteq> None \<and> c3 \<noteq> None
      then if b = 0xF0 \<and> the c1 < 0x90 \<or> b = 0xF4 \<and> the c1 > 0x8F then None
        else Some (push_bit 18 (b AND 0x07) OR push_bit 12 (the c1 AND 0x3F) OR push_bit 6 (the c2 AND 0x3F) OR
          (the c3 AND 0x3F), 4)
      else None)"

text \<open>The code point at an offset and the offset after it.\<close>

definition decode_utf8_at :: "string \<Rightarrow> nat \<Rightarrow> (nat \<times> nat) option" where
  "decode_utf8_at input offset =
     (if offset \<ge> length input then None
      else map_option (apsnd ((+) offset)) (code_point (byte (input ! offset)) (continuation_at input (offset + 1))
        (continuation_at input (offset + 2)) (continuation_at input (offset + 3))))"

lemma continuation_at_length: "continuation_at s k \<noteq> None \<Longrightarrow> k < length s"
  by (simp add: continuation_at_def split: if_splits)

lemma code_point_length:
  assumes "code_point b c1 c2 c3 = Some (cp, n)"
  shows "n = 1 \<or> n = 2 \<and> c1 \<noteq> None \<or> n = 3 \<and> c2 \<noteq> None \<or> n = 4 \<and> c3 \<noteq> None"
  using assms by (simp add: code_point_def split: if_splits)

lemma decode_utf8_at_bounds:
  assumes "decode_utf8_at s k = Some (cp, n)"
  shows "k < n \<and> n \<le> length s"
proof -
  obtain m where m: "code_point (byte (s ! k)) (continuation_at s (k + 1)) (continuation_at s (k + 2)) (continuation_at s (k + 3)) =
      Some (cp, m)" and "n = k + m" "k < length s"
    using assms by (auto simp: decode_utf8_at_def split: if_splits)
  then show ?thesis
    using code_point_length [OF m] continuation_at_length [of s "k + 1"] continuation_at_length [of s "k + 2"]
      continuation_at_length [of s "k + 3"] by auto
qed

lemma code_point_more:
  assumes "code_point b c1 c2 c3 = Some r" "\<And>v. c1 = Some v \<Longrightarrow> d1 = Some v" "\<And>v. c2 = Some v \<Longrightarrow> d2 = Some v"
    "\<And>v. c3 = Some v \<Longrightarrow> d3 = Some v"
  shows "code_point b d1 d2 d3 = Some r"
  using assms by (cases c1; cases c2; cases c3) (simp_all add: code_point_def split: if_splits)

subsection \<open>Decoding\<close>

function flush_loop :: "tokenizer_data \<Rightarrow> string \<Rightarrow> nat \<Rightarrow> string \<Rightarrow> tokenizer_error + string" where
  "flush_loop data symbols offset bytes =
     (if \<not> offset < length symbols then Inr bytes
      else case decode_utf8_at symbols offset of
        None \<Rightarrow> Inl (tokenizer_failure TzInternalError ''vocabulary contained invalid UTF-8 during decode'')
      | Some (codepoint, nxt) \<Rightarrow>
          (case tk_byte_decoder data codepoint of
             None \<Rightarrow> Inl (tokenizer_failure TzInternalError ''vocabulary contained a non-ByteLevel code point'')
           | Some b \<Rightarrow> flush_loop data symbols nxt (bytes @ [char_of b])))"
  by pat_completeness auto
termination
  by (relation "measure (\<lambda>(data, symbols, offset, bytes). length symbols - offset)")
    (auto dest!: sym [of "Some _"] decode_utf8_at_bounds)

declare flush_loop.simps [simp del]

definition append_output :: "tokenizer_data \<Rightarrow> string \<Rightarrow> string \<Rightarrow> tokenizer_error + string" where
  "append_output data v written =
     (if length v > tk_max_input_bytes data \<or> length written > tk_max_input_bytes data - length v
      then Inl (tokenizer_failure TzInputTooLarge ''decoded output exceeds max_input_bytes'')
      else Inr (written @ v))"

definition flush_symbols :: "tokenizer_data \<Rightarrow> string \<Rightarrow> string \<Rightarrow> tokenizer_error + string" where
  "flush_symbols data symbols written =
     and_then (flush_loop data symbols 0 []) (\<lambda>bytes. append_output data bytes written)"

fun decode_tokens_loop :: "tokenizer_data \<Rightarrow> bool \<Rightarrow> nat list \<Rightarrow> string \<Rightarrow> string \<Rightarrow> tokenizer_error + string" where
  "decode_tokens_loop data skip_special [] symbols written = flush_symbols data symbols written"
| "decode_tokens_loop data skip_special (i # ids) symbols written =
     (if i < length (tk_id_to_token data)
      then
        let token = tk_id_to_token data ! i in
        if length token > tk_max_input_bytes data \<or> length symbols > tk_max_input_bytes data - length token
        then Inl (tokenizer_failure TzInputTooLarge ''decoded output exceeds max_input_bytes'')
        else decode_tokens_loop data skip_special ids (symbols @ token) written
      else case tk_added_by_id data i of
        None \<Rightarrow> Inl (tokenizer_failure TzInvalidTokenId ''token id is outside the pinned tokenizer vocabulary'')
      | Some index \<Rightarrow>
          and_then (flush_symbols data symbols written) (\<lambda>written.
            let token = tk_added_tokens data ! index in
            if \<not> skip_special \<or> \<not> at_special token
            then and_then (append_output data (at_content token) written) (decode_tokens_loop data skip_special ids [])
            else decode_tokens_loop data skip_special ids [] written))"

definition tokenizer_decode :: "tokenizer_data \<Rightarrow> bool \<Rightarrow> nat list \<Rightarrow> tokenizer_error + string" where
  "tokenizer_decode data skip_special ids =
     (if length ids > tk_max_tokens data then Inl (tokenizer_failure TzTooManyTokens ''decode input exceeds max_tokens'')
      else decode_tokens_loop data skip_special ids [] [])"

subsection \<open>Decoding is token by token\<close>

lemma continuation_at_append:
  "continuation_at a k = Some v \<Longrightarrow> continuation_at (a @ b) k = Some v"
  "continuation_at (a @ b) (length a + k) = continuation_at b k"
  by (auto simp: continuation_at_def nth_append Let_def split: if_splits)

lemma decode_utf8_at_append:
  assumes "decode_utf8_at a k = Some r"
  shows "decode_utf8_at (a @ b) k = Some r"
proof -
  have "k < length a" using assms by (auto simp: decode_utf8_at_def split: if_splits)
  with assms obtain x where "code_point (byte (a ! k)) (continuation_at a (k + 1)) (continuation_at a (k + 2))
      (continuation_at a (k + 3)) = Some x" "r = apsnd ((+) k) x"
    by (auto simp: decode_utf8_at_def)
  then show ?thesis
    using code_point_more [of _ _ _ _ x] continuation_at_append(1) \<open>k < length a\<close>
    by (simp add: decode_utf8_at_def nth_append)
qed

lemma decode_utf8_at_shift: "decode_utf8_at (a @ b) (length a + k) = map_option (apsnd ((+) (length a))) (decode_utf8_at b k)"
proof -
  have c: "continuation_at (a @ b) (length a + k + j) = continuation_at b (k + j)" for j
    using continuation_at_append(2) [of a b "k + j"] by (simp add: add.assoc)
  show ?thesis
    unfolding decode_utf8_at_def c
    by (cases "code_point (byte (b ! k)) (continuation_at b (k + 1)) (continuation_at b (k + 2)) (continuation_at b (k + 3))")
      (simp_all add: prod_eq_iff add.assoc)
qed

lemma flush_loop_append:
  "flush_loop data a k acc = Inr bytes \<Longrightarrow> k \<le> length a \<Longrightarrow>
     flush_loop data (a @ b) k acc = flush_loop data (a @ b) (length a) bytes"
proof (induction data a k acc rule: flush_loop.induct)
  case (1 data a k acc)
  show ?case
  proof (cases "k < length a")
    case False
    then have "k = length a" "acc = bytes" using 1(2,3) by (simp_all add: flush_loop.simps [of data a])
    then show ?thesis by simp
  next
    case True
    then obtain cp n v where *: "decode_utf8_at a k = Some (cp, n)" "tk_byte_decoder data cp = Some v"
      "flush_loop data a n (acc @ [char_of v]) = Inr bytes"
      using 1(2) by (subst (asm) flush_loop.simps) (auto split: option.splits)
    have "n \<le> length a" using decode_utf8_at_bounds [OF *(1)] by simp
    then have "flush_loop data (a @ b) n (acc @ [char_of v]) = flush_loop data (a @ b) (length a) bytes"
      using 1(1) [of "(cp, n)" cp n v] True * by simp
    then show ?thesis
      using True * decode_utf8_at_append [OF *(1), of b] by (subst flush_loop.simps) simp
  qed
qed

lemma flush_loop_shift:
  "flush_loop data (a @ b) (length a + k) (acc @ bytes) =
     (case flush_loop data b k bytes of Inl e \<Rightarrow> Inl e | Inr out \<Rightarrow> Inr (acc @ out))"
proof (induction data b k bytes rule: flush_loop.induct)
  case (1 data b k bytes)
  show ?case
  proof (cases "k < length b")
    case False
    then show ?thesis by (simp add: flush_loop.simps)
  next
    case True
    then show ?thesis
      using 1 by (subst (1 2) flush_loop.simps) (auto simp: decode_utf8_at_shift split: option.splits)
  qed
qed

lemma flush_loop_concat:
  assumes "flush_loop data a 0 [] = Inr x" "flush_loop data b 0 [] = Inr y"
  shows "flush_loop data (a @ b) 0 [] = Inr (x @ y)"
  using flush_loop_append [OF assms(1), of b] flush_loop_shift [of data a b 0 x "[]"] assms(2) by simp

lemma append_output_ok: "append_output data v written = Inr out \<Longrightarrow> out = written @ v"
  by (simp add: append_output_def split: if_splits)

lemma flush_symbols_ok:
  "flush_symbols data symbols written = Inr out \<Longrightarrow> \<exists>bytes. flush_loop data symbols 0 [] = Inr bytes \<and> out = written @ bytes"
  by (auto simp: flush_symbols_def and_then_eq_Inr dest: append_output_ok)

lemma flush_loop_Nil [simp]: "flush_loop data [] 0 [] = Inr []"
  by (simp add: flush_loop.simps)

lemma decode_loop_ok:
  assumes "decode_tokens_loop data skip ids symbols written = Inr out" "flush_loop data symbols 0 [] = Inr bytes"
    "\<And>i. i \<in> set ids \<Longrightarrow> decode_tokens_loop data skip [i] [] [] = Inr (piece i)"
  shows "out = written @ bytes @ concat (map piece ids)"
  using assms
proof (induction ids arbitrary: symbols written bytes)
  case Nil
  then show ?case by (auto dest: flush_symbols_ok)
next
  case (Cons i ids)
  have single: "decode_tokens_loop data skip [i] [] [] = Inr (piece i)" using Cons.prems(3) by simp
  show ?case
  proof (cases "i < length (tk_id_to_token data)")
    case True
    let ?token = "tk_id_to_token data ! i"
    have rest: "decode_tokens_loop data skip ids (symbols @ ?token) written = Inr out"
      using Cons.prems(1) True by (simp add: Let_def split: if_splits)
    have "flush_symbols data ?token [] = Inr (piece i)" using single True by (simp add: Let_def split: if_splits)
    then have "flush_loop data ?token 0 [] = Inr (piece i)" using flush_symbols_ok by fastforce
    from flush_loop_concat [OF Cons.prems(2) this] Cons.IH [OF rest] Cons.prems(3) show ?thesis by simp
  next
    case False
    then obtain index where index: "tk_added_by_id data i = Some index" using single by (auto split: option.splits)
    let ?token = "tk_added_tokens data ! index"
    let ?shown = "if \<not> skip \<or> \<not> at_special ?token then at_content ?token else []"
    have "piece i = ?shown"
      using single False index by (auto simp: Let_def and_then_eq_Inr split: if_splits dest!: flush_symbols_ok append_output_ok)
    moreover have "decode_tokens_loop data skip ids [] (written @ bytes @ ?shown) = Inr out"
      using Cons.prems(1,2) False index
      by (auto simp: Let_def and_then_eq_Inr split: if_splits dest!: flush_symbols_ok append_output_ok)
    ultimately show ?thesis using Cons.IH [of "[]" "written @ bytes @ ?shown" "[]"] Cons.prems(3) by simp
  qed
qed

lemma tokenizer_decode_pieces:
  assumes "tokenizer_decode data skip ids = Inr written"
    "\<And>i. i \<in> set ids \<Longrightarrow> tokenizer_decode data skip [i] = Inr (piece i)"
  shows "written = concat (map piece ids)"
proof -
  have "decode_tokens_loop data skip [i] [] [] = Inr (piece i)" if "i \<in> set ids" for i
    using assms(2) [OF that] by (simp add: tokenizer_decode_def del: decode_tokens_loop.simps split: if_splits)
  then show ?thesis
    using decode_loop_ok [of data skip ids "[]" "[]" written "[]" piece] assms(1)
    by (simp add: tokenizer_decode_def del: decode_tokens_loop.simps split: if_splits)
qed

end
