(* ===== verification/Prefill_Contract.thy ===== *)
theory Prefill_Contract
  imports Prefill_Geometry
begin

text \<open>
  The tactic enumerations of \<^verbatim>\<open>prefill_execution_plan.h\<close> with their published names, and the arithmetic
  contract of a prefill route: ten published contracts and the validator that admits them. The
  validator's local booleans are definitions of their own. The enumerations hold their named values, so
  the range tests on them are always true.
\<close>

named_theorems contract_defs \<open>published contracts and the cases of their validator\<close>

subsection \<open>Route tactics\<close>

datatype full_attention_tactic =
  AttnExactSegmentedC512 | AttnNativeGroupQ64Panel | AttnNativeGroupQ128V4Panel |
  AttnNativeFlashInferExactPanel | AttnNativeFlashInferExactWholePrompt

definition is_valid_layer_major_prefill_full_attention_tactic :: "full_attention_tactic \<Rightarrow> bool" where
  "is_valid_layer_major_prefill_full_attention_tactic tactic \<longleftrightarrow>
     tactic = AttnExactSegmentedC512 \<or>
     tactic = AttnNativeGroupQ64Panel \<or>
     tactic = AttnNativeGroupQ128V4Panel \<or>
     tactic = AttnNativeFlashInferExactPanel \<or>
     tactic = AttnNativeFlashInferExactWholePrompt"

lemma all_valid_layer_major_prefill_full_attention_tactic [simp]: "is_valid_layer_major_prefill_full_attention_tactic t"
  by (cases t) (simp_all add: is_valid_layer_major_prefill_full_attention_tactic_def)

fun full_attention_tactic_to_string :: "full_attention_tactic \<Rightarrow> string" where
  "full_attention_tactic_to_string AttnExactSegmentedC512 = ''exact-segmented''"
| "full_attention_tactic_to_string AttnNativeGroupQ64Panel = ''native-group-q64-panel''"
| "full_attention_tactic_to_string AttnNativeGroupQ128V4Panel = ''native-group-q128-v4-panel''"
| "full_attention_tactic_to_string AttnNativeFlashInferExactPanel = ''native-flashinfer-exact-panel''"
| "full_attention_tactic_to_string AttnNativeFlashInferExactWholePrompt = ''native-flashinfer-exact-whole-prompt''"

datatype projection_tactic =
  ProjExactSegmentedC512 | ProjSegmentedMarlinOperatorPanel | ProjNativeQuantizedLargeMOperatorPanel |
  ProjNativeNvfp4TrueLargeMOperatorPanel | ProjNativeNvfp4G2D2LargeMOperatorPanel |
  ProjNativeNvfp4PersistentP40LayerWideMlp | ProjNativePromptWideP40WholeCore |
  ProjNativePromptWideP40ProjectionReset | ProjNativePromptWideP40PackedProjection |
  ProjNativePromptWideP40PackedNvfp4V2 | ProjNativePromptWideP40VllmMarlinParity

definition is_valid_layer_major_prefill_projection_tactic :: "projection_tactic \<Rightarrow> bool" where
  "is_valid_layer_major_prefill_projection_tactic tactic \<longleftrightarrow>
     tactic = ProjExactSegmentedC512 \<or>
     tactic = ProjSegmentedMarlinOperatorPanel \<or>
     tactic = ProjNativeQuantizedLargeMOperatorPanel \<or>
     tactic = ProjNativeNvfp4TrueLargeMOperatorPanel \<or>
     tactic = ProjNativeNvfp4G2D2LargeMOperatorPanel \<or>
     tactic = ProjNativeNvfp4PersistentP40LayerWideMlp \<or>
     tactic = ProjNativePromptWideP40WholeCore \<or>
     tactic = ProjNativePromptWideP40ProjectionReset \<or>
     tactic = ProjNativePromptWideP40PackedProjection \<or>
     tactic = ProjNativePromptWideP40PackedNvfp4V2 \<or>
     tactic = ProjNativePromptWideP40VllmMarlinParity"

lemma all_valid_layer_major_prefill_projection_tactic [simp]: "is_valid_layer_major_prefill_projection_tactic t"
  by (cases t) (simp_all add: is_valid_layer_major_prefill_projection_tactic_def)

fun projection_tactic_to_string :: "projection_tactic \<Rightarrow> string" where
  "projection_tactic_to_string ProjExactSegmentedC512 = ''exact-segmented''"
| "projection_tactic_to_string ProjSegmentedMarlinOperatorPanel = ''segmented-marlin-operator-panel''"
| "projection_tactic_to_string ProjNativeQuantizedLargeMOperatorPanel =
     ''native-quantized-large-m-operator-panel''"
| "projection_tactic_to_string ProjNativeNvfp4TrueLargeMOperatorPanel =
     ''native-nvfp4-true-large-m-operator-panel''"
| "projection_tactic_to_string ProjNativeNvfp4G2D2LargeMOperatorPanel =
     ''native-nvfp4-g2-d2-large-m-operator-panel''"
| "projection_tactic_to_string ProjNativeNvfp4PersistentP40LayerWideMlp =
     ''native-nvfp4-persistent-p40-layer-wide-mlp''"
| "projection_tactic_to_string ProjNativePromptWideP40WholeCore = ''native-prompt-wide-p40-whole-core''"
| "projection_tactic_to_string ProjNativePromptWideP40ProjectionReset =
     ''native-prompt-wide-p40-projection-reset''"
| "projection_tactic_to_string ProjNativePromptWideP40PackedProjection =
     ''native-prompt-wide-p40-packed-projection''"
| "projection_tactic_to_string ProjNativePromptWideP40PackedNvfp4V2 =
     ''native-prompt-wide-p40-packed-nvfp4-v2''"
| "projection_tactic_to_string ProjNativePromptWideP40VllmMarlinParity =
     ''native-prompt-wide-p40-vllm-marlin-parity''"

definition is_valid_layer_major_prefill_mlp_schedule_tactic :: "mlp_schedule_tactic \<Rightarrow> bool" where
  "is_valid_layer_major_prefill_mlp_schedule_tactic tactic \<longleftrightarrow>
     tactic = PerOperatorPanel \<or>
     tactic = LayerWideP40ExactFullM \<or>
     tactic = PromptWideP40WholeCore \<or>
     tactic = PromptWideP40ProjectionReset \<or>
     tactic = PromptWideP40PackedProjection \<or>
     tactic = PromptWideP40PackedNvfp4V2 \<or>
     tactic = PromptWideP40VllmMarlinParity"

lemma all_valid_layer_major_prefill_mlp_schedule_tactic [simp]: "is_valid_layer_major_prefill_mlp_schedule_tactic t"
  by (cases t) (simp_all add: is_valid_layer_major_prefill_mlp_schedule_tactic_def)

fun mlp_schedule_tactic_to_string :: "mlp_schedule_tactic \<Rightarrow> string" where
  "mlp_schedule_tactic_to_string PerOperatorPanel = ''per-operator-panel''"
| "mlp_schedule_tactic_to_string LayerWideP40ExactFullM = ''layer-wide-p40-exact-full-m''"
| "mlp_schedule_tactic_to_string PromptWideP40WholeCore = ''prompt-wide-p40-whole-core''"
| "mlp_schedule_tactic_to_string PromptWideP40ProjectionReset = ''prompt-wide-p40-projection-reset''"
| "mlp_schedule_tactic_to_string PromptWideP40PackedProjection = ''prompt-wide-p40-packed-projection''"
| "mlp_schedule_tactic_to_string PromptWideP40PackedNvfp4V2 = ''prompt-wide-p40-packed-nvfp4-v2''"
| "mlp_schedule_tactic_to_string PromptWideP40VllmMarlinParity = ''prompt-wide-p40-vllm-marlin-parity''"

definition prefill_route_layer_pass_count :: "nat \<Rightarrow> mlp_schedule_tactic \<Rightarrow> nat" where
  "prefill_route_layer_pass_count logical_panel_count tactic =
     (if tactic \<noteq> PerOperatorPanel then 1 else logical_panel_count)"

text \<open>A route name in the evidence identifies its tactic.\<close>

lemma full_attention_name_inject: "inj full_attention_tactic_to_string"
proof (rule injI)
  fix s t
  assume "full_attention_tactic_to_string s = full_attention_tactic_to_string t"
  then show "s = t" by (cases s; cases t; simp)
qed

lemma mlp_schedule_name_inject: "inj mlp_schedule_tactic_to_string"
proof (rule injI)
  fix s t
  assume "mlp_schedule_tactic_to_string s = mlp_schedule_tactic_to_string t"
  then show "s = t" by (cases s; cases t; simp)
qed

subsection \<open>Arithmetic contracts\<close>

datatype bf16_ab_tactic =
  B_EstablishedM32ProjectionPair | B_PromptWideP40SingleGrid

datatype fp8_tactic =
  F_OracleSpanMarlin | F_M8192SingleBulkOtherwiseOracleSpanMarlin | F_OperatorPanelSegmentedMarlin |
  F_P8000FillDrainSingleBulk | F_P40000GroupedInputAndOutputSingleBulk | F_P40000PackedRoleSpecialized

datatype nvfp4_tactic =
  N_OracleSpanGateSiluDownSequence | N_M8192SingleBulkOtherwiseOracleSpanGateSiluDown |
  N_OperatorPanelGateSiluDownSequence | N_M8192OrM7712TrueLargeMPanelGateSiluDown |
  N_P40000PersistentGateUpSiluDownResidual | N_P40000PackedGateUpSiluDownResidual |
  N_P40000PackedShapeSpecificV2GateUpSiluDownResidual |
  N_P40000VllmMarlinProjectionHostDispatchGateThenUpSiluDownResidual

datatype gdn_tactic =
  G_OracleSpanWholeRawQkv | G_PromptWideP40ChunkGraph

datatype attention_preprocess_tactic =
  A_OracleSpanC16FixedReference256 | A_P8000FillWholePromptFlashInferDrain

record arithmetic_contract =
  ac_version :: nat
  ac_bf16_ab :: bf16_ab_tactic
  ac_fp8 :: fp8_tactic
  ac_nvfp4 :: nvfp4_tactic
  ac_gdn :: gdn_tactic
  ac_attention_preprocess :: attention_preprocess_tactic
  ac_reset_fp8_locks_per_projection_span :: bool
  ac_nvfp4_interleaves_gate_silu_down_per_span :: bool
  ac_nvfp4_down_reuses_gate_up_locks :: bool
  ac_nvfp4_residual_follows_down_per_span :: bool
  ac_m8192_single_bulk_projection :: bool
  ac_m8192_fp8_resets_locks_once :: bool
  ac_m8192_nvfp4_uses_independent_down_workspace :: bool
  ac_m8192_nvfp4_residual_once_after_bulk :: bool
  ac_nvfp4_true_large_m_m8192 :: bool
  ac_nvfp4_true_large_m_m7712 :: bool
  ac_nvfp4_gate_up_down_coupled :: bool
  ac_p40000_post_attention_norm_prompt_wide :: bool
  ac_p40000_persistent_gate_up_silu :: bool
  ac_p40000_persistent_down_residual :: bool
  ac_environment_independent :: bool
  ac_p8000_fp8_fill_drain_single_bulk :: bool
  ac_p40000_bf16_ab_prompt_wide :: bool
  ac_p40000_gdn_prompt_wide :: bool
  ac_p40000_flashinfer_whole_prompt :: bool

definition kLayerMajorPrefillExactArithmeticContract :: arithmetic_contract where
  [contract_defs]: "kLayerMajorPrefillExactArithmeticContract =
     \<lparr>ac_version = 1, ac_bf16_ab = B_EstablishedM32ProjectionPair, ac_fp8 = F_OracleSpanMarlin,
      ac_nvfp4 = N_OracleSpanGateSiluDownSequence, ac_gdn = G_OracleSpanWholeRawQkv,
      ac_attention_preprocess = A_OracleSpanC16FixedReference256,
      ac_reset_fp8_locks_per_projection_span = True,
      ac_nvfp4_interleaves_gate_silu_down_per_span = True, ac_nvfp4_down_reuses_gate_up_locks = True,
      ac_nvfp4_residual_follows_down_per_span = True, ac_m8192_single_bulk_projection = False,
      ac_m8192_fp8_resets_locks_once = False, ac_m8192_nvfp4_uses_independent_down_workspace = False,
      ac_m8192_nvfp4_residual_once_after_bulk = False, ac_nvfp4_true_large_m_m8192 = False,
      ac_nvfp4_true_large_m_m7712 = False, ac_nvfp4_gate_up_down_coupled = False,
      ac_p40000_post_attention_norm_prompt_wide = False, ac_p40000_persistent_gate_up_silu = False,
      ac_p40000_persistent_down_residual = False, ac_environment_independent = True,
      ac_p8000_fp8_fill_drain_single_bulk = False, ac_p40000_bf16_ab_prompt_wide = False,
      ac_p40000_gdn_prompt_wide = False, ac_p40000_flashinfer_whole_prompt = False\<rparr>"

definition kLayerMajorPrefillExactMarlinM8192ArithmeticContract :: arithmetic_contract where
  [contract_defs]: "kLayerMajorPrefillExactMarlinM8192ArithmeticContract =
     \<lparr>ac_version = 2, ac_bf16_ab = B_EstablishedM32ProjectionPair,
      ac_fp8 = F_M8192SingleBulkOtherwiseOracleSpanMarlin,
      ac_nvfp4 = N_M8192SingleBulkOtherwiseOracleSpanGateSiluDown, ac_gdn = G_OracleSpanWholeRawQkv,
      ac_attention_preprocess = A_OracleSpanC16FixedReference256,
      ac_reset_fp8_locks_per_projection_span = True,
      ac_nvfp4_interleaves_gate_silu_down_per_span = True, ac_nvfp4_down_reuses_gate_up_locks = True,
      ac_nvfp4_residual_follows_down_per_span = True, ac_m8192_single_bulk_projection = True,
      ac_m8192_fp8_resets_locks_once = True, ac_m8192_nvfp4_uses_independent_down_workspace = True,
      ac_m8192_nvfp4_residual_once_after_bulk = True, ac_nvfp4_true_large_m_m8192 = False,
      ac_nvfp4_true_large_m_m7712 = False, ac_nvfp4_gate_up_down_coupled = False,
      ac_p40000_post_attention_norm_prompt_wide = False, ac_p40000_persistent_gate_up_silu = False,
      ac_p40000_persistent_down_residual = False, ac_environment_independent = True,
      ac_p8000_fp8_fill_drain_single_bulk = False, ac_p40000_bf16_ab_prompt_wide = False,
      ac_p40000_gdn_prompt_wide = False, ac_p40000_flashinfer_whole_prompt = False\<rparr>"

definition kLayerMajorPrefillSegmentedMarlinArithmeticContract :: arithmetic_contract where
  [contract_defs]: "kLayerMajorPrefillSegmentedMarlinArithmeticContract =
     \<lparr>ac_version = 3, ac_bf16_ab = B_EstablishedM32ProjectionPair, ac_fp8 = F_OperatorPanelSegmentedMarlin,
      ac_nvfp4 = N_OperatorPanelGateSiluDownSequence, ac_gdn = G_OracleSpanWholeRawQkv,
      ac_attention_preprocess = A_OracleSpanC16FixedReference256,
      ac_reset_fp8_locks_per_projection_span = False,
      ac_nvfp4_interleaves_gate_silu_down_per_span = False, ac_nvfp4_down_reuses_gate_up_locks = False,
      ac_nvfp4_residual_follows_down_per_span = False, ac_m8192_single_bulk_projection = False,
      ac_m8192_fp8_resets_locks_once = False, ac_m8192_nvfp4_uses_independent_down_workspace = False,
      ac_m8192_nvfp4_residual_once_after_bulk = False, ac_nvfp4_true_large_m_m8192 = False,
      ac_nvfp4_true_large_m_m7712 = False, ac_nvfp4_gate_up_down_coupled = False,
      ac_p40000_post_attention_norm_prompt_wide = False, ac_p40000_persistent_gate_up_silu = False,
      ac_p40000_persistent_down_residual = False, ac_environment_independent = True,
      ac_p8000_fp8_fill_drain_single_bulk = False, ac_p40000_bf16_ab_prompt_wide = False,
      ac_p40000_gdn_prompt_wide = False, ac_p40000_flashinfer_whole_prompt = False\<rparr>"

definition kLayerMajorPrefillTrueLargeMNvFp4ArithmeticContract :: arithmetic_contract where
  [contract_defs]: "kLayerMajorPrefillTrueLargeMNvFp4ArithmeticContract =
     \<lparr>ac_version = 4, ac_bf16_ab = B_EstablishedM32ProjectionPair,
      ac_fp8 = F_M8192SingleBulkOtherwiseOracleSpanMarlin,
      ac_nvfp4 = N_M8192OrM7712TrueLargeMPanelGateSiluDown, ac_gdn = G_OracleSpanWholeRawQkv,
      ac_attention_preprocess = A_OracleSpanC16FixedReference256,
      ac_reset_fp8_locks_per_projection_span = True,
      ac_nvfp4_interleaves_gate_silu_down_per_span = False, ac_nvfp4_down_reuses_gate_up_locks = False,
      ac_nvfp4_residual_follows_down_per_span = False, ac_m8192_single_bulk_projection = True,
      ac_m8192_fp8_resets_locks_once = True, ac_m8192_nvfp4_uses_independent_down_workspace = False,
      ac_m8192_nvfp4_residual_once_after_bulk = True, ac_nvfp4_true_large_m_m8192 = True,
      ac_nvfp4_true_large_m_m7712 = True, ac_nvfp4_gate_up_down_coupled = True,
      ac_p40000_post_attention_norm_prompt_wide = False, ac_p40000_persistent_gate_up_silu = False,
      ac_p40000_persistent_down_residual = False, ac_environment_independent = True,
      ac_p8000_fp8_fill_drain_single_bulk = False, ac_p40000_bf16_ab_prompt_wide = False,
      ac_p40000_gdn_prompt_wide = False, ac_p40000_flashinfer_whole_prompt = False\<rparr>"

definition kLayerMajorPrefillPersistentP40NvFp4ArithmeticContract :: arithmetic_contract where
  [contract_defs]: "kLayerMajorPrefillPersistentP40NvFp4ArithmeticContract =
     \<lparr>ac_version = 5, ac_bf16_ab = B_EstablishedM32ProjectionPair,
      ac_fp8 = F_M8192SingleBulkOtherwiseOracleSpanMarlin,
      ac_nvfp4 = N_P40000PersistentGateUpSiluDownResidual, ac_gdn = G_OracleSpanWholeRawQkv,
      ac_attention_preprocess = A_OracleSpanC16FixedReference256,
      ac_reset_fp8_locks_per_projection_span = True,
      ac_nvfp4_interleaves_gate_silu_down_per_span = False, ac_nvfp4_down_reuses_gate_up_locks = False,
      ac_nvfp4_residual_follows_down_per_span = False, ac_m8192_single_bulk_projection = True,
      ac_m8192_fp8_resets_locks_once = True, ac_m8192_nvfp4_uses_independent_down_workspace = False,
      ac_m8192_nvfp4_residual_once_after_bulk = False, ac_nvfp4_true_large_m_m8192 = False,
      ac_nvfp4_true_large_m_m7712 = False, ac_nvfp4_gate_up_down_coupled = True,
      ac_p40000_post_attention_norm_prompt_wide = True, ac_p40000_persistent_gate_up_silu = True,
      ac_p40000_persistent_down_residual = True, ac_environment_independent = True,
      ac_p8000_fp8_fill_drain_single_bulk = False, ac_p40000_bf16_ab_prompt_wide = False,
      ac_p40000_gdn_prompt_wide = False, ac_p40000_flashinfer_whole_prompt = False\<rparr>"

definition kLayerMajorPrefillPromptWideP40WholeCoreArithmeticContract :: arithmetic_contract where
  [contract_defs]: "kLayerMajorPrefillPromptWideP40WholeCoreArithmeticContract =
     \<lparr>ac_version = 6, ac_bf16_ab = B_PromptWideP40SingleGrid, ac_fp8 = F_P8000FillDrainSingleBulk,
      ac_nvfp4 = N_P40000PersistentGateUpSiluDownResidual, ac_gdn = G_PromptWideP40ChunkGraph,
      ac_attention_preprocess = A_P8000FillWholePromptFlashInferDrain,
      ac_reset_fp8_locks_per_projection_span = False,
      ac_nvfp4_interleaves_gate_silu_down_per_span = False, ac_nvfp4_down_reuses_gate_up_locks = False,
      ac_nvfp4_residual_follows_down_per_span = False, ac_m8192_single_bulk_projection = False,
      ac_m8192_fp8_resets_locks_once = False, ac_m8192_nvfp4_uses_independent_down_workspace = False,
      ac_m8192_nvfp4_residual_once_after_bulk = False, ac_nvfp4_true_large_m_m8192 = False,
      ac_nvfp4_true_large_m_m7712 = False, ac_nvfp4_gate_up_down_coupled = True,
      ac_p40000_post_attention_norm_prompt_wide = True, ac_p40000_persistent_gate_up_silu = True,
      ac_p40000_persistent_down_residual = True, ac_environment_independent = True,
      ac_p8000_fp8_fill_drain_single_bulk = True, ac_p40000_bf16_ab_prompt_wide = True,
      ac_p40000_gdn_prompt_wide = True, ac_p40000_flashinfer_whole_prompt = True\<rparr>"

definition kLayerMajorPrefillPromptWideP40ProjectionResetArithmeticContract :: arithmetic_contract where
  [contract_defs]: "kLayerMajorPrefillPromptWideP40ProjectionResetArithmeticContract =
     \<lparr>ac_version = 7, ac_bf16_ab = B_PromptWideP40SingleGrid,
      ac_fp8 = F_P40000GroupedInputAndOutputSingleBulk,
      ac_nvfp4 = N_P40000PersistentGateUpSiluDownResidual, ac_gdn = G_PromptWideP40ChunkGraph,
      ac_attention_preprocess = A_P8000FillWholePromptFlashInferDrain,
      ac_reset_fp8_locks_per_projection_span = False,
      ac_nvfp4_interleaves_gate_silu_down_per_span = False, ac_nvfp4_down_reuses_gate_up_locks = False,
      ac_nvfp4_residual_follows_down_per_span = False, ac_m8192_single_bulk_projection = False,
      ac_m8192_fp8_resets_locks_once = False, ac_m8192_nvfp4_uses_independent_down_workspace = False,
      ac_m8192_nvfp4_residual_once_after_bulk = False, ac_nvfp4_true_large_m_m8192 = False,
      ac_nvfp4_true_large_m_m7712 = False, ac_nvfp4_gate_up_down_coupled = True,
      ac_p40000_post_attention_norm_prompt_wide = True, ac_p40000_persistent_gate_up_silu = True,
      ac_p40000_persistent_down_residual = True, ac_environment_independent = True,
      ac_p8000_fp8_fill_drain_single_bulk = False, ac_p40000_bf16_ab_prompt_wide = True,
      ac_p40000_gdn_prompt_wide = True, ac_p40000_flashinfer_whole_prompt = True\<rparr>"

definition kLayerMajorPrefillPromptWideP40PackedProjectionArithmeticContract :: arithmetic_contract where
  [contract_defs]: "kLayerMajorPrefillPromptWideP40PackedProjectionArithmeticContract =
     \<lparr>ac_version = 8, ac_bf16_ab = B_PromptWideP40SingleGrid, ac_fp8 = F_P40000PackedRoleSpecialized,
      ac_nvfp4 = N_P40000PackedGateUpSiluDownResidual, ac_gdn = G_PromptWideP40ChunkGraph,
      ac_attention_preprocess = A_P8000FillWholePromptFlashInferDrain,
      ac_reset_fp8_locks_per_projection_span = False,
      ac_nvfp4_interleaves_gate_silu_down_per_span = False, ac_nvfp4_down_reuses_gate_up_locks = False,
      ac_nvfp4_residual_follows_down_per_span = False, ac_m8192_single_bulk_projection = False,
      ac_m8192_fp8_resets_locks_once = False, ac_m8192_nvfp4_uses_independent_down_workspace = False,
      ac_m8192_nvfp4_residual_once_after_bulk = False, ac_nvfp4_true_large_m_m8192 = False,
      ac_nvfp4_true_large_m_m7712 = False, ac_nvfp4_gate_up_down_coupled = True,
      ac_p40000_post_attention_norm_prompt_wide = True, ac_p40000_persistent_gate_up_silu = True,
      ac_p40000_persistent_down_residual = True, ac_environment_independent = True,
      ac_p8000_fp8_fill_drain_single_bulk = False, ac_p40000_bf16_ab_prompt_wide = True,
      ac_p40000_gdn_prompt_wide = True, ac_p40000_flashinfer_whole_prompt = True\<rparr>"

definition kLayerMajorPrefillPromptWideP40PackedNvfp4V2ArithmeticContract :: arithmetic_contract where
  [contract_defs]: "kLayerMajorPrefillPromptWideP40PackedNvfp4V2ArithmeticContract =
     \<lparr>ac_version = 9, ac_bf16_ab = B_PromptWideP40SingleGrid, ac_fp8 = F_P8000FillDrainSingleBulk,
      ac_nvfp4 = N_P40000PackedShapeSpecificV2GateUpSiluDownResidual,
      ac_gdn = G_PromptWideP40ChunkGraph,
      ac_attention_preprocess = A_P8000FillWholePromptFlashInferDrain,
      ac_reset_fp8_locks_per_projection_span = False,
      ac_nvfp4_interleaves_gate_silu_down_per_span = False, ac_nvfp4_down_reuses_gate_up_locks = False,
      ac_nvfp4_residual_follows_down_per_span = False, ac_m8192_single_bulk_projection = False,
      ac_m8192_fp8_resets_locks_once = False, ac_m8192_nvfp4_uses_independent_down_workspace = False,
      ac_m8192_nvfp4_residual_once_after_bulk = False, ac_nvfp4_true_large_m_m8192 = False,
      ac_nvfp4_true_large_m_m7712 = False, ac_nvfp4_gate_up_down_coupled = True,
      ac_p40000_post_attention_norm_prompt_wide = True, ac_p40000_persistent_gate_up_silu = True,
      ac_p40000_persistent_down_residual = True, ac_environment_independent = True,
      ac_p8000_fp8_fill_drain_single_bulk = True, ac_p40000_bf16_ab_prompt_wide = True,
      ac_p40000_gdn_prompt_wide = True, ac_p40000_flashinfer_whole_prompt = True\<rparr>"

definition kLayerMajorPrefillPromptWideP40VllmMarlinParityArithmeticContract :: arithmetic_contract where
  [contract_defs]: "kLayerMajorPrefillPromptWideP40VllmMarlinParityArithmeticContract =
     \<lparr>ac_version = 10, ac_bf16_ab = B_PromptWideP40SingleGrid, ac_fp8 = F_P8000FillDrainSingleBulk,
      ac_nvfp4 = N_P40000VllmMarlinProjectionHostDispatchGateThenUpSiluDownResidual,
      ac_gdn = G_PromptWideP40ChunkGraph,
      ac_attention_preprocess = A_P8000FillWholePromptFlashInferDrain,
      ac_reset_fp8_locks_per_projection_span = False,
      ac_nvfp4_interleaves_gate_silu_down_per_span = False, ac_nvfp4_down_reuses_gate_up_locks = False,
      ac_nvfp4_residual_follows_down_per_span = False, ac_m8192_single_bulk_projection = False,
      ac_m8192_fp8_resets_locks_once = False, ac_m8192_nvfp4_uses_independent_down_workspace = False,
      ac_m8192_nvfp4_residual_once_after_bulk = False, ac_nvfp4_true_large_m_m8192 = False,
      ac_nvfp4_true_large_m_m7712 = False, ac_nvfp4_gate_up_down_coupled = True,
      ac_p40000_post_attention_norm_prompt_wide = True, ac_p40000_persistent_gate_up_silu = False,
      ac_p40000_persistent_down_residual = False, ac_environment_independent = True,
      ac_p8000_fp8_fill_drain_single_bulk = True, ac_p40000_bf16_ab_prompt_wide = True,
      ac_p40000_gdn_prompt_wide = True, ac_p40000_flashinfer_whole_prompt = True\<rparr>"

definition contract_legacy_common :: "arithmetic_contract \<Rightarrow> bool" where
  [contract_defs]: "contract_legacy_common c \<longleftrightarrow>
     ac_bf16_ab c = B_EstablishedM32ProjectionPair \<and> ac_gdn c = G_OracleSpanWholeRawQkv \<and>
     ac_attention_preprocess c = A_OracleSpanC16FixedReference256 \<and>
     \<not> ac_p8000_fp8_fill_drain_single_bulk c \<and> \<not> ac_p40000_bf16_ab_prompt_wide c \<and>
     \<not> ac_p40000_gdn_prompt_wide c \<and> \<not> ac_p40000_flashinfer_whole_prompt c"

definition contract_exact :: "arithmetic_contract \<Rightarrow> bool" where
  [contract_defs]: "contract_exact c \<longleftrightarrow>
     ac_version c = 1 \<and> ac_fp8 c = F_OracleSpanMarlin \<and>
     ac_nvfp4 c = N_OracleSpanGateSiluDownSequence \<and>
     ac_reset_fp8_locks_per_projection_span c \<and>
     ac_nvfp4_interleaves_gate_silu_down_per_span c \<and> ac_nvfp4_down_reuses_gate_up_locks c \<and>
     ac_nvfp4_residual_follows_down_per_span c \<and> \<not> ac_m8192_single_bulk_projection c \<and>
     \<not> ac_m8192_fp8_resets_locks_once c \<and>
     \<not> ac_m8192_nvfp4_uses_independent_down_workspace c \<and>
     \<not> ac_m8192_nvfp4_residual_once_after_bulk c \<and> \<not> ac_nvfp4_true_large_m_m8192 c \<and>
     \<not> ac_nvfp4_true_large_m_m7712 c \<and> \<not> ac_nvfp4_gate_up_down_coupled c \<and>
     \<not> ac_p40000_post_attention_norm_prompt_wide c \<and>
     \<not> ac_p40000_persistent_gate_up_silu c \<and> \<not> ac_p40000_persistent_down_residual c"

definition contract_exact_marlin_m8192 :: "arithmetic_contract \<Rightarrow> bool" where
  [contract_defs]: "contract_exact_marlin_m8192 c \<longleftrightarrow>
     ac_version c = 2 \<and> ac_fp8 c = F_M8192SingleBulkOtherwiseOracleSpanMarlin \<and>
     ac_nvfp4 c = N_M8192SingleBulkOtherwiseOracleSpanGateSiluDown \<and>
     ac_reset_fp8_locks_per_projection_span c \<and>
     ac_nvfp4_interleaves_gate_silu_down_per_span c \<and> ac_nvfp4_down_reuses_gate_up_locks c \<and>
     ac_nvfp4_residual_follows_down_per_span c \<and> ac_m8192_single_bulk_projection c \<and>
     ac_m8192_fp8_resets_locks_once c \<and> ac_m8192_nvfp4_uses_independent_down_workspace c \<and>
     ac_m8192_nvfp4_residual_once_after_bulk c \<and> \<not> ac_nvfp4_true_large_m_m8192 c \<and>
     \<not> ac_nvfp4_true_large_m_m7712 c \<and> \<not> ac_nvfp4_gate_up_down_coupled c \<and>
     \<not> ac_p40000_post_attention_norm_prompt_wide c \<and>
     \<not> ac_p40000_persistent_gate_up_silu c \<and> \<not> ac_p40000_persistent_down_residual c"

definition contract_segmented_marlin :: "arithmetic_contract \<Rightarrow> bool" where
  [contract_defs]: "contract_segmented_marlin c \<longleftrightarrow>
     ac_version c = 3 \<and> ac_fp8 c = F_OperatorPanelSegmentedMarlin \<and>
     ac_nvfp4 c = N_OperatorPanelGateSiluDownSequence \<and>
     \<not> ac_reset_fp8_locks_per_projection_span c \<and>
     \<not> ac_nvfp4_interleaves_gate_silu_down_per_span c \<and>
     \<not> ac_nvfp4_down_reuses_gate_up_locks c \<and>
     \<not> ac_nvfp4_residual_follows_down_per_span c \<and>
     \<not> ac_m8192_single_bulk_projection c \<and> \<not> ac_m8192_fp8_resets_locks_once c \<and>
     \<not> ac_m8192_nvfp4_uses_independent_down_workspace c \<and>
     \<not> ac_m8192_nvfp4_residual_once_after_bulk c \<and> \<not> ac_nvfp4_true_large_m_m8192 c \<and>
     \<not> ac_nvfp4_true_large_m_m7712 c \<and> \<not> ac_nvfp4_gate_up_down_coupled c \<and>
     \<not> ac_p40000_post_attention_norm_prompt_wide c \<and>
     \<not> ac_p40000_persistent_gate_up_silu c \<and> \<not> ac_p40000_persistent_down_residual c"

definition contract_true_large_m_nvfp4 :: "arithmetic_contract \<Rightarrow> bool" where
  [contract_defs]: "contract_true_large_m_nvfp4 c \<longleftrightarrow>
     ac_version c = 4 \<and> ac_fp8 c = F_M8192SingleBulkOtherwiseOracleSpanMarlin \<and>
     ac_nvfp4 c = N_M8192OrM7712TrueLargeMPanelGateSiluDown \<and>
     ac_reset_fp8_locks_per_projection_span c \<and>
     \<not> ac_nvfp4_interleaves_gate_silu_down_per_span c \<and>
     \<not> ac_nvfp4_down_reuses_gate_up_locks c \<and>
     \<not> ac_nvfp4_residual_follows_down_per_span c \<and> ac_m8192_single_bulk_projection c \<and>
     ac_m8192_fp8_resets_locks_once c \<and>
     \<not> ac_m8192_nvfp4_uses_independent_down_workspace c \<and>
     ac_m8192_nvfp4_residual_once_after_bulk c \<and> ac_nvfp4_true_large_m_m8192 c \<and>
     ac_nvfp4_true_large_m_m7712 c \<and> ac_nvfp4_gate_up_down_coupled c \<and>
     \<not> ac_p40000_post_attention_norm_prompt_wide c \<and>
     \<not> ac_p40000_persistent_gate_up_silu c \<and> \<not> ac_p40000_persistent_down_residual c"

definition contract_persistent_p40_nvfp4 :: "arithmetic_contract \<Rightarrow> bool" where
  [contract_defs]: "contract_persistent_p40_nvfp4 c \<longleftrightarrow>
     ac_version c = 5 \<and> ac_fp8 c = F_M8192SingleBulkOtherwiseOracleSpanMarlin \<and>
     ac_nvfp4 c = N_P40000PersistentGateUpSiluDownResidual \<and>
     ac_reset_fp8_locks_per_projection_span c \<and>
     \<not> ac_nvfp4_interleaves_gate_silu_down_per_span c \<and>
     \<not> ac_nvfp4_down_reuses_gate_up_locks c \<and>
     \<not> ac_nvfp4_residual_follows_down_per_span c \<and> ac_m8192_single_bulk_projection c \<and>
     ac_m8192_fp8_resets_locks_once c \<and>
     \<not> ac_m8192_nvfp4_uses_independent_down_workspace c \<and>
     \<not> ac_m8192_nvfp4_residual_once_after_bulk c \<and> \<not> ac_nvfp4_true_large_m_m8192 c \<and>
     \<not> ac_nvfp4_true_large_m_m7712 c \<and> ac_nvfp4_gate_up_down_coupled c \<and>
     ac_p40000_post_attention_norm_prompt_wide c \<and> ac_p40000_persistent_gate_up_silu c \<and>
     ac_p40000_persistent_down_residual c \<and> contract_legacy_common c"

definition contract_prompt_wide_p40_whole_core :: "arithmetic_contract \<Rightarrow> bool" where
  [contract_defs]: "contract_prompt_wide_p40_whole_core c \<longleftrightarrow>
     ac_version c = 6 \<and> ac_bf16_ab c = B_PromptWideP40SingleGrid \<and>
     ac_fp8 c = F_P8000FillDrainSingleBulk \<and>
     ac_nvfp4 c = N_P40000PersistentGateUpSiluDownResidual \<and>
     ac_gdn c = G_PromptWideP40ChunkGraph \<and>
     ac_attention_preprocess c = A_P8000FillWholePromptFlashInferDrain \<and>
     \<not> ac_reset_fp8_locks_per_projection_span c \<and>
     \<not> ac_nvfp4_interleaves_gate_silu_down_per_span c \<and>
     \<not> ac_nvfp4_down_reuses_gate_up_locks c \<and>
     \<not> ac_nvfp4_residual_follows_down_per_span c \<and>
     \<not> ac_m8192_single_bulk_projection c \<and> \<not> ac_m8192_fp8_resets_locks_once c \<and>
     \<not> ac_m8192_nvfp4_uses_independent_down_workspace c \<and>
     \<not> ac_m8192_nvfp4_residual_once_after_bulk c \<and> \<not> ac_nvfp4_true_large_m_m8192 c \<and>
     \<not> ac_nvfp4_true_large_m_m7712 c \<and> ac_nvfp4_gate_up_down_coupled c \<and>
     ac_p40000_post_attention_norm_prompt_wide c \<and> ac_p40000_persistent_gate_up_silu c \<and>
     ac_p40000_persistent_down_residual c \<and> ac_p8000_fp8_fill_drain_single_bulk c \<and>
     ac_p40000_bf16_ab_prompt_wide c \<and> ac_p40000_gdn_prompt_wide c \<and>
     ac_p40000_flashinfer_whole_prompt c"

definition contract_prompt_wide_p40_projection_reset :: "arithmetic_contract \<Rightarrow> bool" where
  [contract_defs]: "contract_prompt_wide_p40_projection_reset c \<longleftrightarrow>
     ac_version c = 7 \<and> ac_bf16_ab c = B_PromptWideP40SingleGrid \<and>
     ac_fp8 c = F_P40000GroupedInputAndOutputSingleBulk \<and>
     ac_nvfp4 c = N_P40000PersistentGateUpSiluDownResidual \<and>
     ac_gdn c = G_PromptWideP40ChunkGraph \<and>
     ac_attention_preprocess c = A_P8000FillWholePromptFlashInferDrain \<and>
     \<not> ac_reset_fp8_locks_per_projection_span c \<and>
     \<not> ac_nvfp4_interleaves_gate_silu_down_per_span c \<and>
     \<not> ac_nvfp4_down_reuses_gate_up_locks c \<and>
     \<not> ac_nvfp4_residual_follows_down_per_span c \<and>
     \<not> ac_m8192_single_bulk_projection c \<and> \<not> ac_m8192_fp8_resets_locks_once c \<and>
     \<not> ac_m8192_nvfp4_uses_independent_down_workspace c \<and>
     \<not> ac_m8192_nvfp4_residual_once_after_bulk c \<and> \<not> ac_nvfp4_true_large_m_m8192 c \<and>
     \<not> ac_nvfp4_true_large_m_m7712 c \<and> ac_nvfp4_gate_up_down_coupled c \<and>
     ac_p40000_post_attention_norm_prompt_wide c \<and> ac_p40000_persistent_gate_up_silu c \<and>
     ac_p40000_persistent_down_residual c \<and> \<not> ac_p8000_fp8_fill_drain_single_bulk c \<and>
     ac_p40000_bf16_ab_prompt_wide c \<and> ac_p40000_gdn_prompt_wide c \<and>
     ac_p40000_flashinfer_whole_prompt c"

definition contract_prompt_wide_p40_packed_projection :: "arithmetic_contract \<Rightarrow> bool" where
  [contract_defs]: "contract_prompt_wide_p40_packed_projection c \<longleftrightarrow>
     ac_version c = 8 \<and> ac_bf16_ab c = B_PromptWideP40SingleGrid \<and>
     ac_fp8 c = F_P40000PackedRoleSpecialized \<and>
     ac_nvfp4 c = N_P40000PackedGateUpSiluDownResidual \<and>
     ac_gdn c = G_PromptWideP40ChunkGraph \<and>
     ac_attention_preprocess c = A_P8000FillWholePromptFlashInferDrain \<and>
     \<not> ac_reset_fp8_locks_per_projection_span c \<and>
     \<not> ac_nvfp4_interleaves_gate_silu_down_per_span c \<and>
     \<not> ac_nvfp4_down_reuses_gate_up_locks c \<and>
     \<not> ac_nvfp4_residual_follows_down_per_span c \<and>
     \<not> ac_m8192_single_bulk_projection c \<and> \<not> ac_m8192_fp8_resets_locks_once c \<and>
     \<not> ac_m8192_nvfp4_uses_independent_down_workspace c \<and>
     \<not> ac_m8192_nvfp4_residual_once_after_bulk c \<and> \<not> ac_nvfp4_true_large_m_m8192 c \<and>
     \<not> ac_nvfp4_true_large_m_m7712 c \<and> ac_nvfp4_gate_up_down_coupled c \<and>
     ac_p40000_post_attention_norm_prompt_wide c \<and> ac_p40000_persistent_gate_up_silu c \<and>
     ac_p40000_persistent_down_residual c \<and> \<not> ac_p8000_fp8_fill_drain_single_bulk c \<and>
     ac_p40000_bf16_ab_prompt_wide c \<and> ac_p40000_gdn_prompt_wide c \<and>
     ac_p40000_flashinfer_whole_prompt c"

definition contract_prompt_wide_p40_packed_nvfp4_v2 :: "arithmetic_contract \<Rightarrow> bool" where
  [contract_defs]: "contract_prompt_wide_p40_packed_nvfp4_v2 c \<longleftrightarrow>
     ac_version c = 9 \<and> ac_bf16_ab c = B_PromptWideP40SingleGrid \<and>
     ac_fp8 c = F_P8000FillDrainSingleBulk \<and>
     ac_nvfp4 c = N_P40000PackedShapeSpecificV2GateUpSiluDownResidual \<and>
     ac_gdn c = G_PromptWideP40ChunkGraph \<and>
     ac_attention_preprocess c = A_P8000FillWholePromptFlashInferDrain \<and>
     \<not> ac_reset_fp8_locks_per_projection_span c \<and>
     \<not> ac_nvfp4_interleaves_gate_silu_down_per_span c \<and>
     \<not> ac_nvfp4_down_reuses_gate_up_locks c \<and>
     \<not> ac_nvfp4_residual_follows_down_per_span c \<and>
     \<not> ac_m8192_single_bulk_projection c \<and> \<not> ac_m8192_fp8_resets_locks_once c \<and>
     \<not> ac_m8192_nvfp4_uses_independent_down_workspace c \<and>
     \<not> ac_m8192_nvfp4_residual_once_after_bulk c \<and> \<not> ac_nvfp4_true_large_m_m8192 c \<and>
     \<not> ac_nvfp4_true_large_m_m7712 c \<and> ac_nvfp4_gate_up_down_coupled c \<and>
     ac_p40000_post_attention_norm_prompt_wide c \<and> ac_p40000_persistent_gate_up_silu c \<and>
     ac_p40000_persistent_down_residual c \<and> ac_p8000_fp8_fill_drain_single_bulk c \<and>
     ac_p40000_bf16_ab_prompt_wide c \<and> ac_p40000_gdn_prompt_wide c \<and>
     ac_p40000_flashinfer_whole_prompt c"

definition contract_prompt_wide_p40_vllm_marlin_parity :: "arithmetic_contract \<Rightarrow> bool" where
  [contract_defs]: "contract_prompt_wide_p40_vllm_marlin_parity c \<longleftrightarrow>
     ac_version c = 10 \<and> ac_bf16_ab c = B_PromptWideP40SingleGrid \<and>
     ac_fp8 c = F_P8000FillDrainSingleBulk \<and>
     ac_nvfp4 c = N_P40000VllmMarlinProjectionHostDispatchGateThenUpSiluDownResidual \<and>
     ac_gdn c = G_PromptWideP40ChunkGraph \<and>
     ac_attention_preprocess c = A_P8000FillWholePromptFlashInferDrain \<and>
     \<not> ac_reset_fp8_locks_per_projection_span c \<and>
     \<not> ac_nvfp4_interleaves_gate_silu_down_per_span c \<and>
     \<not> ac_nvfp4_down_reuses_gate_up_locks c \<and>
     \<not> ac_nvfp4_residual_follows_down_per_span c \<and>
     \<not> ac_m8192_single_bulk_projection c \<and> \<not> ac_m8192_fp8_resets_locks_once c \<and>
     \<not> ac_m8192_nvfp4_uses_independent_down_workspace c \<and>
     \<not> ac_m8192_nvfp4_residual_once_after_bulk c \<and> \<not> ac_nvfp4_true_large_m_m8192 c \<and>
     \<not> ac_nvfp4_true_large_m_m7712 c \<and> ac_nvfp4_gate_up_down_coupled c \<and>
     ac_p40000_post_attention_norm_prompt_wide c \<and>
     \<not> ac_p40000_persistent_gate_up_silu c \<and>
     \<not> ac_p40000_persistent_down_residual c \<and> ac_p8000_fp8_fill_drain_single_bulk c \<and>
     ac_p40000_bf16_ab_prompt_wide c \<and> ac_p40000_gdn_prompt_wide c \<and>
     ac_p40000_flashinfer_whole_prompt c"

definition is_valid_layer_major_prefill_arithmetic_contract :: "arithmetic_contract \<Rightarrow> bool" where
  "is_valid_layer_major_prefill_arithmetic_contract c \<longleftrightarrow>
     ac_environment_independent c \<and>
     ((contract_legacy_common c \<and>
       (contract_exact c \<or> contract_exact_marlin_m8192 c \<or> contract_segmented_marlin c \<or>
        contract_true_large_m_nvfp4 c \<or> contract_persistent_p40_nvfp4 c)) \<or>
      contract_prompt_wide_p40_whole_core c \<or> contract_prompt_wide_p40_projection_reset c \<or>
      contract_prompt_wide_p40_packed_projection c \<or> contract_prompt_wide_p40_packed_nvfp4_v2 c \<or>
      contract_prompt_wide_p40_vllm_marlin_parity c)"

text \<open>Each case of the validator describes one contract completely.\<close>

lemma contract_cases:
  "ac_environment_independent c \<and> contract_legacy_common c \<and> contract_exact c \<longleftrightarrow>
     c = kLayerMajorPrefillExactArithmeticContract"
  "ac_environment_independent c \<and> contract_legacy_common c \<and> contract_exact_marlin_m8192 c \<longleftrightarrow>
     c = kLayerMajorPrefillExactMarlinM8192ArithmeticContract"
  "ac_environment_independent c \<and> contract_legacy_common c \<and> contract_segmented_marlin c \<longleftrightarrow>
     c = kLayerMajorPrefillSegmentedMarlinArithmeticContract"
  "ac_environment_independent c \<and> contract_legacy_common c \<and> contract_true_large_m_nvfp4 c \<longleftrightarrow>
     c = kLayerMajorPrefillTrueLargeMNvFp4ArithmeticContract"
  "ac_environment_independent c \<and> contract_legacy_common c \<and> contract_persistent_p40_nvfp4 c \<longleftrightarrow>
     c = kLayerMajorPrefillPersistentP40NvFp4ArithmeticContract"
  "ac_environment_independent c \<and> contract_prompt_wide_p40_whole_core c \<longleftrightarrow>
     c = kLayerMajorPrefillPromptWideP40WholeCoreArithmeticContract"
  "ac_environment_independent c \<and> contract_prompt_wide_p40_projection_reset c \<longleftrightarrow>
     c = kLayerMajorPrefillPromptWideP40ProjectionResetArithmeticContract"
  "ac_environment_independent c \<and> contract_prompt_wide_p40_packed_projection c \<longleftrightarrow>
     c = kLayerMajorPrefillPromptWideP40PackedProjectionArithmeticContract"
  "ac_environment_independent c \<and> contract_prompt_wide_p40_packed_nvfp4_v2 c \<longleftrightarrow>
     c = kLayerMajorPrefillPromptWideP40PackedNvfp4V2ArithmeticContract"
  "ac_environment_independent c \<and> contract_prompt_wide_p40_vllm_marlin_parity c \<longleftrightarrow>
     c = kLayerMajorPrefillPromptWideP40VllmMarlinParityArithmeticContract"
  by (cases c, simp add: contract_defs, blast)+

definition published_contracts :: "arithmetic_contract list" where
  "published_contracts =
     [kLayerMajorPrefillExactArithmeticContract,
      kLayerMajorPrefillExactMarlinM8192ArithmeticContract,
      kLayerMajorPrefillSegmentedMarlinArithmeticContract,
      kLayerMajorPrefillTrueLargeMNvFp4ArithmeticContract,
      kLayerMajorPrefillPersistentP40NvFp4ArithmeticContract,
      kLayerMajorPrefillPromptWideP40WholeCoreArithmeticContract,
      kLayerMajorPrefillPromptWideP40ProjectionResetArithmeticContract,
      kLayerMajorPrefillPromptWideP40PackedProjectionArithmeticContract,
      kLayerMajorPrefillPromptWideP40PackedNvfp4V2ArithmeticContract,
      kLayerMajorPrefillPromptWideP40VllmMarlinParityArithmeticContract]"

text \<open>
  The contract validator accepts exactly the ten published contracts: all twenty-five fields are
  pinned, so no field of a published contract can be changed without losing admission, and their
  versions are 1 to 10.
\<close>

theorem arithmetic_contract_valid_iff_published:
  "(is_valid_layer_major_prefill_arithmetic_contract c \<longleftrightarrow> c \<in> set published_contracts) \<and>
   map ac_version published_contracts = [1, 2, 3, 4, 5, 6, 7, 8, 9, 10]"
proof
  have "is_valid_layer_major_prefill_arithmetic_contract c \<longleftrightarrow>
     ac_environment_independent c \<and> contract_legacy_common c \<and> contract_exact c \<or>
     ac_environment_independent c \<and> contract_legacy_common c \<and> contract_exact_marlin_m8192 c \<or>
     ac_environment_independent c \<and> contract_legacy_common c \<and> contract_segmented_marlin c \<or>
     ac_environment_independent c \<and> contract_legacy_common c \<and> contract_true_large_m_nvfp4 c \<or>
     ac_environment_independent c \<and> contract_legacy_common c \<and> contract_persistent_p40_nvfp4 c \<or>
     ac_environment_independent c \<and> contract_prompt_wide_p40_whole_core c \<or>
     ac_environment_independent c \<and> contract_prompt_wide_p40_projection_reset c \<or>
     ac_environment_independent c \<and> contract_prompt_wide_p40_packed_projection c \<or>
     ac_environment_independent c \<and> contract_prompt_wide_p40_packed_nvfp4_v2 c \<or>
     ac_environment_independent c \<and> contract_prompt_wide_p40_vllm_marlin_parity c"
    unfolding is_valid_layer_major_prefill_arithmetic_contract_def by blast
  then show "is_valid_layer_major_prefill_arithmetic_contract c \<longleftrightarrow> c \<in> set published_contracts"
    unfolding contract_cases published_contracts_def by simp
  show "map ac_version published_contracts = [1, 2, 3, 4, 5, 6, 7, 8, 9, 10]"
    by (simp add: published_contracts_def contract_defs)
qed

end
