(* ===== verification/Prefill_Plan.thy ===== *)
theory Prefill_Plan
  imports Prefill_Contract
begin

text \<open>
  The immutable prefill plan of \<^verbatim>\<open>prefill_execution_plan.h\<close> and \<^verbatim>\<open>prefill_execution_plan.cpp\<close>: its
  records, the validator \<open>valid_plan_topology\<close> with the six schedule validators it calls, and the builder.
  A \<^verbatim>\<open>std::array\<close> is a list of the array's length; the builder starts from the default-initialised arrays
  and writes them by index, as the code does.
\<close>

subsection \<open>Records\<close>

datatype layer_type = LtInvalid | LtLinearAttention | LtFullAttention

datatype traversal_order = LayerMajor

datatype progress_domain = GdnState | KvCache

record operator_panel =
  op_ordinal :: nat
  op_first_position :: nat
  op_token_count :: nat
  op_end_position :: nat

record layer_execution =
  le_layer_index :: nat
  le_layer_type :: layer_type
  le_progress_domain :: progress_domain
  le_panel_count :: nat

record final_commit_plan =
  fc_expected_initial_sequence_length :: nat
  fc_committed_sequence_length :: nat
  fc_commit_count :: nat

record mlp_schedule =
  ms_tactic :: mlp_schedule_tactic
  ms_operator_panel_phase_count_per_layer :: nat
  ms_mlp_phase_submission_count_per_layer :: nat
  ms_maximum_m_per_mlp_submission :: nat
  ms_required_gate_up_projection_launches_per_layer :: nat
  ms_maximum_standalone_silu_launches_per_layer :: nat
  ms_required_down_projection_launches_per_layer :: nat
  ms_minimum_total_kernel_launches_per_layer :: nat
  ms_maximum_total_kernel_launches_per_layer :: nat
  ms_waits_for_all_operator_panels :: bool
  ms_post_attention_residual_completed_panelwise :: bool
  ms_post_attention_norm_is_prompt_wide :: bool
  ms_exact_full_m_binding_required :: bool
  ms_internal_m_segmentation_forbidden :: bool

definition default_mlp_schedule :: mlp_schedule where
  "default_mlp_schedule =
     \<lparr>ms_tactic = PerOperatorPanel, ms_operator_panel_phase_count_per_layer = 0,
     ms_mlp_phase_submission_count_per_layer = 0, ms_maximum_m_per_mlp_submission = 0,
     ms_required_gate_up_projection_launches_per_layer = 0,
     ms_maximum_standalone_silu_launches_per_layer = 0,
     ms_required_down_projection_launches_per_layer = 0, ms_minimum_total_kernel_launches_per_layer = 0,
     ms_maximum_total_kernel_launches_per_layer = 0, ms_waits_for_all_operator_panels = False,
     ms_post_attention_residual_completed_panelwise = True,
     ms_post_attention_norm_is_prompt_wide = False, ms_exact_full_m_binding_required = False,
     ms_internal_m_segmentation_forbidden = False\<rparr>"

record whole_core_schedule =
  wc_enabled :: bool
  wc_fill_panel_phase_count_per_layer :: nat
  wc_prompt_core_phase_count_per_layer :: nat
  wc_drain_panel_phase_count_per_layer :: nat
  wc_persistent_mlp_phase_count_per_layer :: nat
  wc_panel_token_count :: nat
  wc_prompt_core_token_count :: nat
  wc_request_capacity_tokens :: nat
  wc_route_pass_count :: nat
  wc_fp8_single_launch_per_projection_required :: bool
  wc_bf16_ab_prompt_wide_required :: bool
  wc_gdn_prompt_wide_required :: bool
  wc_flashinfer_whole_prompt_required :: bool

definition default_whole_core_schedule :: whole_core_schedule where
  "default_whole_core_schedule =
     \<lparr>wc_enabled = False, wc_fill_panel_phase_count_per_layer = 0, wc_prompt_core_phase_count_per_layer = 0,
     wc_drain_panel_phase_count_per_layer = 0, wc_persistent_mlp_phase_count_per_layer = 0,
     wc_panel_token_count = 0, wc_prompt_core_token_count = 0, wc_request_capacity_tokens = 0,
     wc_route_pass_count = 0, wc_fp8_single_launch_per_projection_required = False,
     wc_bf16_ab_prompt_wide_required = False, wc_gdn_prompt_wide_required = False,
     wc_flashinfer_whole_prompt_required = False\<rparr>"

record projection_reset_schedule =
  pr_enabled :: bool
  pr_input_preparation_panel_count_per_layer :: nat
  pr_prompt_core_phase_count_per_layer :: nat
  pr_persistent_mlp_phase_count_per_layer :: nat
  pr_panel_token_count :: nat
  pr_projection_m_tokens :: nat
  pr_request_capacity_tokens :: nat
  pr_route_pass_count :: nat
  pr_fp8_grouped_input_launches_per_layer :: nat
  pr_fp8_output_launches_per_layer :: nat
  pr_fp8_physical_launches_per_request :: nat
  pr_fp8_tensor_role_hits_per_request :: nat
  pr_nvfp4_gate_up_launches_per_layer :: nat
  pr_nvfp4_down_launches_per_layer :: nat
  pr_nvfp4_physical_launches_per_request :: nat
  pr_fp8_grouped_full_prompt_input_required :: bool
  pr_fp8_full_prompt_output_required :: bool
  pr_nvfp4_full_prompt_required :: bool
  pr_internal_m_segmentation_forbidden :: bool
  pr_production_accuracy_required :: bool
  pr_approximate_numerics_forbidden :: bool
  pr_mtp_forbidden :: bool
  pr_cublaslt_forbidden :: bool

definition default_projection_reset_schedule :: projection_reset_schedule where
  "default_projection_reset_schedule =
     \<lparr>pr_enabled = False, pr_input_preparation_panel_count_per_layer = 0,
     pr_prompt_core_phase_count_per_layer = 0, pr_persistent_mlp_phase_count_per_layer = 0,
     pr_panel_token_count = 0, pr_projection_m_tokens = 0, pr_request_capacity_tokens = 0,
     pr_route_pass_count = 0, pr_fp8_grouped_input_launches_per_layer = 0,
     pr_fp8_output_launches_per_layer = 0, pr_fp8_physical_launches_per_request = 0,
     pr_fp8_tensor_role_hits_per_request = 0, pr_nvfp4_gate_up_launches_per_layer = 0,
     pr_nvfp4_down_launches_per_layer = 0, pr_nvfp4_physical_launches_per_request = 0,
     pr_fp8_grouped_full_prompt_input_required = False, pr_fp8_full_prompt_output_required = False,
     pr_nvfp4_full_prompt_required = False, pr_internal_m_segmentation_forbidden = False,
     pr_production_accuracy_required = False, pr_approximate_numerics_forbidden = False,
     pr_mtp_forbidden = False, pr_cublaslt_forbidden = False\<rparr>"

record packed_projection_schedule =
  pp_enabled :: bool
  pp_input_preparation_panel_count_per_layer :: nat
  pp_prompt_core_phase_count_per_layer :: nat
  pp_packed_mlp_phase_count_per_layer :: nat
  pp_panel_token_count :: nat
  pp_projection_m_tokens :: nat
  pp_request_capacity_tokens :: nat
  pp_route_pass_count :: nat
  pp_fp8_physical_launches_per_request :: nat
  pp_fp8_tensor_role_hits_per_request :: nat
  pp_nvfp4_physical_launches_per_request :: nat
  pp_authenticated_artifact_count :: nat
  pp_authenticated_source_count :: nat
  pp_stream_k_slice_count :: nat
  pp_packed_operands_retained_to_register_decode :: bool
  pp_role_specific_tactics_required :: bool
  pp_request_time_repack_forbidden :: bool
  pp_request_time_tactic_selection_forbidden :: bool
  pp_internal_m_segmentation_forbidden :: bool
  pp_production_accuracy_required :: bool
  pp_approximate_numerics_forbidden :: bool
  pp_mtp_forbidden :: bool
  pp_cublaslt_forbidden :: bool

definition default_packed_projection_schedule :: packed_projection_schedule where
  "default_packed_projection_schedule =
     \<lparr>pp_enabled = False, pp_input_preparation_panel_count_per_layer = 0,
     pp_prompt_core_phase_count_per_layer = 0, pp_packed_mlp_phase_count_per_layer = 0,
     pp_panel_token_count = 0, pp_projection_m_tokens = 0, pp_request_capacity_tokens = 0,
     pp_route_pass_count = 0, pp_fp8_physical_launches_per_request = 0,
     pp_fp8_tensor_role_hits_per_request = 0, pp_nvfp4_physical_launches_per_request = 0,
     pp_authenticated_artifact_count = 0, pp_authenticated_source_count = 0,
     pp_stream_k_slice_count = 0, pp_packed_operands_retained_to_register_decode = False,
     pp_role_specific_tactics_required = False, pp_request_time_repack_forbidden = False,
     pp_request_time_tactic_selection_forbidden = False, pp_internal_m_segmentation_forbidden = False,
     pp_production_accuracy_required = False, pp_approximate_numerics_forbidden = False,
     pp_mtp_forbidden = False, pp_cublaslt_forbidden = False\<rparr>"

record packed_nvfp4_v2_schedule =
  pv_enabled :: bool
  pv_input_preparation_panel_count_per_layer :: nat
  pv_prompt_core_phase_count_per_layer :: nat
  pv_packed_mlp_phase_count_per_layer :: nat
  pv_panel_token_count :: nat
  pv_projection_m_tokens :: nat
  pv_request_capacity_tokens :: nat
  pv_route_pass_count :: nat
  pv_fp8_physical_launches_per_request :: nat
  pv_fp8_tensor_role_hits_per_request :: nat
  pv_nvfp4_physical_launches_per_request :: nat
  pv_authenticated_artifact_count :: nat
  pv_authenticated_source_count :: nat
  pv_stream_k_slice_count :: nat
  pv_packed_operands_retained_to_register_decode :: bool
  pv_role_specific_tactics_required :: bool
  pv_shape_specific_gate_up_required :: bool
  pv_shape_specific_down_required :: bool
  pv_request_time_repack_forbidden :: bool
  pv_request_time_tactic_selection_forbidden :: bool
  pv_internal_m_segmentation_forbidden :: bool
  pv_production_accuracy_required :: bool
  pv_approximate_numerics_forbidden :: bool
  pv_mtp_forbidden :: bool
  pv_cublaslt_forbidden :: bool

definition default_packed_nvfp4_v2_schedule :: packed_nvfp4_v2_schedule where
  "default_packed_nvfp4_v2_schedule =
     \<lparr>pv_enabled = False, pv_input_preparation_panel_count_per_layer = 0,
     pv_prompt_core_phase_count_per_layer = 0, pv_packed_mlp_phase_count_per_layer = 0,
     pv_panel_token_count = 0, pv_projection_m_tokens = 0, pv_request_capacity_tokens = 0,
     pv_route_pass_count = 0, pv_fp8_physical_launches_per_request = 0,
     pv_fp8_tensor_role_hits_per_request = 0, pv_nvfp4_physical_launches_per_request = 0,
     pv_authenticated_artifact_count = 0, pv_authenticated_source_count = 0,
     pv_stream_k_slice_count = 0, pv_packed_operands_retained_to_register_decode = False,
     pv_role_specific_tactics_required = False, pv_shape_specific_gate_up_required = False,
     pv_shape_specific_down_required = False, pv_request_time_repack_forbidden = False,
     pv_request_time_tactic_selection_forbidden = False, pv_internal_m_segmentation_forbidden = False,
     pv_production_accuracy_required = False, pv_approximate_numerics_forbidden = False,
     pv_mtp_forbidden = False, pv_cublaslt_forbidden = False\<rparr>"

record vllm_marlin_parity_schedule =
  vm_enabled :: bool
  vm_input_preparation_panel_count_per_layer :: nat
  vm_prompt_core_phase_count_per_layer :: nat
  vm_segmented_mlp_phase_count_per_layer :: nat
  vm_panel_token_count :: nat
  vm_projection_m_tokens :: nat
  vm_request_capacity_tokens :: nat
  vm_route_pass_count :: nat
  vm_fp8_physical_launches_per_request :: nat
  vm_fp8_tensor_role_hits_per_request :: nat
  vm_gate_up_segments_per_layer :: nat
  vm_down_segments_per_layer :: nat
  vm_nvfp4_physical_launches_per_request :: nat
  vm_gate_up_logical_role_hits_per_request :: nat
  vm_down_logical_role_hits_per_request :: nat
  vm_standalone_silu_launches_per_layer :: nat
  vm_standalone_residual_launches_per_layer :: nat
  vm_lock_clear_operations_per_request :: nat
  vm_full_m1024_segments_per_projection :: nat
  vm_tail_m64_segments_per_projection :: nat
  vm_gate_up_tail_output_tiles :: nat
  vm_gate_up_tail_split_output_tiles :: nat
  vm_down_tail_output_tiles :: nat
  vm_down_tail_split_output_tiles :: nat
  vm_full_segment_m_tokens :: nat
  vm_tail_segment_m_tokens :: nat
  vm_gate_up_input_features :: nat
  vm_merged_gate_up_output_features :: nat
  vm_gate_output_features :: nat
  vm_up_output_features :: nat
  vm_down_input_features :: nat
  vm_down_output_features :: nat
  vm_authenticated_artifact_count :: nat
  vm_authenticated_source_count :: nat
  vm_independent_canonical_marlin_sidecars_required :: bool
  vm_canonical_token_major_gate_then_up_rows_required :: bool
  vm_independent_activated_buffer_required :: bool
  vm_bf16_projection_publication_required :: bool
  vm_internal_m_segmentation_required :: bool
  vm_m64_tail_is_final_segment_required :: bool
  vm_m1024_segments_full_k_required :: bool
  vm_m64_tail_split_k_required :: bool
  vm_m64_tail_locks_required :: bool
  vm_m64_tail_zero_initialized_locks_required :: bool
  vm_m64_tail_fp32_reduction_workspace_required :: bool
  vm_m64_tail_in_kernel_global_reduction_required :: bool
  vm_request_time_repack_forbidden :: bool
  vm_request_time_tactic_selection_forbidden :: bool
  vm_production_accuracy_required :: bool
  vm_approximate_numerics_forbidden :: bool
  vm_mtp_forbidden :: bool
  vm_cublaslt_forbidden :: bool

definition default_vllm_marlin_parity_schedule :: vllm_marlin_parity_schedule where
  "default_vllm_marlin_parity_schedule =
     \<lparr>vm_enabled = False, vm_input_preparation_panel_count_per_layer = 0,
     vm_prompt_core_phase_count_per_layer = 0, vm_segmented_mlp_phase_count_per_layer = 0,
     vm_panel_token_count = 0, vm_projection_m_tokens = 0, vm_request_capacity_tokens = 0,
     vm_route_pass_count = 0, vm_fp8_physical_launches_per_request = 0,
     vm_fp8_tensor_role_hits_per_request = 0, vm_gate_up_segments_per_layer = 0,
     vm_down_segments_per_layer = 0, vm_nvfp4_physical_launches_per_request = 0,
     vm_gate_up_logical_role_hits_per_request = 0, vm_down_logical_role_hits_per_request = 0,
     vm_standalone_silu_launches_per_layer = 0, vm_standalone_residual_launches_per_layer = 0,
     vm_lock_clear_operations_per_request = 0, vm_full_m1024_segments_per_projection = 0,
     vm_tail_m64_segments_per_projection = 0, vm_gate_up_tail_output_tiles = 0,
     vm_gate_up_tail_split_output_tiles = 0, vm_down_tail_output_tiles = 0,
     vm_down_tail_split_output_tiles = 0, vm_full_segment_m_tokens = 0, vm_tail_segment_m_tokens = 0,
     vm_gate_up_input_features = 0, vm_merged_gate_up_output_features = 0, vm_gate_output_features = 0,
     vm_up_output_features = 0, vm_down_input_features = 0, vm_down_output_features = 0,
     vm_authenticated_artifact_count = 0, vm_authenticated_source_count = 0,
     vm_independent_canonical_marlin_sidecars_required = False,
     vm_canonical_token_major_gate_then_up_rows_required = False,
     vm_independent_activated_buffer_required = False, vm_bf16_projection_publication_required = False,
     vm_internal_m_segmentation_required = False, vm_m64_tail_is_final_segment_required = False,
     vm_m1024_segments_full_k_required = False, vm_m64_tail_split_k_required = False,
     vm_m64_tail_locks_required = False, vm_m64_tail_zero_initialized_locks_required = False,
     vm_m64_tail_fp32_reduction_workspace_required = False,
     vm_m64_tail_in_kernel_global_reduction_required = False, vm_request_time_repack_forbidden = False,
     vm_request_time_tactic_selection_forbidden = False, vm_production_accuracy_required = False,
     vm_approximate_numerics_forbidden = False, vm_mtp_forbidden = False, vm_cublaslt_forbidden = False\<rparr>"

record prefill_plan =
  pl_traversal :: traversal_order
  pl_legacy_public_tile_limit :: nat
  pl_operator_panel_capacity :: nat
  pl_first_position :: nat
  pl_prompt_token_count :: nat
  pl_final_position :: nat
  pl_panels :: "operator_panel list"
  pl_panel_count :: nat
  pl_layers :: "layer_execution list"
  pl_mlp_schedule :: mlp_schedule
  pl_whole_core_schedule :: whole_core_schedule
  pl_projection_reset_schedule :: projection_reset_schedule
  pl_packed_projection_schedule :: packed_projection_schedule
  pl_packed_nvfp4_v2_schedule :: packed_nvfp4_v2_schedule
  pl_vllm_marlin_parity_schedule :: vllm_marlin_parity_schedule
  pl_final_commit :: final_commit_plan
  pl_operator_bindings_complete :: bool

definition plan_executable :: "prefill_plan \<Rightarrow> bool" where
  "plan_executable plan = pl_operator_bindings_complete plan"

datatype plan_error = PeInvalidArgument | PeArithmeticOverflow | PeCapacityExceeded | PeInvalidTopology

record plan_options =
  po_first_position :: nat
  po_prompt_token_count :: nat
  po_max_sequence_length :: nat
  po_mlp_schedule_tactic :: mlp_schedule_tactic

subsection \<open>Admission of a schedule\<close>

definition checked_add :: "nat \<Rightarrow> nat \<Rightarrow> nat option" where
  "checked_add left right = (if right > 2 ^ 64 - 1 - left then None else Some (left + right))"

definition layer_type_for_index :: "nat \<Rightarrow> layer_type" where
  "layer_type_for_index layer_index =
     (if (layer_index + 1) mod 4 = 0 then LtFullAttention else LtLinearAttention)"

definition layer_domain :: "layer_type \<Rightarrow> progress_domain" where
  "layer_domain layer_type = (if layer_type = LtFullAttention then KvCache else GdnState)"

definition supported_mlp_schedule_tactic :: "build_config \<Rightarrow> mlp_schedule_tactic \<Rightarrow> bool" where
  "supported_mlp_schedule_tactic cfg tactic \<longleftrightarrow>
     tactic = PerOperatorPanel \<or>
     tactic = LayerWideP40ExactFullM \<and> cfg_layer_wide_p40_mlp cfg \<or>
     tactic = PromptWideP40WholeCore \<and> cfg_prompt_wide_p40_whole_core cfg \<or>
     tactic = PromptWideP40ProjectionReset \<and> cfg_p40_projection_reset cfg \<or>
     tactic = PromptWideP40PackedProjection \<and> cfg_p40_packed_projection cfg \<or>
     tactic = PromptWideP40PackedNvfp4V2 \<and> cfg_p40_packed_nvfp4_v2 cfg \<or>
     tactic = PromptWideP40VllmMarlinParity \<and> cfg_p40_vllm_marlin_parity cfg"

text \<open>The local boolean \<^verbatim>\<open>fixed_p40_geometry\<close> of the builder and of the validator.\<close>

definition fixed_p40_geometry :: "mlp_schedule_tactic \<Rightarrow> bool" where
  "fixed_p40_geometry tactic \<longleftrightarrow>
     tactic = PromptWideP40WholeCore \<or> tactic = PromptWideP40ProjectionReset \<or>
     tactic = PromptWideP40PackedProjection \<or> tactic = PromptWideP40PackedNvfp4V2 \<or>
     tactic = PromptWideP40VllmMarlinParity"

definition next_panel_token_count :: "mlp_schedule_tactic \<Rightarrow> nat \<Rightarrow> nat" where
  "next_panel_token_count tactic remaining =
     (if fixed_p40_geometry tactic then p40_panel_token_count remaining
      else next_layer_major_prefill_operator_panel_token_count remaining)"

definition expected_panel_count :: "mlp_schedule_tactic \<Rightarrow> nat \<Rightarrow> nat" where
  "expected_panel_count tactic prompt =
     (if fixed_p40_geometry tactic then (prompt + 7999) div 8000
      else (prompt + kLayerMajorPrefillOperatorPanelTokens - 1) div kLayerMajorPrefillOperatorPanelTokens)"

subsection \<open>Validation of a plan\<close>

definition valid_whole_core_schedule :: "build_config \<Rightarrow> prefill_plan \<Rightarrow> bool" where
  "valid_whole_core_schedule cfg plan \<longleftrightarrow>
     (let s = pl_whole_core_schedule plan in
      if ms_tactic (pl_mlp_schedule plan) \<noteq> PromptWideP40WholeCore
      then \<not> wc_enabled s \<and> wc_fill_panel_phase_count_per_layer s = 0 \<and>
         wc_prompt_core_phase_count_per_layer s = 0 \<and>
         wc_drain_panel_phase_count_per_layer s = 0 \<and>
         wc_persistent_mlp_phase_count_per_layer s = 0 \<and> wc_panel_token_count s = 0 \<and>
         wc_prompt_core_token_count s = 0 \<and> wc_request_capacity_tokens s = 0 \<and>
         wc_route_pass_count s = 0 \<and> \<not> wc_fp8_single_launch_per_projection_required s \<and>
         \<not> wc_bf16_ab_prompt_wide_required s \<and> \<not> wc_gdn_prompt_wide_required s \<and>
         \<not> wc_flashinfer_whole_prompt_required s
      else wc_enabled s \<and> pl_first_position plan = 0 \<and>
         whole_core_prompt_tokens_admitted cfg (pl_prompt_token_count plan) \<and>
         pl_final_position plan = pl_prompt_token_count plan \<and>
         pl_panel_count plan = (pl_prompt_token_count plan + 7999) div 8000 \<and>
         wc_fill_panel_phase_count_per_layer s = pl_panel_count plan \<and>
         wc_prompt_core_phase_count_per_layer s = 1 \<and>
         wc_drain_panel_phase_count_per_layer s = pl_panel_count plan \<and>
         wc_persistent_mlp_phase_count_per_layer s = 1 \<and>
         wc_panel_token_count s = kLayerMajorPrefillPromptWideP40PanelTokens \<and>
         wc_prompt_core_token_count s = pl_prompt_token_count plan \<and>
         wc_request_capacity_tokens s = kLayerMajorPrefillPromptWideP40RequestCapacityTokens cfg \<and>
         wc_route_pass_count s = 1 \<and> wc_fp8_single_launch_per_projection_required s \<and>
         wc_bf16_ab_prompt_wide_required s \<and> wc_gdn_prompt_wide_required s \<and>
         wc_flashinfer_whole_prompt_required s)"

definition valid_projection_reset_schedule :: "build_config \<Rightarrow> prefill_plan \<Rightarrow> bool" where
  "valid_projection_reset_schedule cfg plan \<longleftrightarrow>
     (let s = pl_projection_reset_schedule plan in
      if ms_tactic (pl_mlp_schedule plan) \<noteq> PromptWideP40ProjectionReset
      then \<not> pr_enabled s \<and> pr_input_preparation_panel_count_per_layer s = 0 \<and>
         pr_prompt_core_phase_count_per_layer s = 0 \<and>
         pr_persistent_mlp_phase_count_per_layer s = 0 \<and> pr_panel_token_count s = 0 \<and>
         pr_projection_m_tokens s = 0 \<and> pr_request_capacity_tokens s = 0 \<and>
         pr_route_pass_count s = 0 \<and> pr_fp8_grouped_input_launches_per_layer s = 0 \<and>
         pr_fp8_output_launches_per_layer s = 0 \<and> pr_fp8_physical_launches_per_request s = 0 \<and>
         pr_fp8_tensor_role_hits_per_request s = 0 \<and>
         pr_nvfp4_gate_up_launches_per_layer s = 0 \<and> pr_nvfp4_down_launches_per_layer s = 0 \<and>
         pr_nvfp4_physical_launches_per_request s = 0 \<and>
         \<not> pr_fp8_grouped_full_prompt_input_required s \<and>
         \<not> pr_fp8_full_prompt_output_required s \<and>
         \<not> pr_nvfp4_full_prompt_required s \<and>
         \<not> pr_internal_m_segmentation_forbidden s \<and>
         \<not> pr_production_accuracy_required s \<and>
         \<not> pr_approximate_numerics_forbidden s \<and> \<not> pr_mtp_forbidden s \<and>
         \<not> pr_cublaslt_forbidden s
      else pr_enabled s \<and> pl_first_position plan = 0 \<and>
         pl_prompt_token_count plan = kLayerMajorPrefillPromptWideP40Tokens cfg \<and>
         pl_final_position plan = kLayerMajorPrefillPromptWideP40Tokens cfg \<and>
         pl_panel_count plan = kLayerMajorPrefillPromptWideP40PanelCount \<and>
         pr_input_preparation_panel_count_per_layer s = pl_panel_count plan \<and>
         pr_prompt_core_phase_count_per_layer s = 1 \<and>
         pr_persistent_mlp_phase_count_per_layer s = 1 \<and>
         pr_panel_token_count s = kLayerMajorPrefillPromptWideP40PanelTokens \<and>
         pr_projection_m_tokens s = kLayerMajorPrefillPromptWideP40Tokens cfg \<and>
         pr_request_capacity_tokens s = kLayerMajorPrefillPromptWideP40RequestCapacityTokens cfg \<and>
         pr_route_pass_count s = 1 \<and>
         pr_fp8_grouped_input_launches_per_layer s = kLayerMajorPrefillProjectionResetFp8GroupedInputLaunchesPerLayer \<and>
         pr_fp8_output_launches_per_layer s = kLayerMajorPrefillProjectionResetFp8OutputLaunchesPerLayer \<and>
         pr_fp8_physical_launches_per_request s = kLayerMajorPrefillProjectionResetFp8PhysicalLaunchesPerRequest \<and>
         pr_fp8_tensor_role_hits_per_request s = kLayerMajorPrefillProjectionResetFp8TensorRoleHitsPerRequest \<and>
         pr_nvfp4_gate_up_launches_per_layer s = kLayerMajorPrefillProjectionResetNvFp4GateUpLaunchesPerLayer \<and>
         pr_nvfp4_down_launches_per_layer s = kLayerMajorPrefillProjectionResetNvFp4DownLaunchesPerLayer \<and>
         pr_nvfp4_physical_launches_per_request s = kLayerMajorPrefillProjectionResetNvFp4PhysicalLaunchesPerRequest \<and>
         pr_fp8_grouped_full_prompt_input_required s \<and> pr_fp8_full_prompt_output_required s \<and>
         pr_nvfp4_full_prompt_required s \<and> pr_internal_m_segmentation_forbidden s \<and>
         pr_production_accuracy_required s \<and> pr_approximate_numerics_forbidden s \<and>
         pr_mtp_forbidden s \<and> pr_cublaslt_forbidden s)"

definition valid_packed_projection_schedule :: "build_config \<Rightarrow> prefill_plan \<Rightarrow> bool" where
  "valid_packed_projection_schedule cfg plan \<longleftrightarrow>
     (let s = pl_packed_projection_schedule plan in
      if ms_tactic (pl_mlp_schedule plan) \<noteq> PromptWideP40PackedProjection
      then \<not> pp_enabled s \<and> pp_input_preparation_panel_count_per_layer s = 0 \<and>
         pp_prompt_core_phase_count_per_layer s = 0 \<and>
         pp_packed_mlp_phase_count_per_layer s = 0 \<and> pp_panel_token_count s = 0 \<and>
         pp_projection_m_tokens s = 0 \<and> pp_request_capacity_tokens s = 0 \<and>
         pp_route_pass_count s = 0 \<and> pp_fp8_physical_launches_per_request s = 0 \<and>
         pp_fp8_tensor_role_hits_per_request s = 0 \<and>
         pp_nvfp4_physical_launches_per_request s = 0 \<and>
         pp_authenticated_artifact_count s = 0 \<and> pp_authenticated_source_count s = 0 \<and>
         pp_stream_k_slice_count s = 0 \<and>
         \<not> pp_packed_operands_retained_to_register_decode s \<and>
         \<not> pp_role_specific_tactics_required s \<and>
         \<not> pp_request_time_repack_forbidden s \<and>
         \<not> pp_request_time_tactic_selection_forbidden s \<and>
         \<not> pp_internal_m_segmentation_forbidden s \<and>
         \<not> pp_production_accuracy_required s \<and>
         \<not> pp_approximate_numerics_forbidden s \<and> \<not> pp_mtp_forbidden s \<and>
         \<not> pp_cublaslt_forbidden s
      else pp_enabled s \<and> pl_first_position plan = 0 \<and>
         pl_prompt_token_count plan = kLayerMajorPrefillPromptWideP40Tokens cfg \<and>
         pl_final_position plan = kLayerMajorPrefillPromptWideP40Tokens cfg \<and>
         pl_panel_count plan = kLayerMajorPrefillPromptWideP40PanelCount \<and>
         pp_input_preparation_panel_count_per_layer s = pl_panel_count plan \<and>
         pp_prompt_core_phase_count_per_layer s = 1 \<and>
         pp_packed_mlp_phase_count_per_layer s = 1 \<and>
         pp_panel_token_count s = kLayerMajorPrefillPromptWideP40PanelTokens \<and>
         pp_projection_m_tokens s = kLayerMajorPrefillPromptWideP40Tokens cfg \<and>
         pp_request_capacity_tokens s = kLayerMajorPrefillPromptWideP40RequestCapacityTokens cfg \<and>
         pp_route_pass_count s = 1 \<and>
         pp_fp8_physical_launches_per_request s = kLayerMajorPrefillPackedProjectionFp8PhysicalLaunchesPerRequest \<and>
         pp_fp8_tensor_role_hits_per_request s = kLayerMajorPrefillPackedProjectionFp8TensorRoleHitsPerRequest \<and>
         pp_nvfp4_physical_launches_per_request s = kLayerMajorPrefillPackedProjectionNvFp4PhysicalLaunchesPerRequest \<and>
         pp_authenticated_artifact_count s = kLayerMajorPrefillPackedProjectionArtifactCount \<and>
         pp_authenticated_source_count s = kLayerMajorPrefillPackedProjectionAuthenticatedSourceCount \<and>
         pp_stream_k_slice_count s = 1 \<and> pp_packed_operands_retained_to_register_decode s \<and>
         pp_role_specific_tactics_required s \<and> pp_request_time_repack_forbidden s \<and>
         pp_request_time_tactic_selection_forbidden s \<and>
         pp_internal_m_segmentation_forbidden s \<and> pp_production_accuracy_required s \<and>
         pp_approximate_numerics_forbidden s \<and> pp_mtp_forbidden s \<and> pp_cublaslt_forbidden s)"

definition valid_packed_nvfp4_v2_schedule :: "build_config \<Rightarrow> prefill_plan \<Rightarrow> bool" where
  "valid_packed_nvfp4_v2_schedule cfg plan \<longleftrightarrow>
     (let s = pl_packed_nvfp4_v2_schedule plan in
      if ms_tactic (pl_mlp_schedule plan) \<noteq> PromptWideP40PackedNvfp4V2
      then \<not> pv_enabled s \<and> pv_input_preparation_panel_count_per_layer s = 0 \<and>
         pv_prompt_core_phase_count_per_layer s = 0 \<and>
         pv_packed_mlp_phase_count_per_layer s = 0 \<and> pv_panel_token_count s = 0 \<and>
         pv_projection_m_tokens s = 0 \<and> pv_request_capacity_tokens s = 0 \<and>
         pv_route_pass_count s = 0 \<and> pv_fp8_physical_launches_per_request s = 0 \<and>
         pv_fp8_tensor_role_hits_per_request s = 0 \<and>
         pv_nvfp4_physical_launches_per_request s = 0 \<and>
         pv_authenticated_artifact_count s = 0 \<and> pv_authenticated_source_count s = 0 \<and>
         pv_stream_k_slice_count s = 0 \<and>
         \<not> pv_packed_operands_retained_to_register_decode s \<and>
         \<not> pv_role_specific_tactics_required s \<and>
         \<not> pv_shape_specific_gate_up_required s \<and>
         \<not> pv_shape_specific_down_required s \<and>
         \<not> pv_request_time_repack_forbidden s \<and>
         \<not> pv_request_time_tactic_selection_forbidden s \<and>
         \<not> pv_internal_m_segmentation_forbidden s \<and>
         \<not> pv_production_accuracy_required s \<and>
         \<not> pv_approximate_numerics_forbidden s \<and> \<not> pv_mtp_forbidden s \<and>
         \<not> pv_cublaslt_forbidden s
      else pv_enabled s \<and> pl_first_position plan = 0 \<and>
         pl_prompt_token_count plan = kLayerMajorPrefillPromptWideP40Tokens cfg \<and>
         pl_final_position plan = kLayerMajorPrefillPromptWideP40Tokens cfg \<and>
         pl_panel_count plan = kLayerMajorPrefillPromptWideP40PanelCount \<and>
         pv_input_preparation_panel_count_per_layer s = pl_panel_count plan \<and>
         pv_prompt_core_phase_count_per_layer s = 1 \<and>
         pv_packed_mlp_phase_count_per_layer s = 1 \<and>
         pv_panel_token_count s = kLayerMajorPrefillPromptWideP40PanelTokens \<and>
         pv_projection_m_tokens s = kLayerMajorPrefillPromptWideP40Tokens cfg \<and>
         pv_request_capacity_tokens s = kLayerMajorPrefillPromptWideP40RequestCapacityTokens cfg \<and>
         pv_route_pass_count s = 1 \<and>
         pv_fp8_physical_launches_per_request s = kLayerMajorPrefillPackedNvfp4V2Fp8PhysicalLaunchesPerRequest \<and>
         pv_fp8_tensor_role_hits_per_request s = kLayerMajorPrefillPackedNvfp4V2Fp8TensorRoleHitsPerRequest \<and>
         pv_nvfp4_physical_launches_per_request s = kLayerMajorPrefillPackedNvfp4V2NvFp4PhysicalLaunchesPerRequest \<and>
         pv_authenticated_artifact_count s = kLayerMajorPrefillPackedNvfp4V2ArtifactCount \<and>
         pv_authenticated_source_count s = kLayerMajorPrefillPackedNvfp4V2AuthenticatedSourceCount \<and>
         pv_stream_k_slice_count s = 1 \<and> pv_packed_operands_retained_to_register_decode s \<and>
         pv_role_specific_tactics_required s \<and> pv_shape_specific_gate_up_required s \<and>
         pv_shape_specific_down_required s \<and> pv_request_time_repack_forbidden s \<and>
         pv_request_time_tactic_selection_forbidden s \<and>
         pv_internal_m_segmentation_forbidden s \<and> pv_production_accuracy_required s \<and>
         pv_approximate_numerics_forbidden s \<and> pv_mtp_forbidden s \<and> pv_cublaslt_forbidden s)"

definition valid_vllm_marlin_parity_schedule :: "build_config \<Rightarrow> prefill_plan \<Rightarrow> bool" where
  "valid_vllm_marlin_parity_schedule cfg plan \<longleftrightarrow>
     (let s = pl_vllm_marlin_parity_schedule plan in
      if ms_tactic (pl_mlp_schedule plan) \<noteq> PromptWideP40VllmMarlinParity
      then \<not> vm_enabled s \<and> vm_input_preparation_panel_count_per_layer s = 0 \<and>
         vm_prompt_core_phase_count_per_layer s = 0 \<and>
         vm_segmented_mlp_phase_count_per_layer s = 0 \<and> vm_panel_token_count s = 0 \<and>
         vm_projection_m_tokens s = 0 \<and> vm_request_capacity_tokens s = 0 \<and>
         vm_route_pass_count s = 0 \<and> vm_fp8_physical_launches_per_request s = 0 \<and>
         vm_fp8_tensor_role_hits_per_request s = 0 \<and> vm_gate_up_segments_per_layer s = 0 \<and>
         vm_down_segments_per_layer s = 0 \<and> vm_nvfp4_physical_launches_per_request s = 0 \<and>
         vm_gate_up_logical_role_hits_per_request s = 0 \<and>
         vm_down_logical_role_hits_per_request s = 0 \<and>
         vm_standalone_silu_launches_per_layer s = 0 \<and>
         vm_standalone_residual_launches_per_layer s = 0 \<and>
         vm_lock_clear_operations_per_request s = 0 \<and>
         vm_full_m1024_segments_per_projection s = 0 \<and>
         vm_tail_m64_segments_per_projection s = 0 \<and> vm_gate_up_tail_output_tiles s = 0 \<and>
         vm_gate_up_tail_split_output_tiles s = 0 \<and> vm_down_tail_output_tiles s = 0 \<and>
         vm_down_tail_split_output_tiles s = 0 \<and> vm_full_segment_m_tokens s = 0 \<and>
         vm_tail_segment_m_tokens s = 0 \<and> vm_gate_up_input_features s = 0 \<and>
         vm_merged_gate_up_output_features s = 0 \<and> vm_gate_output_features s = 0 \<and>
         vm_up_output_features s = 0 \<and> vm_down_input_features s = 0 \<and>
         vm_down_output_features s = 0 \<and> vm_authenticated_artifact_count s = 0 \<and>
         vm_authenticated_source_count s = 0 \<and>
         \<not> vm_independent_canonical_marlin_sidecars_required s \<and>
         \<not> vm_canonical_token_major_gate_then_up_rows_required s \<and>
         \<not> vm_independent_activated_buffer_required s \<and>
         \<not> vm_bf16_projection_publication_required s \<and>
         \<not> vm_internal_m_segmentation_required s \<and>
         \<not> vm_m64_tail_is_final_segment_required s \<and>
         \<not> vm_m1024_segments_full_k_required s \<and> \<not> vm_m64_tail_split_k_required s \<and>
         \<not> vm_m64_tail_locks_required s \<and>
         \<not> vm_m64_tail_zero_initialized_locks_required s \<and>
         \<not> vm_m64_tail_fp32_reduction_workspace_required s \<and>
         \<not> vm_m64_tail_in_kernel_global_reduction_required s \<and>
         \<not> vm_request_time_repack_forbidden s \<and>
         \<not> vm_request_time_tactic_selection_forbidden s \<and>
         \<not> vm_production_accuracy_required s \<and>
         \<not> vm_approximate_numerics_forbidden s \<and> \<not> vm_mtp_forbidden s \<and>
         \<not> vm_cublaslt_forbidden s
      else vm_enabled s \<and> pl_first_position plan = 0 \<and>
         pl_prompt_token_count plan = kLayerMajorPrefillPromptWideP40Tokens cfg \<and>
         pl_final_position plan = kLayerMajorPrefillPromptWideP40Tokens cfg \<and>
         pl_panel_count plan = kLayerMajorPrefillPromptWideP40PanelCount \<and>
         vm_input_preparation_panel_count_per_layer s = pl_panel_count plan \<and>
         vm_prompt_core_phase_count_per_layer s = 1 \<and>
         vm_segmented_mlp_phase_count_per_layer s = 1 \<and>
         vm_panel_token_count s = kLayerMajorPrefillPromptWideP40PanelTokens \<and>
         vm_projection_m_tokens s = kLayerMajorPrefillPromptWideP40Tokens cfg \<and>
         vm_request_capacity_tokens s = kLayerMajorPrefillPromptWideP40RequestCapacityTokens cfg \<and>
         vm_route_pass_count s = 1 \<and>
         vm_fp8_physical_launches_per_request s = kLayerMajorPrefillVllmMarlinParityFp8PhysicalLaunchesPerRequest \<and>
         vm_fp8_tensor_role_hits_per_request s = kLayerMajorPrefillVllmMarlinParityFp8TensorRoleHitsPerRequest \<and>
         vm_gate_up_segments_per_layer s = kLayerMajorPrefillVllmMarlinParityGateUpSegmentsPerLayer \<and>
         vm_down_segments_per_layer s = kLayerMajorPrefillVllmMarlinParityDownSegmentsPerLayer \<and>
         vm_nvfp4_physical_launches_per_request s = kLayerMajorPrefillVllmMarlinParityNvFp4PhysicalLaunchesPerRequest \<and>
         vm_gate_up_logical_role_hits_per_request s = kLayerMajorPrefillVllmMarlinParityGateUpLogicalRoleHitsPerRequest \<and>
         vm_down_logical_role_hits_per_request s = kLayerMajorPrefillVllmMarlinParityDownLogicalRoleHitsPerRequest \<and>
         vm_standalone_silu_launches_per_layer s = kLayerMajorPrefillVllmMarlinParityStandaloneSiluLaunchesPerLayer \<and>
         vm_standalone_residual_launches_per_layer s = kLayerMajorPrefillVllmMarlinParityStandaloneResidualLaunchesPerLayer \<and>
         vm_lock_clear_operations_per_request s = kLayerMajorPrefillVllmMarlinParityLockClearOperationsPerRequest \<and>
         vm_full_m1024_segments_per_projection s = kLayerMajorPrefillVllmMarlinParityFullSegmentsPerProjection \<and>
         vm_tail_m64_segments_per_projection s = kLayerMajorPrefillVllmMarlinParityTailSegmentsPerProjection \<and>
         vm_gate_up_tail_output_tiles s = kLayerMajorPrefillVllmMarlinParityGateUpTailOutputTiles \<and>
         vm_gate_up_tail_split_output_tiles s = kLayerMajorPrefillVllmMarlinParityGateUpTailSplitOutputTiles \<and>
         vm_down_tail_output_tiles s = kLayerMajorPrefillVllmMarlinParityDownTailOutputTiles \<and>
         vm_down_tail_split_output_tiles s = kLayerMajorPrefillVllmMarlinParityDownTailSplitOutputTiles \<and>
         vm_full_segment_m_tokens s = kLayerMajorPrefillVllmMarlinParityFullSegmentTokens \<and>
         vm_tail_segment_m_tokens s = kLayerMajorPrefillVllmMarlinParityTailSegmentTokens \<and>
         vm_gate_up_input_features s = kLayerMajorPrefillVllmMarlinParityHiddenFeatures \<and>
         vm_merged_gate_up_output_features s = kLayerMajorPrefillVllmMarlinParityMergedGateUpFeatures \<and>
         vm_gate_output_features s = kLayerMajorPrefillVllmMarlinParityIntermediateFeatures \<and>
         vm_up_output_features s = kLayerMajorPrefillVllmMarlinParityIntermediateFeatures \<and>
         vm_down_input_features s = kLayerMajorPrefillVllmMarlinParityIntermediateFeatures \<and>
         vm_down_output_features s = kLayerMajorPrefillVllmMarlinParityHiddenFeatures \<and>
         vm_authenticated_artifact_count s = kLayerMajorPrefillVllmMarlinParityArtifactCount \<and>
         vm_authenticated_source_count s = kLayerMajorPrefillVllmMarlinParityAuthenticatedSourceCount \<and>
         vm_independent_canonical_marlin_sidecars_required s \<and>
         vm_canonical_token_major_gate_then_up_rows_required s \<and>
         vm_independent_activated_buffer_required s \<and>
         vm_bf16_projection_publication_required s \<and> vm_internal_m_segmentation_required s \<and>
         vm_m64_tail_is_final_segment_required s \<and> vm_m1024_segments_full_k_required s \<and>
         vm_m64_tail_split_k_required s \<and> vm_m64_tail_locks_required s \<and>
         vm_m64_tail_zero_initialized_locks_required s \<and>
         vm_m64_tail_fp32_reduction_workspace_required s \<and>
         vm_m64_tail_in_kernel_global_reduction_required s \<and>
         vm_request_time_repack_forbidden s \<and> vm_request_time_tactic_selection_forbidden s \<and>
         vm_production_accuracy_required s \<and> vm_approximate_numerics_forbidden s \<and>
         vm_mtp_forbidden s \<and> vm_cublaslt_forbidden s)"

definition valid_mlp_schedule :: "build_config \<Rightarrow> prefill_plan \<Rightarrow> bool" where
  "valid_mlp_schedule cfg plan \<longleftrightarrow>
     (let s = pl_mlp_schedule plan; tactic = ms_tactic s; prompt = pl_prompt_token_count plan in
      if \<not> supported_mlp_schedule_tactic cfg tactic \<or>
         ms_operator_panel_phase_count_per_layer s \<noteq> pl_panel_count plan \<or>
         \<not> ms_post_attention_residual_completed_panelwise s then False
      else if tactic = PerOperatorPanel then
        ms_mlp_phase_submission_count_per_layer s = pl_panel_count plan \<and>
        ms_maximum_m_per_mlp_submission s = kLayerMajorPrefillOperatorPanelTokens \<and>
        ms_required_gate_up_projection_launches_per_layer s = 0 \<and>
        ms_maximum_standalone_silu_launches_per_layer s = 0 \<and>
        ms_required_down_projection_launches_per_layer s = 0 \<and>
        ms_minimum_total_kernel_launches_per_layer s = 0 \<and>
        ms_maximum_total_kernel_launches_per_layer s = 0 \<and>
        \<not> ms_waits_for_all_operator_panels s \<and>
        \<not> ms_post_attention_norm_is_prompt_wide s \<and>
        \<not> ms_exact_full_m_binding_required s \<and>
        \<not> ms_internal_m_segmentation_forbidden s
      else if tactic = PromptWideP40VllmMarlinParity then
        pl_first_position plan = 0 \<and>
        prompt = kLayerMajorPrefillLayerWideMlpP40Tokens cfg \<and>
        pl_final_position plan = kLayerMajorPrefillLayerWideMlpP40Tokens cfg \<and>
        prompt mod kLayerMajorPrefillLayerWideMlpAlignmentTokens = 0 \<and>
        ms_mlp_phase_submission_count_per_layer s = 1 \<and>
        ms_maximum_m_per_mlp_submission s = kLayerMajorPrefillLayerWideMlpP40Tokens cfg \<and>
        ms_required_gate_up_projection_launches_per_layer s =
          kLayerMajorPrefillVllmMarlinParityGateUpSegmentsPerLayer \<and>
        ms_maximum_standalone_silu_launches_per_layer s =
          kLayerMajorPrefillVllmMarlinParityStandaloneSiluLaunchesPerLayer \<and>
        ms_required_down_projection_launches_per_layer s =
          kLayerMajorPrefillVllmMarlinParityDownSegmentsPerLayer \<and>
        ms_minimum_total_kernel_launches_per_layer s =
          kLayerMajorPrefillVllmMarlinParityGateUpSegmentsPerLayer +
          kLayerMajorPrefillVllmMarlinParityDownSegmentsPerLayer +
          kLayerMajorPrefillVllmMarlinParityStandaloneSiluLaunchesPerLayer +
          kLayerMajorPrefillVllmMarlinParityStandaloneResidualLaunchesPerLayer \<and>
        ms_maximum_total_kernel_launches_per_layer s = ms_minimum_total_kernel_launches_per_layer s \<and>
        ms_waits_for_all_operator_panels s \<and>
        ms_post_attention_norm_is_prompt_wide s \<and>
        ms_exact_full_m_binding_required s \<and>
        \<not> ms_internal_m_segmentation_forbidden s
      else
       (let whole_core = (tactic = PromptWideP40WholeCore);
            fused_full_prompt = (whole_core \<or> tactic = PromptWideP40ProjectionReset \<or>
              tactic = PromptWideP40PackedProjection \<or> tactic = PromptWideP40PackedNvfp4V2) in
        (tactic = LayerWideP40ExactFullM \<or> fused_full_prompt) \<and>
        pl_first_position plan = 0 \<and>
        (if whole_core then whole_core_prompt_tokens_admitted cfg prompt
         else prompt = kLayerMajorPrefillLayerWideMlpP40Tokens cfg) \<and>
        pl_final_position plan = prompt \<and>
        (whole_core \<or> prompt mod kLayerMajorPrefillLayerWideMlpAlignmentTokens = 0) \<and>
        ms_mlp_phase_submission_count_per_layer s = 1 \<and>
        ms_maximum_m_per_mlp_submission s = kLayerMajorPrefillLayerWideMlpP40Tokens cfg \<and>
        ms_required_gate_up_projection_launches_per_layer s = 1 \<and>
        ms_maximum_standalone_silu_launches_per_layer s = (if fused_full_prompt then 0 else 1) \<and>
        ms_required_down_projection_launches_per_layer s =
          (if whole_core then whole_core_mlp_launch_count cfg prompt - 1 else 1) \<and>
        ms_minimum_total_kernel_launches_per_layer s =
          (if whole_core then whole_core_mlp_launch_count cfg prompt else 2) \<and>
        ms_maximum_total_kernel_launches_per_layer s =
          (if whole_core then whole_core_mlp_launch_count cfg prompt
           else if fused_full_prompt then 2 else 3) \<and>
        ms_waits_for_all_operator_panels s \<and>
        ms_post_attention_norm_is_prompt_wide s \<and>
        ms_exact_full_m_binding_required s \<and>
        ms_internal_m_segmentation_forbidden s = (\<not> (whole_core \<and> prompt mod 64 \<noteq> 0))))"

text \<open>
  The two loops of the topology validator: the panels up to \<^verbatim>\<open>panel_count\<close> from the next expected
  position (\<open>None\<close> is \<^verbatim>\<open>return false\<close>), and the layers with the counts of both kinds.
\<close>

fun check_panels ::
  "mlp_schedule_tactic \<Rightarrow> nat \<Rightarrow> nat \<Rightarrow> nat \<Rightarrow> operator_panel list \<Rightarrow> (nat \<times> nat) option" where
  "check_panels tactic panel_index next_position remaining [] = Some (next_position, remaining)"
| "check_panels tactic panel_index next_position remaining (panel # panels) =
     (if op_ordinal panel \<noteq> panel_index \<or> op_first_position panel \<noteq> next_position \<or>
         op_token_count panel \<noteq> next_panel_token_count tactic remaining \<or>
         op_end_position panel \<le> op_first_position panel \<or>
         op_end_position panel - op_first_position panel \<noteq> op_token_count panel
      then None
      else check_panels tactic (Suc panel_index) (op_end_position panel) (remaining - op_token_count panel) panels)"

fun check_layers :: "nat \<Rightarrow> nat \<Rightarrow> nat \<Rightarrow> nat \<Rightarrow> layer_execution list \<Rightarrow> (nat \<times> nat) option" where
  "check_layers panel_count layer_index linear_layers full_layers [] = Some (linear_layers, full_layers)"
| "check_layers panel_count layer_index linear_layers full_layers (layer # layers) =
     (let expected = layer_type_for_index layer_index in
      if le_layer_index layer \<noteq> layer_index \<or> le_layer_type layer \<noteq> expected \<or>
         le_progress_domain layer \<noteq> layer_domain expected \<or> le_panel_count layer \<noteq> panel_count
      then None
      else if expected = LtFullAttention
      then check_layers panel_count (Suc layer_index) linear_layers (Suc full_layers) layers
      else check_layers panel_count (Suc layer_index) (Suc linear_layers) full_layers layers)"

definition valid_plan_header :: "build_config \<Rightarrow> prefill_plan \<Rightarrow> bool" where
  "valid_plan_header cfg plan \<longleftrightarrow>
     \<not> (pl_traversal plan \<noteq> LayerMajor \<or>
        pl_legacy_public_tile_limit plan \<noteq> kLayerMajorPrefillLegacyPublicTileTokens \<or>
        pl_operator_panel_capacity plan \<noteq> kLayerMajorPrefillOperatorPanelTokens \<or>
        pl_prompt_token_count plan = 0 \<or> pl_panel_count plan = 0 \<or>
        length (pl_panels plan) < pl_panel_count plan \<or>
        kLayerMajorPrefillMaximumSequenceTokens < pl_prompt_token_count plan \<or>
        pl_final_position plan \<le> pl_first_position plan \<or>
        kLayerMajorPrefillMaximumSequenceTokens < pl_final_position plan \<or>
        pl_final_position plan - pl_first_position plan \<noteq> pl_prompt_token_count plan \<or>
        fc_expected_initial_sequence_length (pl_final_commit plan) \<noteq> pl_first_position plan \<or>
        fc_committed_sequence_length (pl_final_commit plan) \<noteq> pl_final_position plan \<or>
        fc_commit_count (pl_final_commit plan) \<noteq> 1 \<or>
        pl_operator_bindings_complete plan \<or> \<not> valid_mlp_schedule cfg plan \<or>
        \<not> valid_whole_core_schedule cfg plan \<or>
        \<not> valid_projection_reset_schedule cfg plan \<or>
        \<not> valid_packed_projection_schedule cfg plan \<or>
        \<not> valid_packed_nvfp4_v2_schedule cfg plan \<or>
        \<not> valid_vllm_marlin_parity_schedule cfg plan)"

definition valid_plan_topology :: "build_config \<Rightarrow> prefill_plan \<Rightarrow> bool" where
  "valid_plan_topology cfg plan \<longleftrightarrow>
     (let tactic = ms_tactic (pl_mlp_schedule plan) in
      valid_plan_header cfg plan \<and>
      pl_panel_count plan = expected_panel_count tactic (pl_prompt_token_count plan) \<and>
      check_panels tactic 0 (pl_first_position plan) (pl_prompt_token_count plan)
        (take (pl_panel_count plan) (pl_panels plan)) = Some (pl_final_position plan, 0) \<and>
      check_layers (pl_panel_count plan) 0 0 0 (pl_layers plan)
        = Some (kLayerMajorPrefillLinearLayerCount, kLayerMajorPrefillFullLayerCount))"

definition is_valid_unbound_layer_major_prefill_execution_plan ::
  "build_config \<Rightarrow> prefill_plan \<Rightarrow> bool" where
  "is_valid_unbound_layer_major_prefill_execution_plan cfg plan = valid_plan_topology cfg plan"

subsection \<open>Building a plan\<close>

fun build_panels ::
  "mlp_schedule_tactic \<Rightarrow> nat \<Rightarrow> nat \<Rightarrow> nat \<Rightarrow> nat \<Rightarrow> operator_panel list \<Rightarrow> operator_panel list \<times> nat \<times> nat" where
  "build_panels tactic 0 panel_index next_position remaining panels = (panels, next_position, remaining)"
| "build_panels tactic (Suc k) panel_index next_position remaining panels =
     (let token_count = next_panel_token_count tactic remaining;
          end_position = next_position + token_count in
      build_panels tactic k (Suc panel_index) end_position (remaining - token_count)
        (panels[panel_index := \<lparr>op_ordinal = panel_index, op_first_position = next_position,
           op_token_count = token_count, op_end_position = end_position\<rparr>]))"

definition build_layer :: "nat \<Rightarrow> nat \<Rightarrow> layer_execution" where
  "build_layer panel_count layer_index =
     \<lparr>le_layer_index = layer_index, le_layer_type = layer_type_for_index layer_index,
      le_progress_domain = layer_domain (layer_type_for_index layer_index), le_panel_count = panel_count\<rparr>"

definition build_layers :: "nat \<Rightarrow> layer_execution list" where
  "build_layers panel_count = map (build_layer panel_count) [0..<kLayerMajorPrefillLayerCount]"

definition build_mlp_schedule :: "build_config \<Rightarrow> mlp_schedule_tactic \<Rightarrow> nat \<Rightarrow> nat \<Rightarrow> mlp_schedule" where
  "build_mlp_schedule cfg tactic panel_count prompt =
     (let base = default_mlp_schedule\<lparr>ms_tactic := tactic,
            ms_operator_panel_phase_count_per_layer := panel_count\<rparr> in
      if tactic = PerOperatorPanel then
        base\<lparr>ms_mlp_phase_submission_count_per_layer := panel_count,
             ms_maximum_m_per_mlp_submission := kLayerMajorPrefillOperatorPanelTokens\<rparr>
      else
       (let parity = (tactic = PromptWideP40VllmMarlinParity);
            whole_core = (tactic = PromptWideP40WholeCore);
            minimum_total =
              (if parity then kLayerMajorPrefillVllmMarlinParityGateUpSegmentsPerLayer +
                 kLayerMajorPrefillVllmMarlinParityDownSegmentsPerLayer +
                 kLayerMajorPrefillVllmMarlinParityStandaloneSiluLaunchesPerLayer +
                 kLayerMajorPrefillVllmMarlinParityStandaloneResidualLaunchesPerLayer
               else 2);
            s = base\<lparr>ms_mlp_phase_submission_count_per_layer := 1,
              ms_maximum_m_per_mlp_submission := kLayerMajorPrefillLayerWideMlpP40Tokens cfg,
              ms_required_gate_up_projection_launches_per_layer :=
                (if parity then kLayerMajorPrefillVllmMarlinParityGateUpSegmentsPerLayer else 1),
              ms_maximum_standalone_silu_launches_per_layer :=
                (if parity then kLayerMajorPrefillVllmMarlinParityStandaloneSiluLaunchesPerLayer
                 else if fixed_p40_geometry tactic then 0 else 1),
              ms_required_down_projection_launches_per_layer :=
                (if parity then kLayerMajorPrefillVllmMarlinParityDownSegmentsPerLayer else 1),
              ms_minimum_total_kernel_launches_per_layer := minimum_total,
              ms_maximum_total_kernel_launches_per_layer :=
                (if parity then minimum_total else if fixed_p40_geometry tactic then 2 else 3),
              ms_waits_for_all_operator_panels := True,
              ms_post_attention_norm_is_prompt_wide := True,
              ms_exact_full_m_binding_required := True,
              ms_internal_m_segmentation_forbidden :=
                (\<not> parity \<and> \<not> (whole_core \<and> prompt mod 64 \<noteq> 0))\<rparr> in
        if whole_core then
          (let launches = whole_core_mlp_launch_count cfg prompt in
           s\<lparr>ms_required_down_projection_launches_per_layer := launches - 1,
             ms_minimum_total_kernel_launches_per_layer := launches,
             ms_maximum_total_kernel_launches_per_layer := launches\<rparr>)
        else s))"

definition build_whole_core_schedule :: "build_config \<Rightarrow> nat \<Rightarrow> nat \<Rightarrow> whole_core_schedule" where
  "build_whole_core_schedule cfg panel_count prompt = default_whole_core_schedule\<lparr>
     wc_enabled := True, wc_fill_panel_phase_count_per_layer := panel_count,
     wc_prompt_core_phase_count_per_layer := 1, wc_drain_panel_phase_count_per_layer := panel_count,
     wc_persistent_mlp_phase_count_per_layer := 1,
     wc_panel_token_count := kLayerMajorPrefillPromptWideP40PanelTokens,
     wc_prompt_core_token_count := prompt,
     wc_request_capacity_tokens := kLayerMajorPrefillPromptWideP40RequestCapacityTokens cfg,
     wc_route_pass_count := 1, wc_fp8_single_launch_per_projection_required := True,
     wc_bf16_ab_prompt_wide_required := True, wc_gdn_prompt_wide_required := True,
     wc_flashinfer_whole_prompt_required := True\<rparr>"

definition build_projection_reset_schedule :: "build_config \<Rightarrow> nat \<Rightarrow> nat \<Rightarrow> projection_reset_schedule" where
  "build_projection_reset_schedule cfg panel_count prompt = default_projection_reset_schedule\<lparr>
     pr_enabled := True, pr_input_preparation_panel_count_per_layer := panel_count,
     pr_prompt_core_phase_count_per_layer := 1, pr_persistent_mlp_phase_count_per_layer := 1,
     pr_panel_token_count := kLayerMajorPrefillPromptWideP40PanelTokens,
     pr_projection_m_tokens := kLayerMajorPrefillPromptWideP40Tokens cfg,
     pr_request_capacity_tokens := kLayerMajorPrefillPromptWideP40RequestCapacityTokens cfg,
     pr_route_pass_count := 1,
     pr_fp8_grouped_input_launches_per_layer := kLayerMajorPrefillProjectionResetFp8GroupedInputLaunchesPerLayer,
     pr_fp8_output_launches_per_layer := kLayerMajorPrefillProjectionResetFp8OutputLaunchesPerLayer,
     pr_fp8_physical_launches_per_request := kLayerMajorPrefillProjectionResetFp8PhysicalLaunchesPerRequest,
     pr_fp8_tensor_role_hits_per_request := kLayerMajorPrefillProjectionResetFp8TensorRoleHitsPerRequest,
     pr_nvfp4_gate_up_launches_per_layer := kLayerMajorPrefillProjectionResetNvFp4GateUpLaunchesPerLayer,
     pr_nvfp4_down_launches_per_layer := kLayerMajorPrefillProjectionResetNvFp4DownLaunchesPerLayer,
     pr_nvfp4_physical_launches_per_request := kLayerMajorPrefillProjectionResetNvFp4PhysicalLaunchesPerRequest,
     pr_fp8_grouped_full_prompt_input_required := True, pr_fp8_full_prompt_output_required := True,
     pr_nvfp4_full_prompt_required := True, pr_internal_m_segmentation_forbidden := True,
     pr_production_accuracy_required := True, pr_approximate_numerics_forbidden := True,
     pr_mtp_forbidden := True, pr_cublaslt_forbidden := True\<rparr>"

definition build_packed_projection_schedule :: "build_config \<Rightarrow> nat \<Rightarrow> nat \<Rightarrow> packed_projection_schedule" where
  "build_packed_projection_schedule cfg panel_count prompt = default_packed_projection_schedule\<lparr>
     pp_enabled := True, pp_input_preparation_panel_count_per_layer := panel_count,
     pp_prompt_core_phase_count_per_layer := 1, pp_packed_mlp_phase_count_per_layer := 1,
     pp_panel_token_count := kLayerMajorPrefillPromptWideP40PanelTokens,
     pp_projection_m_tokens := kLayerMajorPrefillPromptWideP40Tokens cfg,
     pp_request_capacity_tokens := kLayerMajorPrefillPromptWideP40RequestCapacityTokens cfg,
     pp_route_pass_count := 1,
     pp_fp8_physical_launches_per_request := kLayerMajorPrefillPackedProjectionFp8PhysicalLaunchesPerRequest,
     pp_fp8_tensor_role_hits_per_request := kLayerMajorPrefillPackedProjectionFp8TensorRoleHitsPerRequest,
     pp_nvfp4_physical_launches_per_request := kLayerMajorPrefillPackedProjectionNvFp4PhysicalLaunchesPerRequest,
     pp_authenticated_artifact_count := kLayerMajorPrefillPackedProjectionArtifactCount,
     pp_authenticated_source_count := kLayerMajorPrefillPackedProjectionAuthenticatedSourceCount,
     pp_stream_k_slice_count := 1, pp_packed_operands_retained_to_register_decode := True,
     pp_role_specific_tactics_required := True, pp_request_time_repack_forbidden := True,
     pp_request_time_tactic_selection_forbidden := True, pp_internal_m_segmentation_forbidden := True,
     pp_production_accuracy_required := True, pp_approximate_numerics_forbidden := True,
     pp_mtp_forbidden := True, pp_cublaslt_forbidden := True\<rparr>"

definition build_packed_nvfp4_v2_schedule :: "build_config \<Rightarrow> nat \<Rightarrow> nat \<Rightarrow> packed_nvfp4_v2_schedule" where
  "build_packed_nvfp4_v2_schedule cfg panel_count prompt = default_packed_nvfp4_v2_schedule\<lparr>
     pv_enabled := True, pv_input_preparation_panel_count_per_layer := panel_count,
     pv_prompt_core_phase_count_per_layer := 1, pv_packed_mlp_phase_count_per_layer := 1,
     pv_panel_token_count := kLayerMajorPrefillPromptWideP40PanelTokens,
     pv_projection_m_tokens := kLayerMajorPrefillPromptWideP40Tokens cfg,
     pv_request_capacity_tokens := kLayerMajorPrefillPromptWideP40RequestCapacityTokens cfg,
     pv_route_pass_count := 1,
     pv_fp8_physical_launches_per_request := kLayerMajorPrefillPackedNvfp4V2Fp8PhysicalLaunchesPerRequest,
     pv_fp8_tensor_role_hits_per_request := kLayerMajorPrefillPackedNvfp4V2Fp8TensorRoleHitsPerRequest,
     pv_nvfp4_physical_launches_per_request := kLayerMajorPrefillPackedNvfp4V2NvFp4PhysicalLaunchesPerRequest,
     pv_authenticated_artifact_count := kLayerMajorPrefillPackedNvfp4V2ArtifactCount,
     pv_authenticated_source_count := kLayerMajorPrefillPackedNvfp4V2AuthenticatedSourceCount,
     pv_stream_k_slice_count := 1, pv_packed_operands_retained_to_register_decode := True,
     pv_role_specific_tactics_required := True, pv_shape_specific_gate_up_required := True,
     pv_shape_specific_down_required := True, pv_request_time_repack_forbidden := True,
     pv_request_time_tactic_selection_forbidden := True, pv_internal_m_segmentation_forbidden := True,
     pv_production_accuracy_required := True, pv_approximate_numerics_forbidden := True,
     pv_mtp_forbidden := True, pv_cublaslt_forbidden := True\<rparr>"

definition build_vllm_marlin_parity_schedule :: "build_config \<Rightarrow> nat \<Rightarrow> nat \<Rightarrow> vllm_marlin_parity_schedule" where
  "build_vllm_marlin_parity_schedule cfg panel_count prompt = default_vllm_marlin_parity_schedule\<lparr>
     vm_enabled := True, vm_input_preparation_panel_count_per_layer := panel_count,
     vm_prompt_core_phase_count_per_layer := 1, vm_segmented_mlp_phase_count_per_layer := 1,
     vm_panel_token_count := kLayerMajorPrefillPromptWideP40PanelTokens,
     vm_projection_m_tokens := kLayerMajorPrefillPromptWideP40Tokens cfg,
     vm_request_capacity_tokens := kLayerMajorPrefillPromptWideP40RequestCapacityTokens cfg,
     vm_route_pass_count := 1,
     vm_fp8_physical_launches_per_request := kLayerMajorPrefillVllmMarlinParityFp8PhysicalLaunchesPerRequest,
     vm_fp8_tensor_role_hits_per_request := kLayerMajorPrefillVllmMarlinParityFp8TensorRoleHitsPerRequest,
     vm_gate_up_segments_per_layer := kLayerMajorPrefillVllmMarlinParityGateUpSegmentsPerLayer,
     vm_down_segments_per_layer := kLayerMajorPrefillVllmMarlinParityDownSegmentsPerLayer,
     vm_nvfp4_physical_launches_per_request := kLayerMajorPrefillVllmMarlinParityNvFp4PhysicalLaunchesPerRequest,
     vm_gate_up_logical_role_hits_per_request := kLayerMajorPrefillVllmMarlinParityGateUpLogicalRoleHitsPerRequest,
     vm_down_logical_role_hits_per_request := kLayerMajorPrefillVllmMarlinParityDownLogicalRoleHitsPerRequest,
     vm_standalone_silu_launches_per_layer := kLayerMajorPrefillVllmMarlinParityStandaloneSiluLaunchesPerLayer,
     vm_standalone_residual_launches_per_layer := kLayerMajorPrefillVllmMarlinParityStandaloneResidualLaunchesPerLayer,
     vm_lock_clear_operations_per_request := kLayerMajorPrefillVllmMarlinParityLockClearOperationsPerRequest,
     vm_full_m1024_segments_per_projection := kLayerMajorPrefillVllmMarlinParityFullSegmentsPerProjection,
     vm_tail_m64_segments_per_projection := kLayerMajorPrefillVllmMarlinParityTailSegmentsPerProjection,
     vm_gate_up_tail_output_tiles := kLayerMajorPrefillVllmMarlinParityGateUpTailOutputTiles,
     vm_gate_up_tail_split_output_tiles := kLayerMajorPrefillVllmMarlinParityGateUpTailSplitOutputTiles,
     vm_down_tail_output_tiles := kLayerMajorPrefillVllmMarlinParityDownTailOutputTiles,
     vm_down_tail_split_output_tiles := kLayerMajorPrefillVllmMarlinParityDownTailSplitOutputTiles,
     vm_full_segment_m_tokens := kLayerMajorPrefillVllmMarlinParityFullSegmentTokens,
     vm_tail_segment_m_tokens := kLayerMajorPrefillVllmMarlinParityTailSegmentTokens,
     vm_gate_up_input_features := kLayerMajorPrefillVllmMarlinParityHiddenFeatures,
     vm_merged_gate_up_output_features := kLayerMajorPrefillVllmMarlinParityMergedGateUpFeatures,
     vm_gate_output_features := kLayerMajorPrefillVllmMarlinParityIntermediateFeatures,
     vm_up_output_features := kLayerMajorPrefillVllmMarlinParityIntermediateFeatures,
     vm_down_input_features := kLayerMajorPrefillVllmMarlinParityIntermediateFeatures,
     vm_down_output_features := kLayerMajorPrefillVllmMarlinParityHiddenFeatures,
     vm_authenticated_artifact_count := kLayerMajorPrefillVllmMarlinParityArtifactCount,
     vm_authenticated_source_count := kLayerMajorPrefillVllmMarlinParityAuthenticatedSourceCount,
     vm_independent_canonical_marlin_sidecars_required := True,
     vm_canonical_token_major_gate_then_up_rows_required := True,
     vm_independent_activated_buffer_required := True, vm_bf16_projection_publication_required := True,
     vm_internal_m_segmentation_required := True, vm_m64_tail_is_final_segment_required := True,
     vm_m1024_segments_full_k_required := True, vm_m64_tail_split_k_required := True,
     vm_m64_tail_locks_required := True, vm_m64_tail_zero_initialized_locks_required := True,
     vm_m64_tail_fp32_reduction_workspace_required := True,
     vm_m64_tail_in_kernel_global_reduction_required := True, vm_request_time_repack_forbidden := True,
     vm_request_time_tactic_selection_forbidden := True, vm_production_accuracy_required := True,
     vm_approximate_numerics_forbidden := True, vm_mtp_forbidden := True, vm_cublaslt_forbidden := True\<rparr>"

definition default_operator_panel :: operator_panel where
  "default_operator_panel = \<lparr>op_ordinal = 0, op_first_position = 0, op_token_count = 0, op_end_position = 0\<rparr>"

text \<open>The plan assembled from the options that passed the checks, with what the panel loop left over.\<close>

definition assemble_plan :: "build_config \<Rightarrow> plan_options \<Rightarrow> nat \<Rightarrow> nat \<Rightarrow> prefill_plan \<times> nat \<times> nat" where
  "assemble_plan cfg options final_position panel_count =
     (let tactic = po_mlp_schedule_tactic options; prompt = po_prompt_token_count options;
          (panels, next_position, remaining) = build_panels tactic panel_count 0 (po_first_position options) prompt
             (replicate kLayerMajorPrefillMaximumPanelCount default_operator_panel) in
      (\<lparr>pl_traversal = LayerMajor,
        pl_legacy_public_tile_limit = kLayerMajorPrefillLegacyPublicTileTokens,
        pl_operator_panel_capacity = kLayerMajorPrefillOperatorPanelTokens,
        pl_first_position = po_first_position options,
        pl_prompt_token_count = prompt,
        pl_final_position = final_position,
        pl_panels = panels,
        pl_panel_count = panel_count,
        pl_layers = build_layers panel_count,
        pl_mlp_schedule = build_mlp_schedule cfg tactic panel_count prompt,
        pl_whole_core_schedule =
          (if tactic = PromptWideP40WholeCore then build_whole_core_schedule cfg panel_count prompt
           else default_whole_core_schedule),
        pl_projection_reset_schedule =
          (if tactic = PromptWideP40ProjectionReset then build_projection_reset_schedule cfg panel_count prompt
           else default_projection_reset_schedule),
        pl_packed_projection_schedule =
          (if tactic = PromptWideP40PackedProjection then build_packed_projection_schedule cfg panel_count prompt
           else default_packed_projection_schedule),
        pl_packed_nvfp4_v2_schedule =
          (if tactic = PromptWideP40PackedNvfp4V2 then build_packed_nvfp4_v2_schedule cfg panel_count prompt
           else default_packed_nvfp4_v2_schedule),
        pl_vllm_marlin_parity_schedule =
          (if tactic = PromptWideP40VllmMarlinParity then build_vllm_marlin_parity_schedule cfg panel_count prompt
           else default_vllm_marlin_parity_schedule),
        pl_final_commit = \<lparr>fc_expected_initial_sequence_length = po_first_position options,
          fc_committed_sequence_length = final_position, fc_commit_count = 1\<rparr>,
        pl_operator_bindings_complete = False\<rparr>, next_position, remaining))"

definition build_unbound_layer_major_prefill_execution_plan ::
  "build_config \<Rightarrow> plan_options \<Rightarrow> plan_error + prefill_plan" where
  "build_unbound_layer_major_prefill_execution_plan cfg options =
     (let tactic = po_mlp_schedule_tactic options; prompt = po_prompt_token_count options;
          whole_core = (tactic = PromptWideP40WholeCore) in
      if prompt = 0 \<or> po_max_sequence_length options = 0 \<or>
         kLayerMajorPrefillMaximumSequenceTokens < po_max_sequence_length options \<or>
         \<not> is_valid_layer_major_prefill_mlp_schedule_tactic tactic \<or>
         \<not> supported_mlp_schedule_tactic cfg tactic
      then Inl PeInvalidArgument
      else if tactic \<noteq> PerOperatorPanel \<and>
        (po_first_position options \<noteq> 0 \<or>
         (if whole_core then \<not> whole_core_prompt_tokens_admitted cfg prompt
          else prompt \<noteq> kLayerMajorPrefillLayerWideMlpP40Tokens cfg) \<or>
         (\<not> whole_core \<and> prompt mod kLayerMajorPrefillLayerWideMlpAlignmentTokens \<noteq> 0))
      then Inl PeInvalidArgument
      else if fixed_p40_geometry tactic \<and>
        po_max_sequence_length options \<noteq> kLayerMajorPrefillPromptWideP40RequestCapacityTokens cfg
      then Inl PeInvalidArgument
      else case checked_add (po_first_position options) prompt of
        None \<Rightarrow> Inl PeArithmeticOverflow
      | Some final_position \<Rightarrow>
          if po_max_sequence_length options < final_position \<or>
             kLayerMajorPrefillMaximumSequenceTokens < final_position
          then Inl PeCapacityExceeded
          else
           (let panel_count = expected_panel_count tactic prompt in
            if panel_count = 0 \<or> kLayerMajorPrefillMaximumPanelCount < panel_count
            then Inl PeInvalidTopology
            else
             (let (plan, next_position, remaining) = assemble_plan cfg options final_position panel_count in
              if remaining \<noteq> 0 \<or> next_position \<noteq> final_position \<or> \<not> valid_plan_topology cfg plan
              then Inl PeInvalidTopology
              else Inr plan)))"

end
