(* ===== verification/Prefill_Build.thy ===== *)
theory Prefill_Build
  imports Prefill_Plan
begin

text \<open>
  Correctness of the prefill plan builder and of its validator. The validator pins every field of a plan:
  it accepts exactly the plans the builder makes, up to the unused slots of the panel array.
\<close>

subsection \<open>Panels\<close>

definition panel_capacity :: "mlp_schedule_tactic \<Rightarrow> nat" where
  "panel_capacity tactic = (if fixed_p40_geometry tactic then 8000 else 8192)"

interpretation panel: subdivision "panel_capacity t" "next_panel_token_count t" for t
proof (cases "fixed_p40_geometry t")
  case True
  then have "panel_capacity t = 8000" "next_panel_token_count t = p40_panel_token_count"
    by (auto simp: panel_capacity_def next_panel_token_count_def)
  then show "subdivision (panel_capacity t) (next_panel_token_count t)"
    using p40_panel.subdivision_axioms by simp
next
  case False
  then have "panel_capacity t = 8192"
    "next_panel_token_count t = next_layer_major_prefill_operator_panel_token_count"
    by (auto simp: panel_capacity_def next_panel_token_count_def)
  then show "subdivision (panel_capacity t) (next_panel_token_count t)"
    using operator_panel.subdivision_axioms by simp
qed

lemma expected_panel_count_needed: "expected_panel_count t n = pieces_needed (panel_capacity t) n"
  by (simp add: expected_panel_count_def pieces_needed_def panel_capacity_def prefill_consts add.commute)

text \<open>The panels of the given sizes, laid end to end from a position.\<close>

primrec panels_of :: "nat \<Rightarrow> nat \<Rightarrow> nat list \<Rightarrow> operator_panel list" where
  "panels_of i pos [] = []"
| "panels_of i pos (n # ns) = \<lparr>op_ordinal = i, op_first_position = pos, op_token_count = n,
      op_end_position = pos + n\<rparr> # panels_of (Suc i) (pos + n) ns"

lemma length_panels_of [simp]: "length (panels_of i pos ns) = length ns"
  by (induction ns arbitrary: i pos) auto

lemma panels_of_nth:
  "j < length ns \<Longrightarrow> panels_of i pos ns ! j =
     \<lparr>op_ordinal = i + j, op_first_position = pos + sum_list (take j ns), op_token_count = ns ! j,
      op_end_position = pos + sum_list (take (Suc j) ns)\<rparr>"
  by (induction ns arbitrary: i pos j) (auto simp: nth_Cons' gr0_conv_Suc)

abbreviation prompt_panels :: "mlp_schedule_tactic \<Rightarrow> nat \<Rightarrow> nat \<Rightarrow> operator_panel list" where
  "prompt_panels t first n \<equiv>
     panels_of 0 first (pieces (next_panel_token_count t) (expected_panel_count t n) n)"

lemma pieces_sum_le: "sum_list (pieces (next_panel_token_count t) k r) \<le> r"
proof (induction k arbitrary: r)
  case (Suc k)
  have "next_panel_token_count t r \<le> r" by (rule panel.nxt_le)
  then show ?case using Suc [of "r - next_panel_token_count t r"] by simp
qed simp

lemma build_panels_result:
  assumes "i + k \<le> length ps"
  shows "build_panels t k i pos r ps =
     (let ns = pieces (next_panel_token_count t) k r in
      (take i ps @ panels_of i pos ns @ drop (i + k) ps, pos + sum_list ns, r - sum_list ns))"
  using assms
proof (induction k arbitrary: i pos r ps)
  case (Suc k)
  let ?n = "next_panel_token_count t r"
  let ?p = "\<lparr>op_ordinal = i, op_first_position = pos, op_token_count = ?n, op_end_position = pos + ?n\<rparr>"
  have "build_panels t (Suc k) i pos r ps = build_panels t k (Suc i) (pos + ?n) (r - ?n) (ps[i := ?p])"
    by (simp add: Let_def)
  also have "\<dots> = (let ns = pieces (next_panel_token_count t) k (r - ?n) in
      (take (Suc i) (ps[i := ?p]) @ panels_of (Suc i) (pos + ?n) ns @ drop (Suc i + k) (ps[i := ?p]),
       pos + ?n + sum_list ns, r - ?n - sum_list ns))"
    using Suc.prems by (intro Suc.IH) simp
  finally show ?case using Suc.prems by (simp add: Let_def take_Suc_conv_app_nth)
qed simp

lemma check_panels_iff:
  "check_panels t i pos r ps = Some res \<longleftrightarrow>
     (let ns = pieces (next_panel_token_count t) (length ps) r in
      ps = panels_of i pos ns \<and> (\<forall>n \<in> set ns. 0 < n) \<and> res = (pos + sum_list ns, r - sum_list ns))"
proof (induction ps arbitrary: i pos r)
  case (Cons p ps)
  let ?n = "next_panel_token_count t r"
  let ?ns = "pieces (next_panel_token_count t) (length ps) (r - ?n)"
  have "check_panels t i pos r (p # ps) = Some res \<longleftrightarrow>
     p = \<lparr>op_ordinal = i, op_first_position = pos, op_token_count = ?n, op_end_position = pos + ?n\<rparr> \<and>
     0 < ?n \<and> check_panels t (Suc i) (pos + ?n) (r - ?n) ps = Some res"
    by (cases p; cases "op_end_position p = pos + ?n") auto
  then show ?case unfolding Cons.IH by (auto simp: Let_def)
qed (auto simp: Let_def)

lemma check_prompt_panels:
  assumes "length ps = expected_panel_count t n"
  shows "check_panels t 0 first n ps = Some (final, 0) \<longleftrightarrow> ps = prompt_panels t first n \<and> final = first + n"
proof -
  let ?ns = "pieces (next_panel_token_count t) (expected_panel_count t n) n"
  have "sum_list ?ns = n" "\<forall>k \<in> set ?ns. 0 < k"
    using panel.pieces_sum [of "expected_panel_count t n" t n]
      panel.pieces_bounds [of "expected_panel_count t n" t n] by (auto simp: expected_panel_count_needed)
  then show ?thesis unfolding check_panels_iff assms by (auto simp: Let_def)
qed

subsection \<open>Layers\<close>

lemma check_layers_iff:
  "check_layers pc i lin full ls = Some res \<longleftrightarrow>
     ls = map (build_layer pc) [i..<i + length ls] \<and>
     res = (lin + length (filter (\<lambda>j. layer_type_for_index j \<noteq> LtFullAttention) [i..<i + length ls]),
            full + length (filter (\<lambda>j. layer_type_for_index j = LtFullAttention) [i..<i + length ls]))"
proof (induction ls arbitrary: i lin full)
  case (Cons l ls)
  have up: "[i..<i + length (l # ls)] = i # [Suc i..<Suc i + length ls]" by (simp add: upt_rec)
  have "check_layers pc i lin full (l # ls) = Some res \<longleftrightarrow> l = build_layer pc i \<and>
     check_layers pc (Suc i) (if layer_type_for_index i = LtFullAttention then lin else Suc lin)
       (if layer_type_for_index i = LtFullAttention then Suc full else full) ls = Some res"
    by (cases l) (auto simp: build_layer_def Let_def)
  then show ?case unfolding Cons.IH up by auto
qed auto

lemma layer_kinds:
  "length (filter (\<lambda>j. layer_type_for_index j \<noteq> LtFullAttention) [0..<64]) = 48"
  "length (filter (\<lambda>j. layer_type_for_index j = LtFullAttention) [0..<64]) = 16"
  by (simp_all add: layer_type_for_index_def upt_conv_Cons)

lemma check_layers_built:
  "check_layers pc 0 0 0 ls = Some (kLayerMajorPrefillLinearLayerCount, kLayerMajorPrefillFullLayerCount)
     \<longleftrightarrow> ls = build_layers pc"
proof
  assume a: "check_layers pc 0 0 0 ls = Some (kLayerMajorPrefillLinearLayerCount, kLayerMajorPrefillFullLayerCount)"
  let ?P = "\<lambda>j. layer_type_for_index j = LtFullAttention"
  have "length ls = length (filter ?P [0..<length ls]) + length (filter (\<lambda>j. \<not> ?P j) [0..<length ls])"
    using sum_length_filter_compl [of ?P "[0..<length ls]"] by simp
  then have "length ls = 64" using a unfolding check_layers_iff by (simp add: prefill_consts)
  then show "ls = build_layers pc"
    using a unfolding check_layers_iff build_layers_def by (simp add: prefill_consts)
next
  assume "ls = build_layers pc"
  then show "check_layers pc 0 0 0 ls = Some (kLayerMajorPrefillLinearLayerCount, kLayerMajorPrefillFullLayerCount)"
    unfolding check_layers_iff by (simp add: build_layers_def prefill_consts layer_kinds)
qed

subsection \<open>Schedules\<close>

text \<open>Each schedule validator pins its record to what the builder writes, or to the default.\<close>

lemma valid_whole_core_schedule_iff:
  "valid_whole_core_schedule cfg plan \<longleftrightarrow>
     (if ms_tactic (pl_mlp_schedule plan) = PromptWideP40WholeCore
      then pl_whole_core_schedule plan =
             build_whole_core_schedule cfg (pl_panel_count plan) (pl_prompt_token_count plan) \<and>
           pl_first_position plan = 0 \<and> whole_core_prompt_tokens_admitted cfg (pl_prompt_token_count plan) \<and>
           pl_final_position plan = pl_prompt_token_count plan \<and>
           pl_panel_count plan = (pl_prompt_token_count plan + 7999) div 8000
      else pl_whole_core_schedule plan = default_whole_core_schedule)"
  by (cases "pl_whole_core_schedule plan")
     (auto simp: valid_whole_core_schedule_def build_whole_core_schedule_def default_whole_core_schedule_def)

definition exact_p40_request :: "build_config \<Rightarrow> prefill_plan \<Rightarrow> bool" where
  "exact_p40_request cfg plan \<longleftrightarrow>
     pl_first_position plan = 0 \<and> pl_prompt_token_count plan = kLayerMajorPrefillPromptWideP40Tokens cfg \<and>
     pl_final_position plan = kLayerMajorPrefillPromptWideP40Tokens cfg \<and>
     pl_panel_count plan = kLayerMajorPrefillPromptWideP40PanelCount"

lemma valid_projection_reset_schedule_iff:
  "valid_projection_reset_schedule cfg plan \<longleftrightarrow>
     (if ms_tactic (pl_mlp_schedule plan) = PromptWideP40ProjectionReset
      then pl_projection_reset_schedule plan =
             build_projection_reset_schedule cfg (pl_panel_count plan) (pl_prompt_token_count plan) \<and>
           exact_p40_request cfg plan
      else pl_projection_reset_schedule plan = default_projection_reset_schedule)"
  by (cases "pl_projection_reset_schedule plan")
     (auto simp: valid_projection_reset_schedule_def build_projection_reset_schedule_def
        default_projection_reset_schedule_def exact_p40_request_def)

lemma valid_packed_projection_schedule_iff:
  "valid_packed_projection_schedule cfg plan \<longleftrightarrow>
     (if ms_tactic (pl_mlp_schedule plan) = PromptWideP40PackedProjection
      then pl_packed_projection_schedule plan =
             build_packed_projection_schedule cfg (pl_panel_count plan) (pl_prompt_token_count plan) \<and>
           exact_p40_request cfg plan
      else pl_packed_projection_schedule plan = default_packed_projection_schedule)"
  by (cases "pl_packed_projection_schedule plan")
     (auto simp: valid_packed_projection_schedule_def build_packed_projection_schedule_def
        default_packed_projection_schedule_def exact_p40_request_def)

lemma valid_packed_nvfp4_v2_schedule_iff:
  "valid_packed_nvfp4_v2_schedule cfg plan \<longleftrightarrow>
     (if ms_tactic (pl_mlp_schedule plan) = PromptWideP40PackedNvfp4V2
      then pl_packed_nvfp4_v2_schedule plan =
             build_packed_nvfp4_v2_schedule cfg (pl_panel_count plan) (pl_prompt_token_count plan) \<and>
           exact_p40_request cfg plan
      else pl_packed_nvfp4_v2_schedule plan = default_packed_nvfp4_v2_schedule)"
  by (cases "pl_packed_nvfp4_v2_schedule plan")
     (auto simp: valid_packed_nvfp4_v2_schedule_def build_packed_nvfp4_v2_schedule_def
        default_packed_nvfp4_v2_schedule_def exact_p40_request_def)

lemma valid_vllm_marlin_parity_schedule_iff:
  "valid_vllm_marlin_parity_schedule cfg plan \<longleftrightarrow>
     (if ms_tactic (pl_mlp_schedule plan) = PromptWideP40VllmMarlinParity
      then pl_vllm_marlin_parity_schedule plan =
             build_vllm_marlin_parity_schedule cfg (pl_panel_count plan) (pl_prompt_token_count plan) \<and>
           exact_p40_request cfg plan
      else pl_vllm_marlin_parity_schedule plan = default_vllm_marlin_parity_schedule)"
  by (cases "pl_vllm_marlin_parity_schedule plan")
     (auto simp: valid_vllm_marlin_parity_schedule_def build_vllm_marlin_parity_schedule_def
        default_vllm_marlin_parity_schedule_def exact_p40_request_def)

lemmas schedule_iffs = valid_whole_core_schedule_iff valid_projection_reset_schedule_iff
  valid_packed_projection_schedule_iff valid_packed_nvfp4_v2_schedule_iff
  valid_vllm_marlin_parity_schedule_iff

text \<open>What a tactic other than the per-panel one demands of the request.\<close>

definition tactic_request :: "build_config \<Rightarrow> mlp_schedule_tactic \<Rightarrow> nat \<Rightarrow> nat \<Rightarrow> bool" where
  "tactic_request cfg t first n \<longleftrightarrow>
     (t \<noteq> PerOperatorPanel \<longrightarrow> first = 0 \<and>
        (if t = PromptWideP40WholeCore then whole_core_prompt_tokens_admitted cfg n
         else n = kLayerMajorPrefillLayerWideMlpP40Tokens cfg))"

lemma storage_aligned:
  "kLayerMajorPrefillLayerWideMlpP40Tokens cfg mod kLayerMajorPrefillLayerWideMlpAlignmentTokens = 0"
  by (simp add: prefill_consts)

lemma valid_mlp_schedule_iff:
  assumes "pl_final_position plan = pl_first_position plan + pl_prompt_token_count plan"
  shows "valid_mlp_schedule cfg plan \<longleftrightarrow>
     (let t = ms_tactic (pl_mlp_schedule plan) in
      supported_mlp_schedule_tactic cfg t \<and>
      tactic_request cfg t (pl_first_position plan) (pl_prompt_token_count plan) \<and>
      pl_mlp_schedule plan = build_mlp_schedule cfg t (pl_panel_count plan) (pl_prompt_token_count plan))"
  using assms storage_aligned [of cfg]
  by (cases "pl_mlp_schedule plan"; cases "ms_tactic (pl_mlp_schedule plan)")
     (auto simp: valid_mlp_schedule_def build_mlp_schedule_def default_mlp_schedule_def tactic_request_def
        Let_def fixed_p40_geometry_def)

subsection \<open>The validator\<close>

definition built_plan :: "build_config \<Rightarrow> plan_options \<Rightarrow> prefill_plan" where
  "built_plan cfg options =
     fst (assemble_plan cfg options (po_first_position options + po_prompt_token_count options)
       (expected_panel_count (po_mlp_schedule_tactic options) (po_prompt_token_count options)))"

text \<open>A plan with the unused slots of its panel array cleared.\<close>

definition clear_unused_panels :: "prefill_plan \<Rightarrow> prefill_plan" where
  "clear_unused_panels plan = plan\<lparr>pl_panels := take (pl_panel_count plan) (pl_panels plan) @
     replicate (kLayerMajorPrefillMaximumPanelCount - pl_panel_count plan) default_operator_panel\<rparr>"

definition plan_request :: "prefill_plan \<Rightarrow> nat \<Rightarrow> plan_options" where
  "plan_request plan max_sequence_length =
     \<lparr>po_first_position = pl_first_position plan, po_prompt_token_count = pl_prompt_token_count plan,
      po_max_sequence_length = max_sequence_length,
      po_mlp_schedule_tactic = ms_tactic (pl_mlp_schedule plan)\<rparr>"

lemma panel_count_bounds:
  assumes "0 < n" "n \<le> 262144" "fixed_p40_geometry t \<longrightarrow> n \<le> 44096"
  shows "0 < expected_panel_count t n" "expected_panel_count t n \<le> 32"
proof -
  show "0 < expected_panel_count t n"
    using panel.needed_0_iff [of t n] assms(1) by (simp add: expected_panel_count_needed)
  have "(n + 8191) div 8192 \<le> (262144 + 8191) div 8192" using assms(2) by (intro div_le_mono) simp
  moreover have "(n + 7999) div 8000 \<le> (44096 + 7999) div 8000" if "fixed_p40_geometry t"
    using that assms(3) by (intro div_le_mono) simp
  ultimately show "expected_panel_count t n \<le> 32"
    by (auto simp: expected_panel_count_def prefill_consts)
qed

lemma tactic_request_fits:
  assumes "tactic_request cfg t first n" "fixed_p40_geometry t"
  shows "n \<le> 44096"
  using assms by (auto simp: tactic_request_def fixed_p40_geometry_def whole_core_prompt_tokens_admitted_def
      prefill_consts split: if_splits)

lemma assembled_panels:
  assumes "expected_panel_count t n \<le> 32"
  shows "build_panels t (expected_panel_count t n) 0 first n
      (replicate 32 default_operator_panel) =
     (prompt_panels t first n @ replicate (32 - expected_panel_count t n) default_operator_panel, first + n, 0)"
proof -
  have "sum_list (pieces (next_panel_token_count t) (expected_panel_count t n) n) = n"
    by (rule panel.pieces_sum) (rule expected_panel_count_needed)
  then show ?thesis using assms by (simp add: build_panels_result Let_def prefill_consts)
qed

lemma built_plan_fields:
  assumes "expected_panel_count (po_mlp_schedule_tactic opts) (po_prompt_token_count opts) \<le> 32"
  defines "t \<equiv> po_mlp_schedule_tactic opts" and "n \<equiv> po_prompt_token_count opts"
  defines "pc \<equiv> expected_panel_count t n"
  shows "pl_traversal (built_plan cfg opts) = LayerMajor"
    "pl_legacy_public_tile_limit (built_plan cfg opts) = 512"
    "pl_operator_panel_capacity (built_plan cfg opts) = 8192"
    "pl_first_position (built_plan cfg opts) = po_first_position opts"
    "pl_prompt_token_count (built_plan cfg opts) = n"
    "pl_final_position (built_plan cfg opts) = po_first_position opts + n"
    "pl_panels (built_plan cfg opts) =
       prompt_panels t (po_first_position opts) n @ replicate (32 - pc) default_operator_panel"
    "pl_panel_count (built_plan cfg opts) = pc"
    "pl_layers (built_plan cfg opts) = build_layers pc"
    "pl_mlp_schedule (built_plan cfg opts) = build_mlp_schedule cfg t pc n"
    "pl_whole_core_schedule (built_plan cfg opts) = (if t = PromptWideP40WholeCore
       then build_whole_core_schedule cfg pc n else default_whole_core_schedule)"
    "pl_projection_reset_schedule (built_plan cfg opts) = (if t = PromptWideP40ProjectionReset
       then build_projection_reset_schedule cfg pc n else default_projection_reset_schedule)"
    "pl_packed_projection_schedule (built_plan cfg opts) = (if t = PromptWideP40PackedProjection
       then build_packed_projection_schedule cfg pc n else default_packed_projection_schedule)"
    "pl_packed_nvfp4_v2_schedule (built_plan cfg opts) = (if t = PromptWideP40PackedNvfp4V2
       then build_packed_nvfp4_v2_schedule cfg pc n else default_packed_nvfp4_v2_schedule)"
    "pl_vllm_marlin_parity_schedule (built_plan cfg opts) = (if t = PromptWideP40VllmMarlinParity
       then build_vllm_marlin_parity_schedule cfg pc n else default_vllm_marlin_parity_schedule)"
    "pl_final_commit (built_plan cfg opts) = \<lparr>fc_expected_initial_sequence_length = po_first_position opts,
       fc_committed_sequence_length = po_first_position opts + n, fc_commit_count = 1\<rparr>"
    "pl_operator_bindings_complete (built_plan cfg opts) = False"
  using assms(1) unfolding t_def n_def pc_def
  by (simp_all add: built_plan_def assemble_plan_def assembled_panels Let_def launch_inventory(6)
        kLayerMajorPrefillLegacyPublicTileTokens_def kPrefillPhysicalSegmentMaximumTokens_def
        kLayerMajorPrefillOperatorPanelTokens_def split del: if_split)

lemma plan_request_fields:
  "po_first_position (plan_request plan m) = pl_first_position plan"
  "po_prompt_token_count (plan_request plan m) = pl_prompt_token_count plan"
  "po_max_sequence_length (plan_request plan m) = m"
  "po_mlp_schedule_tactic (plan_request plan m) = ms_tactic (pl_mlp_schedule plan)"
  by (simp_all add: plan_request_def)

lemma clear_fields:
  "pl_panels (clear_unused_panels plan) = take (pl_panel_count plan) (pl_panels plan) @
     replicate (32 - pl_panel_count plan) default_operator_panel"
  "pl_traversal (clear_unused_panels plan) = pl_traversal plan"
  "pl_legacy_public_tile_limit (clear_unused_panels plan) = pl_legacy_public_tile_limit plan"
  "pl_operator_panel_capacity (clear_unused_panels plan) = pl_operator_panel_capacity plan"
  "pl_first_position (clear_unused_panels plan) = pl_first_position plan"
  "pl_prompt_token_count (clear_unused_panels plan) = pl_prompt_token_count plan"
  "pl_final_position (clear_unused_panels plan) = pl_final_position plan"
  "pl_panel_count (clear_unused_panels plan) = pl_panel_count plan"
  "pl_layers (clear_unused_panels plan) = pl_layers plan"
  "pl_mlp_schedule (clear_unused_panels plan) = pl_mlp_schedule plan"
  "pl_whole_core_schedule (clear_unused_panels plan) = pl_whole_core_schedule plan"
  "pl_projection_reset_schedule (clear_unused_panels plan) = pl_projection_reset_schedule plan"
  "pl_packed_projection_schedule (clear_unused_panels plan) = pl_packed_projection_schedule plan"
  "pl_packed_nvfp4_v2_schedule (clear_unused_panels plan) = pl_packed_nvfp4_v2_schedule plan"
  "pl_vllm_marlin_parity_schedule (clear_unused_panels plan) = pl_vllm_marlin_parity_schedule plan"
  "pl_final_commit (clear_unused_panels plan) = pl_final_commit plan"
  "pl_operator_bindings_complete (clear_unused_panels plan) = pl_operator_bindings_complete plan"
  by (simp_all add: clear_unused_panels_def launch_inventory(6))

lemma clear_unused_eq_built:
  assumes t: "t = ms_tactic (pl_mlp_schedule plan)" and n: "n = pl_prompt_token_count plan"
    and pc: "expected_panel_count t n \<le> 32" and len: "length (pl_panels plan) = 32"
  shows "clear_unused_panels plan = built_plan cfg (plan_request plan m) \<longleftrightarrow>
     pl_traversal plan = LayerMajor \<and> pl_legacy_public_tile_limit plan = 512 \<and>
     pl_operator_panel_capacity plan = 8192 \<and> pl_final_position plan = pl_first_position plan + n \<and>
     pl_panel_count plan = expected_panel_count t n \<and>
     take (pl_panel_count plan) (pl_panels plan) = prompt_panels t (pl_first_position plan) n \<and>
     pl_layers plan = build_layers (pl_panel_count plan) \<and>
     pl_mlp_schedule plan = build_mlp_schedule cfg t (pl_panel_count plan) n \<and>
     pl_whole_core_schedule plan = (if t = PromptWideP40WholeCore
        then build_whole_core_schedule cfg (pl_panel_count plan) n else default_whole_core_schedule) \<and>
     pl_projection_reset_schedule plan = (if t = PromptWideP40ProjectionReset
        then build_projection_reset_schedule cfg (pl_panel_count plan) n else default_projection_reset_schedule) \<and>
     pl_packed_projection_schedule plan = (if t = PromptWideP40PackedProjection
        then build_packed_projection_schedule cfg (pl_panel_count plan) n else default_packed_projection_schedule) \<and>
     pl_packed_nvfp4_v2_schedule plan = (if t = PromptWideP40PackedNvfp4V2
        then build_packed_nvfp4_v2_schedule cfg (pl_panel_count plan) n else default_packed_nvfp4_v2_schedule) \<and>
     pl_vllm_marlin_parity_schedule plan = (if t = PromptWideP40VllmMarlinParity
        then build_vllm_marlin_parity_schedule cfg (pl_panel_count plan) n else default_vllm_marlin_parity_schedule) \<and>
     pl_final_commit plan = \<lparr>fc_expected_initial_sequence_length = pl_first_position plan,
        fc_committed_sequence_length = pl_first_position plan + n, fc_commit_count = 1\<rparr> \<and>
     \<not> pl_operator_bindings_complete plan" (is "?l \<longleftrightarrow> ?r")
proof -
  let ?c = "clear_unused_panels plan" and ?b = "built_plan cfg (plan_request plan m)"
  note b = built_plan_fields [of "plan_request plan m", unfolded plan_request_fields, folded t n, OF pc]
  have "?l \<longleftrightarrow> pl_traversal ?c = pl_traversal ?b \<and>
     pl_legacy_public_tile_limit ?c = pl_legacy_public_tile_limit ?b \<and>
     pl_operator_panel_capacity ?c = pl_operator_panel_capacity ?b \<and>
     pl_first_position ?c = pl_first_position ?b \<and>
     pl_prompt_token_count ?c = pl_prompt_token_count ?b \<and>
     pl_final_position ?c = pl_final_position ?b \<and>
     pl_panels ?c = pl_panels ?b \<and>
     pl_panel_count ?c = pl_panel_count ?b \<and>
     pl_layers ?c = pl_layers ?b \<and>
     pl_mlp_schedule ?c = pl_mlp_schedule ?b \<and>
     pl_whole_core_schedule ?c = pl_whole_core_schedule ?b \<and>
     pl_projection_reset_schedule ?c = pl_projection_reset_schedule ?b \<and>
     pl_packed_projection_schedule ?c = pl_packed_projection_schedule ?b \<and>
     pl_packed_nvfp4_v2_schedule ?c = pl_packed_nvfp4_v2_schedule ?b \<and>
     pl_vllm_marlin_parity_schedule ?c = pl_vllm_marlin_parity_schedule ?b \<and>
     pl_final_commit ?c = pl_final_commit ?b \<and>
     pl_operator_bindings_complete ?c = pl_operator_bindings_complete ?b"
    by (auto intro: prefill_plan.equality)
  also have "\<dots> \<longleftrightarrow> ?r"
  proof (cases "pl_panel_count plan = expected_panel_count t n")
    case True
    then have "take (pl_panel_count plan) (pl_panels plan) @
        replicate (32 - pl_panel_count plan) default_operator_panel =
      prompt_panels t (pl_first_position plan) n @
        replicate (32 - expected_panel_count t n) default_operator_panel \<longleftrightarrow>
      take (pl_panel_count plan) (pl_panels plan) = prompt_panels t (pl_first_position plan) n"
      by simp
    then show ?thesis unfolding b clear_fields True n [symmetric]
      by (simp split del: if_split)
  next
    case False
    then show ?thesis unfolding b clear_fields by blast
  qed
  finally show ?thesis .
qed

lemma valid_plan_facts:
  assumes "valid_plan_topology cfg plan"
  defines "t \<equiv> ms_tactic (pl_mlp_schedule plan)"
  shows "0 < pl_prompt_token_count plan" "pl_first_position plan + pl_prompt_token_count plan \<le> 262144"
    "pl_final_position plan = pl_first_position plan + pl_prompt_token_count plan"
    "tactic_request cfg t (pl_first_position plan) (pl_prompt_token_count plan)"
    "pl_panel_count plan = expected_panel_count t (pl_prompt_token_count plan)"
    "pl_mlp_schedule plan = build_mlp_schedule cfg t (pl_panel_count plan) (pl_prompt_token_count plan)"
    "0 < pl_panel_count plan" "pl_panel_count plan \<le> length (pl_panels plan)"
    "take (pl_panel_count plan) (pl_panels plan) =
       prompt_panels t (pl_first_position plan) (pl_prompt_token_count plan)"
    "pl_layers plan = build_layers (pl_panel_count plan)"
proof -
  have h: "valid_plan_header cfg plan"
    and c: "pl_panel_count plan = expected_panel_count t (pl_prompt_token_count plan)"
    and p: "check_panels t 0 (pl_first_position plan) (pl_prompt_token_count plan)
        (take (pl_panel_count plan) (pl_panels plan)) = Some (pl_final_position plan, 0)"
    and l: "check_layers (pl_panel_count plan) 0 0 0 (pl_layers plan)
        = Some (kLayerMajorPrefillLinearLayerCount, kLayerMajorPrefillFullLayerCount)"
    using assms(1) unfolding valid_plan_topology_def Let_def t_def by blast+
  have f: "pl_first_position plan < pl_final_position plan" "pl_final_position plan \<le> 262144"
      "pl_final_position plan - pl_first_position plan = pl_prompt_token_count plan"
      "0 < pl_prompt_token_count plan"
    and m: "valid_mlp_schedule cfg plan" and pos: "0 < pl_panel_count plan"
    and len: "pl_panel_count plan \<le> length (pl_panels plan)"
    using h by (simp_all add: valid_plan_header_def kLayerMajorPrefillMaximumSequenceTokens_def not_le not_less)
  show fin: "pl_final_position plan = pl_first_position plan + pl_prompt_token_count plan"
    using f by simp
  show "0 < pl_prompt_token_count plan" "pl_first_position plan + pl_prompt_token_count plan \<le> 262144"
    using f fin by simp_all
  show "tactic_request cfg t (pl_first_position plan) (pl_prompt_token_count plan)"
    "pl_mlp_schedule plan = build_mlp_schedule cfg t (pl_panel_count plan) (pl_prompt_token_count plan)"
    using m unfolding valid_mlp_schedule_iff [OF fin] t_def Let_def by blast+
  show "pl_panel_count plan = expected_panel_count t (pl_prompt_token_count plan)"
    "0 < pl_panel_count plan" "pl_panel_count plan \<le> length (pl_panels plan)" by fact+
  show "take (pl_panel_count plan) (pl_panels plan) =
       prompt_panels t (pl_first_position plan) (pl_prompt_token_count plan)"
    using p len c check_prompt_panels [of "take (pl_panel_count plan) (pl_panels plan)" t] by simp
  show "pl_layers plan = build_layers (pl_panel_count plan)" using l check_layers_built by simp
qed

text \<open>What the validator pins, field by field.\<close>

lemma valid_plan_topology_iff:
  assumes len: "length (pl_panels plan) = 32"
  shows "valid_plan_topology cfg plan \<longleftrightarrow>
     (let t = ms_tactic (pl_mlp_schedule plan); n = pl_prompt_token_count plan; first = pl_first_position plan in
      supported_mlp_schedule_tactic cfg t \<and> tactic_request cfg t first n \<and> 0 < n \<and> first + n \<le> 262144 \<and>
      (fixed_p40_geometry t \<and> t \<noteq> PromptWideP40WholeCore \<longrightarrow> \<not> cfg_whole_core_service cfg) \<and>
      clear_unused_panels plan = built_plan cfg (plan_request plan m))"
proof -
  let ?t = "ms_tactic (pl_mlp_schedule plan)" and ?n = "pl_prompt_token_count plan"
  let ?first = "pl_first_position plan" and ?pc = "pl_panel_count plan"
  show ?thesis
  proof (cases "0 < ?n \<and> ?first + ?n \<le> 262144 \<and> tactic_request cfg ?t ?first ?n \<and>
      pl_final_position plan = ?first + ?n \<and> ?pc = expected_panel_count ?t ?n")
    case True
    then have pc: "expected_panel_count ?t ?n \<le> 32" "0 < expected_panel_count ?t ?n"
      using panel_count_bounds [of ?n ?t] tactic_request_fits [of cfg ?t ?first ?n] by auto
    have panels: "check_panels ?t 0 ?first ?n (take ?pc (pl_panels plan)) = Some (?first + ?n, 0)
        \<longleftrightarrow> take ?pc (pl_panels plan) = prompt_panels ?t ?first ?n"
      using check_prompt_panels [of "take ?pc (pl_panels plan)" ?t ?n] len pc True by auto
    have fin: "pl_final_position plan = ?first + ?n" and req: "tactic_request cfg ?t ?first ?n"
      and n: "0 < ?n" "?first + ?n \<le> 262144" and count: "?pc = expected_panel_count ?t ?n"
      using True by auto
    have whole: "?first = 0" "whole_core_prompt_tokens_admitted cfg ?n" "?pc = (?n + 7999) div 8000"
      if "?t = PromptWideP40WholeCore"
      using req count that by (auto simp: tactic_request_def expected_panel_count_def fixed_p40_geometry_def)
    have exact: "exact_p40_request cfg plan \<longleftrightarrow> \<not> cfg_whole_core_service cfg"
      if "fixed_p40_geometry ?t" "?t \<noteq> PromptWideP40WholeCore"
      using that req count fin
      by (auto simp: exact_p40_request_def tactic_request_def expected_panel_count_def fixed_p40_geometry_def
          prefill_consts split: if_splits)
    show ?thesis
      unfolding valid_plan_topology_def Let_def panels check_layers_built
        clear_unused_eq_built [OF refl refl pc(1) len] valid_plan_header_def valid_mlp_schedule_iff [OF fin]
        schedule_iffs fin
      using n req count pc len whole exact
      by (cases ?t; cases "pl_final_commit plan"; simp add: fixed_p40_geometry_def prefill_consts; blast)
  next
    case False
    have "clear_unused_panels plan = built_plan cfg (plan_request plan m) \<Longrightarrow>
        pl_final_position plan = ?first + ?n \<and> ?pc = expected_panel_count ?t ?n"
      by (drule arg_cong [where f = "\<lambda>p. (pl_final_position p, pl_panel_count p)"])
         (simp add: clear_unused_panels_def built_plan_def assemble_plan_def plan_request_def Let_def
            split: prod.splits)
    then show ?thesis
      using False valid_plan_facts [of cfg plan] by (auto simp: Let_def)
  qed
qed

subsection \<open>The builder\<close>

text \<open>The options the builder accepts.\<close>

definition options_wellformed :: "build_config \<Rightarrow> plan_options \<Rightarrow> bool" where
  "options_wellformed cfg opts \<longleftrightarrow>
     (let t = po_mlp_schedule_tactic opts in
      0 < po_prompt_token_count opts \<and>
      0 < po_max_sequence_length opts \<and> po_max_sequence_length opts \<le> kLayerMajorPrefillMaximumSequenceTokens \<and>
      supported_mlp_schedule_tactic cfg t \<and>
      tactic_request cfg t (po_first_position opts) (po_prompt_token_count opts) \<and>
      (fixed_p40_geometry t \<longrightarrow>
         po_max_sequence_length opts = kLayerMajorPrefillPromptWideP40RequestCapacityTokens cfg))"

lemma ms_tactic_build [simp]: "ms_tactic (build_mlp_schedule cfg t pc n) = t"
  by (simp add: build_mlp_schedule_def default_mlp_schedule_def Let_def)

lemma length_prompt_panels [simp]: "length (prompt_panels t first n) = expected_panel_count t n"
  by simp

lemma wellformed_panel_count:
  assumes "options_wellformed cfg opts"
    and "po_first_position opts + po_prompt_token_count opts \<le> po_max_sequence_length opts"
  shows "0 < expected_panel_count (po_mlp_schedule_tactic opts) (po_prompt_token_count opts)"
    "expected_panel_count (po_mlp_schedule_tactic opts) (po_prompt_token_count opts) \<le> 32"
  using assms panel_count_bounds [of "po_prompt_token_count opts" "po_mlp_schedule_tactic opts"]
    tactic_request_fits [of cfg "po_mlp_schedule_tactic opts" "po_first_position opts" "po_prompt_token_count opts"]
  by (auto simp: options_wellformed_def Let_def kLayerMajorPrefillMaximumSequenceTokens_def)

lemma no_fixed_tactic_in_service_build:
  assumes "options_wellformed cfg opts" "fixed_p40_geometry (po_mlp_schedule_tactic opts)"
    "po_mlp_schedule_tactic opts \<noteq> PromptWideP40WholeCore"
    "po_first_position opts + po_prompt_token_count opts \<le> po_max_sequence_length opts"
  shows "\<not> cfg_whole_core_service cfg"
  using assms
  by (auto simp: options_wellformed_def Let_def tactic_request_def fixed_p40_geometry_def prefill_consts)

lemma built_plan_cong:
  assumes "po_first_position a = po_first_position b" "po_prompt_token_count a = po_prompt_token_count b"
    "po_mlp_schedule_tactic a = po_mlp_schedule_tactic b"
  shows "built_plan cfg a = built_plan cfg b"
  unfolding built_plan_def assemble_plan_def assms ..

lemma built_plan_valid:
  assumes w: "options_wellformed cfg opts"
    and cap: "po_first_position opts + po_prompt_token_count opts \<le> po_max_sequence_length opts"
  shows "valid_plan_topology cfg (built_plan cfg opts)"
proof -
  let ?b = "built_plan cfg opts"
  note pc = wellformed_panel_count [OF w cap]
  note fields = built_plan_fields [OF pc(2)]
  have len: "length (pl_panels ?b) = 32" using pc by (simp add: fields)
  have clear: "clear_unused_panels ?b = ?b"
    using pc by (intro prefill_plan.equality) (simp_all only: clear_fields fields, simp_all add: clear_unused_panels_def)
  have req: "built_plan cfg (plan_request ?b m) = ?b" for m
    by (rule built_plan_cong) (simp_all add: plan_request_fields fields)
  show ?thesis
    unfolding valid_plan_topology_iff [OF len, where m = 0] clear req Let_def
    using w cap no_fixed_tactic_in_service_build [OF w]
    by (auto simp: fields options_wellformed_def Let_def kLayerMajorPrefillMaximumSequenceTokens_def)
qed

lemma if_same_guards: "(if a then x else if b then x else if c then x else y) = (if a \<or> b \<or> c then x else y)"
  by simp

lemma build_plan_eq:
  "build_unbound_layer_major_prefill_execution_plan cfg opts =
     (if \<not> options_wellformed cfg opts then Inl PeInvalidArgument
      else if 2 ^ 64 \<le> po_first_position opts + po_prompt_token_count opts then Inl PeArithmeticOverflow
      else if po_max_sequence_length opts < po_first_position opts + po_prompt_token_count opts
        then Inl PeCapacityExceeded
      else Inr (built_plan cfg opts))"
proof -
  let ?t = "po_mlp_schedule_tactic opts" and ?n = "po_prompt_token_count opts" and ?first = "po_first_position opts"
  let ?max = "po_max_sequence_length opts"
  have wf: "options_wellformed cfg opts \<longleftrightarrow>
    \<not> (?n = 0 \<or> ?max = 0 \<or> kLayerMajorPrefillMaximumSequenceTokens < ?max \<or>
       \<not> is_valid_layer_major_prefill_mlp_schedule_tactic ?t \<or> \<not> supported_mlp_schedule_tactic cfg ?t) \<and>
    \<not> (?t \<noteq> PerOperatorPanel \<and>
        (?first \<noteq> 0 \<or>
         (if ?t = PromptWideP40WholeCore then \<not> whole_core_prompt_tokens_admitted cfg ?n
          else ?n \<noteq> kLayerMajorPrefillLayerWideMlpP40Tokens cfg) \<or>
         (?t \<noteq> PromptWideP40WholeCore \<and> ?n mod kLayerMajorPrefillLayerWideMlpAlignmentTokens \<noteq> 0))) \<and>
    \<not> (fixed_p40_geometry ?t \<and> ?max \<noteq> kLayerMajorPrefillPromptWideP40RequestCapacityTokens cfg)"
    using storage_aligned [of cfg] by (auto simp: options_wellformed_def tactic_request_def Let_def)
  show ?thesis
  proof (cases "options_wellformed cfg opts")
    case False
    then show ?thesis
      unfolding build_unbound_layer_major_prefill_execution_plan_def Let_def if_same_guards
      by (subst if_P) (use wf in blast, simp)
  next
    case w: True
    then have n: "0 < ?n" "?max \<le> 262144"
      by (auto simp: options_wellformed_def Let_def kLayerMajorPrefillMaximumSequenceTokens_def)
    have step: "build_unbound_layer_major_prefill_execution_plan cfg opts =
      (case checked_add ?first ?n of None \<Rightarrow> Inl PeArithmeticOverflow
       | Some final \<Rightarrow>
          if ?max < final \<or> kLayerMajorPrefillMaximumSequenceTokens < final then Inl PeCapacityExceeded
          else (let panel_count = expected_panel_count ?t ?n in
            if panel_count = 0 \<or> kLayerMajorPrefillMaximumPanelCount < panel_count then Inl PeInvalidTopology
            else (let (plan, next_position, remaining) = assemble_plan cfg opts final panel_count in
              if remaining \<noteq> 0 \<or> next_position \<noteq> final \<or> \<not> valid_plan_topology cfg plan
              then Inl PeInvalidTopology else Inr plan)))"
      unfolding build_unbound_layer_major_prefill_execution_plan_def Let_def if_same_guards
      by (subst if_not_P) (use w wf in blast, rule refl)
    show ?thesis
    proof (cases "?first + ?n \<le> ?max")
      case cap: True
      note pc = wellformed_panel_count [OF w cap]
      have "snd (assemble_plan cfg opts (?first + ?n) (expected_panel_count ?t ?n)) = (?first + ?n, 0)"
        using pc by (simp add: assemble_plan_def assembled_panels launch_inventory(6) Let_def)
      then have asm: "assemble_plan cfg opts (?first + ?n) (expected_panel_count ?t ?n) =
          (built_plan cfg opts, ?first + ?n, 0)"
        unfolding built_plan_def by (metis prod.collapse)
      have add: "checked_add ?first ?n = Some (?first + ?n)" and small: "?first + ?n < 2 ^ 64"
        using n cap by (auto simp: checked_add_def)
      show ?thesis
        unfolding step add using w cap small pc asm built_plan_valid [OF w cap] n
        by (simp add: launch_inventory(6) kLayerMajorPrefillMaximumSequenceTokens_def)
    next
      case False
      then show ?thesis
        unfolding step using w n by (auto simp: checked_add_def)
    qed
  qed
qed

abbreviation build_plan :: "build_config \<Rightarrow> plan_options \<Rightarrow> plan_error + prefill_plan" where
  "build_plan \<equiv> build_unbound_layer_major_prefill_execution_plan"

lemma build_plan_accepts:
  assumes "options_wellformed cfg opts"
    and "po_first_position opts + po_prompt_token_count opts \<le> po_max_sequence_length opts"
  shows "build_plan cfg opts = Inr (built_plan cfg opts)"
  using assms by (auto simp: build_plan_eq options_wellformed_def Let_def prefill_consts)

lemma build_plan_InrD:
  assumes "build_plan cfg opts = Inr plan"
  shows "options_wellformed cfg opts"
    "po_first_position opts + po_prompt_token_count opts \<le> po_max_sequence_length opts"
    "plan = built_plan cfg opts"
  using assms by (auto simp: build_plan_eq split: if_splits)

text \<open>
  C31. The builder decides every request: malformed options and tactic shapes it does not admit give
  \<^verbatim>\<open>kInvalidArgument\<close>, a final position past 64 bits \<^verbatim>\<open>kArithmeticOverflow\<close>, one past the sequence length
  \<^verbatim>\<open>kCapacityExceeded\<close>, and every other request a plan. Its final self-check never fails: no request
  gives \<^verbatim>\<open>kInvalidTopology\<close>.
\<close>

theorem build_plan_outcome:
  "(build_plan cfg opts = Inl PeInvalidArgument \<longleftrightarrow> \<not> options_wellformed cfg opts) \<and>
    (build_plan cfg opts = Inl PeArithmeticOverflow \<longleftrightarrow>
       options_wellformed cfg opts \<and> 2 ^ 64 \<le> po_first_position opts + po_prompt_token_count opts) \<and>
    (build_plan cfg opts = Inl PeCapacityExceeded \<longleftrightarrow>
       options_wellformed cfg opts \<and> po_first_position opts + po_prompt_token_count opts < 2 ^ 64 \<and>
       po_max_sequence_length opts < po_first_position opts + po_prompt_token_count opts) \<and>
    build_plan cfg opts \<noteq> Inl PeInvalidTopology \<and>
    (build_plan cfg opts = Inr plan \<longleftrightarrow>
       options_wellformed cfg opts \<and>
       po_first_position opts + po_prompt_token_count opts \<le> po_max_sequence_length opts \<and>
       plan = built_plan cfg opts)"
proof -
  have "po_max_sequence_length opts < 2 ^ 64" if "options_wellformed cfg opts"
    using that by (auto simp: options_wellformed_def Let_def prefill_consts)
  then show ?thesis
    unfolding build_plan_eq
    by (cases "options_wellformed cfg opts";
        cases "2 ^ 64 \<le> po_first_position opts + po_prompt_token_count opts") auto
qed

text \<open>
  C32. A plan the builder returns covers the prompt exactly: its panels are numbered in order, start at the
  first position, follow each other without gap or overlap, hold between one token and the panel capacity,
  and end at the final position; there are \<open>\<lceil>n / capacity\<rceil>\<close> of them. The 64 layers are 48 linear-attention
  and 16 full-attention layers, every fourth one full, each advancing its own progress domain over all
  panels, and the one commit goes from the first to the final position.
\<close>

theorem built_plan_covers_prompt:
  assumes "build_plan cfg opts = Inr plan"
  shows "pl_panel_count plan = expected_panel_count (po_mlp_schedule_tactic opts) (po_prompt_token_count opts) \<and>
    op_first_position (pl_panels plan ! 0) = po_first_position opts \<and>
    op_end_position (pl_panels plan ! (pl_panel_count plan - 1)) =
      po_first_position opts + po_prompt_token_count opts \<and>
    (\<forall>i < pl_panel_count plan. let p = pl_panels plan ! i in
       op_ordinal p = i \<and> 0 < op_token_count p \<and>
       op_token_count p \<le> panel_capacity (po_mlp_schedule_tactic opts) \<and>
       op_end_position p = op_first_position p + op_token_count p \<and>
       (Suc i < pl_panel_count plan \<longrightarrow> op_first_position (pl_panels plan ! Suc i) = op_end_position p)) \<and>
    pl_layers plan = map (build_layer (pl_panel_count plan)) [0..<64] \<and>
    length (filter (\<lambda>l. le_layer_type l = LtLinearAttention) (pl_layers plan)) = 48 \<and>
    fc_expected_initial_sequence_length (pl_final_commit plan) = po_first_position opts \<and>
    fc_committed_sequence_length (pl_final_commit plan) =
      po_first_position opts + po_prompt_token_count opts"
proof -
  let ?t = "po_mlp_schedule_tactic opts" and ?n = "po_prompt_token_count opts" and ?first = "po_first_position opts"
  note inr = build_plan_InrD [OF assms]
  note pc = wellformed_panel_count [OF inr(1,2)]
  note fields = built_plan_fields [OF pc(2), of cfg, folded inr(3)]
  let ?ns = "pieces (next_panel_token_count ?t) (expected_panel_count ?t ?n) ?n"
  have at: "pl_panels plan ! i = \<lparr>op_ordinal = i, op_first_position = ?first + sum_list (take i ?ns),
      op_token_count = ?ns ! i, op_end_position = ?first + sum_list (take (Suc i) ?ns)\<rparr>"
    if "i < pl_panel_count plan" for i
    using that by (simp add: fields nth_append panels_of_nth)
  have sum: "sum_list ?ns = ?n" by (rule panel.pieces_sum) (rule expected_panel_count_needed)
  have bounds: "0 < ?ns ! i \<and> ?ns ! i \<le> panel_capacity ?t" if "i < pl_panel_count plan" for i
    using panel.pieces_bounds [OF expected_panel_count_needed nth_mem] that by (simp add: fields)
  have "length (filter (\<lambda>l. le_layer_type l = LtLinearAttention) (pl_layers plan)) = 48"
    by (simp add: fields build_layers_def prefill_consts build_layer_def filter_map o_def
        layer_kinds(1) [symmetric] layer_type_for_index_def)
  moreover have "pl_layers plan = map (build_layer (pl_panel_count plan)) [0..<64]"
    by (simp add: fields build_layers_def prefill_consts)
  moreover have "op_first_position (pl_panels plan ! 0) = ?first"
    "op_end_position (pl_panels plan ! (pl_panel_count plan - 1)) = ?first + ?n"
    using at [of 0] at [of "pl_panel_count plan - 1"] pc sum by (simp_all add: fields)
  moreover have "\<forall>i < pl_panel_count plan. let p = pl_panels plan ! i in
       op_ordinal p = i \<and> 0 < op_token_count p \<and> op_token_count p \<le> panel_capacity ?t \<and>
       op_end_position p = op_first_position p + op_token_count p \<and>
       (Suc i < pl_panel_count plan \<longrightarrow> op_first_position (pl_panels plan ! Suc i) = op_end_position p)"
    using at bounds by (simp add: Let_def take_Suc_conv_app_nth fields(8))
  ultimately show ?thesis by (simp add: fields)
qed

text \<open>A request of 10000 tokens in a build with no optional route, and the plan it gets.\<close>

definition plain_build :: build_config where
  "plain_build = \<lparr>cfg_whole_core_service = False, cfg_layer_wide_p40_mlp = False,
     cfg_prompt_wide_p40_whole_core = False, cfg_p40_projection_reset = False, cfg_p40_packed_projection = False,
     cfg_p40_packed_nvfp4_v2 = False, cfg_p40_vllm_marlin_parity = False\<rparr>"

definition example_options :: plan_options where
  "example_options = \<lparr>po_first_position = 7, po_prompt_token_count = 10000, po_max_sequence_length = 20000,
     po_mlp_schedule_tactic = PerOperatorPanel\<rparr>"

lemma example_fields:
  "po_first_position example_options = 7" "po_prompt_token_count example_options = 10000"
  "po_max_sequence_length example_options = 20000" "po_mlp_schedule_tactic example_options = PerOperatorPanel"
  by (simp_all add: example_options_def)

lemma example_build: "build_plan plain_build example_options = Inr (built_plan plain_build example_options)"
  by (rule build_plan_accepts)
     (simp_all add: options_wellformed_def example_fields supported_mlp_schedule_tactic_def
        tactic_request_def fixed_p40_geometry_def prefill_consts)

theorem built_plan_covers_prompt_witness:
  "op_end_position (pl_panels (built_plan plain_build example_options) !
     (pl_panel_count (built_plan plain_build example_options) - 1)) = 10007"
  using built_plan_covers_prompt [OF example_build] unfolding example_fields by (elim conjE) simp

text \<open>
  C30. A plan passes the validator exactly when it is, up to the unused slots of its panel array, a plan the
  builder returns for some request: every field of a sealed plan is pinned.
\<close>

theorem plan_valid_iff_built:
  assumes len: "length (pl_panels plan) = kLayerMajorPrefillMaximumPanelCount"
  shows "is_valid_unbound_layer_major_prefill_execution_plan cfg plan \<longleftrightarrow>
    (\<exists>opts. build_plan cfg opts = Inr (clear_unused_panels plan))"
proof
  assume "is_valid_unbound_layer_major_prefill_execution_plan cfg plan"
  then have v: "valid_plan_topology cfg plan"
    by (simp add: is_valid_unbound_layer_major_prefill_execution_plan_def)
  let ?t = "ms_tactic (pl_mlp_schedule plan)"
  let ?m = "if fixed_p40_geometry ?t then kLayerMajorPrefillPromptWideP40RequestCapacityTokens cfg else 262144"
  have l: "length (pl_panels plan) = 32" using len by (simp add: launch_inventory(6))
  note facts = v [unfolded valid_plan_topology_iff [OF l, where m = ?m] Let_def]
  have w: "options_wellformed cfg (plan_request plan ?m)"
    using facts by (auto simp: options_wellformed_def plan_request_fields Let_def prefill_consts)
  have "pl_first_position plan + pl_prompt_token_count plan \<le> ?m"
    using facts by (auto simp: tactic_request_def fixed_p40_geometry_def whole_core_prompt_tokens_admitted_def
      prefill_consts split: if_splits)
  then have "build_plan cfg (plan_request plan ?m) = Inr (clear_unused_panels plan)"
    using w facts build_plan_accepts by (simp add: plan_request_fields)
  then show "\<exists>opts. build_plan cfg opts = Inr (clear_unused_panels plan)" by blast
next
  assume "\<exists>opts. build_plan cfg opts = Inr (clear_unused_panels plan)"
  then obtain opts where "build_plan cfg opts = Inr (clear_unused_panels plan)" by blast
  then have v: "valid_plan_topology cfg (clear_unused_panels plan)"
    using build_plan_InrD built_plan_valid by metis
  then have pc: "pl_panel_count plan \<le> 32"
    using valid_plan_facts(8) [OF v] len by (simp add: clear_fields launch_inventory(6))
  have l: "length (pl_panels plan) = 32" using len by (simp add: launch_inventory(6))
  have lc: "length (pl_panels (clear_unused_panels plan)) = 32"
    using pc l by (simp add: clear_fields)
  have idem: "clear_unused_panels (clear_unused_panels plan) = clear_unused_panels plan"
    using pc l by (simp add: clear_unused_panels_def launch_inventory(6))
  have req: "built_plan cfg (plan_request (clear_unused_panels plan) 0) = built_plan cfg (plan_request plan 0)"
    by (rule built_plan_cong) (simp_all add: plan_request_fields clear_fields)
  have "valid_plan_topology cfg plan"
    using v unfolding valid_plan_topology_iff [OF lc, where m = 0] valid_plan_topology_iff [OF l, where m = 0]
      idem req by (simp only: clear_fields)
  then show "is_valid_unbound_layer_major_prefill_execution_plan cfg plan"
    by (simp add: is_valid_unbound_layer_major_prefill_execution_plan_def)
qed

theorem plan_valid_iff_built_witness:
  "is_valid_unbound_layer_major_prefill_execution_plan plain_build (built_plan plain_build example_options)"
proof -
  have pc: "expected_panel_count (po_mlp_schedule_tactic example_options) (po_prompt_token_count example_options) = 2"
    by (simp add: example_fields expected_panel_count_def fixed_p40_geometry_def prefill_consts)
  note fields = built_plan_fields [of example_options plain_build, unfolded pc, simplified]
  have "clear_unused_panels (built_plan plain_build example_options) = built_plan plain_build example_options"
    by (intro prefill_plan.equality)
       (simp_all only: clear_fields fields, simp_all add: pc clear_unused_panels_def)
  then show ?thesis
    using plan_valid_iff_built [of "built_plan plain_build example_options" plain_build] example_build
    by (simp add: fields launch_inventory(6)) metis
qed

end
