(* ===== verification/Prefill_Progress.thy ===== *)
theory Prefill_Progress
  imports Prefill_Build
begin

text \<open>
  Request-owned progress through a prefill plan (\<^verbatim>\<open>prefill_execution_plan.cpp\<close>): the progress record, the
  completion receipt of the parity route, and the ten transitions that publish device completions, the
  final hidden state and the commit. A transition returns its error and the progress record, which it
  changes only when the error is \<open>PgNone\<close>.
\<close>

subsection \<open>State\<close>

datatype progress_error =
  PgNone | PgInvalidPlan | PgLayerOutOfRange | PgPanelOutOfRange | PgOutOfOrder | PgExecutionIncomplete |
  PgCommitNotReady | PgAlreadyCommitted | PgInvalidCompletionReceipt

record prefill_progress =
  pg_kv_visible_end :: "nat list"
  pg_gdn_advanced_end :: "nat list"
  pg_completed_panels :: "nat list"
  pg_completed_mlp_phases :: "nat list"
  pg_completed_fill_panels :: "nat list"
  pg_completed_prompt_core_phases :: "nat list"
  pg_completed_drain_panels :: "nat list"
  pg_next_layer :: nat
  pg_next_panel :: nat
  pg_final_hidden_ready :: bool
  pg_prefill_state_committed :: bool

record completion_receipt =
  cr_layer_index :: nat
  cr_request_lock_clear_operations :: nat
  cr_gate_up_full_m1024_launches :: nat
  cr_gate_up_split_m64_launches :: nat
  cr_standalone_silu_launches :: nat
  cr_down_full_m1024_launches :: nat
  cr_down_split_m64_launches :: nat
  cr_standalone_residual_launches :: nat
  cr_retained_prompt_core_complete :: bool
  cr_canonical_gate_then_up_bf16_published :: bool
  cr_activated_bf16_published :: bool
  cr_down_bf16_published :: bool
  cr_stable_lock_owner_bound :: bool
  cr_lock_owner_alias_exclusion_proved :: bool
  cr_ordered_lock_protocol_completed :: bool
  cr_request_stream_completion_observed :: bool

definition valid_vllm_marlin_parity_layer_completion_receipt ::
  "prefill_plan \<Rightarrow> nat \<Rightarrow> completion_receipt \<Rightarrow> bool" where
  "valid_vllm_marlin_parity_layer_completion_receipt plan layer_index receipt \<longleftrightarrow>
     (let s = pl_vllm_marlin_parity_schedule plan;
          expected_lock_clears = (if layer_index = 0 then vm_lock_clear_operations_per_request s else 0) in
      vm_enabled s \<and> cr_layer_index receipt = layer_index \<and>
      cr_request_lock_clear_operations receipt = expected_lock_clears \<and>
      cr_gate_up_full_m1024_launches receipt = vm_full_m1024_segments_per_projection s \<and>
      cr_gate_up_split_m64_launches receipt = vm_tail_m64_segments_per_projection s \<and>
      cr_standalone_silu_launches receipt = vm_standalone_silu_launches_per_layer s \<and>
      cr_down_full_m1024_launches receipt = vm_full_m1024_segments_per_projection s \<and>
      cr_down_split_m64_launches receipt = vm_tail_m64_segments_per_projection s \<and>
      cr_standalone_residual_launches receipt = vm_standalone_residual_launches_per_layer s \<and>
      cr_retained_prompt_core_complete receipt \<and>
      cr_canonical_gate_then_up_bf16_published receipt \<and>
      cr_activated_bf16_published receipt \<and> cr_down_bf16_published receipt \<and>
      cr_stable_lock_owner_bound receipt \<and>
      cr_lock_owner_alias_exclusion_proved receipt \<and>
      cr_ordered_lock_protocol_completed receipt \<and>
      cr_request_stream_completion_observed receipt)"

definition make_prefill_execution_progress :: "prefill_plan \<Rightarrow> prefill_progress" where
  "make_prefill_execution_progress plan =
     (let zeros = replicate kLayerMajorPrefillLayerCount 0;
          firsts = replicate kLayerMajorPrefillLayerCount (pl_first_position plan) in
      \<lparr>pg_kv_visible_end = firsts, pg_gdn_advanced_end = firsts, pg_completed_panels = zeros,
       pg_completed_mlp_phases = zeros, pg_completed_fill_panels = zeros,
       pg_completed_prompt_core_phases = zeros, pg_completed_drain_panels = zeros,
       pg_next_layer = 0, pg_next_panel = 0, pg_final_hidden_ready = False,
       pg_prefill_state_committed = False\<rparr>)"

text \<open>The loop over the layers in \<^verbatim>\<open>execution_complete\<close>.\<close>

definition layer_complete :: "prefill_plan \<Rightarrow> prefill_progress \<Rightarrow> nat \<Rightarrow> bool" where
  "layer_complete plan progress l \<longleftrightarrow>
     pg_completed_panels progress ! l = pl_panel_count plan \<and>
     pg_completed_mlp_phases progress ! l = ms_mlp_phase_submission_count_per_layer (pl_mlp_schedule plan) \<and>
     (if ms_tactic (pl_mlp_schedule plan) = PromptWideP40WholeCore
      then pg_completed_fill_panels progress ! l = pl_panel_count plan \<and>
           pg_completed_prompt_core_phases progress ! l = 1 \<and>
           pg_completed_drain_panels progress ! l = pl_panel_count plan
      else pg_completed_fill_panels progress ! l = 0 \<and> pg_completed_prompt_core_phases progress ! l = 0 \<and>
           pg_completed_drain_panels progress ! l = 0) \<and>
     (if le_progress_domain (pl_layers plan ! l) = KvCache
      then pg_kv_visible_end progress ! l = pl_final_position plan \<and>
           pg_gdn_advanced_end progress ! l = pl_first_position plan
      else pg_gdn_advanced_end progress ! l = pl_final_position plan \<and>
           pg_kv_visible_end progress ! l = pl_first_position plan)"

definition execution_complete :: "build_config \<Rightarrow> prefill_plan \<Rightarrow> prefill_progress \<Rightarrow> bool" where
  "execution_complete cfg plan progress \<longleftrightarrow>
     valid_plan_topology cfg plan \<and> pg_next_layer progress = length (pl_layers plan) \<and>
     pg_next_panel progress = 0 \<and> list_all (layer_complete plan progress) [0..<length (pl_layers plan)]"

subsection \<open>Transitions\<close>

text \<open>The position \<^verbatim>\<open>*progress_end\<close> of a layer, in the array of its progress domain.\<close>

definition domain_end :: "prefill_plan \<Rightarrow> prefill_progress \<Rightarrow> nat \<Rightarrow> nat" where
  "domain_end plan progress l =
     (if le_progress_domain (pl_layers plan ! l) = KvCache then pg_kv_visible_end progress ! l
      else pg_gdn_advanced_end progress ! l)"

definition set_domain_end :: "prefill_plan \<Rightarrow> nat \<Rightarrow> nat \<Rightarrow> prefill_progress \<Rightarrow> prefill_progress" where
  "set_domain_end plan l v progress =
     (if le_progress_domain (pl_layers plan ! l) = KvCache
      then progress\<lparr>pg_kv_visible_end := (pg_kv_visible_end progress)[l := v]\<rparr>
      else progress\<lparr>pg_gdn_advanced_end := (pg_gdn_advanced_end progress)[l := v]\<rparr>)"

definition bump_at :: "nat list \<Rightarrow> nat \<Rightarrow> nat list" where
  "bump_at xs i = xs[i := Suc (xs ! i)]"

definition advance_prefill_progress_after_completion ::
  "build_config \<Rightarrow> prefill_plan \<Rightarrow> nat \<Rightarrow> nat \<Rightarrow> prefill_progress \<Rightarrow> progress_error \<times> prefill_progress" where
  "advance_prefill_progress_after_completion cfg plan layer_index panel_index progress =
     (let tactic = ms_tactic (pl_mlp_schedule plan) in
      if \<not> valid_plan_topology cfg plan then (PgInvalidPlan, progress)
      else if tactic = PromptWideP40WholeCore \<or> tactic = PromptWideP40ProjectionReset \<or>
         tactic = PromptWideP40PackedProjection \<or> tactic = PromptWideP40PackedNvfp4V2 \<or>
         tactic = PromptWideP40VllmMarlinParity then (PgOutOfOrder, progress)
      else if length (pl_layers plan) \<le> layer_index then (PgLayerOutOfRange, progress)
      else if pl_panel_count plan \<le> panel_index then (PgPanelOutOfRange, progress)
      else if pg_prefill_state_committed progress \<or> layer_index \<noteq> pg_next_layer progress \<or>
         panel_index \<noteq> pg_next_panel progress \<or>
         pg_completed_panels progress ! layer_index \<noteq> panel_index then (PgOutOfOrder, progress)
      else
       (let panel = pl_panels plan ! panel_index in
        if domain_end plan progress layer_index \<noteq> op_first_position panel then (PgOutOfOrder, progress)
        else
         (let p1 = set_domain_end plan layer_index (op_end_position panel) progress;
              p2 = p1\<lparr>pg_completed_panels := bump_at (pg_completed_panels p1) layer_index\<rparr>;
              p3 = (if tactic = PerOperatorPanel
                    then p2\<lparr>pg_completed_mlp_phases := bump_at (pg_completed_mlp_phases p2) layer_index\<rparr>
                    else p2);
              p4 = p3\<lparr>pg_next_panel := Suc (pg_next_panel p3)\<rparr> in
          (PgNone,
           if pg_next_panel p4 = pl_panel_count plan
           then (let p5 = p4\<lparr>pg_next_panel := 0\<rparr> in
                 if tactic = PerOperatorPanel then p5\<lparr>pg_next_layer := Suc (pg_next_layer p5)\<rparr> else p5)
           else p4))))"

definition advance_layer_wide_p40_mlp_progress_after_completion ::
  "build_config \<Rightarrow> prefill_plan \<Rightarrow> nat \<Rightarrow> prefill_progress \<Rightarrow> progress_error \<times> prefill_progress" where
  "advance_layer_wide_p40_mlp_progress_after_completion cfg plan l progress =
     (if \<not> valid_plan_topology cfg plan then (PgInvalidPlan, progress)
      else if length (pl_layers plan) \<le> l then (PgLayerOutOfRange, progress)
      else if ms_tactic (pl_mlp_schedule plan) \<noteq> LayerWideP40ExactFullM \<or>
         pg_prefill_state_committed progress \<or> pg_next_layer progress \<noteq> l \<or> pg_next_panel progress \<noteq> 0 \<or>
         pg_completed_panels progress ! l \<noteq> pl_panel_count plan \<or>
         pg_completed_mlp_phases progress ! l \<noteq> 0 then (PgOutOfOrder, progress)
      else (PgNone, progress\<lparr>pg_completed_mlp_phases := (pg_completed_mlp_phases progress)[l := 1],
                             pg_next_layer := Suc (pg_next_layer progress)\<rparr>))"

definition advance_prompt_wide_p40_fill_progress_after_completion ::
  "build_config \<Rightarrow> prefill_plan \<Rightarrow> nat \<Rightarrow> nat \<Rightarrow> prefill_progress \<Rightarrow> progress_error \<times> prefill_progress" where
  "advance_prompt_wide_p40_fill_progress_after_completion cfg plan l panel_index progress =
     (if \<not> valid_plan_topology cfg plan then (PgInvalidPlan, progress)
      else if length (pl_layers plan) \<le> l then (PgLayerOutOfRange, progress)
      else if pl_panel_count plan \<le> panel_index then (PgPanelOutOfRange, progress)
      else if ms_tactic (pl_mlp_schedule plan) \<noteq> PromptWideP40WholeCore \<or>
         pg_prefill_state_committed progress \<or> pg_next_layer progress \<noteq> l \<or>
         pg_next_panel progress \<noteq> panel_index \<or> pg_completed_fill_panels progress ! l \<noteq> panel_index \<or>
         pg_completed_prompt_core_phases progress ! l \<noteq> 0 \<or> pg_completed_drain_panels progress ! l \<noteq> 0 \<or>
         pg_completed_panels progress ! l \<noteq> 0 \<or> pg_completed_mlp_phases progress ! l \<noteq> 0
      then (PgOutOfOrder, progress)
      else
       (let p1 = progress\<lparr>pg_completed_fill_panels := bump_at (pg_completed_fill_panels progress) l,
                         pg_next_panel := Suc (pg_next_panel progress)\<rparr> in
        (PgNone, if pg_next_panel p1 = pl_panel_count plan then p1\<lparr>pg_next_panel := 0\<rparr> else p1)))"

definition advance_prompt_wide_p40_prompt_core_progress_after_completion ::
  "build_config \<Rightarrow> prefill_plan \<Rightarrow> nat \<Rightarrow> prefill_progress \<Rightarrow> progress_error \<times> prefill_progress" where
  "advance_prompt_wide_p40_prompt_core_progress_after_completion cfg plan l progress =
     (if \<not> valid_plan_topology cfg plan then (PgInvalidPlan, progress)
      else if length (pl_layers plan) \<le> l then (PgLayerOutOfRange, progress)
      else if ms_tactic (pl_mlp_schedule plan) \<noteq> PromptWideP40WholeCore \<or>
         pg_prefill_state_committed progress \<or> pg_next_layer progress \<noteq> l \<or> pg_next_panel progress \<noteq> 0 \<or>
         pg_completed_fill_panels progress ! l \<noteq> pl_panel_count plan \<or>
         pg_completed_prompt_core_phases progress ! l \<noteq> 0 \<or> pg_completed_drain_panels progress ! l \<noteq> 0 \<or>
         pg_completed_panels progress ! l \<noteq> 0 \<or> pg_completed_mlp_phases progress ! l \<noteq> 0
      then (PgOutOfOrder, progress)
      else if domain_end plan progress l \<noteq> pl_first_position plan then (PgOutOfOrder, progress)
      else
       (let p1 = set_domain_end plan l (pl_final_position plan) progress in
        (PgNone, p1\<lparr>pg_completed_prompt_core_phases := (pg_completed_prompt_core_phases p1)[l := 1]\<rparr>)))"

definition advance_prompt_wide_p40_drain_progress_after_completion ::
  "build_config \<Rightarrow> prefill_plan \<Rightarrow> nat \<Rightarrow> nat \<Rightarrow> prefill_progress \<Rightarrow> progress_error \<times> prefill_progress" where
  "advance_prompt_wide_p40_drain_progress_after_completion cfg plan l panel_index progress =
     (if \<not> valid_plan_topology cfg plan then (PgInvalidPlan, progress)
      else if length (pl_layers plan) \<le> l then (PgLayerOutOfRange, progress)
      else if pl_panel_count plan \<le> panel_index then (PgPanelOutOfRange, progress)
      else if ms_tactic (pl_mlp_schedule plan) \<noteq> PromptWideP40WholeCore \<or>
         pg_prefill_state_committed progress \<or> pg_next_layer progress \<noteq> l \<or>
         pg_next_panel progress \<noteq> panel_index \<or>
         pg_completed_fill_panels progress ! l \<noteq> pl_panel_count plan \<or>
         pg_completed_prompt_core_phases progress ! l \<noteq> 1 \<or>
         pg_completed_drain_panels progress ! l \<noteq> panel_index \<or>
         pg_completed_panels progress ! l \<noteq> panel_index \<or> pg_completed_mlp_phases progress ! l \<noteq> 0
      then (PgOutOfOrder, progress)
      else
       (let p1 = progress\<lparr>pg_completed_drain_panels := bump_at (pg_completed_drain_panels progress) l,
                         pg_completed_panels := bump_at (pg_completed_panels progress) l,
                         pg_next_panel := Suc (pg_next_panel progress)\<rparr> in
        (PgNone, if pg_next_panel p1 = pl_panel_count plan then p1\<lparr>pg_next_panel := 0\<rparr> else p1)))"

definition advance_prompt_wide_p40_persistent_mlp_progress_after_completion ::
  "build_config \<Rightarrow> prefill_plan \<Rightarrow> nat \<Rightarrow> prefill_progress \<Rightarrow> progress_error \<times> prefill_progress" where
  "advance_prompt_wide_p40_persistent_mlp_progress_after_completion cfg plan l progress =
     (if \<not> valid_plan_topology cfg plan then (PgInvalidPlan, progress)
      else if length (pl_layers plan) \<le> l then (PgLayerOutOfRange, progress)
      else if ms_tactic (pl_mlp_schedule plan) \<noteq> PromptWideP40WholeCore \<or>
         pg_prefill_state_committed progress \<or> pg_next_layer progress \<noteq> l \<or> pg_next_panel progress \<noteq> 0 \<or>
         pg_completed_fill_panels progress ! l \<noteq> pl_panel_count plan \<or>
         pg_completed_prompt_core_phases progress ! l \<noteq> 1 \<or>
         pg_completed_drain_panels progress ! l \<noteq> pl_panel_count plan \<or>
         pg_completed_panels progress ! l \<noteq> pl_panel_count plan \<or> pg_completed_mlp_phases progress ! l \<noteq> 0
      then (PgOutOfOrder, progress)
      else (PgNone, progress\<lparr>pg_completed_mlp_phases := (pg_completed_mlp_phases progress)[l := 1],
                             pg_next_layer := Suc (pg_next_layer progress)\<rparr>))"

text \<open>
  The four routes that publish a whole layer at once have the same body up to the tactic they demand and,
  for the parity route, the receipt, which is checked after the order and before the position.
\<close>

definition advance_whole_layer ::
  "mlp_schedule_tactic \<Rightarrow> (nat \<Rightarrow> bool) \<Rightarrow> build_config \<Rightarrow> prefill_plan \<Rightarrow> nat \<Rightarrow> prefill_progress
     \<Rightarrow> progress_error \<times> prefill_progress" where
  "advance_whole_layer tactic receipt_valid cfg plan l progress =
     (if \<not> valid_plan_topology cfg plan then (PgInvalidPlan, progress)
      else if length (pl_layers plan) \<le> l then (PgLayerOutOfRange, progress)
      else if ms_tactic (pl_mlp_schedule plan) \<noteq> tactic \<or>
         pg_prefill_state_committed progress \<or> pg_next_layer progress \<noteq> l \<or> pg_next_panel progress \<noteq> 0 \<or>
         pg_completed_panels progress ! l \<noteq> 0 \<or> pg_completed_mlp_phases progress ! l \<noteq> 0 \<or>
         pg_completed_fill_panels progress ! l \<noteq> 0 \<or> pg_completed_prompt_core_phases progress ! l \<noteq> 0 \<or>
         pg_completed_drain_panels progress ! l \<noteq> 0 then (PgOutOfOrder, progress)
      else if \<not> receipt_valid l then (PgInvalidCompletionReceipt, progress)
      else if domain_end plan progress l \<noteq> pl_first_position plan then (PgOutOfOrder, progress)
      else
       (let p1 = set_domain_end plan l (pl_final_position plan) progress in
        (PgNone, p1\<lparr>pg_completed_panels := (pg_completed_panels p1)[l := pl_panel_count plan],
                    pg_completed_mlp_phases := (pg_completed_mlp_phases p1)[l := 1],
                    pg_next_layer := Suc (pg_next_layer p1)\<rparr>)))"

definition advance_prompt_wide_p40_projection_reset_layer_progress_after_completion ::
  "build_config \<Rightarrow> prefill_plan \<Rightarrow> nat \<Rightarrow> prefill_progress \<Rightarrow> progress_error \<times> prefill_progress" where
  "advance_prompt_wide_p40_projection_reset_layer_progress_after_completion =
     advance_whole_layer PromptWideP40ProjectionReset (\<lambda>_. True)"

definition advance_prompt_wide_p40_packed_projection_layer_progress_after_completion ::
  "build_config \<Rightarrow> prefill_plan \<Rightarrow> nat \<Rightarrow> prefill_progress \<Rightarrow> progress_error \<times> prefill_progress" where
  "advance_prompt_wide_p40_packed_projection_layer_progress_after_completion =
     advance_whole_layer PromptWideP40PackedProjection (\<lambda>_. True)"

definition advance_prompt_wide_p40_packed_nvfp4_v2_layer_progress_after_completion ::
  "build_config \<Rightarrow> prefill_plan \<Rightarrow> nat \<Rightarrow> prefill_progress \<Rightarrow> progress_error \<times> prefill_progress" where
  "advance_prompt_wide_p40_packed_nvfp4_v2_layer_progress_after_completion =
     advance_whole_layer PromptWideP40PackedNvfp4V2 (\<lambda>_. True)"

definition advance_prompt_wide_p40_vllm_marlin_parity_layer_progress_after_completion ::
  "build_config \<Rightarrow> prefill_plan \<Rightarrow> nat \<Rightarrow> completion_receipt \<Rightarrow> prefill_progress
     \<Rightarrow> progress_error \<times> prefill_progress" where
  "advance_prompt_wide_p40_vllm_marlin_parity_layer_progress_after_completion cfg plan l receipt =
     advance_whole_layer PromptWideP40VllmMarlinParity
       (\<lambda>l. valid_vllm_marlin_parity_layer_completion_receipt plan l receipt) cfg plan l"

definition mark_prefill_final_hidden_ready ::
  "build_config \<Rightarrow> prefill_plan \<Rightarrow> prefill_progress \<Rightarrow> progress_error \<times> prefill_progress" where
  "mark_prefill_final_hidden_ready cfg plan progress =
     (if \<not> execution_complete cfg plan progress then (PgExecutionIncomplete, progress)
      else if pg_prefill_state_committed progress then (PgAlreadyCommitted, progress)
      else (PgNone, progress\<lparr>pg_final_hidden_ready := True\<rparr>))"

definition prefill_final_commit_ready :: "build_config \<Rightarrow> prefill_plan \<Rightarrow> prefill_progress \<Rightarrow> bool" where
  "prefill_final_commit_ready cfg plan progress \<longleftrightarrow>
     \<not> pg_prefill_state_committed progress \<and> pg_final_hidden_ready progress \<and>
     execution_complete cfg plan progress"

definition publish_prefill_state_committed ::
  "build_config \<Rightarrow> prefill_plan \<Rightarrow> prefill_progress \<Rightarrow> progress_error \<times> prefill_progress" where
  "publish_prefill_state_committed cfg plan progress =
     (if pg_prefill_state_committed progress then (PgAlreadyCommitted, progress)
      else if \<not> prefill_final_commit_ready cfg plan progress then (PgCommitNotReady, progress)
      else (PgNone, progress\<lparr>pg_prefill_state_committed := True\<rparr>))"

end
