(* ===== verification/Prefill_Schedule.thy ===== *)
theory Prefill_Schedule
  imports Prefill_Progress
begin

text \<open>
  The abstract schedule behind the prefill progress record: a counter over the phases of the current layer.
  Every reachable progress record is the image of such a counter, and a transition succeeds exactly when it
  reports the next phase of the schedule.
\<close>

subsection \<open>Events\<close>

datatype progress_event =
  PanelDone nat nat | LayerMlpDone nat | FillDone nat nat | CoreDone nat | DrainDone nat nat |
  PersistentMlpDone nat | ResetLayerDone nat | PackedLayerDone nat | PackedV2LayerDone nat |
  ParityLayerDone nat completion_receipt | HiddenReady | Publish

fun progress_step ::
  "build_config \<Rightarrow> prefill_plan \<Rightarrow> progress_event \<Rightarrow> prefill_progress \<Rightarrow> progress_error \<times> prefill_progress" where
  "progress_step cfg plan (PanelDone l p) = advance_prefill_progress_after_completion cfg plan l p"
| "progress_step cfg plan (LayerMlpDone l) = advance_layer_wide_p40_mlp_progress_after_completion cfg plan l"
| "progress_step cfg plan (FillDone l p) = advance_prompt_wide_p40_fill_progress_after_completion cfg plan l p"
| "progress_step cfg plan (CoreDone l) = advance_prompt_wide_p40_prompt_core_progress_after_completion cfg plan l"
| "progress_step cfg plan (DrainDone l p) = advance_prompt_wide_p40_drain_progress_after_completion cfg plan l p"
| "progress_step cfg plan (PersistentMlpDone l) =
     advance_prompt_wide_p40_persistent_mlp_progress_after_completion cfg plan l"
| "progress_step cfg plan (ResetLayerDone l) =
     advance_prompt_wide_p40_projection_reset_layer_progress_after_completion cfg plan l"
| "progress_step cfg plan (PackedLayerDone l) =
     advance_prompt_wide_p40_packed_projection_layer_progress_after_completion cfg plan l"
| "progress_step cfg plan (PackedV2LayerDone l) =
     advance_prompt_wide_p40_packed_nvfp4_v2_layer_progress_after_completion cfg plan l"
| "progress_step cfg plan (ParityLayerDone l receipt) =
     advance_prompt_wide_p40_vllm_marlin_parity_layer_progress_after_completion cfg plan l receipt"
| "progress_step cfg plan HiddenReady = mark_prefill_final_hidden_ready cfg plan"
| "progress_step cfg plan Publish = publish_prefill_state_committed cfg plan"

lemmas transition_defs = advance_prefill_progress_after_completion_def
  advance_layer_wide_p40_mlp_progress_after_completion_def
  advance_prompt_wide_p40_fill_progress_after_completion_def
  advance_prompt_wide_p40_prompt_core_progress_after_completion_def
  advance_prompt_wide_p40_drain_progress_after_completion_def
  advance_prompt_wide_p40_persistent_mlp_progress_after_completion_def
  advance_prompt_wide_p40_projection_reset_layer_progress_after_completion_def
  advance_prompt_wide_p40_packed_projection_layer_progress_after_completion_def
  advance_prompt_wide_p40_packed_nvfp4_v2_layer_progress_after_completion_def
  advance_prompt_wide_p40_vllm_marlin_parity_layer_progress_after_completion_def
  advance_whole_layer_def mark_prefill_final_hidden_ready_def publish_prefill_state_committed_def

lemma rejected_unchanged:
  "fst (progress_step cfg plan e progress) \<noteq> PgNone \<Longrightarrow> snd (progress_step cfg plan e progress) = progress"
  by (cases e) (simp_all only: progress_step.simps transition_defs Let_def split: if_split_asm, simp_all)

text \<open>
  A transition that reports an error leaves the progress record as it was, whatever the plan and the
  record are.
\<close>

theorem rejected_transition_changes_nothing:
  "fst (progress_step cfg plan e progress) \<noteq> PgNone \<longrightarrow> snd (progress_step cfg plan e progress) = progress"
  using rejected_unchanged by blast

theorem rejected_transition_changes_nothing_witness:
  "snd (progress_step plain_build (built_plan plain_build example_options) Publish
     (make_prefill_execution_progress (built_plan plain_build example_options))) =
   make_prefill_execution_progress (built_plan plain_build example_options)"
  using rejected_transition_changes_nothing [of plain_build "built_plan plain_build example_options" Publish
      "make_prefill_execution_progress (built_plan plain_build example_options)"]
  by (simp add: publish_prefill_state_committed_def prefill_final_commit_ready_def
        make_prefill_execution_progress_def Let_def)

subsection \<open>The schedule of a layer\<close>

abbreviation plan_tactic :: "prefill_plan \<Rightarrow> mlp_schedule_tactic" where
  "plan_tactic plan \<equiv> ms_tactic (pl_mlp_schedule plan)"

definition layer_phases :: "prefill_plan \<Rightarrow> nat" where
  "layer_phases plan =
     (case plan_tactic plan of PerOperatorPanel \<Rightarrow> pl_panel_count plan
      | LayerWideP40ExactFullM \<Rightarrow> Suc (pl_panel_count plan)
      | PromptWideP40WholeCore \<Rightarrow> 2 * pl_panel_count plan + 2
      | _ \<Rightarrow> 1)"

definition expected_receipt :: "prefill_plan \<Rightarrow> nat \<Rightarrow> completion_receipt" where
  "expected_receipt plan l =
     (let s = pl_vllm_marlin_parity_schedule plan in
      \<lparr>cr_layer_index = l,
       cr_request_lock_clear_operations = (if l = 0 then vm_lock_clear_operations_per_request s else 0),
       cr_gate_up_full_m1024_launches = vm_full_m1024_segments_per_projection s,
       cr_gate_up_split_m64_launches = vm_tail_m64_segments_per_projection s,
       cr_standalone_silu_launches = vm_standalone_silu_launches_per_layer s,
       cr_down_full_m1024_launches = vm_full_m1024_segments_per_projection s,
       cr_down_split_m64_launches = vm_tail_m64_segments_per_projection s,
       cr_standalone_residual_launches = vm_standalone_residual_launches_per_layer s,
       cr_retained_prompt_core_complete = True, cr_canonical_gate_then_up_bf16_published = True,
       cr_activated_bf16_published = True, cr_down_bf16_published = True,
       cr_stable_lock_owner_bound = True, cr_lock_owner_alias_exclusion_proved = True,
       cr_ordered_lock_protocol_completed = True, cr_request_stream_completion_observed = True\<rparr>)"

definition expected_event :: "prefill_plan \<Rightarrow> nat \<Rightarrow> nat \<Rightarrow> progress_event" where
  "expected_event plan l k =
     (let pc = pl_panel_count plan in
      case plan_tactic plan of PerOperatorPanel \<Rightarrow> PanelDone l k
      | LayerWideP40ExactFullM \<Rightarrow> if k < pc then PanelDone l k else LayerMlpDone l
      | PromptWideP40WholeCore \<Rightarrow>
          if k < pc then FillDone l k else if k = pc then CoreDone l
          else if k - Suc pc < pc then DrainDone l (k - Suc pc) else PersistentMlpDone l
      | PromptWideP40ProjectionReset \<Rightarrow> ResetLayerDone l
      | PromptWideP40PackedProjection \<Rightarrow> PackedLayerDone l
      | PromptWideP40PackedNvfp4V2 \<Rightarrow> PackedV2LayerDone l
      | PromptWideP40VllmMarlinParity \<Rightarrow> ParityLayerDone l (expected_receipt plan l))"

text \<open>What the record holds for a layer after \<open>k\<close> of its phases.\<close>

definition panel_boundary :: "prefill_plan \<Rightarrow> nat \<Rightarrow> nat" where
  "panel_boundary plan k = (if k = 0 then pl_first_position plan else op_end_position (pl_panels plan ! (k - 1)))"

definition phase_end :: "prefill_plan \<Rightarrow> nat \<Rightarrow> nat" where
  "phase_end plan k =
     (case plan_tactic plan of PerOperatorPanel \<Rightarrow> panel_boundary plan k
      | LayerWideP40ExactFullM \<Rightarrow> panel_boundary plan (min k (pl_panel_count plan))
      | PromptWideP40WholeCore \<Rightarrow>
          if k \<le> pl_panel_count plan then pl_first_position plan else pl_final_position plan
      | _ \<Rightarrow> if k = 0 then pl_first_position plan else pl_final_position plan)"

definition phase_panels :: "prefill_plan \<Rightarrow> nat \<Rightarrow> nat" where
  "phase_panels plan k =
     (case plan_tactic plan of PerOperatorPanel \<Rightarrow> k
      | LayerWideP40ExactFullM \<Rightarrow> min k (pl_panel_count plan)
      | PromptWideP40WholeCore \<Rightarrow> min (k - Suc (pl_panel_count plan)) (pl_panel_count plan)
      | _ \<Rightarrow> if k = 0 then 0 else pl_panel_count plan)"

definition phase_mlp :: "prefill_plan \<Rightarrow> nat \<Rightarrow> nat" where
  "phase_mlp plan k =
     (case plan_tactic plan of PerOperatorPanel \<Rightarrow> k
      | LayerWideP40ExactFullM \<Rightarrow> k - pl_panel_count plan
      | PromptWideP40WholeCore \<Rightarrow> k - (2 * pl_panel_count plan + 1)
      | _ \<Rightarrow> k)"

definition phase_fill :: "prefill_plan \<Rightarrow> nat \<Rightarrow> nat" where
  "phase_fill plan k =
     (if plan_tactic plan = PromptWideP40WholeCore then min k (pl_panel_count plan) else 0)"

definition phase_core :: "prefill_plan \<Rightarrow> nat \<Rightarrow> nat" where
  "phase_core plan k =
     (if plan_tactic plan = PromptWideP40WholeCore \<and> pl_panel_count plan < k then 1 else 0)"

definition phase_drain :: "prefill_plan \<Rightarrow> nat \<Rightarrow> nat" where
  "phase_drain plan k =
     (if plan_tactic plan = PromptWideP40WholeCore
      then min (k - Suc (pl_panel_count plan)) (pl_panel_count plan) else 0)"

definition phase_next_panel :: "prefill_plan \<Rightarrow> nat \<Rightarrow> nat" where
  "phase_next_panel plan k =
     (let pc = pl_panel_count plan in
      case plan_tactic plan of PerOperatorPanel \<Rightarrow> k
      | LayerWideP40ExactFullM \<Rightarrow> if k < pc then k else 0
      | PromptWideP40WholeCore \<Rightarrow>
          if k < pc then k else if pc < k \<and> k - Suc pc < pc then k - Suc pc else 0
      | _ \<Rightarrow> 0)"

definition layer_domain_at :: "nat \<Rightarrow> progress_domain" where
  "layer_domain_at l = layer_domain (layer_type_for_index l)"

text \<open>The progress record when \<open>d i\<close> phases of layer \<open>i\<close> are complete.\<close>

definition progress_of ::
  "prefill_plan \<Rightarrow> (nat \<Rightarrow> nat) \<Rightarrow> nat \<Rightarrow> nat \<Rightarrow> bool \<Rightarrow> bool \<Rightarrow> prefill_progress" where
  "progress_of plan d l np h c =
     \<lparr>pg_kv_visible_end =
        map (\<lambda>i. if layer_domain_at i = KvCache then phase_end plan (d i) else pl_first_position plan) [0..<64],
      pg_gdn_advanced_end =
        map (\<lambda>i. if layer_domain_at i = KvCache then pl_first_position plan else phase_end plan (d i)) [0..<64],
      pg_completed_panels = map (\<lambda>i. phase_panels plan (d i)) [0..<64],
      pg_completed_mlp_phases = map (\<lambda>i. phase_mlp plan (d i)) [0..<64],
      pg_completed_fill_panels = map (\<lambda>i. phase_fill plan (d i)) [0..<64],
      pg_completed_prompt_core_phases = map (\<lambda>i. phase_core plan (d i)) [0..<64],
      pg_completed_drain_panels = map (\<lambda>i. phase_drain plan (d i)) [0..<64],
      pg_next_layer = l, pg_next_panel = np, pg_final_hidden_ready = h, pg_prefill_state_committed = c\<rparr>"

text \<open>\<open>k\<close> phases of layer \<open>l\<close> after all earlier layers.\<close>

definition phases_done :: "nat \<Rightarrow> nat \<Rightarrow> nat \<Rightarrow> nat \<Rightarrow> nat" where
  "phases_done m l k i = (if i < l then m else if i = l then k else 0)"

definition progress_at :: "prefill_plan \<Rightarrow> nat \<Rightarrow> nat \<Rightarrow> bool \<Rightarrow> bool \<Rightarrow> prefill_progress" where
  "progress_at plan l k h c =
     progress_of plan (phases_done (layer_phases plan) l k) l (phase_next_panel plan k) h c"

subsection \<open>Plans the validator accepts\<close>

lemma valid_layers:
  assumes "valid_plan_topology cfg plan"
  shows "length (pl_layers plan) = 64"
    and "i < 64 \<Longrightarrow> le_progress_domain (pl_layers plan ! i) = layer_domain_at i"
  using valid_plan_facts(10) [OF assms]
  by (simp_all add: build_layers_def build_layer_def layer_domain_at_def prefill_consts)

lemma valid_panels:
  assumes "valid_plan_topology cfg plan"
  shows "0 < pl_panel_count plan"
    and "i < pl_panel_count plan \<Longrightarrow> op_first_position (pl_panels plan ! i) = panel_boundary plan i"
    and "op_end_position (pl_panels plan ! i) = panel_boundary plan (Suc i)"
    and "panel_boundary plan (pl_panel_count plan) = pl_final_position plan"
proof -
  note f = valid_plan_facts [OF assms]
  let ?t = "plan_tactic plan" and ?n = "pl_prompt_token_count plan" and ?pc = "pl_panel_count plan"
  let ?ns = "pieces (next_panel_token_count ?t) (expected_panel_count ?t ?n) ?n"
  show pc: "0 < ?pc" by (rule f(7))
  have nth: "pl_panels plan ! i = panels_of 0 (pl_first_position plan) ?ns ! i" if "i < ?pc" for i
    using that f(9) nth_take [of i ?pc "pl_panels plan"] by simp
  have len: "length ?ns = ?pc" using f(5) by simp
  have at: "pl_panels plan ! i = \<lparr>op_ordinal = i,
      op_first_position = pl_first_position plan + sum_list (take i ?ns), op_token_count = ?ns ! i,
      op_end_position = pl_first_position plan + sum_list (take (Suc i) ?ns)\<rparr>" if "i < ?pc" for i
    using that nth [OF that] len panels_of_nth [of i ?ns 0 "pl_first_position plan"] by simp
  show "op_end_position (pl_panels plan ! i) = panel_boundary plan (Suc i)" by (simp add: panel_boundary_def)
  show "op_first_position (pl_panels plan ! i) = panel_boundary plan i" if "i < ?pc"
    using that at [OF that] at [of "i - 1"] by (auto simp: panel_boundary_def)
  have "sum_list ?ns = ?n" by (rule panel.pieces_sum) (rule expected_panel_count_needed)
  then show "panel_boundary plan ?pc = pl_final_position plan"
    using at [of "?pc - 1"] pc len f(3) by (simp add: panel_boundary_def)
qed

lemma valid_mlp_submissions:
  assumes "valid_plan_topology cfg plan"
  shows "ms_mlp_phase_submission_count_per_layer (pl_mlp_schedule plan) =
     (if plan_tactic plan = PerOperatorPanel then pl_panel_count plan else 1)"
  by (subst valid_plan_facts(6) [OF assms])
     (simp add: build_mlp_schedule_def default_mlp_schedule_def Let_def)

lemma receipt_valid_iff:
  assumes "valid_plan_topology cfg plan" "plan_tactic plan = PromptWideP40VllmMarlinParity"
  shows "valid_vllm_marlin_parity_layer_completion_receipt plan l r \<longleftrightarrow> r = expected_receipt plan l"
proof -
  have "valid_vllm_marlin_parity_schedule cfg plan"
    using assms(1) by (simp add: valid_plan_topology_def valid_plan_header_def Let_def)
  then have "vm_enabled (pl_vllm_marlin_parity_schedule plan)"
    using assms(2) unfolding valid_vllm_marlin_parity_schedule_iff
    by (simp add: build_vllm_marlin_parity_schedule_def)
  then show ?thesis
    by (cases r) (auto simp: valid_vllm_marlin_parity_layer_completion_receipt_def expected_receipt_def Let_def)
qed

subsection \<open>Reading and updating the image of a counter\<close>

lemma progress_of_simps [simp]:
  "i < 64 \<Longrightarrow> pg_kv_visible_end (progress_of plan d l np h c) ! i =
     (if layer_domain_at i = KvCache then phase_end plan (d i) else pl_first_position plan)"
  "i < 64 \<Longrightarrow> pg_gdn_advanced_end (progress_of plan d l np h c) ! i =
     (if layer_domain_at i = KvCache then pl_first_position plan else phase_end plan (d i))"
  "i < 64 \<Longrightarrow> pg_completed_panels (progress_of plan d l np h c) ! i = phase_panels plan (d i)"
  "i < 64 \<Longrightarrow> pg_completed_mlp_phases (progress_of plan d l np h c) ! i = phase_mlp plan (d i)"
  "i < 64 \<Longrightarrow> pg_completed_fill_panels (progress_of plan d l np h c) ! i = phase_fill plan (d i)"
  "i < 64 \<Longrightarrow> pg_completed_prompt_core_phases (progress_of plan d l np h c) ! i = phase_core plan (d i)"
  "i < 64 \<Longrightarrow> pg_completed_drain_panels (progress_of plan d l np h c) ! i = phase_drain plan (d i)"
  "pg_next_layer (progress_of plan d l np h c) = l"
  "pg_next_panel (progress_of plan d l np h c) = np"
  "pg_final_hidden_ready (progress_of plan d l np h c) = h"
  "pg_prefill_state_committed (progress_of plan d l np h c) = c"
  by (simp_all add: progress_of_def)

lemma map_upt_update: "(map f [0..<n])[i := v] = map (f(i := v)) [0..<n]"
  by (rule nth_equalityI) (auto simp: nth_list_update)

text \<open>Completing one more phase of layer \<open>l\<close> updates every array at that layer.\<close>

lemma progress_of_advance:
  assumes "l < 64"
  shows "progress_of plan (d(l := k)) l' np' h' c' =
    (let s = progress_of plan d l' np' h' c' in
     s\<lparr>pg_kv_visible_end := (if layer_domain_at l = KvCache
         then (pg_kv_visible_end s)[l := phase_end plan k] else pg_kv_visible_end s),
       pg_gdn_advanced_end := (if layer_domain_at l = KvCache
         then pg_gdn_advanced_end s else (pg_gdn_advanced_end s)[l := phase_end plan k]),
       pg_completed_panels := (pg_completed_panels s)[l := phase_panels plan k],
       pg_completed_mlp_phases := (pg_completed_mlp_phases s)[l := phase_mlp plan k],
       pg_completed_fill_panels := (pg_completed_fill_panels s)[l := phase_fill plan k],
       pg_completed_prompt_core_phases := (pg_completed_prompt_core_phases s)[l := phase_core plan k],
       pg_completed_drain_panels := (pg_completed_drain_panels s)[l := phase_drain plan k]\<rparr>)"
  by (auto simp: progress_of_def Let_def map_upt_update)

lemma progress_of_unchanged:
  assumes "l < 64"
  shows "phase_panels plan (d l) = v \<Longrightarrow>
      (pg_completed_panels (progress_of plan d l' np h c))[l := v] = pg_completed_panels (progress_of plan d l' np h c)"
    "phase_mlp plan (d l) = v \<Longrightarrow>
      (pg_completed_mlp_phases (progress_of plan d l' np h c))[l := v] =
        pg_completed_mlp_phases (progress_of plan d l' np h c)"
    "phase_fill plan (d l) = v \<Longrightarrow>
      (pg_completed_fill_panels (progress_of plan d l' np h c))[l := v] =
        pg_completed_fill_panels (progress_of plan d l' np h c)"
    "phase_core plan (d l) = v \<Longrightarrow>
      (pg_completed_prompt_core_phases (progress_of plan d l' np h c))[l := v] =
        pg_completed_prompt_core_phases (progress_of plan d l' np h c)"
    "phase_drain plan (d l) = v \<Longrightarrow>
      (pg_completed_drain_panels (progress_of plan d l' np h c))[l := v] =
        pg_completed_drain_panels (progress_of plan d l' np h c)"
    "\<lbrakk>layer_domain_at l = KvCache; phase_end plan (d l) = v\<rbrakk> \<Longrightarrow>
      (pg_kv_visible_end (progress_of plan d l' np h c))[l := v] = pg_kv_visible_end (progress_of plan d l' np h c)"
    "\<lbrakk>layer_domain_at l \<noteq> KvCache; phase_end plan (d l) = v\<rbrakk> \<Longrightarrow>
      (pg_gdn_advanced_end (progress_of plan d l' np h c))[l := v] = pg_gdn_advanced_end (progress_of plan d l' np h c)"
  using assms by (auto simp: progress_of_def map_upt_update)

lemma phases_done_self [simp]: "phases_done m l k l = k"
  by (simp add: phases_done_def)

lemma phases_done_update: "(phases_done m l k)(l := k') = phases_done m l k'"
  by (auto simp: phases_done_def)

lemma phases_done_next: "phases_done m l m = phases_done m (Suc l) 0"
  by (auto simp: phases_done_def)

definition progress_after :: "prefill_plan \<Rightarrow> nat \<Rightarrow> nat \<Rightarrow> prefill_progress" where
  "progress_after plan l k =
     (if Suc k = layer_phases plan then progress_at plan (Suc l) 0 False False
      else progress_at plan l (Suc k) False False)"

lemma progress_after_alt:
  "progress_after plan l k = progress_of plan ((phases_done (layer_phases plan) l k)(l := Suc k))
     (if Suc k = layer_phases plan then Suc l else l)
     (if Suc k = layer_phases plan then phase_next_panel plan 0 else phase_next_panel plan (Suc k)) False False"
  by (simp add: progress_after_def progress_at_def phases_done_update phases_done_next)

subsection \<open>One transition\<close>

lemmas phase_defs = layer_phases_def expected_event_def phase_end_def phase_panels_def phase_mlp_def
  phase_fill_def phase_core_def phase_drain_def phase_next_panel_def

lemma set_domain_end_at:
  assumes "valid_plan_topology cfg plan" "l < 64"
  shows "domain_end plan (progress_of plan d l' np h c) l = phase_end plan (d l)"
    and "set_domain_end plan l v p =
      (if layer_domain_at l = KvCache then p\<lparr>pg_kv_visible_end := (pg_kv_visible_end p)[l := v]\<rparr>
       else p\<lparr>pg_gdn_advanced_end := (pg_gdn_advanced_end p)[l := v]\<rparr>)"
  using assms valid_layers [OF assms(1)] by (simp_all add: domain_end_def set_domain_end_def)

lemma list_update_same: "xs ! i = v \<Longrightarrow> xs[i := v] = xs"
  by auto

text \<open>What a transition reads of the image of a counter, and the image after the next phase.\<close>

lemma progress_at_view:
  fixes k :: nat and h c :: bool
  assumes v: "valid_plan_topology cfg plan" and l: "l < 64"
  defines "s \<equiv> progress_at plan l k h c"
  shows "domain_end plan s l = phase_end plan k"
    "pg_completed_panels s ! l = phase_panels plan k" "pg_completed_mlp_phases s ! l = phase_mlp plan k"
    "pg_completed_fill_panels s ! l = phase_fill plan k" "pg_completed_prompt_core_phases s ! l = phase_core plan k"
    "pg_completed_drain_panels s ! l = phase_drain plan k" "pg_next_layer s = l"
    "pg_next_panel s = phase_next_panel plan k" "pg_final_hidden_ready s = h" "pg_prefill_state_committed s = c"
  using l by (simp_all add: s_def progress_at_def set_domain_end_at [OF v])

lemma progress_after_update:
  fixes k :: nat
  assumes v: "valid_plan_topology cfg plan" and l: "l < 64"
  defines "s \<equiv> progress_at plan l k False False"
  shows "progress_after plan l k =
     (set_domain_end plan l (phase_end plan (Suc k)) s)
       \<lparr>pg_completed_panels := (pg_completed_panels s)[l := phase_panels plan (Suc k)],
        pg_completed_mlp_phases := (pg_completed_mlp_phases s)[l := phase_mlp plan (Suc k)],
        pg_completed_fill_panels := (pg_completed_fill_panels s)[l := phase_fill plan (Suc k)],
        pg_completed_prompt_core_phases := (pg_completed_prompt_core_phases s)[l := phase_core plan (Suc k)],
        pg_completed_drain_panels := (pg_completed_drain_panels s)[l := phase_drain plan (Suc k)],
        pg_next_layer := (if Suc k = layer_phases plan then Suc l else l),
        pg_next_panel := (if Suc k = layer_phases plan then phase_next_panel plan 0
          else phase_next_panel plan (Suc k))\<rparr>"
  unfolding progress_after_alt s_def progress_at_def set_domain_end_at(2) [OF v l]
  by (auto simp: progress_of_def map_upt_update)

lemma set_domain_end_same: "domain_end plan s l = v \<Longrightarrow> set_domain_end plan l v s = s"
  by (auto simp: domain_end_def set_domain_end_def list_update_same)

lemmas accept_simps = phase_defs transition_defs Let_def list_update_same set_domain_end_same bump_at_def

text \<open>The four kinds of phase of the whole-core route: fill panels, prompt core, drain panels, MLP.\<close>

lemma whole_core_phases:
  assumes t: "plan_tactic plan = PromptWideP40WholeCore" and k: "k < layer_phases plan"
  obtains (fill) "k < pl_panel_count plan" | (core) "k = pl_panel_count plan"
    | (drain) j where "k = Suc (pl_panel_count plan) + j" "j < pl_panel_count plan"
    | (mlp) "k = Suc (pl_panel_count plan) + pl_panel_count plan"
proof -
  have "k < pl_panel_count plan \<or> k = pl_panel_count plan \<or>
     (k = Suc (pl_panel_count plan) + (k - Suc (pl_panel_count plan)) \<and>
      k - Suc (pl_panel_count plan) < pl_panel_count plan) \<or>
     k = Suc (pl_panel_count plan) + pl_panel_count plan"
    using k t by (auto simp: layer_phases_def)
  then show thesis using that by blast
qed

lemma whole_core_accepted:
  assumes v: "valid_plan_topology cfg plan" and l: "l < 64" and k: "k < layer_phases plan"
    and t: "plan_tactic plan = PromptWideP40WholeCore"
  shows "progress_step cfg plan (expected_event plan l k) (progress_at plan l k False False) =
     (PgNone, progress_after plan l k)"
proof -
  define s where "s = progress_at plan l k False False"
  note facts = l v t progress_at_view [OF v l, of k False False, folded s_def] valid_panels(1) [OF v]
    valid_layers(1) [OF v]
  note after = progress_after_update [OF v l, of k, folded s_def]
  from t k have "progress_step cfg plan (expected_event plan l k) s = (PgNone, progress_after plan l k)"
  proof (cases rule: whole_core_phases)
    case fill
    with facts show ?thesis unfolding after by (simp add: accept_simps)
  next
    case core
    with facts show ?thesis unfolding after by (simp add: accept_simps) (simp add: set_domain_end_def list_update_same)
  next
    case (drain j)
    with facts show ?thesis unfolding after by (simp add: accept_simps)
  next
    case mlp
    with facts show ?thesis unfolding after by (simp add: accept_simps)
  qed
  then show ?thesis by (simp add: s_def)
qed

lemma expected_accepted:
  assumes v: "valid_plan_topology cfg plan" and l: "l < 64" and k: "k < layer_phases plan"
  shows "progress_step cfg plan (expected_event plan l k) (progress_at plan l k False False) =
     (PgNone, progress_after plan l k)"
proof -
  define s where "s = progress_at plan l k False False"
  note facts = l v k progress_at_view [OF v l, of k False False, folded s_def] valid_panels(1,2,3) [OF v]
    valid_layers(1) [OF v]
  note after = progress_after_update [OF v l, of k, folded s_def]
  have "progress_step cfg plan (expected_event plan l k) s = (PgNone, progress_after plan l k)"
  proof (cases "plan_tactic plan")
    case PerOperatorPanel
    with facts show ?thesis unfolding after
      by (simp add: accept_simps) (simp add: set_domain_end_def list_update_same)
  next
    case t: LayerWideP40ExactFullM
    show ?thesis
    proof (cases "k < pl_panel_count plan")
      case True
      with facts t show ?thesis unfolding after
        by (simp add: accept_simps) (simp add: set_domain_end_def list_update_same)
    next
      case False
      then have "k = pl_panel_count plan" using k t by (simp add: layer_phases_def)
      with facts t show ?thesis unfolding after by (simp add: accept_simps)
    qed
  next
    case PromptWideP40WholeCore
    then show ?thesis unfolding s_def by (rule whole_core_accepted [OF v l k])
  next
    case PromptWideP40ProjectionReset
    with facts show ?thesis unfolding after
      by (simp add: accept_simps) (simp add: set_domain_end_def)
  next
    case PromptWideP40PackedProjection
    with facts show ?thesis unfolding after
      by (simp add: accept_simps) (simp add: set_domain_end_def)
  next
    case PromptWideP40PackedNvfp4V2
    with facts show ?thesis unfolding after
      by (simp add: accept_simps) (simp add: set_domain_end_def)
  next
    case PromptWideP40VllmMarlinParity
    with facts show ?thesis unfolding after
      by (simp add: accept_simps receipt_valid_iff [OF v]) (simp add: set_domain_end_def)
  qed
  then show ?thesis by (simp add: s_def)
qed

text \<open>No other event is accepted before the last layer is complete.\<close>

lemma accepted_expected:
  assumes v: "valid_plan_topology cfg plan" and l: "l < 64" and k: "k < layer_phases plan"
    and acc: "fst (progress_step cfg plan e (progress_at plan l k False False)) = PgNone"
  shows "e = expected_event plan l k"
proof -
  define s where "s = progress_at plan l k False False"
  note facts = l k progress_at_view [OF v l, of k False False, folded s_def] valid_panels(1) [OF v]
    valid_layers(1) [OF v]
  have acc: "fst (progress_step cfg plan e s) = PgNone" using acc by (simp add: s_def)
  show ?thesis
  proof (cases e)
    case (PanelDone l' p)
    with acc facts show ?thesis
      by (cases "plan_tactic plan") (auto simp: transition_defs Let_def phase_defs split: if_splits)
  next
    case (LayerMlpDone l')
    with acc facts show ?thesis
      by (cases "plan_tactic plan") (auto simp: transition_defs Let_def phase_defs split: if_splits)
  next
    case (FillDone l' p)
    with acc facts show ?thesis
      by (cases "plan_tactic plan") (auto simp: transition_defs Let_def phase_defs split: if_splits)
  next
    case (CoreDone l')
    with acc facts show ?thesis
      by (cases "plan_tactic plan") (auto simp: transition_defs Let_def phase_defs split: if_splits)
  next
    case (DrainDone l' p)
    with acc facts show ?thesis
      by (cases "plan_tactic plan") (auto simp: transition_defs Let_def phase_defs split: if_splits)
  next
    case (PersistentMlpDone l')
    with acc facts show ?thesis
      by (cases "plan_tactic plan") (auto simp: transition_defs Let_def phase_defs split: if_splits)
  next
    case (ParityLayerDone l' r)
    with acc facts show ?thesis
      by (cases "plan_tactic plan")
         (auto simp: transition_defs Let_def phase_defs receipt_valid_iff [OF v] split: if_splits)
  next
    case HiddenReady
    with acc facts show ?thesis by (simp add: transition_defs execution_complete_def split: if_splits)
  next
    case Publish
    with acc facts show ?thesis by (simp add: transition_defs prefill_final_commit_ready_def split: if_splits)
  qed (use acc facts in \<open>cases "plan_tactic plan"; auto simp: transition_defs Let_def phase_defs split: if_splits\<close>)+
qed

lemma layer_phases_pos: "valid_plan_topology cfg plan \<Longrightarrow> 0 < layer_phases plan"
  using valid_panels(1) by (auto simp: layer_phases_def split: mlp_schedule_tactic.splits)

lemma whole_layer_values:
  assumes "valid_plan_topology cfg plan"
  shows "phase_end plan (layer_phases plan) = pl_final_position plan"
    "phase_panels plan (layer_phases plan) = pl_panel_count plan"
    "phase_mlp plan (layer_phases plan) = ms_mlp_phase_submission_count_per_layer (pl_mlp_schedule plan)"
    "phase_fill plan (layer_phases plan) =
       (if plan_tactic plan = PromptWideP40WholeCore then pl_panel_count plan else 0)"
    "phase_core plan (layer_phases plan) = (if plan_tactic plan = PromptWideP40WholeCore then 1 else 0)"
    "phase_drain plan (layer_phases plan) =
       (if plan_tactic plan = PromptWideP40WholeCore then pl_panel_count plan else 0)"
  using valid_panels(1,4) [OF assms] valid_mlp_submissions [OF assms]
  by (cases "plan_tactic plan"; simp add: phase_defs)+

lemma last_layer_complete:
  assumes "valid_plan_topology cfg plan"
  shows "execution_complete cfg plan (progress_at plan 64 0 h c)"
proof -
  have "layer_complete plan (progress_at plan 64 0 h c) i" if "i < 64" for i
    using that whole_layer_values [OF assms] valid_layers(2) [OF assms that]
    by (simp add: layer_complete_def progress_at_def phases_done_def)
  moreover have "phase_next_panel plan 0 = 0"
    using valid_panels(1) [OF assms] by (auto simp: phase_next_panel_def Let_def split: mlp_schedule_tactic.splits)
  ultimately show ?thesis
    using assms valid_layers(1) [OF assms]
    by (simp add: execution_complete_def progress_at_def list_all_iff)
qed

lemma end_hidden:
  assumes "valid_plan_topology cfg plan"
  shows "progress_step cfg plan HiddenReady (progress_at plan 64 0 h c) =
     (if c then (PgAlreadyCommitted, progress_at plan 64 0 h c) else (PgNone, progress_at plan 64 0 True c))"
  using last_layer_complete [OF assms]
  by (simp add: mark_prefill_final_hidden_ready_def) (simp add: progress_at_def progress_of_def)

lemma end_publish:
  assumes "valid_plan_topology cfg plan"
  shows "progress_step cfg plan Publish (progress_at plan 64 0 h c) =
     (if c then (PgAlreadyCommitted, progress_at plan 64 0 h c)
      else if h then (PgNone, progress_at plan 64 0 h True) else (PgCommitNotReady, progress_at plan 64 0 h c))"
  using last_layer_complete [OF assms]
  by (simp add: publish_prefill_state_committed_def prefill_final_commit_ready_def)
     (simp add: progress_at_def progress_of_def)

lemma end_rejects:
  assumes v: "valid_plan_topology cfg plan" and e: "e \<noteq> HiddenReady" "e \<noteq> Publish"
  shows "fst (progress_step cfg plan e (progress_at plan 64 0 h c)) \<noteq> PgNone"
proof -
  have "pg_next_layer (progress_at plan 64 0 h c) = 64" by (simp add: progress_at_def)
  then show ?thesis
    using e v valid_layers(1) [OF v] by (cases e) (auto simp: transition_defs Let_def)
qed

subsection \<open>The schedule of a request\<close>

text \<open>The progress record after \<open>n\<close> phases of the whole request.\<close>

definition request_phases :: "prefill_plan \<Rightarrow> nat" where
  "request_phases plan = 64 * layer_phases plan"

definition schedule :: "prefill_plan \<Rightarrow> progress_event list" where
  "schedule plan =
     map (\<lambda>n. expected_event plan (n div layer_phases plan) (n mod layer_phases plan)) [0..<request_phases plan]"

definition scheduled_progress :: "prefill_plan \<Rightarrow> nat \<Rightarrow> bool \<Rightarrow> bool \<Rightarrow> prefill_progress" where
  "scheduled_progress plan n h c = progress_at plan (n div layer_phases plan) (n mod layer_phases plan) h c"

lemma length_schedule [simp]: "length (schedule plan) = request_phases plan"
  by (simp add: schedule_def)

lemma scheduled_step:
  assumes v: "valid_plan_topology cfg plan" and n: "n < request_phases plan"
  shows "progress_step cfg plan (schedule plan ! n) (scheduled_progress plan n False False) =
     (PgNone, scheduled_progress plan (Suc n) False False)"
    and "fst (progress_step cfg plan e (scheduled_progress plan n False False)) = PgNone \<longleftrightarrow> e = schedule plan ! n"
proof -
  let ?m = "layer_phases plan"
  have m: "0 < ?m" by (rule layer_phases_pos [OF v])
  have l: "n div ?m < 64" using n m by (simp add: request_phases_def less_mult_imp_div_less)
  have k: "n mod ?m < ?m" using m by simp
  have e: "schedule plan ! n = expected_event plan (n div ?m) (n mod ?m)" using n by (simp add: schedule_def)
  have after: "progress_after plan (n div ?m) (n mod ?m) = scheduled_progress plan (Suc n) False False"
    by (simp add: progress_after_def scheduled_progress_def div_Suc mod_Suc)
  note acc = expected_accepted [OF v l k, folded e scheduled_progress_def, unfolded after]
  show "fst (progress_step cfg plan e (scheduled_progress plan n False False)) = PgNone \<longleftrightarrow> e = schedule plan ! n"
    using acc accepted_expected [OF v l k, folded e scheduled_progress_def] by auto
  show "progress_step cfg plan (schedule plan ! n) (scheduled_progress plan n False False) =
     (PgNone, scheduled_progress plan (Suc n) False False)" by (rule acc)
qed

lemma scheduled_end:
  assumes "valid_plan_topology cfg plan"
  shows "scheduled_progress plan (request_phases plan) h c = progress_at plan 64 0 h c"
  using layer_phases_pos [OF assms] by (simp add: scheduled_progress_def request_phases_def)

lemma scheduled_start:
  assumes "valid_plan_topology cfg plan"
  shows "make_prefill_execution_progress plan = scheduled_progress plan 0 False False"
proof -
  have "phase_end plan 0 = pl_first_position plan" "phase_panels plan 0 = 0" "phase_mlp plan 0 = 0"
    "phase_fill plan 0 = 0" "phase_core plan 0 = 0" "phase_drain plan 0 = 0" "phase_next_panel plan 0 = 0"
    using valid_panels(1) [OF assms]
    by (auto simp: phase_end_def phase_panels_def phase_mlp_def phase_fill_def phase_core_def phase_drain_def
        phase_next_panel_def panel_boundary_def Let_def split: mlp_schedule_tactic.splits)
  moreover have "phases_done m 0 0 = (\<lambda>_. 0)" for m by (auto simp: phases_done_def)
  ultimately show ?thesis
    by (simp add: scheduled_progress_def progress_at_def progress_of_def make_prefill_execution_progress_def
        prefill_consts Let_def map_replicate_const cong: if_cong)
qed

subsection \<open>Runs\<close>

text \<open>A run reports events one after the other, keeping the record of each; the accepted ones are logged.\<close>

fun run_events ::
  "build_config \<Rightarrow> prefill_plan \<Rightarrow> prefill_progress \<Rightarrow> progress_event list \<Rightarrow> progress_event list \<times> prefill_progress" where
  "run_events cfg plan p [] = ([], p)"
| "run_events cfg plan p (e # es) =
     (let (err, p') = progress_step cfg plan e p; (acc, q) = run_events cfg plan p' es in
      (if err = PgNone then e # acc else acc, q))"

inductive progress_reachable :: "build_config \<Rightarrow> prefill_plan \<Rightarrow> prefill_progress \<Rightarrow> bool"
  for cfg plan where
  start: "progress_reachable cfg plan (make_prefill_execution_progress plan)"
| step: "progress_reachable cfg plan p \<Longrightarrow> progress_reachable cfg plan (snd (progress_step cfg plan e p))"

definition counter_ok :: "prefill_plan \<Rightarrow> nat \<Rightarrow> bool \<Rightarrow> bool \<Rightarrow> bool" where
  "counter_ok plan n h c \<longleftrightarrow> n \<le> request_phases plan \<and> (h \<longrightarrow> n = request_phases plan) \<and> (c \<longrightarrow> h)"

text \<open>What one event does to the counter: nothing, or one of three moves.\<close>

lemma counter_step:
  assumes v: "valid_plan_topology cfg plan" and ok: "counter_ok plan n h c"
  shows "(fst (progress_step cfg plan e (scheduled_progress plan n h c)) \<noteq> PgNone \<and>
      snd (progress_step cfg plan e (scheduled_progress plan n h c)) = scheduled_progress plan n h c) \<or>
    (\<not> h \<and> n < request_phases plan \<and> e = schedule plan ! n \<and>
      progress_step cfg plan e (scheduled_progress plan n h c) = (PgNone, scheduled_progress plan (Suc n) h c)) \<or>
    (\<not> c \<and> n = request_phases plan \<and> e = HiddenReady \<and>
      progress_step cfg plan e (scheduled_progress plan n h c) = (PgNone, scheduled_progress plan n True c)) \<or>
    (\<not> c \<and> h \<and> n = request_phases plan \<and> e = Publish \<and>
      progress_step cfg plan e (scheduled_progress plan n h c) = (PgNone, scheduled_progress plan n h True))"
proof (cases "n < request_phases plan")
  case True
  then have hc: "\<not> h" "\<not> c" using ok by (auto simp: counter_ok_def)
  show ?thesis
    using scheduled_step(1) [OF v True] scheduled_step(2) [OF v True, of e] hc True
      rejected_unchanged [of cfg plan e "scheduled_progress plan n False False"]
    by (cases "e = schedule plan ! n") auto
next
  case False
  then have n: "n = request_phases plan" using ok by (simp add: counter_ok_def)
  note s = scheduled_end [OF v]
  show ?thesis
    using end_hidden [OF v, of h c] end_publish [OF v, of h c] end_rejects [OF v, of e h c]
      rejected_unchanged [of cfg plan e "progress_at plan 64 0 h c"] n ok
    by (cases "e = HiddenReady"; cases "e = Publish") (auto simp: s counter_ok_def)
qed

lemma reachable_counter:
  assumes v: "valid_plan_topology cfg plan" and r: "progress_reachable cfg plan p"
  shows "\<exists>n h c. p = scheduled_progress plan n h c \<and> counter_ok plan n h c"
  using r
proof induction
  case start
  have "counter_ok plan 0 False False" by (simp add: counter_ok_def)
  then show ?case using scheduled_start [OF v] by blast
next
  case (step p e)
  then obtain n h c where p: "p = scheduled_progress plan n h c" and ok: "counter_ok plan n h c" by blast
  have moves: "counter_ok plan (Suc n) h c" if "\<not> h" "n < request_phases plan"
    using ok that by (auto simp: counter_ok_def)
  have "counter_ok plan n True c" if "n = request_phases plan" using ok that by (auto simp: counter_ok_def)
  moreover have "counter_ok plan n h True" if "h" using ok that by (auto simp: counter_ok_def)
  ultimately show ?case
    using counter_step [OF v ok, of e] ok moves unfolding p by (metis snd_conv)
qed

text \<open>
  C28. The progress record implements the phase counter: every record reachable from the initial one by any
  sequence of reports, in any order, is the image of a position in the schedule of the 64 layers, with the
  final-hidden flag only at its end and the commit flag only after that one.
\<close>

theorem progress_refines_schedule:
  assumes "valid_plan_topology cfg plan" and "progress_reachable cfg plan p"
  shows "\<exists>n h c. p = scheduled_progress plan n h c \<and> n \<le> request_phases plan \<and>
    (h \<longrightarrow> n = request_phases plan) \<and> (c \<longrightarrow> h)"
  using reachable_counter [OF assms] by (simp add: counter_ok_def)

text \<open>
  C26. A prompt is committed only when it is complete: in every reachable record with the commit flag, all 64
  layers have completed all their panels and MLP phases and advanced their own cache from the first to the
  final position of the plan, and every further report is rejected.
\<close>

theorem commit_only_complete_and_final:
  assumes "valid_plan_topology cfg plan" and "progress_reachable cfg plan p" and "pg_prefill_state_committed p"
  shows "execution_complete cfg plan p \<and> pg_final_hidden_ready p \<and>
    (\<forall>l < 64. domain_end plan p l = pl_final_position plan \<and>
       pg_completed_panels p ! l = pl_panel_count plan) \<and>
    (\<forall>e. fst (progress_step cfg plan e p) \<noteq> PgNone \<and> snd (progress_step cfg plan e p) = p)"
proof -
  note v = assms(1)
  obtain n h c where p: "p = scheduled_progress plan n h c" and ok: "counter_ok plan n h c"
    using reachable_counter [OF assms(1,2)] by blast
  have c: c using assms(3) p by (simp add: scheduled_progress_def progress_at_def)
  then have n: "n = request_phases plan" and h: h using ok by (auto simp: counter_ok_def)
  have pe: "p = progress_at plan 64 0 h c" using p n scheduled_end [OF v] by simp
  have complete: "execution_complete cfg plan p" using last_layer_complete [OF v] pe by simp
  have layers: "domain_end plan p l = pl_final_position plan \<and> pg_completed_panels p ! l = pl_panel_count plan"
    if "l < 64" for l
    using complete that valid_layers(1) [OF v]
    by (auto simp: execution_complete_def list_all_iff layer_complete_def domain_end_def)
  have "fst (progress_step cfg plan e p) \<noteq> PgNone \<and> snd (progress_step cfg plan e p) = p" for e
    using counter_step [OF v ok, of e] c h n p by auto
  then show ?thesis using complete layers h pe by (simp add: progress_at_def)
qed

lemma run_log:
  assumes v: "valid_plan_topology cfg plan" and "counter_ok plan n h c"
    and "run_events cfg plan (scheduled_progress plan n h c) es = (acc, q)"
  shows "\<exists>n' h' c' j. q = scheduled_progress plan n' h' c' \<and> counter_ok plan n' h' c' \<and> n \<le> n' \<and>
     acc = map ((!) (schedule plan)) [n..<n'] @ replicate j HiddenReady @ (if c' \<and> \<not> c then [Publish] else []) \<and>
     (0 < j \<longrightarrow> n' = request_phases plan) \<and> h' = (h \<or> 0 < j) \<and> (c \<longrightarrow> j = 0 \<and> c')"
  using assms(2,3)
proof (induction es arbitrary: n h c acc)
  case Nil
  then have "q = scheduled_progress plan n h c" "acc = []" by simp_all
  then show ?case using Nil.prems(1) by (intro exI [of _ n] exI [of _ h] exI [of _ c] exI [of _ 0]) auto
next
  case (Cons e es)
  note ok = Cons.prems(1)
  obtain err p' where st: "progress_step cfg plan e (scheduled_progress plan n h c) = (err, p')" by fastforce
  obtain acc' where run: "run_events cfg plan p' es = (acc', q)"
    and acc: "acc = (if err = PgNone then e # acc' else acc')"
    using Cons.prems(2) st by (auto simp: Let_def split: prod.splits)
  consider (reject) "err \<noteq> PgNone" "p' = scheduled_progress plan n h c"
    | (advance) "\<not> h" "n < request_phases plan" "e = schedule plan ! n" "err = PgNone"
        "p' = scheduled_progress plan (Suc n) h c"
    | (hidden) "\<not> c" "n = request_phases plan" "e = HiddenReady" "err = PgNone" "p' = scheduled_progress plan n True c"
    | (publish) "\<not> c" h "n = request_phases plan" "e = Publish" "err = PgNone" "p' = scheduled_progress plan n h True"
    using counter_step [OF v ok, of e] st by fastforce
  then show ?case
  proof cases
    case reject
    then show ?thesis using Cons.IH [OF ok] run acc by simp
  next
    case advance
    have ok': "counter_ok plan (Suc n) h c" using ok advance by (auto simp: counter_ok_def)
    obtain n' h' c' j where IH: "q = scheduled_progress plan n' h' c'" "counter_ok plan n' h' c'" "Suc n \<le> n'"
      "acc' = map ((!) (schedule plan)) [Suc n..<n'] @ replicate j HiddenReady @
         (if c' \<and> \<not> c then [Publish] else [])"
      "0 < j \<longrightarrow> n' = request_phases plan" "h' = (h \<or> 0 < j)" "c \<longrightarrow> j = 0 \<and> c'"
      using Cons.IH [OF ok'] run advance by blast
    moreover have "[n..<n'] = n # [Suc n..<n']" using IH(3) by (simp add: upt_conv_Cons)
    ultimately show ?thesis using acc advance
      by (intro exI [of _ n'] exI [of _ h'] exI [of _ c'] exI [of _ j]) simp
  next
    case hidden
    have ok': "counter_ok plan n True c" using ok hidden by (auto simp: counter_ok_def)
    obtain n' h' c' j where IH: "q = scheduled_progress plan n' h' c'" "counter_ok plan n' h' c'" "n \<le> n'"
      "acc' = map ((!) (schedule plan)) [n..<n'] @ replicate j HiddenReady @
         (if c' \<and> \<not> c then [Publish] else [])" "h' = (True \<or> 0 < j)"
      using Cons.IH [OF ok'] run hidden by blast
    have n': "n' = n" using IH(2,3) hidden by (simp add: counter_ok_def)
    show ?thesis using acc hidden IH n'
      by (intro exI [of _ n'] exI [of _ h'] exI [of _ c'] exI [of _ "Suc j"]) simp
  next
    case publish
    have ok': "counter_ok plan n h True" using ok publish by (auto simp: counter_ok_def)
    obtain n' h' c' j where IH: "q = scheduled_progress plan n' h' c'" "counter_ok plan n' h' c'" "n \<le> n'"
      "acc' = map ((!) (schedule plan)) [n..<n'] @ replicate j HiddenReady" "h' = (h \<or> 0 < j)" "j = 0 \<and> c'"
      using Cons.IH [OF ok'] run publish by auto
    have n': "n' = n" using IH(2,3) publish by (simp add: counter_ok_def)
    show ?thesis using acc publish IH n'
      by (intro exI [of _ n'] exI [of _ h'] exI [of _ c'] exI [of _ 0]) simp
  qed
qed

lemma map_nth_take: "n \<le> length xs \<Longrightarrow> map ((!) xs) [0..<n] = take n xs"
  by (rule nth_equalityI) auto

lemma run_events_append:
  "run_events cfg plan p (es @ fs) =
     (let (acc, q) = run_events cfg plan p es; (acc', r) = run_events cfg plan q fs in (acc @ acc', r))"
  by (induction es arbitrary: p) (auto simp: Let_def split: prod.splits)

lemma run_schedule:
  assumes v: "valid_plan_topology cfg plan"
  shows "n \<le> request_phases plan \<Longrightarrow>
    run_events cfg plan (scheduled_progress plan 0 False False) (take n (schedule plan)) =
      (take n (schedule plan), scheduled_progress plan n False False)"
proof (induction n)
  case (Suc n)
  then have "take (Suc n) (schedule plan) = take n (schedule plan) @ [schedule plan ! n]"
    by (simp add: take_Suc_conv_app_nth)
  then show ?case using Suc scheduled_step(1) [OF v, of n] by (simp add: run_events_append)
qed simp

text \<open>
  C27. Reports are accepted only in schedule order: whatever sequence of reports arrives, the accepted ones
  are a prefix of the schedule, then, only after the whole schedule, final-hidden marks, then at most one
  commit, which needs at least one mark before it.
\<close>

theorem accepted_reports_follow_schedule:
  assumes "valid_plan_topology cfg plan"
    and "run_events cfg plan (make_prefill_execution_progress plan) es = (acc, q)"
  shows "\<exists>n j. acc = take n (schedule plan) @ replicate j HiddenReady @
      (if pg_prefill_state_committed q then [Publish] else []) \<and>
    (0 < j \<longrightarrow> n = request_phases plan) \<and> (pg_prefill_state_committed q \<longrightarrow> 0 < j)"
proof -
  have "counter_ok plan 0 False False" by (simp add: counter_ok_def)
  then obtain n h c j where q: "q = scheduled_progress plan n h c" and ok: "counter_ok plan n h c"
    and acc: "acc = map ((!) (schedule plan)) [0..<n] @ replicate j HiddenReady @ (if c then [Publish] else [])"
    and j: "0 < j \<longrightarrow> n = request_phases plan" "h = (0 < j)"
    using run_log [OF assms(1)] assms(2) unfolding scheduled_start [OF assms(1)] by fastforce
  have "map ((!) (schedule plan)) [0..<n] = take n (schedule plan)"
    using ok by (simp add: counter_ok_def map_nth_take)
  then show ?thesis
    using q ok acc j by (auto simp: counter_ok_def scheduled_progress_def progress_at_def)
qed

lemma run_to_commit:
  assumes "valid_plan_topology cfg plan"
  shows "run_events cfg plan (make_prefill_execution_progress plan) (schedule plan @ [HiddenReady, Publish]) =
    (schedule plan @ [HiddenReady, Publish], scheduled_progress plan (request_phases plan) True True)"
  using run_schedule [OF assms, of "request_phases plan"]
  by (simp add: scheduled_start [OF assms] run_events_append scheduled_end [OF assms] end_hidden [OF assms]
        end_publish [OF assms] del: progress_step.simps)

text \<open>
  C29. The schedule completes: reporting its events in order, then the final hidden state and the commit, is
  accepted at every step and ends with the prompt committed.
\<close>

theorem schedule_completes:
  assumes "valid_plan_topology cfg plan"
  shows "\<exists>q. run_events cfg plan (make_prefill_execution_progress plan) (schedule plan @ [HiddenReady, Publish]) =
      (schedule plan @ [HiddenReady, Publish], q) \<and>
    pg_prefill_state_committed q \<and> execution_complete cfg plan q"
  using run_to_commit [OF assms] last_layer_complete [OF assms] scheduled_end [OF assms]
  by (simp add: progress_at_def)

subsection \<open>The example plan\<close>

abbreviation example_plan :: prefill_plan where
  "example_plan \<equiv> built_plan plain_build example_options"

lemma example_valid: "valid_plan_topology plain_build example_plan"
  by (rule built_plan_valid)
     (simp_all add: options_wellformed_def example_fields supported_mlp_schedule_tactic_def
        tactic_request_def fixed_p40_geometry_def prefill_consts)

lemma run_reachable:
  "progress_reachable cfg plan p \<Longrightarrow> progress_reachable cfg plan (snd (run_events cfg plan p es))"
proof (induction es arbitrary: p)
  case (Cons e es)
  have "progress_reachable cfg plan (snd (progress_step cfg plan e p))" using Cons.prems by (rule progress_reachable.step)
  then have "progress_reachable cfg plan (snd (run_events cfg plan (snd (progress_step cfg plan e p)) es))"
    by (rule Cons.IH)
  then show ?case by (auto simp: Let_def split: prod.splits)
qed simp

lemma example_committed:
  "progress_reachable plain_build example_plan (progress_at example_plan 64 0 True True)"
  using run_reachable [OF progress_reachable.start, of plain_build example_plan "schedule example_plan @ [HiddenReady, Publish]"]
  by (simp only: run_to_commit [OF example_valid] snd_conv scheduled_end [OF example_valid])

theorem progress_refines_schedule_witness:
  "\<exists>n h c. progress_at example_plan 64 0 True True = scheduled_progress example_plan n h c \<and>
     n \<le> request_phases example_plan \<and> (h \<longrightarrow> n = request_phases example_plan) \<and> (c \<longrightarrow> h)"
  by (rule progress_refines_schedule [OF example_valid example_committed])

theorem commit_only_complete_and_final_witness:
  "execution_complete plain_build example_plan (progress_at example_plan 64 0 True True) \<and>
   fst (progress_step plain_build example_plan Publish (progress_at example_plan 64 0 True True)) \<noteq> PgNone"
proof -
  have "pg_prefill_state_committed (progress_at example_plan 64 0 True True)" by (simp add: progress_at_def)
  then show ?thesis using commit_only_complete_and_final [OF example_valid example_committed] by blast
qed

theorem accepted_reports_follow_schedule_witness:
  "\<exists>n j. schedule example_plan @ [HiddenReady, Publish] = take n (schedule example_plan) @ replicate j HiddenReady @
      (if pg_prefill_state_committed (scheduled_progress example_plan (request_phases example_plan) True True)
       then [Publish] else []) \<and>
    (0 < j \<longrightarrow> n = request_phases example_plan) \<and>
    (pg_prefill_state_committed (scheduled_progress example_plan (request_phases example_plan) True True) \<longrightarrow> 0 < j)"
  by (rule accepted_reports_follow_schedule [OF example_valid run_to_commit [OF example_valid]])

theorem schedule_completes_witness:
  "\<exists>q. run_events plain_build example_plan (make_prefill_execution_progress example_plan)
        (schedule example_plan @ [HiddenReady, Publish]) = (schedule example_plan @ [HiddenReady, Publish], q) \<and>
     pg_prefill_state_committed q \<and> execution_complete plain_build example_plan q"
  by (rule schedule_completes [OF example_valid])

end
