(* ===== verification/Generation_Control.thy ===== *)
theory Generation_Control
  imports Prefill_Schedule
begin

text \<open>
  The generation controller of \<^verbatim>\<open>reference_engine_control.cpp\<close>, with the declarations it uses from
  \<^verbatim>\<open>reference_engine.h\<close> and \<^verbatim>\<open>reference_runner.h\<close>. The runner is reached through callbacks: functions on
  a state \<open>'w\<close> that return an outcome or throw. A null function pointer is \<open>None\<close>.

  The controller returns a result, fails with an error and a runner status, or lets an exception of a
  callback that may not throw escape (\<open>Escaped\<close>). Its own vectors never fail to grow. With the speculative
  service compiled in, \<open>mtp\<close> is the active service; reading the last element of an empty vector there is
  \<open>UndefinedRead\<close>. The profiler ranges have no effect and are left out.
\<close>

subsection \<open>Prefix tiles\<close>

definition kMaximumRequestPrefillChunkSize :: nat where
  "kMaximumRequestPrefillChunkSize = 512"

definition next_prefix_tile_token_count :: "nat \<Rightarrow> nat \<Rightarrow> nat" where
  "next_prefix_tile_token_count remaining chunk =
     (if remaining = 0 \<or> chunk = 0 then 0
      else next_prefill_physical_segment_token_count (if remaining < chunk then remaining else chunk))"

lemma next_prefix_tile_bounds:
  assumes "0 < remaining" "0 < chunk"
  shows "0 < next_prefix_tile_token_count remaining chunk"
    "next_prefix_tile_token_count remaining chunk \<le> remaining"
    "next_prefix_tile_token_count remaining chunk \<le> chunk"
  using assms
  by (auto simp: next_prefix_tile_token_count_def next_prefill_physical_segment_token_count_def prefill_consts)

text \<open>The loop of \<^verbatim>\<open>prefix_execution_count\<close>; a chunk size of zero never reaches it.\<close>

function prefix_tile_loop :: "nat \<Rightarrow> nat \<Rightarrow> nat \<Rightarrow> nat" where
  "prefix_tile_loop chunk remaining count =
     (if remaining \<noteq> 0 \<and> 0 < chunk
      then prefix_tile_loop chunk (remaining - next_prefix_tile_token_count remaining chunk) (Suc count)
      else count)"
  by auto
termination
  by (relation "measure (\<lambda>(chunk, remaining, count). remaining)") (use next_prefix_tile_bounds(1) in auto)

declare prefix_tile_loop.simps [simp del]

definition prefix_execution_count :: "nat \<Rightarrow> nat \<Rightarrow> nat" where
  "prefix_execution_count prefix_token_count chunk =
     (if chunk = 0 then 0 else if chunk = 1 then prefix_token_count
      else prefix_tile_loop chunk prefix_token_count 0)"

definition next_single_arbitrary_prefix_tile_token_count :: "nat \<Rightarrow> nat \<Rightarrow> nat" where
  "next_single_arbitrary_prefix_tile_token_count remaining chunk =
     (if remaining = 0 \<or> chunk = 0 then 0 else if remaining < chunk then remaining else chunk)"

definition single_arbitrary_prefix_execution_count :: "nat \<Rightarrow> nat \<Rightarrow> nat" where
  "single_arbitrary_prefix_execution_count prefix_token_count chunk =
     (if chunk = 0 then 0
      else prefix_token_count div chunk + (if prefix_token_count mod chunk \<noteq> 0 then 1 else 0))"

subsection \<open>Callbacks and results\<close>

datatype control_error =
  GcInvalidArgument | GcCapacityExceeded | GcArithmeticOverflow | GcRunnerFailure | GcUnexpectedStep |
  GcMissingLogits | GcMissingTiming | GcAllocationFailure | GcMissingPrediction

datatype callback_exception = BadAlloc | LengthError | OtherException

datatype generation_failure = Failure control_error runner_status | Escaped | UndefinedRead

record step_options =
  so_compute_logits :: bool
  so_capture_trace :: bool
  so_measure_timing :: bool
  so_logits_mode :: logits_mode

record tile_options =
  to_measure_timing :: bool
  to_retain_last_hidden_for_logits :: bool

record prompt_options =
  qo_measure_timing :: bool
  qo_retain_last_hidden_for_logits :: bool

record tile_result =
  tr_steps :: "reference_step list"
  tr_step_count :: nat
  tr_timing :: "double option"

record prompt_panel_result =
  pq_logical_panel_ordinal :: nat
  pq_prompt_token_offset :: nat
  pq_first_position :: nat
  pq_end_position :: nat
  pq_steps :: "reference_step list"

record prompt_result =
  qr_panels :: "prompt_panel_result list"
  qr_logical_panel_count :: nat
  qr_prompt_token_count :: nat
  qr_progress :: prefill_progress
  qr_timing :: "double option"

type_synonym ('a, 'w) call = "'w \<Rightarrow> (callback_exception + 'a) \<times> 'w"
type_synonym 'w step_function = "nat \<Rightarrow> step_options \<Rightarrow> (reference_step outcome, 'w) call"
type_synonym 'w tile_function = "nat list \<Rightarrow> tile_options \<Rightarrow> (tile_result outcome, 'w) call"
type_synonym 'w prompt_function = "nat list \<Rightarrow> prefill_plan \<Rightarrow> prompt_options \<Rightarrow> (prompt_result outcome, 'w) call"
type_synonym 'w commit_function = "prefill_plan \<Rightarrow> prefill_progress \<Rightarrow> 'w \<Rightarrow> runner_status \<times> 'w"

record 'w callbacks =
  cb_prefix_step :: "'w step_function option"
  cb_finish_prefill :: "'w step_function option"
  cb_prefix_tile :: "'w tile_function option"
  cb_finish_prefill_from_tile :: "'w step_function option"
  cb_whole_request :: "'w prompt_function option"
  cb_finish_whole_request :: "'w step_function option"
  cb_commit_whole_request :: "'w commit_function option"
  cb_decode_step :: "'w step_function option"

text \<open>The active speculative service, as the controller uses it: initialisation reports its time.\<close>

record 'w mtp_hooks =
  mh_initialize :: "nat list \<Rightarrow> 'w \<Rightarrow> (runner_status \<times> double) \<times> 'w"
  mh_decode :: "generation_control \<Rightarrow> generation_options \<Rightarrow> 'w \<Rightarrow> (runner_status \<times> generation_control) \<times> 'w"

subsection \<open>Sequencing\<close>

type_synonym ('a, 'w) gen = "(generation_failure + 'a) \<times> 'w"

definition gfail :: "control_error \<Rightarrow> 'w \<Rightarrow> ('a, 'w) gen" where
  "gfail e w = (Inl (Failure e runner_status_none), w)"

definition gfail_status :: "control_error \<Rightarrow> runner_status \<Rightarrow> 'w \<Rightarrow> ('a, 'w) gen" where
  "gfail_status e st w = (Inl (Failure e st), w)"

definition gthen :: "('a, 'w) gen \<Rightarrow> ('a \<Rightarrow> 'w \<Rightarrow> ('b, 'w) gen) \<Rightarrow> ('b, 'w) gen" where
  "gthen r f = (case r of (Inl e, w) \<Rightarrow> (Inl e, w) | (Inr a, w) \<Rightarrow> f a w)"

text \<open>An exception that leaves a callback: the outer handlers turn the two allocation errors into a result.\<close>

definition gthrow :: "callback_exception \<Rightarrow> 'w \<Rightarrow> ('a, 'w) gen" where
  "gthrow e w = (if e = OtherException then (Inl Escaped, w) else gfail GcAllocationFailure w)"

text \<open>Calls to the whole-request callbacks report any other exception as a poisoned runner.\<close>

definition poisoned_status :: "string \<Rightarrow> runner_status" where
  "poisoned_status operation = runner_status_none\<lparr>rs_error := RPoisoned, rs_operation := Some operation\<rparr>"

definition gthrow_guarded :: "string \<Rightarrow> callback_exception \<Rightarrow> 'w \<Rightarrow> ('a, 'w) gen" where
  "gthrow_guarded operation e w =
     (if e = OtherException then gfail_status GcRunnerFailure (poisoned_status operation) w
      else gfail GcAllocationFailure w)"

subsection \<open>One step\<close>

definition bad_elapsed :: "double \<Rightarrow> bool" where
  "bad_elapsed ms \<longleftrightarrow> \<not> isfinite ms \<or> negative_double ms"

text \<open>
  The checks of the lambda \<^verbatim>\<open>execute\<close> on a step at the given position, in order: the elapsed time and the
  predicted token, which is read only when logits were asked for.
\<close>

definition check_step ::
  "generation_options \<Rightarrow> nat \<Rightarrow> nat \<Rightarrow> bool \<Rightarrow> reference_step \<Rightarrow> control_error + double \<times> nat" where
  "check_step opt position input_token compute_logits step =
     (if sr_position step \<noteq> position \<or> sr_input_token_id step \<noteq> input_token \<or>
         (\<not> compute_logits \<and> (sr_logits step \<noteq> None \<or> sr_prediction step \<noteq> None))
      then Inl GcUnexpectedStep
      else case sr_timing step of None \<Rightarrow> Inl GcMissingTiming
      | Some elapsed \<Rightarrow>
          if \<not> compute_logits
          then (if bad_elapsed elapsed then Inl GcUnexpectedStep else Inr (elapsed, 0))
          else
            (let predicted = (case go_logits_mode opt of
                 FullStatistics \<Rightarrow>
                   if sr_prediction step \<noteq> None then Inl GcUnexpectedStep
                   else (case sr_logits step of None \<Rightarrow> Inl GcMissingLogits
                         | Some logits \<Rightarrow> Inr (lg_predicted_token_id logits))
               | PredictedTokenOnly \<Rightarrow>
                   if sr_logits step \<noteq> None then Inl GcUnexpectedStep
                   else (case sr_prediction step of None \<Rightarrow> Inl GcMissingPrediction
                         | Some token \<Rightarrow> Inr token)) in
             case predicted of Inl e \<Rightarrow> Inl e
             | Inr token \<Rightarrow>
                 if bad_elapsed elapsed then Inl GcUnexpectedStep
                 else if kReferenceVocabularySize \<le> token then Inl GcUnexpectedStep
                 else Inr (elapsed, token)))"

definition execute ::
  "generation_options \<Rightarrow> (callback_exception \<Rightarrow> 'w \<Rightarrow> (double \<times> nat \<times> generation_control, 'w) gen) \<Rightarrow>
   'w step_function \<Rightarrow> nat \<Rightarrow> bool \<Rightarrow> generation_control \<Rightarrow> 'w \<Rightarrow>
   (double \<times> nat \<times> generation_control, 'w) gen" where
  "execute opt thrown phase_step input_token compute_logits control w =
     (case phase_step input_token
        \<lparr>so_compute_logits = compute_logits, so_capture_trace = go_capture_trace opt,
         so_measure_timing = True, so_logits_mode = go_logits_mode opt\<rparr> w of
        (Inl e, w) \<Rightarrow> thrown e w
      | (Inr (value, status), w) \<Rightarrow>
          (case outcome_ok (value, status) of
             None \<Rightarrow> gfail_status GcRunnerFailure status w
           | Some step \<Rightarrow>
               (case check_step opt (length (gc_steps control)) input_token compute_logits step of
                  Inl e \<Rightarrow> gfail e w
                | Inr (elapsed, token) \<Rightarrow>
                    (Inr (elapsed, token, control\<lparr>gc_steps := gc_steps control @ [step]\<rparr>), w))))"

definition commit_token ::
  "'w host \<Rightarrow> nat \<Rightarrow> double \<Rightarrow> generation_control \<Rightarrow> 'w \<Rightarrow> bool \<times> generation_control \<times> 'w" where
  "commit_token host token elapsed control w =
     (let index = length (gc_generated_token_ids control);
          (continue, w) = commit_callback host token index elapsed w in
      (continue, control\<lparr>gc_generated_token_ids := gc_generated_token_ids control @ [token]\<rparr>, w))"

subsection \<open>Whole-request prefill\<close>

definition layer_publishable :: "prefill_plan \<Rightarrow> prefill_progress \<Rightarrow> nat \<Rightarrow> bool" where
  "layer_publishable topology progress l \<longleftrightarrow>
     pg_completed_panels progress ! l = pl_panel_count topology \<and>
     pg_completed_mlp_phases progress ! l = ms_mlp_phase_submission_count_per_layer (pl_mlp_schedule topology) \<and>
     (case le_progress_domain (pl_layers topology ! l) of
        KvCache \<Rightarrow> pg_kv_visible_end progress ! l = pl_final_position topology \<and>
                   pg_gdn_advanced_end progress ! l = pl_first_position topology
      | GdnState \<Rightarrow> pg_gdn_advanced_end progress ! l = pl_final_position topology \<and>
                    pg_kv_visible_end progress ! l = pl_first_position topology)"

definition complete_uncommitted_whole_request_prefill_progress ::
  "build_config \<Rightarrow> prefill_plan \<Rightarrow> prefill_progress \<Rightarrow> bool" where
  "complete_uncommitted_whole_request_prefill_progress cfg topology progress \<longleftrightarrow>
     \<not> (pg_next_layer progress \<noteq> length (pl_layers topology) \<or> pg_next_panel progress \<noteq> 0 \<or>
        \<not> pg_final_hidden_ready progress \<or> pg_prefill_state_committed progress \<or>
        \<not> prefill_final_commit_ready cfg topology progress) \<and>
     list_all (layer_publishable topology progress) [0..<length (pl_layers topology)]"

text \<open>A placeholder step of the prompt carries no logits, prediction or timing.\<close>

definition placeholder_step :: "nat \<Rightarrow> nat \<Rightarrow> reference_step \<Rightarrow> bool" where
  "placeholder_step position token step \<longleftrightarrow>
     sr_position step = position \<and> sr_input_token_id step = token \<and>
     sr_logits step = None \<and> sr_prediction step = None \<and> sr_timing step = None"

text \<open>
  The loop over the panels of a whole-request result against the panels of the topology: each panel reports
  its own tokens of the prompt. \<open>None\<close> is a refusal; otherwise the number of prompt tokens covered.
\<close>

fun check_prompt_panels_loop ::
  "nat list \<Rightarrow> nat \<Rightarrow> nat \<Rightarrow> operator_panel list \<Rightarrow> prompt_panel_result list \<Rightarrow> nat option" where
  "check_prompt_panels_loop prompt panel_index offset [] _ = Some offset"
| "check_prompt_panels_loop prompt panel_index offset (_ # _) [] = None"
| "check_prompt_panels_loop prompt panel_index offset (expected # es) (panel # ps) =
     (if pq_logical_panel_ordinal panel \<noteq> panel_index \<or> pq_prompt_token_offset panel \<noteq> offset \<or>
         pq_first_position panel \<noteq> op_first_position expected \<or>
         pq_end_position panel \<noteq> op_end_position expected \<or>
         length (pq_steps panel) \<noteq> op_token_count expected
      then None
      else if \<not> list_all (\<lambda>i. placeholder_step (op_first_position expected + i) (prompt ! (offset + i)) (pq_steps panel ! i))
             [0..<length (pq_steps panel)]
      then None
      else check_prompt_panels_loop prompt (Suc panel_index) (offset + op_token_count expected) es ps)"

definition prefill_whole_request ::
  "build_config \<Rightarrow> nat list \<Rightarrow> 'w prompt_function \<Rightarrow> prefill_plan \<Rightarrow> generation_control \<Rightarrow> 'w \<Rightarrow>
   (generation_control \<times> prefill_progress, 'w) gen" where
  "prefill_whole_request cfg prompt whole_request topology control w =
     (case whole_request prompt topology
        \<lparr>qo_measure_timing = True, qo_retain_last_hidden_for_logits = True\<rparr> w of
        (Inl e, w) \<Rightarrow> gthrow_guarded ''whole_request_callback_exception'' e w
      | (Inr (value, status), w) \<Rightarrow>
          (case outcome_ok (value, status) of
             None \<Rightarrow> gfail_status GcRunnerFailure status w
           | Some result \<Rightarrow>
               if qr_logical_panel_count result \<noteq> pl_panel_count topology \<or>
                  length (qr_panels result) \<noteq> pl_panel_count topology \<or>
                  qr_prompt_token_count result \<noteq> length prompt \<or>
                  \<not> complete_uncommitted_whole_request_prefill_progress cfg topology (qr_progress result)
               then gfail GcUnexpectedStep w
               else case qr_timing result of
                 None \<Rightarrow> gfail GcMissingTiming w
               | Some elapsed \<Rightarrow>
                   if bad_elapsed elapsed then gfail GcUnexpectedStep w
                   else case check_prompt_panels_loop prompt 0 0
                          (take (pl_panel_count topology) (pl_panels topology)) (qr_panels result) of
                     None \<Rightarrow> gfail GcUnexpectedStep w
                   | Some offset \<Rightarrow>
                       if offset \<noteq> length prompt then gfail GcUnexpectedStep w
                       else
                         (let timing = gc_timing control in
                          (Inr (control\<lparr>gc_steps := gc_steps control @ concat (map pq_steps (qr_panels result)),
                                  gc_timing := timing\<lparr>gt_prefix_execution := gt_prefix_execution timing @ [elapsed],
                                                      gt_prompt_prefill := elapsed\<rparr>\<rparr>,
                                qr_progress result), w))))"

subsection \<open>Prefix tiles and prefix steps\<close>

text \<open>One more execution of the prefix: its time is added, and the sum must stay finite.\<close>

definition account_prefix :: "double \<Rightarrow> generation_control \<Rightarrow> 'w \<Rightarrow> (generation_control, 'w) gen" where
  "account_prefix elapsed control w =
     (let timing = gc_timing control; total = add_double (gt_prompt_prefill timing) elapsed in
      if \<not> isfinite total then gfail GcUnexpectedStep w
      else (Inr (control\<lparr>gc_timing := timing\<lparr>gt_prefix_execution := gt_prefix_execution timing @ [elapsed],
                                             gt_prompt_prefill := total\<rparr>\<rparr>), w))"

definition tile_step_ok :: "nat \<Rightarrow> nat \<Rightarrow> reference_step \<Rightarrow> bool" where
  "tile_step_ok position token step \<longleftrightarrow>
     \<not> (sr_position step \<noteq> position \<or> sr_input_token_id step \<noteq> token \<or> sr_logits step \<noteq> None \<or>
        sr_prediction step \<noteq> None \<or> (case sr_timing step of None \<Rightarrow> False | Some ms \<Rightarrow> bad_elapsed ms))"

definition prefix_tile_step ::
  "generation_options \<Rightarrow> 'w tile_function \<Rightarrow> nat list \<Rightarrow> bool \<Rightarrow> generation_control \<Rightarrow> 'w \<Rightarrow>
   (generation_control, 'w) gen" where
  "prefix_tile_step opt prefix_tile tokens retain control w =
     (case prefix_tile tokens \<lparr>to_measure_timing = True, to_retain_last_hidden_for_logits = retain\<rparr> w of
        (Inl e, w) \<Rightarrow> gthrow e w
      | (Inr (value, status), w) \<Rightarrow>
          (case outcome_ok (value, status) of
             None \<Rightarrow> gfail_status GcRunnerFailure status w
           | Some result \<Rightarrow>
               (case tr_timing result of
                  None \<Rightarrow> gfail GcMissingTiming w
                | Some elapsed \<Rightarrow>
                    if tr_step_count result \<noteq> length tokens then gfail GcUnexpectedStep w
                    else if bad_elapsed elapsed then gfail GcUnexpectedStep w
                    else if \<not> list_all (\<lambda>i. tile_step_ok (length (gc_steps control) + i) (tokens ! i) (tr_steps result ! i))
                              [0..<length tokens]
                    then gfail GcUnexpectedStep w
                    else account_prefix elapsed
                      (control\<lparr>gc_steps := gc_steps control @ map ((!) (tr_steps result)) [0..<length tokens]\<rparr>) w)))"

definition prefix_tile_size :: "generation_options \<Rightarrow> nat \<Rightarrow> nat \<Rightarrow> nat" where
  "prefix_tile_size opt remaining chunk =
     (if go_prefill_single_arbitrary_tile opt then next_single_arbitrary_prefix_tile_token_count remaining chunk
      else next_prefix_tile_token_count remaining chunk)"

lemma prefix_tile_size_bounds:
  assumes "0 < remaining" "0 < chunk"
  shows "0 < prefix_tile_size opt remaining chunk" "prefix_tile_size opt remaining chunk \<le> remaining"
  using assms next_prefix_tile_bounds [OF assms]
  by (auto simp: prefix_tile_size_def next_single_arbitrary_prefix_tile_token_count_def)

text \<open>
  The loop over the tiles of the remaining prefix. It is entered with a chunk of at least two tokens; the
  last tile retains its hidden row when the whole prompt is admitted.
\<close>

function prefix_tiles ::
  "generation_options \<Rightarrow> 'w tile_function \<Rightarrow> nat \<Rightarrow> nat list \<Rightarrow> generation_control \<Rightarrow> 'w \<Rightarrow> (generation_control, 'w) gen" where
  "prefix_tiles opt prefix_tile chunk tokens control w =
     (if tokens = [] \<or> chunk = 0 then (Inr control, w)
      else
        (let n = prefix_tile_size opt (length tokens) chunk in
         gthen (prefix_tile_step opt prefix_tile (take n tokens)
                  (go_prefill_all_prompt_tokens opt \<and> n = length tokens) control w)
           (\<lambda>control w. prefix_tiles opt prefix_tile chunk (drop n tokens) control w)))"
  by auto
termination
  by (relation "measure (\<lambda>(opt, prefix_tile, chunk, tokens, control, w). length tokens)")
     (use prefix_tile_size_bounds(1) in \<open>auto simp: gthen_def\<close>)

declare prefix_tiles.simps [simp del]

fun prefix_steps ::
  "generation_options \<Rightarrow> 'w step_function \<Rightarrow> nat list \<Rightarrow> generation_control \<Rightarrow> 'w \<Rightarrow> (generation_control, 'w) gen" where
  "prefix_steps opt prefix_step [] control w = (Inr control, w)"
| "prefix_steps opt prefix_step (token # tokens) control w =
     gthen (execute opt gthrow prefix_step token False control w)
       (\<lambda>(elapsed, _, control) w. gthen (account_prefix elapsed control w)
          (\<lambda>control w. prefix_steps opt prefix_step tokens control w))"

subsection \<open>Finishing the prompt\<close>

definition commit_whole_request_prefill ::
  "build_config \<Rightarrow> 'w host \<Rightarrow> 'w commit_function \<Rightarrow> prefill_plan \<Rightarrow> prefill_progress \<Rightarrow> generation_control \<Rightarrow> 'w \<Rightarrow>
   (generation_control, 'w) gen" where
  "commit_whole_request_prefill cfg host commit topology progress control w =
     (if pg_prefill_state_committed progress then gfail GcUnexpectedStep w
      else case commit topology progress w of (status, w) \<Rightarrow>
        if \<not> runner_ok status then gfail_status GcRunnerFailure status w
        else
         (let (commit_elapsed, w) = h_elapsed host w; timing = gc_timing control;
              (error, progress') = publish_prefill_state_committed cfg topology progress in
          if error \<noteq> PgNone \<or> \<not> pg_prefill_state_committed progress' then gfail GcUnexpectedStep w
          else (Inr (control\<lparr>gc_timing := timing\<lparr>gt_commit_prefill := commit_elapsed,
                  gt_prompt_prefill := add_double (gt_prompt_prefill timing) commit_elapsed\<rparr>\<rparr>), w)))"

text \<open>The final prompt step: the placeholder of an admitted prompt is replaced by the one with logits.\<close>

definition finish_prompt ::
  "generation_options \<Rightarrow> (callback_exception \<Rightarrow> 'w \<Rightarrow> (double \<times> nat \<times> generation_control, 'w) gen) \<Rightarrow>
   'w step_function \<Rightarrow> nat \<Rightarrow> generation_control \<Rightarrow> 'w \<Rightarrow> (nat \<times> generation_control, 'w) gen" where
  "finish_prompt opt thrown finish last_token control w =
     (if go_prefill_all_prompt_tokens opt \<and> gc_steps control = [] then gfail GcUnexpectedStep w
      else
        gthen (execute opt thrown finish last_token True
                 (if go_prefill_all_prompt_tokens opt then control\<lparr>gc_steps := butlast (gc_steps control)\<rparr> else control) w)
          (\<lambda>(elapsed, predicted, control) w.
             (let timing = gc_timing control; total = add_double (gt_prompt_prefill timing) elapsed in
              if \<not> isfinite total then gfail GcUnexpectedStep w
              else (Inr (predicted, control\<lparr>gc_timing := timing\<lparr>gt_finish_prefill := elapsed, gt_prompt_prefill := total\<rparr>\<rparr>), w))))"

subsection \<open>Decoding\<close>

text \<open>The decode loop; \<open>k\<close> is the number of tokens that are still allowed, one per iteration.\<close>

primrec decode_steps ::
  "nat \<Rightarrow> generation_options \<Rightarrow> 'w host \<Rightarrow> 'w step_function \<Rightarrow> generation_control \<Rightarrow> 'w \<Rightarrow> (generation_control, 'w) gen" where
  "decode_steps 0 opt host decode_step control w = (Inr control, w)"
| "decode_steps (Suc k) opt host decode_step control w =
     gthen (execute opt gthrow decode_step (last (gc_generated_token_ids control)) True control w)
       (\<lambda>(elapsed, predicted, control) w.
          (let timing = gc_timing control;
               decode_after_first = add_double (gt_decode_after_first timing) elapsed;
               total_generation = add_double (gt_total_generation timing) elapsed in
           if \<not> isfinite decode_after_first \<or> \<not> isfinite total_generation then gfail GcUnexpectedStep w
           else
             (let control = control\<lparr>gc_timing := timing\<lparr>gt_subsequent_token := gt_subsequent_token timing @ [elapsed],
                    gt_decode_after_first := decode_after_first, gt_total_generation := total_generation\<rparr>\<rparr>;
                  (continue, control, w) = commit_token host predicted elapsed control w in
              if predicted = go_stop_token_id opt then (Inr (control\<lparr>gc_stop_reason := SImEnd\<rparr>), w)
              else if \<not> continue then (Inr (control\<lparr>gc_stop_reason := SCancelled\<rparr>), w)
              else decode_steps k opt host decode_step control w)))"

subsection \<open>The controller\<close>

definition checked_required_steps :: "nat \<Rightarrow> nat \<Rightarrow> nat option" where
  "checked_required_steps prompt_tokens max_new_tokens =
     (let additional = max_new_tokens - 1 in
      if additional > 2 ^ 64 - 1 - prompt_tokens then None else Some (prompt_tokens + additional))"

definition invalid_generation_request :: "generation_options \<Rightarrow> 'w callbacks \<Rightarrow> nat list \<Rightarrow> bool" where
  "invalid_generation_request opt cbs prompt \<longleftrightarrow>
     (let whole = go_prefill_whole_request_layer_major opt;
          invalid_whole_request_prefill = (whole \<and>
            (\<not> go_prefill_all_prompt_tokens opt \<or> go_capture_trace opt \<or> go_prefill_single_arbitrary_tile opt \<or>
             cb_whole_request cbs = None \<or> cb_finish_whole_request cbs = None \<or> cb_commit_whole_request cbs = None));
          invalid_mlp_schedule =
            (\<not> is_valid_layer_major_prefill_mlp_schedule_tactic (go_prefill_mlp_schedule_tactic opt) \<or>
             (\<not> whole \<and> go_prefill_mlp_schedule_tactic opt \<noteq> PerOperatorPanel));
          invalid_legacy_all_prompt_admission = (go_prefill_all_prompt_tokens opt \<and> \<not> whole \<and>
            (go_capture_trace opt \<or> go_prefill_chunk_size opt \<le> 1 \<or> cb_finish_prefill_from_tile cbs = None)) in
      prompt = [] \<or> go_max_new_tokens opt = 0 \<or> go_max_sequence_length opt = 0 \<or>
      cb_prefix_step cbs = None \<or> cb_finish_prefill cbs = None \<or> cb_decode_step cbs = None \<or>
      go_prefill_chunk_size opt = 0 \<or> kMaximumRequestPrefillChunkSize < go_prefill_chunk_size opt \<or>
      kReferenceVocabularySize \<le> go_stop_token_id opt \<or>
      (go_prefill_single_arbitrary_tile opt \<and> \<not> go_prefill_all_prompt_tokens opt) \<or>
      invalid_whole_request_prefill \<or> invalid_mlp_schedule \<or> invalid_legacy_all_prompt_admission)"

definition topology_options :: "generation_options \<Rightarrow> nat list \<Rightarrow> plan_options" where
  "topology_options opt prompt =
     \<lparr>po_first_position = 0, po_prompt_token_count = length prompt,
      po_max_sequence_length = go_max_sequence_length opt,
      po_mlp_schedule_tactic = go_prefill_mlp_schedule_tactic opt\<rparr>"

fun topology_failure :: "plan_error \<Rightarrow> control_error" where
  "topology_failure PeInvalidArgument = GcInvalidArgument"
| "topology_failure PeArithmeticOverflow = GcArithmeticOverflow"
| "topology_failure PeCapacityExceeded = GcCapacityExceeded"
| "topology_failure PeInvalidTopology = GcUnexpectedStep"

definition prefix_tokens :: "generation_options \<Rightarrow> nat list \<Rightarrow> nat list" where
  "prefix_tokens opt prompt = (if go_prefill_all_prompt_tokens opt then prompt else butlast prompt)"

definition effective_prefill_chunk_size :: "generation_options \<Rightarrow> nat" where
  "effective_prefill_chunk_size opt = (if go_capture_trace opt then 1 else go_prefill_chunk_size opt)"

text \<open>The control record before the prompt runs: the execution mode and the counts of the route evidence.\<close>

definition planned_prefix_executions :: "generation_options \<Rightarrow> nat list \<Rightarrow> nat" where
  "planned_prefix_executions opt prompt =
     (let n = length (prefix_tokens opt prompt); chunk = effective_prefill_chunk_size opt in
      if go_prefill_whole_request_layer_major opt then 1
      else if go_prefill_single_arbitrary_tile opt then single_arbitrary_prefix_execution_count n chunk
      else prefix_execution_count n chunk)"

definition start_control :: "generation_options \<Rightarrow> nat list \<Rightarrow> prefill_plan option \<Rightarrow> generation_control" where
  "start_control opt prompt topology =
     (let panels = (case topology of Some plan \<Rightarrow> pl_panel_count plan
            | None \<Rightarrow> planned_prefix_executions opt prompt + (if go_prefill_all_prompt_tokens opt then 0 else 1)) in
      initial_control\<lparr>
        gc_prefill_execution_mode := (if topology \<noteq> None then WholeRequestLayerMajor else LegacyC512Tiled),
        gc_prefill_logical_panel_count := panels,
        gc_prefill_route_layer_pass_count :=
          (if topology \<noteq> None then prefill_route_layer_pass_count panels (go_prefill_mlp_schedule_tactic opt)
           else panels)\<rparr>)"

text \<open>The prompt up to its last token's logits, and its commit.\<close>

definition run_prompt ::
  "build_config \<Rightarrow> 'w host \<Rightarrow> generation_options \<Rightarrow> 'w callbacks \<Rightarrow> nat list \<Rightarrow> prefill_plan option \<Rightarrow> 'w \<Rightarrow>
   (nat \<times> generation_control, 'w) gen" where
  "run_prompt cfg host opt cbs prompt topology w =
     (let control = start_control opt prompt topology; chunk = effective_prefill_chunk_size opt in
      case topology of
        Some plan \<Rightarrow>
          gthen (prefill_whole_request cfg prompt (the (cb_whole_request cbs)) plan control w)
            (\<lambda>(control, progress) w.
               gthen (finish_prompt opt (gthrow_guarded ''whole_request_finalizer_exception'')
                        (the (cb_finish_whole_request cbs)) (last prompt) control w)
                 (\<lambda>(predicted, control) w.
                    gthen (commit_whole_request_prefill cfg host (the (cb_commit_whole_request cbs)) plan progress control w)
                      (\<lambda>control w. (Inr (predicted, control), w))))
      | None \<Rightarrow>
          if 1 < chunk \<and> prefix_tokens opt prompt \<noteq> [] \<and> cb_prefix_tile cbs = None then gfail GcInvalidArgument w
          else
            gthen (if 1 < chunk
                   then prefix_tiles opt (the (cb_prefix_tile cbs)) chunk (prefix_tokens opt prompt) control w
                   else prefix_steps opt (the (cb_prefix_step cbs)) (prefix_tokens opt prompt) control w)
              (\<lambda>control w.
                 finish_prompt opt gthrow
                   (if go_prefill_all_prompt_tokens opt then the (cb_finish_prefill_from_tile cbs)
                    else the (cb_finish_prefill cbs)) (last prompt) control w))"

text \<open>Initialisation of the speculative service after the prompt; its time counts as prefill.\<close>

definition initialize_service ::
  "'w mtp_hooks option \<Rightarrow> nat list \<Rightarrow> generation_control \<Rightarrow> 'w \<Rightarrow> (generation_control, 'w) gen" where
  "initialize_service mtp prompt control w =
     (case mtp of None \<Rightarrow> (Inr control, w)
      | Some service \<Rightarrow>
          (case mh_initialize service prompt w of ((status, ms), w) \<Rightarrow>
             if \<not> runner_ok status then gfail_status GcRunnerFailure status w
             else
              (let timing = gc_timing control; prefix = gt_prefix_execution timing in
               if prefix = [] then (Inl UndefinedRead, w)
               else (Inr (control\<lparr>gc_timing := timing\<lparr>
                       gt_prefix_execution := butlast prefix @ [add_double (last prefix) ms],
                       gt_prompt_prefill := add_double (gt_prompt_prefill timing) ms\<rparr>\<rparr>), w))))"

definition run_decode ::
  "'w mtp_hooks option \<Rightarrow> 'w host \<Rightarrow> generation_options \<Rightarrow> 'w step_function \<Rightarrow> nat \<Rightarrow> generation_control \<Rightarrow> 'w \<Rightarrow>
   (generation_control, 'w) gen" where
  "run_decode mtp host opt decode_step predicted control w =
     (let timing = gc_timing control; prefill = gt_prompt_prefill timing;
          control = control\<lparr>gc_timing := timing\<lparr>gt_time_to_first_token := prefill, gt_total_generation := prefill\<rparr>\<rparr>;
          (continue, control, w) = commit_token host predicted prefill control w in
      if predicted = go_stop_token_id opt then (Inr (control\<lparr>gc_stop_reason := SImEnd\<rparr>), w)
      else if \<not> continue then (Inr (control\<lparr>gc_stop_reason := SCancelled\<rparr>), w)
      else case mtp of
        Some service \<Rightarrow>
          (case mh_decode service control opt w of ((status, control), w) \<Rightarrow>
             if runner_ok status then (Inr control, w) else gfail_status GcRunnerFailure status w)
      | None \<Rightarrow> decode_steps (go_max_new_tokens opt - length (gc_generated_token_ids control)) opt host
                  decode_step control w)"

definition run_generation_control ::
  "build_config \<Rightarrow> 'w mtp_hooks option \<Rightarrow> 'w host \<Rightarrow> generation_options \<Rightarrow> 'w callbacks \<Rightarrow> nat list \<Rightarrow> 'w \<Rightarrow>
   (generation_control, 'w) gen" where
  "run_generation_control cfg mtp host opt cbs prompt w =
     (if invalid_generation_request opt cbs prompt then gfail GcInvalidArgument w
      else if list_ex (\<lambda>token. kReferenceVocabularySize \<le> token) prompt then gfail GcInvalidArgument w
      else case checked_required_steps (length prompt) (go_max_new_tokens opt) of
        None \<Rightarrow> gfail GcArithmeticOverflow w
      | Some required_steps \<Rightarrow>
          if go_max_sequence_length opt < required_steps then gfail GcCapacityExceeded w
          else
           (let run = (\<lambda>topology. gthen (run_prompt cfg host opt cbs prompt topology w)
                  (\<lambda>(predicted, control) w. gthen (initialize_service mtp prompt control w)
                     (\<lambda>control w. run_decode mtp host opt (the (cb_decode_step cbs)) predicted control w))) in
            if go_prefill_whole_request_layer_major opt
            then (case build_unbound_layer_major_prefill_execution_plan cfg (topology_options opt prompt) of
                    Inl e \<Rightarrow> gfail (topology_failure e) w
                  | Inr plan \<Rightarrow> if plan_executable plan then gfail GcUnexpectedStep w else run (Some plan))
            else run None))"

text \<open>The compatibility entry point: one callback for every step, and a tile callback.\<close>

definition run_generation_control_step ::
  "build_config \<Rightarrow> 'w mtp_hooks option \<Rightarrow> 'w host \<Rightarrow> generation_options \<Rightarrow> 'w step_function option \<Rightarrow> 'w tile_function option \<Rightarrow>
   nat list \<Rightarrow> 'w \<Rightarrow> (generation_control, 'w) gen" where
  "run_generation_control_step cfg mtp host opt step tile prompt w =
     run_generation_control cfg mtp host opt
       \<lparr>cb_prefix_step = step, cb_finish_prefill = step, cb_prefix_tile = tile, cb_finish_prefill_from_tile = None,
        cb_whole_request = None, cb_finish_whole_request = None, cb_commit_whole_request = None,
        cb_decode_step = step\<rparr> prompt w"

definition generated_text_token_count :: "nat list \<Rightarrow> stop_reason \<Rightarrow> nat \<Rightarrow> nat" where
  "generated_text_token_count generated reason stop_token_id =
     (if reason = SImEnd \<and> generated \<noteq> [] \<and> last generated = stop_token_id
      then length generated - 1 else length generated)"

fun control_error_to_string :: "control_error option \<Rightarrow> string" where
  "control_error_to_string None = ''none''"
| "control_error_to_string (Some GcInvalidArgument) = ''invalid_argument''"
| "control_error_to_string (Some GcCapacityExceeded) = ''capacity_exceeded''"
| "control_error_to_string (Some GcArithmeticOverflow) = ''arithmetic_overflow''"
| "control_error_to_string (Some GcRunnerFailure) = ''runner_failure''"
| "control_error_to_string (Some GcUnexpectedStep) = ''unexpected_step''"
| "control_error_to_string (Some GcMissingLogits) = ''missing_logits''"
| "control_error_to_string (Some GcMissingTiming) = ''missing_timing''"
| "control_error_to_string (Some GcAllocationFailure) = ''allocation_failure''"
| "control_error_to_string (Some GcMissingPrediction) = ''missing_prediction''"

end
