(* ===== verification/Generation_Correct.thy ===== *)
theory Generation_Correct
  imports Generation_Control
begin

text \<open>
  Correctness of the generation controller without a speculative service. A successful generation returns
  the transcript of one greedy run: every step reads the next token of the prompt and then of the output, at
  consecutive positions, and every generated token is the prediction of the step before it. The timings
  account for every execution. The rest of the theory is about the whole-request commit and about what the
  controller hands to its callbacks.
\<close>

subsection \<open>Successful steps\<close>

lemma gthen_Inr: "gthen r f = (Inr b, w') \<longleftrightarrow> (\<exists>a w. r = (Inr a, w) \<and> f a w = (Inr b, w'))"
  by (auto simp: gthen_def split: prod.splits sum.splits)

lemma failures_not_Inr [simp]:
  "gfail e w \<noteq> (Inr a, w')" "gfail_status e st w \<noteq> (Inr a, w')" "gthrow x w \<noteq> (Inr a, w')"
  "gthrow_guarded s x w \<noteq> (Inr a, w')"
  by (auto simp: gfail_def gfail_status_def gthrow_def gthrow_guarded_def)

definition predicted_token :: "generation_options \<Rightarrow> reference_step \<Rightarrow> nat option" where
  "predicted_token opt step =
     (case go_logits_mode opt of FullStatistics \<Rightarrow> map_option lg_predicted_token_id (sr_logits step)
      | PredictedTokenOnly \<Rightarrow> sr_prediction step)"

definition step_read :: "nat \<Rightarrow> nat \<Rightarrow> reference_step \<Rightarrow> bool" where
  "step_read position token step \<longleftrightarrow> sr_position step = position \<and> sr_input_token_id step = token"

lemma check_step_ok:
  assumes "check_step opt position token logits step = Inr (ms, p)"
  shows "step_read position token step" "\<not> bad_elapsed ms"
    "logits \<Longrightarrow> predicted_token opt step = Some p \<and> p < kReferenceVocabularySize"
  using assms
  by (auto simp: check_step_def step_read_def predicted_token_def split: if_splits option.splits logits_mode.splits)

lemma execute_ok:
  assumes "execute opt thrown phase token logits c w = (Inr (ms, p, c'), w')" "\<And>e w a w'. thrown e w \<noteq> (Inr a, w')"
  obtains step where "c' = c\<lparr>gc_steps := gc_steps c @ [step]\<rparr>" "step_read (length (gc_steps c)) token step"
    "\<not> bad_elapsed ms" "logits \<Longrightarrow> predicted_token opt step = Some p \<and> p < kReferenceVocabularySize"
  using assms
  by (fastforce simp: execute_def split: prod.splits sum.splits option.splits dest: check_step_ok)

subsection \<open>The prefix\<close>

text \<open>The prefix has read the given tokens, in executions of the given times, and changed nothing else.\<close>

definition prefix_extended ::
  "nat list \<Rightarrow> double list \<Rightarrow> generation_control \<Rightarrow> generation_control \<Rightarrow> bool" where
  "prefix_extended tokens durations c c' \<longleftrightarrow>
     (\<exists>steps. c' = c\<lparr>gc_steps := gc_steps c @ steps, gc_timing := (gc_timing c)\<lparr>
          gt_prefix_execution := gt_prefix_execution (gc_timing c) @ durations,
          gt_prompt_prefill := foldl add_double (gt_prompt_prefill (gc_timing c)) durations\<rparr>\<rparr> \<and>
        map sr_input_token_id steps = tokens \<and>
        map sr_position steps = [length (gc_steps c)..<length (gc_steps c) + length tokens]) \<and>
     list_all (\<lambda>t. \<not> bad_elapsed t) durations"

lemma prefix_extended_refl: "prefix_extended [] [] c c"
  by (auto simp: prefix_extended_def)

lemma prefix_extended_trans:
  assumes "prefix_extended xs ts c c'" "prefix_extended ys us c' c''"
  shows "prefix_extended (xs @ ys) (ts @ us) c c''"
proof -
  from assms(1) obtain s where s:
    "c' = c\<lparr>gc_steps := gc_steps c @ s, gc_timing := (gc_timing c)\<lparr>
       gt_prefix_execution := gt_prefix_execution (gc_timing c) @ ts,
       gt_prompt_prefill := foldl add_double (gt_prompt_prefill (gc_timing c)) ts\<rparr>\<rparr>"
    "map sr_input_token_id s = xs" "map sr_position s = [length (gc_steps c)..<length (gc_steps c) + length xs]"
    by (auto simp: prefix_extended_def)
  then have len: "length s = length xs" by auto
  from assms(2) obtain s' where s':
    "c'' = c'\<lparr>gc_steps := gc_steps c' @ s', gc_timing := (gc_timing c')\<lparr>
       gt_prefix_execution := gt_prefix_execution (gc_timing c') @ us,
       gt_prompt_prefill := foldl add_double (gt_prompt_prefill (gc_timing c')) us\<rparr>\<rparr>"
    "map sr_input_token_id s' = ys" "map sr_position s' = [length (gc_steps c')..<length (gc_steps c') + length ys]"
    by (auto simp: prefix_extended_def)
  have "map sr_position (s @ s') = [length (gc_steps c)..<length (gc_steps c) + length (xs @ ys)]"
    using s s' len upt_add_eq_append [of "length (gc_steps c)" "length (gc_steps c) + length xs" "length ys"]
    by (simp add: add.assoc)
  moreover have "c'' = c\<lparr>gc_steps := gc_steps c @ s @ s', gc_timing := (gc_timing c)\<lparr>
       gt_prefix_execution := gt_prefix_execution (gc_timing c) @ ts @ us,
       gt_prompt_prefill := foldl add_double (gt_prompt_prefill (gc_timing c)) (ts @ us)\<rparr>\<rparr>"
    using s(1) s'(1) by simp
  moreover have "map sr_input_token_id (s @ s') = xs @ ys" using s s' by simp
  ultimately show ?thesis
    using assms unfolding prefix_extended_def by (metis list_all_append)
qed

lemma account_prefix_ok:
  assumes "account_prefix ms (c\<lparr>gc_steps := gc_steps c @ steps\<rparr>) w = (Inr c', w')" "\<not> bad_elapsed ms"
    "map sr_input_token_id steps = tokens"
    "map sr_position steps = [length (gc_steps c)..<length (gc_steps c) + length tokens]"
  shows "prefix_extended tokens [ms] c c'"
  using assms by (auto simp: account_prefix_def prefix_extended_def Let_def split: if_splits)

lemma prefix_steps_extended:
  assumes "prefix_steps opt f tokens c w = (Inr c', w')"
  shows "\<exists>durations. length durations = length tokens \<and> prefix_extended tokens durations c c'"
  using assms
proof (induction opt f tokens c w rule: prefix_steps.induct)
  case 1
  then show ?case by (simp add: prefix_extended_refl)
next
  case (2 opt f token tokens c w)
  then obtain ms p c1 w1 c2 w2 where ex: "execute opt gthrow f token False c w = (Inr (ms, p, c1), w1)"
    and acc: "account_prefix ms c1 w1 = (Inr c2, w2)" and rest: "prefix_steps opt f tokens c2 w2 = (Inr c', w')"
    by (fastforce simp: gthen_Inr)
  from ex obtain step where step: "c1 = c\<lparr>gc_steps := gc_steps c @ [step]\<rparr>"
    "step_read (length (gc_steps c)) token step" "\<not> bad_elapsed ms"
    by (rule execute_ok) auto
  have "prefix_extended [token] [ms] c c2"
    using acc step by (intro account_prefix_ok) (auto simp: step_read_def)
  moreover obtain durations where "length durations = length tokens" "prefix_extended tokens durations c2 c'"
    using "2.IH" ex acc rest by blast
  ultimately show ?case
    using prefix_extended_trans [of "[token]" "[ms]" c c2 tokens durations c'] by (intro exI [of _ "ms # durations"]) simp
qed

text \<open>The number of tiles the loop runs is the count the controller planned.\<close>

definition planned_tiles :: "generation_options \<Rightarrow> nat \<Rightarrow> nat \<Rightarrow> nat" where
  "planned_tiles opt n chunk =
     (if go_prefill_single_arbitrary_tile opt then single_arbitrary_prefix_execution_count n chunk
      else prefix_execution_count n chunk)"

lemma prefix_tile_loop_count: "prefix_tile_loop chunk n k = k + prefix_tile_loop chunk n 0"
proof (induction n arbitrary: k rule: less_induct)
  case (less n)
  show ?case
  proof (cases "n \<noteq> 0 \<and> 0 < chunk")
    case True
    let ?m = "n - next_prefix_tile_token_count n chunk"
    have "?m < n" using True next_prefix_tile_bounds [of n chunk] by simp
    then have "prefix_tile_loop chunk ?m (Suc j) = Suc j + prefix_tile_loop chunk ?m 0" for j
      by (rule less.IH)
    then show ?thesis using True by (simp add: prefix_tile_loop.simps [of chunk n])
  qed (auto simp: prefix_tile_loop.simps [of chunk n])
qed

lemma planned_tiles_0 [simp]: "planned_tiles opt 0 chunk = 0"
  by (simp add: planned_tiles_def single_arbitrary_prefix_execution_count_def prefix_execution_count_def
      prefix_tile_loop.simps)

lemma planned_tiles_step:
  assumes "0 < n" "1 < chunk"
  shows "planned_tiles opt n chunk = Suc (planned_tiles opt (n - prefix_tile_size opt n chunk) chunk)"
proof (cases "go_prefill_single_arbitrary_tile opt")
  case True
  have "n div chunk = Suc ((n - chunk) div chunk)" "(n - chunk) mod chunk = n mod chunk" if "chunk \<le> n"
    using that assms by (simp_all add: le_div_geq le_mod_geq)
  then show ?thesis
    using True assms by (auto simp: planned_tiles_def prefix_tile_size_def single_arbitrary_prefix_execution_count_def
        next_single_arbitrary_prefix_tile_token_count_def)
next
  case False
  then show ?thesis
    using assms prefix_tile_loop_count [of chunk "n - next_prefix_tile_token_count n chunk" 1]
    by (simp add: planned_tiles_def prefix_tile_size_def prefix_execution_count_def prefix_tile_loop.simps [of chunk n])
qed

lemma planned_prefix_executions_alt:
  "planned_prefix_executions opt prompt =
     (if go_prefill_whole_request_layer_major opt then 1
      else planned_tiles opt (length (prefix_tokens opt prompt)) (effective_prefill_chunk_size opt))"
  by (simp add: planned_prefix_executions_def planned_tiles_def Let_def)

lemma prefix_tile_step_extended:
  assumes "prefix_tile_step opt f tokens retain c w = (Inr c', w')"
  shows "\<exists>ms. prefix_extended tokens [ms] c c'"
proof -
  from assms obtain result :: tile_result and ms w1 where
    ok: "list_all (\<lambda>i. tile_step_ok (length (gc_steps c) + i) (tokens ! i) (tr_steps result ! i)) [0..<length tokens]"
    and ms: "\<not> bad_elapsed ms"
    and acc: "account_prefix ms (c\<lparr>gc_steps := gc_steps c @ map ((!) (tr_steps result)) [0..<length tokens]\<rparr>) w1 = (Inr c', w')"
    unfolding prefix_tile_step_def
    by (clarsimp split: prod.splits sum.splits option.splits if_splits)
  have "map sr_input_token_id (map ((!) (tr_steps result)) [0..<length tokens]) = tokens"
    using ok by (intro nth_equalityI) (auto simp: list_all_iff tile_step_ok_def)
  moreover have "map sr_position (map ((!) (tr_steps result)) [0..<length tokens]) =
      [length (gc_steps c)..<length (gc_steps c) + length tokens]"
    using ok by (intro nth_equalityI) (auto simp: list_all_iff tile_step_ok_def)
  ultimately show ?thesis using account_prefix_ok [OF acc ms] by blast
qed

lemma prefix_tiles_extended:
  assumes "prefix_tiles opt f chunk tokens c w = (Inr c', w')" "1 < chunk"
  shows "\<exists>durations. length durations = planned_tiles opt (length tokens) chunk \<and> prefix_extended tokens durations c c'"
  using assms
proof (induction "length tokens" arbitrary: tokens c w rule: less_induct)
  case less
  show ?case
  proof (cases "tokens = []")
    case True
    then show ?thesis using less.prems by (simp add: prefix_tiles.simps prefix_extended_refl)
  next
    case False
    let ?n = "prefix_tile_size opt (length tokens) chunk"
    have n: "0 < ?n" "?n \<le> length tokens"
      using False less.prems(2) prefix_tile_size_bounds [of "length tokens" chunk opt] by auto
    then have shorter: "length (drop ?n tokens) < length tokens" using False by simp
    from less.prems False obtain c1 w1 where
      tile: "prefix_tile_step opt f (take ?n tokens) (go_prefill_all_prompt_tokens opt \<and> ?n = length tokens) c w = (Inr c1, w1)"
      and rest: "prefix_tiles opt f chunk (drop ?n tokens) c1 w1 = (Inr c', w')"
      by (subst (asm) prefix_tiles.simps) (auto simp: Let_def gthen_Inr)
    obtain ms where ms: "prefix_extended (take ?n tokens) [ms] c c1"
      using prefix_tile_step_extended [OF tile] by blast
    obtain durations where d: "length durations = planned_tiles opt (length (drop ?n tokens)) chunk"
      "prefix_extended (drop ?n tokens) durations c1 c'"
      using less.hyps [OF shorter rest less.prems(2)] by blast
    have "prefix_extended tokens (ms # durations) c c'"
      using prefix_extended_trans [OF ms d(2)] by simp
    moreover have "length (ms # durations) = planned_tiles opt (length tokens) chunk"
      using d(1) False less.prems(2) by (simp add: planned_tiles_step [of "length tokens"])
    ultimately show ?thesis by blast
  qed
qed

subsection \<open>The whole prompt\<close>

text \<open>The panels of a whole-request result hold exactly the steps of the prompt.\<close>

lemma check_prompt_panels_ok:
  assumes "check_prompt_panels_loop prompt i offset (panels_of j offset ns) ps = Some offset'" "length ps = length ns"
  shows "offset' = offset + sum_list ns \<and>
    map sr_input_token_id (concat (map pq_steps ps)) = map ((!) prompt) [offset..<offset'] \<and>
    map sr_position (concat (map pq_steps ps)) = [offset..<offset']"
  using assms
proof (induction ns arbitrary: i j offset ps)
  case Nil
  then show ?case by simp
next
  case (Cons n ns)
  then obtain q qs where ps: "ps = q # qs" by (cases ps) auto
  let ?steps = "pq_steps q"
  have ok: "length ?steps = n"
    "list_all (\<lambda>k. placeholder_step (offset + k) (prompt ! (offset + k)) (?steps ! k)) [0..<length ?steps]"
    and rest: "check_prompt_panels_loop prompt (Suc i) (offset + n) (panels_of (Suc j) (offset + n) ns) qs = Some offset'"
    using Cons.prems(1) by (auto simp: ps split: if_splits)
  have here: "map sr_input_token_id ?steps = map ((!) prompt) [offset..<offset + n]"
    "map sr_position ?steps = [offset..<offset + n]"
    using ok by (auto simp: list_all_iff placeholder_step_def intro!: nth_equalityI)
  have "offset' = offset + n + sum_list ns \<and>
      map sr_input_token_id (concat (map pq_steps qs)) = map ((!) prompt) [offset + n..<offset'] \<and>
      map sr_position (concat (map pq_steps qs)) = [offset + n..<offset']"
    using Cons.IH [OF rest] Cons.prems(2) by (simp add: ps)
  then show ?case
    using here upt_add_eq_append [of offset "offset + n" "sum_list ns"]
    by (simp add: ps add.assoc)
qed

lemma topology_panels:
  assumes "build_plan cfg (topology_options opt prompt) = Inr plan"
  defines "ns \<equiv> pieces (next_panel_token_count (go_prefill_mlp_schedule_tactic opt))
     (expected_panel_count (go_prefill_mlp_schedule_tactic opt) (length prompt)) (length prompt)"
  shows "take (pl_panel_count plan) (pl_panels plan) = panels_of 0 0 ns" "length ns = pl_panel_count plan"
    "sum_list ns = length prompt"
proof -
  note inr = build_plan_InrD [OF assms(1)]
  note fields = built_plan_fields [OF wellformed_panel_count(2) [OF inr(1,2)], of cfg, folded inr(3)]
  show "take (pl_panel_count plan) (pl_panels plan) = panels_of 0 0 ns" "length ns = pl_panel_count plan"
    by (simp_all add: fields topology_options_def ns_def)
  show "sum_list ns = length prompt"
    unfolding ns_def by (rule panel.pieces_sum) (rule expected_panel_count_needed)
qed

lemma prefill_whole_request_ok:
  assumes "prefill_whole_request cfg prompt f plan c w = (Inr (c', progress), w')"
    "build_plan cfg (topology_options opt prompt) = Inr plan" "gc_steps c = []"
  obtains ms where "\<not> bad_elapsed ms" "map sr_input_token_id (gc_steps c') = prompt"
    "map sr_position (gc_steps c') = [0..<length prompt]"
    "c' = c\<lparr>gc_steps := gc_steps c', gc_timing := (gc_timing c)\<lparr>
       gt_prefix_execution := gt_prefix_execution (gc_timing c) @ [ms], gt_prompt_prefill := ms\<rparr>\<rparr>"
    "complete_uncommitted_whole_request_prefill_progress cfg plan progress"
proof -
  note panels = topology_panels [OF assms(2)]
  from assms(1) obtain result :: prompt_result and ms where ms: "\<not> bad_elapsed ms" and len: "length (qr_panels result) = pl_panel_count plan"
    and loop: "check_prompt_panels_loop prompt 0 0 (take (pl_panel_count plan) (pl_panels plan)) (qr_panels result) =
      Some (length prompt)"
    and c': "c' = c\<lparr>gc_steps := gc_steps c @ concat (map pq_steps (qr_panels result)), gc_timing := (gc_timing c)\<lparr>
       gt_prefix_execution := gt_prefix_execution (gc_timing c) @ [ms], gt_prompt_prefill := ms\<rparr>\<rparr>"
    and complete: "complete_uncommitted_whole_request_prefill_progress cfg plan progress"
    unfolding prefill_whole_request_def
    by (clarsimp simp: Let_def split: prod.splits sum.splits option.splits if_splits)
  have "map sr_input_token_id (gc_steps c') = prompt" "map sr_position (gc_steps c') = [0..<length prompt]"
    using check_prompt_panels_ok [OF loop [unfolded panels(1)]] len panels c' assms(3) by (simp_all add: map_nth)
  then show thesis using that ms c' complete by simp
qed

text \<open>The prompt has been read and the last step predicts the first token.\<close>

definition prompt_read :: "generation_options \<Rightarrow> nat list \<Rightarrow> nat \<Rightarrow> generation_control \<Rightarrow> bool" where
  "prompt_read opt prompt p c \<longleftrightarrow>
     map sr_input_token_id (gc_steps c) = prompt \<and> map sr_position (gc_steps c) = [0..<length prompt] \<and>
     predicted_token opt (last (gc_steps c)) = Some p \<and> p < kReferenceVocabularySize \<and>
     gc_generated_token_ids c = [] \<and> gc_stop_reason c = SMaxNewTokens"

definition prompt_accounted :: "generation_options \<Rightarrow> nat list \<Rightarrow> generation_timing \<Rightarrow> bool" where
  "prompt_accounted opt prompt t \<longleftrightarrow>
     length (gt_prefix_execution t) = planned_prefix_executions opt prompt \<and>
     gt_prompt_prefill t =
       (if go_prefill_whole_request_layer_major opt
        then foldl add_double (hd (gt_prefix_execution t)) [gt_finish_prefill t, gt_commit_prefill t]
        else foldl add_double (Finite 0) (gt_prefix_execution t @ [gt_finish_prefill t])) \<and>
     list_all (\<lambda>ms. \<not> bad_elapsed ms) (gt_prefix_execution t @ [gt_finish_prefill t])"

lemma start_control_sel [simp]:
  "gc_steps (start_control opt prompt topology) = []"
  "gc_generated_token_ids (start_control opt prompt topology) = []"
  "gc_stop_reason (start_control opt prompt topology) = SMaxNewTokens"
  "gc_timing (start_control opt prompt topology) = initial_timing"
  by (simp_all add: start_control_def initial_control_def Let_def)

lemma initial_timing_sel [simp]:
  "gt_prefix_execution initial_timing = []" "gt_prompt_prefill initial_timing = Finite 0"
  "gt_subsequent_token initial_timing = []" "gt_decode_after_first initial_timing = Finite 0"
  by (simp_all add: initial_timing_def)

lemma finish_prompt_ok:
  assumes "finish_prompt opt thrown f (last prompt) c w = (Inr (p, c'), w')" "\<And>e w a w'. thrown e w \<noteq> (Inr a, w')"
    "map sr_input_token_id (gc_steps c) = prefix_tokens opt prompt"
    "map sr_position (gc_steps c) = [0..<length (prefix_tokens opt prompt)]" "prompt \<noteq> []"
    "gc_generated_token_ids c = []" "gc_stop_reason c = SMaxNewTokens"
  obtains ms where "prompt_read opt prompt p c'" "\<not> bad_elapsed ms"
    "gc_timing c' = (gc_timing c)\<lparr>gt_finish_prefill := ms,
       gt_prompt_prefill := add_double (gt_prompt_prefill (gc_timing c)) ms\<rparr>"
    "c' = c\<lparr>gc_steps := gc_steps c', gc_timing := gc_timing c'\<rparr>"
proof -
  let ?all = "go_prefill_all_prompt_tokens opt"
  let ?c = "if ?all then c\<lparr>gc_steps := butlast (gc_steps c)\<rparr> else c"
  from assms(1) obtain ms c1 w1 where ex: "execute opt thrown f (last prompt) True ?c w = (Inr (ms, p, c1), w1)"
    and c': "c' = c1\<lparr>gc_timing := (gc_timing c1)\<lparr>gt_finish_prefill := ms,
        gt_prompt_prefill := add_double (gt_prompt_prefill (gc_timing c1)) ms\<rparr>\<rparr>"
    by (auto simp: finish_prompt_def gthen_Inr Let_def split: if_splits)
  from ex obtain step where step: "c1 = ?c\<lparr>gc_steps := gc_steps ?c @ [step]\<rparr>"
    "step_read (length (gc_steps ?c)) (last prompt) step" "\<not> bad_elapsed ms"
    "predicted_token opt step = Some p" "p < kReferenceVocabularySize"
    by (rule execute_ok) (use assms(2) in auto)
  have inputs: "map sr_input_token_id (gc_steps ?c) = butlast prompt"
    using assms(3) by (simp add: prefix_tokens_def map_butlast)
  then have len: "length (gc_steps ?c) = length prompt - 1"
    by (metis length_butlast length_map)
  have "map sr_position (gc_steps ?c) = [0..<length prompt - 1]"
    using assms(4,5) by (cases prompt rule: rev_cases) (auto simp: prefix_tokens_def map_butlast)
  then have "map sr_position (gc_steps c') = [0..<length prompt]"
    using step(1,2) c' len assms(5) by (cases prompt rule: rev_cases) (auto simp: step_read_def)
  then have "prompt_read opt prompt p c'"
    using step c' inputs assms(5-7) by (auto simp: prompt_read_def step_read_def)
  then show thesis
    using that [of ms] step c' by (auto split: if_splits)
qed

lemma commit_whole_request_ok:
  assumes "commit_whole_request_prefill cfg host f plan progress c w = (Inr c', w')"
  obtains ms where "c' = c\<lparr>gc_timing := (gc_timing c)\<lparr>gt_commit_prefill := ms,
      gt_prompt_prefill := add_double (gt_prompt_prefill (gc_timing c)) ms\<rparr>\<rparr>"
  using assms
  by (auto simp: commit_whole_request_prefill_def Let_def split: prod.splits if_splits)

definition topology_for :: "build_config \<Rightarrow> generation_options \<Rightarrow> nat list \<Rightarrow> prefill_plan option \<Rightarrow> bool" where
  "topology_for cfg opt prompt topology \<longleftrightarrow>
     (if go_prefill_whole_request_layer_major opt
      then \<exists>plan. topology = Some plan \<and> build_plan cfg (topology_options opt prompt) = Inr plan
      else topology = None)"

lemma planned_tiles_single_steps: "planned_tiles opt n (Suc 0) = n"
  by (simp add: planned_tiles_def single_arbitrary_prefix_execution_count_def prefix_execution_count_def)

lemma legacy_prompt_ok:
  assumes "run_prompt cfg host opt cbs prompt None w = (Inr (p, c), w')" "prompt \<noteq> []"
    "\<not> invalid_generation_request opt cbs prompt" "\<not> go_prefill_whole_request_layer_major opt"
  shows "prompt_read opt prompt p c \<and> prompt_accounted opt prompt (gc_timing c) \<and>
    gt_subsequent_token (gc_timing c) = [] \<and> gt_decode_after_first (gc_timing c) = Finite 0"
proof -
  let ?chunk = "effective_prefill_chunk_size opt" and ?tokens = "prefix_tokens opt prompt"
  let ?c0 = "start_control opt prompt None"
  have chunk: "0 < ?chunk"
    using assms(3) by (auto simp: invalid_generation_request_def effective_prefill_chunk_size_def Let_def)
  from assms(1) obtain c1 w1 finish where
    pre: "(if 1 < ?chunk then prefix_tiles opt (the (cb_prefix_tile cbs)) ?chunk ?tokens ?c0 w
           else prefix_steps opt (the (cb_prefix_step cbs)) ?tokens ?c0 w) = (Inr c1, w1)"
    and fin: "finish_prompt opt gthrow finish (last prompt) c1 w1 = (Inr (p, c), w')"
    by (auto simp: run_prompt_def Let_def gthen_Inr split: if_splits)
  have "\<exists>durations. length durations = planned_tiles opt (length ?tokens) ?chunk \<and> prefix_extended ?tokens durations ?c0 c1"
  proof (cases "1 < ?chunk")
    case True
    then show ?thesis using pre prefix_tiles_extended by simp
  next
    case False
    then have "?chunk = Suc 0" using chunk by simp
    then show ?thesis using pre prefix_steps_extended [of opt _ ?tokens ?c0 w c1 w1]
      by (simp add: planned_tiles_single_steps)
  qed
  then obtain durations where d: "length durations = planned_prefix_executions opt prompt"
    and ext: "prefix_extended ?tokens durations ?c0 c1"
    using assms(4) by (auto simp: planned_prefix_executions_alt)
  obtain steps where c1: "c1 = ?c0\<lparr>gc_steps := steps, gc_timing := initial_timing\<lparr>
       gt_prefix_execution := durations, gt_prompt_prefill := foldl add_double (Finite 0) durations\<rparr>\<rparr>"
    "map sr_input_token_id steps = ?tokens" "map sr_position steps = [0..<length ?tokens]"
    "list_all (\<lambda>t. \<not> bad_elapsed t) durations"
    using ext by (auto simp: prefix_extended_def)
  from fin obtain ms where "prompt_read opt prompt p c" "\<not> bad_elapsed ms"
    "gc_timing c = (gc_timing c1)\<lparr>gt_finish_prefill := ms,
       gt_prompt_prefill := add_double (gt_prompt_prefill (gc_timing c1)) ms\<rparr>"
    by (rule finish_prompt_ok) (use c1 assms(2) in auto)
  then show ?thesis
    using c1 d assms(4) by (simp add: prompt_accounted_def)
qed

lemma whole_prompt_ok:
  assumes "run_prompt cfg host opt cbs prompt (Some plan) w = (Inr (p, c), w')" "prompt \<noteq> []"
    "\<not> invalid_generation_request opt cbs prompt" "go_prefill_whole_request_layer_major opt"
    "build_plan cfg (topology_options opt prompt) = Inr plan"
  shows "prompt_read opt prompt p c \<and> prompt_accounted opt prompt (gc_timing c) \<and>
    gt_subsequent_token (gc_timing c) = [] \<and> gt_decode_after_first (gc_timing c) = Finite 0"
proof -
  let ?c0 = "start_control opt prompt (Some plan)"
  have all: "go_prefill_all_prompt_tokens opt"
    using assms(3,4) by (auto simp: invalid_generation_request_def Let_def)
  from assms(1) obtain c1 w1 progress c2 w2 where
    pre: "prefill_whole_request cfg prompt (the (cb_whole_request cbs)) plan ?c0 w = (Inr (c1, progress), w1)"
    and fin: "finish_prompt opt (gthrow_guarded ''whole_request_finalizer_exception'')
        (the (cb_finish_whole_request cbs)) (last prompt) c1 w1 = (Inr (p, c2), w2)"
    and com: "commit_whole_request_prefill cfg host (the (cb_commit_whole_request cbs)) plan progress c2 w2 = (Inr c, w')"
    by (auto simp: run_prompt_def Let_def gthen_Inr)
  from pre obtain ms where ms: "\<not> bad_elapsed ms" and read: "map sr_input_token_id (gc_steps c1) = prompt"
    "map sr_position (gc_steps c1) = [0..<length prompt]" and c1: "c1 = ?c0\<lparr>gc_steps := gc_steps c1, gc_timing :=
      (gc_timing ?c0)\<lparr>gt_prefix_execution := gt_prefix_execution (gc_timing ?c0) @ [ms], gt_prompt_prefill := ms\<rparr>\<rparr>"
    by (rule prefill_whole_request_ok [OF _ assms(5)]) auto
  have keep: "gc_generated_token_ids c1 = []" "gc_stop_reason c1 = SMaxNewTokens"
    "gc_timing c1 = initial_timing\<lparr>gt_prefix_execution := [ms], gt_prompt_prefill := ms\<rparr>"
    by (subst c1; simp)+
  from fin obtain ms' where fin': "prompt_read opt prompt p c2" "\<not> bad_elapsed ms'"
    "gc_timing c2 = (gc_timing c1)\<lparr>gt_finish_prefill := ms',
       gt_prompt_prefill := add_double (gt_prompt_prefill (gc_timing c1)) ms'\<rparr>"
    by (rule finish_prompt_ok) (use read keep all assms(2) in \<open>auto simp: prefix_tokens_def\<close>)
  from com obtain ms'' where com': "c = c2\<lparr>gc_timing := (gc_timing c2)\<lparr>gt_commit_prefill := ms'',
      gt_prompt_prefill := add_double (gt_prompt_prefill (gc_timing c2)) ms''\<rparr>\<rparr>"
    by (rule commit_whole_request_ok)
  have "prompt_read opt prompt p c"
    using fin'(1) by (simp add: prompt_read_def com')
  moreover have "planned_prefix_executions opt prompt = 1"
    using assms(4) by (simp add: planned_prefix_executions_def)
  ultimately show ?thesis
    using fin'(2,3) ms keep(3) assms(4) by (simp add: prompt_accounted_def com')
qed

lemma run_prompt_ok:
  assumes "run_prompt cfg host opt cbs prompt topology w = (Inr (p, c), w')" "topology_for cfg opt prompt topology"
    "\<not> invalid_generation_request opt cbs prompt"
  shows "prompt_read opt prompt p c \<and> prompt_accounted opt prompt (gc_timing c) \<and>
    gt_subsequent_token (gc_timing c) = [] \<and> gt_decode_after_first (gc_timing c) = Finite 0"
proof -
  have "prompt \<noteq> []" using assms(3) by (auto simp: invalid_generation_request_def Let_def)
  then show ?thesis
    using assms legacy_prompt_ok whole_prompt_ok by (fastforce simp: topology_for_def split: if_splits)
qed

subsection \<open>Decoding\<close>

definition transcript :: "generation_options \<Rightarrow> nat list \<Rightarrow> generation_control \<Rightarrow> bool" where
  "transcript opt prompt c \<longleftrightarrow>
     (let generated = gc_generated_token_ids c; steps = gc_steps c in
      generated \<noteq> [] \<and> set generated \<subseteq> {..<kReferenceVocabularySize} \<and>
      map sr_input_token_id steps = prompt @ butlast generated \<and> map sr_position steps = [0..<length steps] \<and>
      map (predicted_token opt) (drop (length prompt - 1) steps) = map Some generated \<and>
      go_stop_token_id opt \<notin> set (butlast generated))"

definition decode_accounted :: "generation_control \<Rightarrow> bool" where
  "decode_accounted c \<longleftrightarrow>
     (let t = gc_timing c in
      length (gt_subsequent_token t) = length (gc_generated_token_ids c) - 1 \<and>
      gt_time_to_first_token t = gt_prompt_prefill t \<and>
      gt_total_generation t = foldl add_double (gt_time_to_first_token t) (gt_subsequent_token t) \<and>
      gt_decode_after_first t = foldl add_double (Finite 0) (gt_subsequent_token t) \<and>
      list_all (\<lambda>ms. \<not> bad_elapsed ms) (gt_subsequent_token t))"

text \<open>How the generation ended.\<close>

definition ended :: "generation_options \<Rightarrow> generation_control \<Rightarrow> bool" where
  "ended opt c \<longleftrightarrow>
     (let generated = gc_generated_token_ids c in
      length generated \<le> go_max_new_tokens opt \<and>
      (gc_stop_reason c = SImEnd \<longleftrightarrow> last generated = go_stop_token_id opt) \<and>
      (gc_stop_reason c = SMaxNewTokens \<longrightarrow> length generated = go_max_new_tokens opt))"

lemma transcript_length:
  assumes "transcript opt prompt c"
  shows "length (gc_steps c) = length prompt + (length (gc_generated_token_ids c) - 1)"
proof -
  have "map sr_input_token_id (gc_steps c) = prompt @ butlast (gc_generated_token_ids c)"
    using assms by (simp add: transcript_def Let_def)
  from arg_cong [where f = length, OF this] show ?thesis by simp
qed

lemma decode_steps_ok:
  assumes "decode_steps k opt host f c w = (Inr c', w')" "transcript opt prompt c" "prompt \<noteq> []" "decode_accounted c"
    "last (gc_generated_token_ids c) \<noteq> go_stop_token_id opt" "gc_stop_reason c = SMaxNewTokens"
    "k + length (gc_generated_token_ids c) = go_max_new_tokens opt"
  shows "transcript opt prompt c' \<and> decode_accounted c' \<and> ended opt c' \<and>
    prompt_accounted opt prompt (gc_timing c') = prompt_accounted opt prompt (gc_timing c)"
  using assms
proof (induction k arbitrary: c w)
  case 0
  then show ?case by (auto simp: ended_def)
next
  case (Suc k)
  let ?g = "gc_generated_token_ids c"
  from Suc.prems(1) obtain ms p c1 w1 where
    ex: "execute opt gthrow f (last ?g) True c w = (Inr (ms, p, c1), w1)"
    by (auto simp: gthen_Inr)
  from ex obtain step where step: "c1 = c\<lparr>gc_steps := gc_steps c @ [step]\<rparr>"
    "step_read (length (gc_steps c)) (last ?g) step" "\<not> bad_elapsed ms"
    "predicted_token opt step = Some p" "p < kReferenceVocabularySize"
    by (rule execute_ok) auto
  define c2 where "c2 = c1\<lparr>gc_timing := (gc_timing c1)\<lparr>gt_subsequent_token := gt_subsequent_token (gc_timing c1) @ [ms],
      gt_decode_after_first := add_double (gt_decode_after_first (gc_timing c1)) ms,
      gt_total_generation := add_double (gt_total_generation (gc_timing c1)) ms\<rparr>,
      gc_generated_token_ids := ?g @ [p]\<rparr>"
  obtain go w2 where cont: "commit_callback host p (length ?g) ms w1 = (go, w2)" by fastforce
  have rest: "(if p = go_stop_token_id opt then (Inr (c2\<lparr>gc_stop_reason := SImEnd\<rparr>), w2)
      else if \<not> go then (Inr (c2\<lparr>gc_stop_reason := SCancelled\<rparr>), w2)
      else decode_steps k opt host f c2 w2) = (Inr c', w')"
    using Suc.prems(1) ex cont step(1)
    by (auto simp: gthen_Inr Let_def commit_token_def c2_def split: if_splits)
  have g: "?g \<noteq> []" using Suc.prems(2) by (simp add: transcript_def Let_def)
  have "go_stop_token_id opt \<notin> set ?g"
    using Suc.prems(2,5) by (cases ?g rule: rev_cases) (auto simp: transcript_def Let_def)
  moreover note transcript_length [OF Suc.prems(2)]
  moreover have "butlast ?g @ [last ?g] = ?g" using g by simp
  ultimately have t2: "transcript opt prompt c2"
    using Suc.prems(2,3,5) step g by (auto simp: transcript_def Let_def c2_def step_read_def)
  have a2: "decode_accounted c2" using Suc.prems(4) step g
    by (auto simp: decode_accounted_def c2_def Let_def Suc_diff_le neq_Nil_conv)
  have same: "prompt_accounted opt prompt (gc_timing c2) = prompt_accounted opt prompt (gc_timing c)"
    using step(1) by (simp add: prompt_accounted_def c2_def)
  have len: "k + length (gc_generated_token_ids c2) = go_max_new_tokens opt"
    and reason: "gc_stop_reason c2 = SMaxNewTokens" and "last (gc_generated_token_ids c2) = p"
    using Suc.prems(6,7) step(1) by (simp_all add: c2_def)
  then consider "p = go_stop_token_id opt" "c' = c2\<lparr>gc_stop_reason := SImEnd\<rparr>"
    | "p \<noteq> go_stop_token_id opt" "c' = c2\<lparr>gc_stop_reason := SCancelled\<rparr>"
    | "p \<noteq> go_stop_token_id opt" "decode_steps k opt host f c2 w2 = (Inr c', w')"
    using rest by (auto split: if_splits)
  then show ?case
  proof cases
    case 3
    then show ?thesis
      using Suc.IH [of c2 w2] t2 a2 same len reason \<open>last (gc_generated_token_ids c2) = p\<close> Suc.prems(3) by simp
  qed (use t2 a2 same len \<open>last (gc_generated_token_ids c2) = p\<close> in
      \<open>auto simp: transcript_def decode_accounted_def ended_def Let_def\<close>)
qed

lemma run_decode_ok:
  assumes "run_decode None host opt f p c w = (Inr c', w')" "prompt_read opt prompt p c" "prompt \<noteq> []"
    "0 < go_max_new_tokens opt" "gt_subsequent_token (gc_timing c) = []" "gt_decode_after_first (gc_timing c) = Finite 0"
  shows "transcript opt prompt c' \<and> decode_accounted c' \<and> ended opt c' \<and>
    prompt_accounted opt prompt (gc_timing c') = prompt_accounted opt prompt (gc_timing c)"
proof -
  define c1 where "c1 = c\<lparr>gc_timing := (gc_timing c)\<lparr>gt_time_to_first_token := gt_prompt_prefill (gc_timing c),
     gt_total_generation := gt_prompt_prefill (gc_timing c)\<rparr>, gc_generated_token_ids := [p]\<rparr>"
  obtain go w1 where cont: "commit_callback host p 0 (gt_prompt_prefill (gc_timing c)) w = (go, w1)" by fastforce
  have rest: "(if p = go_stop_token_id opt then (Inr (c1\<lparr>gc_stop_reason := SImEnd\<rparr>), w1)
      else if \<not> go then (Inr (c1\<lparr>gc_stop_reason := SCancelled\<rparr>), w1)
      else decode_steps (go_max_new_tokens opt - 1) opt host f c1 w1) = (Inr c', w')"
    using assms(1,2) cont by (auto simp: run_decode_def Let_def commit_token_def c1_def prompt_read_def split: if_splits)
  have len: "length (gc_steps c) = length prompt"
    using assms(2) by (metis length_map prompt_read_def)
  then have "drop (length prompt - 1) (gc_steps c) = [last (gc_steps c)]"
    using assms(3) by (cases "gc_steps c" rule: rev_cases) auto
  then have t1: "transcript opt prompt c1"
    using assms(2,3) len by (simp add: transcript_def prompt_read_def c1_def Let_def)
  have a1: "decode_accounted c1" using assms(5,6) by (simp add: decode_accounted_def c1_def)
  have same: "prompt_accounted opt prompt (gc_timing c1) = prompt_accounted opt prompt (gc_timing c)"
    by (simp add: prompt_accounted_def c1_def)
  have reason: "gc_stop_reason c1 = SMaxNewTokens" and g: "gc_generated_token_ids c1 = [p]"
    using assms(2) by (simp_all add: c1_def prompt_read_def)
  from rest consider "p = go_stop_token_id opt" "c' = c1\<lparr>gc_stop_reason := SImEnd\<rparr>"
    | "p \<noteq> go_stop_token_id opt" "c' = c1\<lparr>gc_stop_reason := SCancelled\<rparr>"
    | "p \<noteq> go_stop_token_id opt" "decode_steps (go_max_new_tokens opt - 1) opt host f c1 w1 = (Inr c', w')"
    by (auto split: if_splits)
  then show ?thesis
  proof cases
    case 3
    then show ?thesis
      using decode_steps_ok [OF 3(2) t1 assms(3) a1] g reason assms(4) same by simp
  qed (use t1 a1 same g assms(4) in \<open>auto simp: transcript_def decode_accounted_def ended_def Let_def\<close>)
qed

lemma run_generation_InrD:
  assumes "run_generation_control cfg mtp host opt cbs prompt w = (Inr c, w')"
  obtains topology p c1 w1 c2 w2 where "\<not> invalid_generation_request opt cbs prompt"
    "topology_for cfg opt prompt topology" "length prompt + (go_max_new_tokens opt - 1) \<le> go_max_sequence_length opt"
    "run_prompt cfg host opt cbs prompt topology w = (Inr (p, c1), w1)"
    "initialize_service mtp prompt c1 w1 = (Inr c2, w2)"
    "run_decode mtp host opt (the (cb_decode_step cbs)) p c2 w2 = (Inr c, w')"
  using assms
  by (auto simp: run_generation_control_def gthen_Inr Let_def topology_for_def checked_required_steps_def
      split: if_splits sum.splits option.splits)

lemma generation_ok:
  assumes "run_generation_control cfg None host opt cbs prompt w = (Inr c, w')"
  shows "transcript opt prompt c" "decode_accounted c" "ended opt c" "prompt_accounted opt prompt (gc_timing c)"
    "length prompt + (go_max_new_tokens opt - 1) \<le> go_max_sequence_length opt"
proof -
  from assms obtain topology p c1 w1 where v: "\<not> invalid_generation_request opt cbs prompt"
    "topology_for cfg opt prompt topology"
    and cap: "length prompt + (go_max_new_tokens opt - 1) \<le> go_max_sequence_length opt"
    and pre: "run_prompt cfg host opt cbs prompt topology w = (Inr (p, c1), w1)"
    and dec: "run_decode None host opt (the (cb_decode_step cbs)) p c1 w1 = (Inr c, w')"
    by (rule run_generation_InrD) (auto simp: initialize_service_def)
  have "prompt \<noteq> []" "0 < go_max_new_tokens opt"
    using v(1) by (auto simp: invalid_generation_request_def Let_def)
  then show "transcript opt prompt c" "decode_accounted c" "ended opt c" "prompt_accounted opt prompt (gc_timing c)"
    "length prompt + (go_max_new_tokens opt - 1) \<le> go_max_sequence_length opt"
    using run_prompt_ok [OF pre v(2,1)] run_decode_ok [OF dec] cap by auto
qed

subsection \<open>Undefined reads\<close>

definition defined :: "('a, 'w) gen \<Rightarrow> bool" where
  "defined r \<longleftrightarrow> fst r \<noteq> Inl UndefinedRead"

lemma defined_gthen: "defined r \<Longrightarrow> (\<And>a w. defined (f a w)) \<Longrightarrow> defined (gthen r f)"
  by (auto simp: gthen_def defined_def split: prod.splits sum.splits)

lemma undefined_gthen:
  assumes "\<not> defined (gthen r f)" "defined r"
  obtains a w where "r = (Inr a, w)" "\<not> defined (f a w)"
  using assms by (auto simp: gthen_def defined_def split: prod.splits sum.splits)

lemma defined_simps [simp]:
  "defined (gfail e w)" "defined (gfail_status e st w)" "defined (gthrow x w)" "defined (gthrow_guarded s x w)"
  "defined (Inr a, w)" "defined (if b then r else r') \<longleftrightarrow> (if b then defined r else defined r')"
  by (auto simp: gfail_def gfail_status_def gthrow_def gthrow_guarded_def defined_def)

lemma defined_execute: "(\<And>e w. defined (thrown e w)) \<Longrightarrow> defined (execute opt thrown f token logits c w)"
  by (auto simp: execute_def split: prod.splits sum.splits option.splits)

lemma defined_account: "defined (account_prefix ms c w)"
  by (simp add: account_prefix_def Let_def)

lemma defined_tile: "defined (prefix_tile_step opt f tokens retain c w)"
  by (auto simp: prefix_tile_step_def defined_account split: prod.splits sum.splits option.splits)

lemma defined_tiles: "defined (prefix_tiles opt f chunk tokens c w)"
proof (induction "length tokens" arbitrary: tokens c w rule: less_induct)
  case less
  let ?n = "prefix_tile_size opt (length tokens) chunk"
  have "length (drop ?n tokens) < length tokens" if "tokens \<noteq> []" "0 < chunk"
    using that prefix_tile_size_bounds [of "length tokens" chunk opt] by auto
  then have "defined (prefix_tiles opt f chunk (drop ?n tokens) c w)" if "tokens \<noteq> []" "0 < chunk" for c w
    using that less by blast
  then show ?case by (subst prefix_tiles.simps) (auto simp: Let_def intro!: defined_gthen defined_tile)
qed

lemma defined_steps: "defined (prefix_steps opt f tokens c w)"
  by (induction opt f tokens c w rule: prefix_steps.induct)
     (auto intro!: defined_gthen defined_execute defined_account split: prod.splits)

lemma defined_finish: "(\<And>e w. defined (thrown e w)) \<Longrightarrow> defined (finish_prompt opt thrown f token c w)"
  by (auto simp: finish_prompt_def Let_def intro!: defined_gthen defined_execute split: prod.splits)

lemma defined_prompt: "defined (run_prompt cfg host opt cbs prompt topology w)"
proof -
  have "defined (prefill_whole_request cfg prompt f plan c w)" for f plan c w
    by (auto simp: prefill_whole_request_def Let_def split: prod.splits sum.splits option.splits)
  moreover have "defined (commit_whole_request_prefill cfg host f plan progress c w)" for f plan progress c w
    by (auto simp: commit_whole_request_prefill_def Let_def split: prod.splits)
  ultimately show ?thesis
    by (auto simp: run_prompt_def Let_def defined_tiles defined_steps split: option.splits prod.splits
        intro!: defined_gthen defined_finish)
qed

lemma defined_decode: "defined (run_decode mtp host opt f p c w)"
proof -
  have "defined (decode_steps k opt host f c w)" for k c w
    by (induction k arbitrary: c w)
       (auto simp: Let_def split: prod.splits intro!: defined_gthen defined_execute)
  then show ?thesis by (auto simp: run_decode_def Let_def split: prod.splits option.splits)
qed

lemma planned_tiles_zero:
  assumes "planned_tiles opt n chunk = 0" "0 < chunk"
  shows "n = 0"
proof (rule ccontr)
  assume "n \<noteq> 0"
  then have "0 < planned_tiles opt n chunk"
    using assms(2) planned_tiles_step [of n chunk opt] planned_tiles_single_steps [of opt n]
    by (cases "chunk = 1") auto
  with assms(1) show False by simp
qed

lemma initialize_service_undefined:
  assumes "\<not> defined (initialize_service mtp prompt c w)"
  shows "mtp \<noteq> None" "gt_prefix_execution (gc_timing c) = []"
  using assms by (auto simp: initialize_service_def Let_def split: option.splits prod.splits if_splits)

lemmas decode_steps_numeral = decode_steps.simps(2) [of "pred_numeral v" for v, folded numeral_eq_Suc]

subsection \<open>What the callbacks are given\<close>

text \<open>
  Two sets of callbacks agree when they are present alike and give the same results on the calls a
  controller may make: tokens of the vocabulary, full logits only for the last token of a phase, tiles of
  one to chunk-size tokens, and a commit only of a complete uncommitted progress.
\<close>

definition step_call :: "generation_options \<Rightarrow> bool \<Rightarrow> step_options" where
  "step_call opt logits = \<lparr>so_compute_logits = logits, so_capture_trace = go_capture_trace opt,
     so_measure_timing = True, so_logits_mode = go_logits_mode opt\<rparr>"

abbreviation vocabulary :: "nat set" where
  "vocabulary \<equiv> {..<kReferenceVocabularySize}"

definition callbacks_agree ::
  "build_config \<Rightarrow> generation_options \<Rightarrow> nat list \<Rightarrow> 'w callbacks \<Rightarrow> 'w callbacks \<Rightarrow> bool" where
  "callbacks_agree cfg opt prompt cbs cbs' \<longleftrightarrow>
     rel_option (\<lambda>f g. \<forall>t\<in>vocabulary. f t (step_call opt False) = g t (step_call opt False))
       (cb_prefix_step cbs) (cb_prefix_step cbs') \<and>
     rel_option (\<lambda>f g. f (last prompt) (step_call opt True) = g (last prompt) (step_call opt True))
       (cb_finish_prefill cbs) (cb_finish_prefill cbs') \<and>
     rel_option (\<lambda>f g. \<forall>ts r. ts \<noteq> [] \<longrightarrow> length ts \<le> go_prefill_chunk_size opt \<longrightarrow> set ts \<subseteq> vocabulary \<longrightarrow>
         f ts \<lparr>to_measure_timing = True, to_retain_last_hidden_for_logits = r\<rparr> =
         g ts \<lparr>to_measure_timing = True, to_retain_last_hidden_for_logits = r\<rparr>)
       (cb_prefix_tile cbs) (cb_prefix_tile cbs') \<and>
     rel_option (\<lambda>f g. f (last prompt) (step_call opt True) = g (last prompt) (step_call opt True))
       (cb_finish_prefill_from_tile cbs) (cb_finish_prefill_from_tile cbs') \<and>
     rel_option (\<lambda>f g. \<forall>plan. build_plan cfg (topology_options opt prompt) = Inr plan \<longrightarrow> f prompt plan = g prompt plan)
       (cb_whole_request cbs) (cb_whole_request cbs') \<and>
     rel_option (\<lambda>f g. f (last prompt) (step_call opt True) = g (last prompt) (step_call opt True))
       (cb_finish_whole_request cbs) (cb_finish_whole_request cbs') \<and>
     rel_option (\<lambda>f g. \<forall>plan p. build_plan cfg (topology_options opt prompt) = Inr plan \<longrightarrow>
         complete_uncommitted_whole_request_prefill_progress cfg plan p \<longrightarrow> f plan p = g plan p)
       (cb_commit_whole_request cbs) (cb_commit_whole_request cbs') \<and>
     rel_option (\<lambda>f g. \<forall>t\<in>vocabulary. f t (step_call opt True) = g t (step_call opt True))
       (cb_decode_step cbs) (cb_decode_step cbs')"

lemma execute_call: "f t (step_call opt logits) = g t (step_call opt logits) \<Longrightarrow>
    execute opt thrown f t logits c w = execute opt thrown g t logits c w"
  by (simp add: execute_def step_call_def)

lemma gthen_cong:
  assumes "r = r'" "\<And>a w. r' = (Inr a, w) \<Longrightarrow> f a w = g a w"
  shows "gthen r f = gthen r' g"
  using assms by (auto simp: gthen_def split: prod.splits sum.splits)

lemma prefix_steps_call:
  assumes "\<forall>t\<in>vocabulary. f t (step_call opt False) = g t (step_call opt False)" "set tokens \<subseteq> vocabulary"
  shows "prefix_steps opt f tokens c w = prefix_steps opt g tokens c w"
  using assms(2)
proof (induction tokens arbitrary: c w)
  case (Cons t tokens)
  have "execute opt gthrow f t False c w = execute opt gthrow g t False c w"
    using assms(1) Cons.prems by (intro execute_call) auto
  moreover have "prefix_steps opt f tokens = prefix_steps opt g tokens"
    using Cons by (intro ext) simp
  ultimately show ?case by simp
qed simp

lemma prefix_tile_size_le: "prefix_tile_size opt n chunk \<le> chunk"
  using next_prefix_tile_bounds(3) [of n chunk]
  by (auto simp: prefix_tile_size_def next_single_arbitrary_prefix_tile_token_count_def next_prefix_tile_token_count_def)

lemma prefix_tiles_call:
  assumes "\<forall>ts r. ts \<noteq> [] \<longrightarrow> length ts \<le> chunk \<longrightarrow> set ts \<subseteq> vocabulary \<longrightarrow>
      f ts \<lparr>to_measure_timing = True, to_retain_last_hidden_for_logits = r\<rparr> =
      g ts \<lparr>to_measure_timing = True, to_retain_last_hidden_for_logits = r\<rparr>" "set tokens \<subseteq> vocabulary"
  shows "prefix_tiles opt f chunk tokens c w = prefix_tiles opt g chunk tokens c w"
  using assms(2)
proof (induction "length tokens" arbitrary: tokens c w rule: less_induct)
  case less
  let ?n = "prefix_tile_size opt (length tokens) chunk"
  show ?case
  proof (cases "tokens = [] \<or> chunk = 0")
    case False
    then have n: "0 < ?n" "?n \<le> length tokens" "?n \<le> chunk"
      using prefix_tile_size_bounds [of "length tokens" chunk opt] prefix_tile_size_le by auto
    have sub: "set (take ?n tokens) \<subseteq> vocabulary" "set (drop ?n tokens) \<subseteq> vocabulary"
      using less.prems set_take_subset set_drop_subset by fast+
    have "prefix_tile_step opt f (take ?n tokens) r c w = prefix_tile_step opt g (take ?n tokens) r c w" for r c w
      using assms(1) n sub(1) False by (simp add: prefix_tile_step_def)
    moreover have "prefix_tiles opt f chunk (drop ?n tokens) = prefix_tiles opt g chunk (drop ?n tokens)"
      using less.hyps [of "drop ?n tokens"] n sub(2) False by (intro ext) simp
    ultimately show ?thesis
      using False by (subst (1 2) prefix_tiles.simps) (simp add: Let_def)
  qed (auto simp: prefix_tiles.simps)
qed

lemma decode_steps_call:
  assumes "\<forall>t\<in>vocabulary. f t (step_call opt True) = g t (step_call opt True)"
    "last (gc_generated_token_ids c) \<in> vocabulary"
  shows "decode_steps k opt host f c w = decode_steps k opt host g c w"
  using assms(2)
proof (induction k arbitrary: c w)
  case (Suc k)
  have same: "execute opt gthrow f (last (gc_generated_token_ids c)) True c w =
      execute opt gthrow g (last (gc_generated_token_ids c)) True c w"
    using assms(1) Suc.prems by (intro execute_call) auto
  have "p \<in> vocabulary" if "execute opt gthrow g (last (gc_generated_token_ids c)) True c w = (Inr (ms, p, c1), w1)"
    for ms p c1 w1 using that by (rule execute_ok) auto
  then show ?case
    unfolding decode_steps.simps using Suc.IH
    by (intro gthen_cong [OF same]) (auto simp: Let_def commit_token_def split: prod.splits)
qed simp

lemma finish_prompt_call:
  "f t (step_call opt True) = g t (step_call opt True) \<Longrightarrow>
    finish_prompt opt thrown f t c w = finish_prompt opt thrown g t c w"
  using execute_call [of f t opt True g] by (simp add: finish_prompt_def)

lemma rel_optionD:
  assumes "rel_option P x y"
  shows "(x = None) = (y = None)" "x \<noteq> None \<Longrightarrow> P (the x) (the y)"
  using assms by (cases x; cases y; simp)+

lemmas agree_conj = callbacks_agree_def [THEN iffD1]
lemmas agree_prefix_step = agree_conj [THEN conjunct1]
lemmas agree_finish = agree_conj [THEN conjunct2, THEN conjunct1]
lemmas agree_tile = agree_conj [THEN conjunct2, THEN conjunct2, THEN conjunct1]
lemmas agree_finish_tile = agree_conj [THEN conjunct2, THEN conjunct2, THEN conjunct2, THEN conjunct1]
lemmas agree_tail = agree_conj [THEN conjunct2, THEN conjunct2, THEN conjunct2, THEN conjunct2]
lemmas agree_whole = agree_tail [THEN conjunct1]
lemmas agree_finish_whole = agree_tail [THEN conjunct2, THEN conjunct1]
lemmas agree_commit = agree_tail [THEN conjunct2, THEN conjunct2, THEN conjunct1]
lemmas agree_decode = agree_tail [THEN conjunct2, THEN conjunct2, THEN conjunct2]

lemma invalid_request_call:
  assumes "callbacks_agree cfg opt prompt cbs cbs'"
  shows "invalid_generation_request opt cbs prompt = invalid_generation_request opt cbs' prompt"
  unfolding invalid_generation_request_def Let_def
    rel_optionD(1) [OF agree_prefix_step [OF assms]] rel_optionD(1) [OF agree_finish [OF assms]]
    rel_optionD(1) [OF agree_finish_tile [OF assms]] rel_optionD(1) [OF agree_whole [OF assms]]
    rel_optionD(1) [OF agree_finish_whole [OF assms]] rel_optionD(1) [OF agree_commit [OF assms]]
    rel_optionD(1) [OF agree_decode [OF assms]] ..

lemma valid_request:
  assumes "\<not> invalid_generation_request opt cbs prompt"
  shows "prompt \<noteq> []" "0 < go_max_new_tokens opt" "cb_prefix_step cbs \<noteq> None" "cb_finish_prefill cbs \<noteq> None"
    "cb_decode_step cbs \<noteq> None" "0 < effective_prefill_chunk_size opt"
    "go_prefill_whole_request_layer_major opt \<Longrightarrow> go_prefill_all_prompt_tokens opt \<and> cb_whole_request cbs \<noteq> None \<and>
       cb_finish_whole_request cbs \<noteq> None \<and> cb_commit_whole_request cbs \<noteq> None"
    "go_prefill_all_prompt_tokens opt \<Longrightarrow> \<not> go_prefill_whole_request_layer_major opt \<Longrightarrow>
       cb_finish_prefill_from_tile cbs \<noteq> None"
  using assms unfolding invalid_generation_request_def Let_def
  by (simp_all add: effective_prefill_chunk_size_def)

lemma whole_request_call:
  assumes "callbacks_agree cfg opt prompt cbs cbs'" "build_plan cfg (topology_options opt prompt) = Inr plan"
    "\<not> invalid_generation_request opt cbs prompt" "go_prefill_whole_request_layer_major opt"
  shows "run_prompt cfg host opt cbs prompt (Some plan) w = run_prompt cfg host opt cbs' prompt (Some plan) w"
proof -
  define f f' g g' h h' where cbs: "f = the (cb_whole_request cbs)" "f' = the (cb_whole_request cbs')"
    "g = the (cb_finish_whole_request cbs)" "g' = the (cb_finish_whole_request cbs')"
    "h = the (cb_commit_whole_request cbs)" "h' = the (cb_commit_whole_request cbs')"
  note some = valid_request(7) [OF assms(3,4)]
  have same: "f prompt plan = f' prompt plan" "g (last prompt) (step_call opt True) = g' (last prompt) (step_call opt True)"
    "\<And>p. complete_uncommitted_whole_request_prefill_progress cfg plan p \<Longrightarrow> h plan p = h' plan p"
    using rel_optionD(2) [OF agree_whole [OF assms(1)]] rel_optionD(2) [OF agree_finish_whole [OF assms(1)]]
      rel_optionD(2) [OF agree_commit [OF assms(1)]] assms(2) some unfolding cbs by blast+
  have pre: "prefill_whole_request cfg prompt f plan c w = prefill_whole_request cfg prompt f' plan c w" for c w
    using same(1) by (simp add: prefill_whole_request_def)
  have com: "commit_whole_request_prefill cfg host h plan p c w = commit_whole_request_prefill cfg host h' plan p c w"
    if "complete_uncommitted_whole_request_prefill_progress cfg plan p" for p c w
    using same(3) [OF that] by (simp add: commit_whole_request_prefill_def)
  show ?thesis
    unfolding run_prompt_def Let_def option.case cbs [symmetric]
  proof (rule gthen_cong [OF pre], clarify)
    fix c1 progress w1
    assume "prefill_whole_request cfg prompt f' plan (start_control opt prompt (Some plan)) w = (Inr (c1, progress), w1)"
    then have "complete_uncommitted_whole_request_prefill_progress cfg plan progress"
      by (rule prefill_whole_request_ok [OF _ assms(2)]) simp_all
    then show "gthen (finish_prompt opt (gthrow_guarded ''whole_request_finalizer_exception'') g (last prompt) c1 w1)
         (\<lambda>(predicted, control) w. gthen (commit_whole_request_prefill cfg host h plan progress control w)
            (\<lambda>control w. (Inr (predicted, control), w))) =
       gthen (finish_prompt opt (gthrow_guarded ''whole_request_finalizer_exception'') g' (last prompt) c1 w1)
         (\<lambda>(predicted, control) w. gthen (commit_whole_request_prefill cfg host h' plan progress control w)
            (\<lambda>control w. (Inr (predicted, control), w)))"
      using com finish_prompt_call [of g "last prompt" opt g', OF same(2)] by simp
  qed
qed

lemma legacy_call:
  assumes "callbacks_agree cfg opt prompt cbs cbs'" "set prompt \<subseteq> vocabulary"
    "\<not> invalid_generation_request opt cbs prompt" "\<not> go_prefill_whole_request_layer_major opt"
  shows "run_prompt cfg host opt cbs prompt None w = run_prompt cfg host opt cbs' prompt None w"
proof -
  let ?chunk = "effective_prefill_chunk_size opt" and ?tokens = "prefix_tokens opt prompt"
  let ?finish = "\<lambda>cbs. if go_prefill_all_prompt_tokens opt then the (cb_finish_prefill_from_tile cbs) else the (cb_finish_prefill cbs)"
  have sub: "set ?tokens \<subseteq> vocabulary" using assms(2) by (auto simp: prefix_tokens_def dest: in_set_butlastD)
  have eq: "?finish cbs (last prompt) (step_call opt True) = ?finish cbs' (last prompt) (step_call opt True)"
    using rel_optionD(2) [OF agree_finish [OF assms(1)]] rel_optionD(2) [OF agree_finish_tile [OF assms(1)]]
      valid_request(4) [OF assms(3)] valid_request(8) [OF assms(3)] assms(4) by auto
  have fin: "finish_prompt opt gthrow (?finish cbs) (last prompt) = finish_prompt opt gthrow (?finish cbs') (last prompt)"
    by (rule ext, rule ext, rule finish_prompt_call, rule eq)
  have steps: "prefix_steps opt (the (cb_prefix_step cbs)) ?tokens = prefix_steps opt (the (cb_prefix_step cbs')) ?tokens"
    using rel_optionD(2) [OF agree_prefix_step [OF assms(1)] valid_request(3) [OF assms(3)]] sub
    by (intro ext prefix_steps_call)
  have tiles: "prefix_tiles opt (the (cb_prefix_tile cbs)) ?chunk ?tokens =
      prefix_tiles opt (the (cb_prefix_tile cbs')) ?chunk ?tokens"
    if "1 < ?chunk" "cb_prefix_tile cbs \<noteq> None"
    using rel_optionD(2) [OF agree_tile [OF assms(1)] that(2)] sub that(1)
    by (intro ext prefix_tiles_call) (auto simp: effective_prefill_chunk_size_def split: if_splits)
  note none = rel_optionD(1) [OF agree_tile [OF assms(1)]]
  consider "?tokens = []" | "cb_prefix_tile cbs \<noteq> None" | "?tokens \<noteq> []" "cb_prefix_tile cbs = None" by blast
  then show ?thesis
    by cases (use steps tiles none fin in \<open>auto simp: run_prompt_def Let_def prefix_tiles.simps\<close>)
qed

lemma run_decode_call:
  assumes "callbacks_agree cfg opt prompt cbs cbs'" "\<not> invalid_generation_request opt cbs prompt" "p \<in> vocabulary"
  shows "run_decode mtp host opt (the (cb_decode_step cbs)) p = run_decode mtp host opt (the (cb_decode_step cbs')) p"
proof -
  have "\<forall>t\<in>vocabulary. the (cb_decode_step cbs) t (step_call opt True) = the (cb_decode_step cbs') t (step_call opt True)"
    by (rule rel_optionD(2) [OF agree_decode [OF assms(1)] valid_request(5) [OF assms(2)]])
  from decode_steps_call [of "the (cb_decode_step cbs)" opt "the (cb_decode_step cbs')", OF this] assms(3) show ?thesis
    by (intro ext) (simp add: run_decode_def Let_def commit_token_def split: prod.splits option.splits)
qed

subsection \<open>An example runner\<close>

text \<open>
  A runner that counts its steps, takes no time and predicts the successor of its input. The request stops
  at token 9.
\<close>

definition counting_step :: "nat step_function" where
  "counting_step token options n =
     (Inr (Some \<lparr>sr_position = n, sr_input_token_id = token, sr_logits = None, sr_timing = Some (Finite 0),
        sr_prediction = (if so_compute_logits options then Some (token + 1) else None)\<rparr>, runner_status_none), Suc n)"

definition counting_callbacks :: "nat callbacks" where
  "counting_callbacks = \<lparr>cb_prefix_step = Some counting_step, cb_finish_prefill = Some counting_step,
     cb_prefix_tile = None, cb_finish_prefill_from_tile = None, cb_whole_request = None,
     cb_finish_whole_request = None, cb_commit_whole_request = None, cb_decode_step = Some counting_step\<rparr>"

definition silent_host :: "nat host" where
  "silent_host = \<lparr>h_committed_token = None, h_cancel = None, h_elapsed = (\<lambda>w. (Finite 0, w))\<rparr>"

definition counting_options :: generation_options where
  "counting_options = \<lparr>go_max_new_tokens = 5, go_stop_token_id = 9, go_max_sequence_length = 64,
     go_prefill_chunk_size = 1, go_capture_trace = False, go_logits_mode = PredictedTokenOnly,
     go_prefill_all_prompt_tokens = False, go_prefill_single_arbitrary_tile = False,
     go_prefill_whole_request_layer_major = False, go_prefill_mlp_schedule_tactic = PerOperatorPanel\<rparr>"

definition counting_steps :: "reference_step list" where
  "counting_steps = [
     \<lparr>sr_position = 0, sr_input_token_id = 5, sr_logits = None, sr_timing = Some (Finite 0), sr_prediction = None\<rparr>,
     \<lparr>sr_position = 1, sr_input_token_id = 6, sr_logits = None, sr_timing = Some (Finite 0), sr_prediction = Some 7\<rparr>,
     \<lparr>sr_position = 2, sr_input_token_id = 7, sr_logits = None, sr_timing = Some (Finite 0), sr_prediction = Some 8\<rparr>,
     \<lparr>sr_position = 3, sr_input_token_id = 8, sr_logits = None, sr_timing = Some (Finite 0), sr_prediction = Some 9\<rparr>]"

definition counting_control :: generation_control where
  "counting_control = \<lparr>gc_generated_token_ids = [7, 8, 9], gc_steps = counting_steps, gc_stop_reason = SImEnd,
     gc_timing = initial_timing\<lparr>gt_prefix_execution := [Finite 0], gt_subsequent_token := [Finite 0, Finite 0]\<rparr>,
     gc_prefill_execution_mode = LegacyC512Tiled, gc_prefill_logical_panel_count = 2,
     gc_prefill_route_layer_pass_count = 2\<rparr>"

lemmas counting_defs = counting_step_def counting_callbacks_def silent_host_def counting_options_def

lemma counting_valid: "\<not> invalid_generation_request counting_options counting_callbacks [5, 6]"
  by (simp add: invalid_generation_request_def counting_defs Let_def kMaximumRequestPrefillChunkSize_def
      kReferenceVocabularySize_def is_valid_layer_major_prefill_mlp_schedule_tactic_def)

lemma counting_run:
  "run_generation_control plain_build None silent_host counting_options counting_callbacks [5, 6] 0 =
     (Inr counting_control, 4)"
  using counting_valid
  by (simp add: run_generation_control_def checked_required_steps_def counting_defs run_prompt_def Let_def
      gthen_def prefix_tokens_def effective_prefill_chunk_size_def start_control_def finish_prompt_def execute_def
      outcome_ok_def check_step_def account_prefix_def initialize_service_def run_decode_def commit_token_def
      commit_callback_def bad_elapsed_def kReferenceVocabularySize_def initial_control_def initial_timing_def
      planned_prefix_executions_def prefix_execution_count_def counting_control_def counting_steps_def
      decode_steps_numeral)

subsection \<open>Properties\<close>

text \<open>
  C4. A successful generation without the speculative service is the transcript of one run of the model. At least one and at most the
  requested number of tokens are generated, all in the vocabulary. The steps read the prompt and then every
  generated token but the last, at positions 0, 1, 2, ..., never past the sequence length; the prediction of
  each step from the last token of the prompt on is the next generated token. Generation stops at the first
  stop token, and \<^verbatim>\<open>kMaxNewTokens\<close> is reported only at the requested length.
\<close>

theorem generation_transcript:
  assumes "run_generation_control cfg None host opt cbs prompt w = (Inr c, w')"
  shows "let generated = gc_generated_token_ids c; steps = gc_steps c in
    generated \<noteq> [] \<and> length generated \<le> go_max_new_tokens opt \<and> set generated \<subseteq> {..<kReferenceVocabularySize} \<and>
    map sr_input_token_id steps = prompt @ butlast generated \<and> map sr_position steps = [0..<length steps] \<and>
    length steps \<le> go_max_sequence_length opt \<and>
    map (predicted_token opt) (drop (length prompt - 1) steps) = map Some generated \<and>
    go_stop_token_id opt \<notin> set (butlast generated) \<and>
    (gc_stop_reason c = SImEnd \<longleftrightarrow> last generated = go_stop_token_id opt) \<and>
    (gc_stop_reason c = SMaxNewTokens \<longrightarrow> length generated = go_max_new_tokens opt)"
proof -
  note ok = generation_ok [OF assms]
  have "length (gc_generated_token_ids c) \<le> go_max_new_tokens opt" using ok(3) by (simp add: ended_def Let_def)
  then have "length (gc_steps c) \<le> go_max_sequence_length opt"
    using transcript_length [OF ok(1)] ok(5) by linarith
  then show ?thesis using ok(1,3) unfolding transcript_def ended_def Let_def by blast
qed

theorem generation_transcript_witness:
  "let generated = gc_generated_token_ids counting_control in
     generated = [7, 8, 9] \<and> gc_stop_reason counting_control = SImEnd \<and>
     map sr_input_token_id (gc_steps counting_control) = [5, 6] @ butlast generated"
  using generation_transcript [OF counting_run] by (simp add: Let_def counting_control_def)

text \<open>
  C35. Without the speculative service, the timings account for every execution. There are as many prefix times as the controller planned
  executions (one for a whole request, the number of tiles, or one per token) and one time for each token
  after the first; the prefill time, the time to the first token, the decode time and the total are the
  floating-point sums, in order, of the times reported by the callbacks and the commit; and every reported
  time is finite and not negative.
\<close>

theorem generation_accounting:
  assumes "run_generation_control cfg None host opt cbs prompt w = (Inr c, w')"
  shows "let t = gc_timing c in
    length (gt_prefix_execution t) = planned_prefix_executions opt prompt \<and>
    length (gt_subsequent_token t) = length (gc_generated_token_ids c) - 1 \<and>
    gt_prompt_prefill t =
      (if go_prefill_whole_request_layer_major opt
       then foldl add_double (hd (gt_prefix_execution t)) [gt_finish_prefill t, gt_commit_prefill t]
       else foldl add_double (Finite 0) (gt_prefix_execution t @ [gt_finish_prefill t])) \<and>
    gt_time_to_first_token t = gt_prompt_prefill t \<and>
    gt_total_generation t = foldl add_double (gt_time_to_first_token t) (gt_subsequent_token t) \<and>
    gt_decode_after_first t = foldl add_double (Finite 0) (gt_subsequent_token t) \<and>
    list_all (\<lambda>ms. isfinite ms \<and> \<not> negative_double ms)
      (gt_prefix_execution t @ [gt_finish_prefill t] @ gt_subsequent_token t)"
  using generation_ok(2,4) [OF assms]
  by (simp add: prompt_accounted_def decode_accounted_def Let_def bad_elapsed_def)

theorem generation_accounting_witness:
  "length (gt_prefix_execution (gc_timing counting_control)) =
     planned_prefix_executions counting_options [5, 6] \<and> length (gt_subsequent_token (gc_timing counting_control)) = 2"
  using generation_accounting [OF counting_run] by (simp add: Let_def counting_control_def)

text \<open>
  C36. The controller reads an empty vector only for a one-token prompt outside both whole-prompt modes with
  a speculative service: there is no prefix execution to which the initialisation time could be added.
\<close>

theorem undefined_read_only_one_token:
  assumes "run_generation_control cfg mtp host opt cbs prompt w = (Inl UndefinedRead, w')"
  shows "mtp \<noteq> None \<and> length prompt = 1 \<and> \<not> go_prefill_whole_request_layer_major opt \<and>
    \<not> go_prefill_all_prompt_tokens opt"
proof -
  from assms obtain topology where v: "\<not> invalid_generation_request opt cbs prompt" "topology_for cfg opt prompt topology"
    and bad: "gthen (run_prompt cfg host opt cbs prompt topology w)
      (\<lambda>(predicted, control) w. gthen (initialize_service mtp prompt control w)
         (\<lambda>control w. run_decode mtp host opt (the (cb_decode_step cbs)) predicted control w)) = (Inl UndefinedRead, w')"
    by (auto simp: run_generation_control_def Let_def topology_for_def gfail_def split: if_splits sum.splits option.splits)
  obtain p c1 w1 where run: "run_prompt cfg host opt cbs prompt topology w = (Inr (p, c1), w1)"
    and und: "\<not> defined (initialize_service mtp prompt c1 w1)"
  proof -
    let ?rest = "\<lambda>(predicted, control) w. gthen (initialize_service mtp prompt control w)
         (\<lambda>control w. run_decode mtp host opt (the (cb_decode_step cbs)) predicted control w)"
    have "\<not> defined (gthen (run_prompt cfg host opt cbs prompt topology w) ?rest)"
      using bad by (simp add: defined_def)
    then obtain a w1 where a: "run_prompt cfg host opt cbs prompt topology w = (Inr a, w1)" "\<not> defined (?rest a w1)"
      using defined_prompt by (rule undefined_gthen)
    obtain p c1 where pc: "a = (p, c1)" by fastforce
    have "\<not> defined (initialize_service mtp prompt c1 w1)"
    proof
      assume "defined (initialize_service mtp prompt c1 w1)"
      then have "defined (?rest a w1)" unfolding pc prod.case by (rule defined_gthen) (rule defined_decode)
      with a(2) show False ..
    qed
    then show thesis using a(1) that pc by simp
  qed
  have "mtp \<noteq> None" "gt_prefix_execution (gc_timing c1) = []"
    by (rule initialize_service_undefined [OF und])+
  moreover have "planned_prefix_executions opt prompt = length (gt_prefix_execution (gc_timing c1))"
    using run_prompt_ok [OF run v(2,1)] by (simp add: prompt_accounted_def)
  ultimately have legacy: "\<not> go_prefill_whole_request_layer_major opt"
    and none: "planned_tiles opt (length (prefix_tokens opt prompt)) (effective_prefill_chunk_size opt) = 0"
    by (auto simp: planned_prefix_executions_alt split: if_splits)
  have "length (prefix_tokens opt prompt) = 0"
    by (rule planned_tiles_zero [OF none valid_request(6) [OF v(1)]])
  then show ?thesis
    using legacy \<open>mtp \<noteq> None\<close> valid_request(1) [OF v(1)]
    by (cases prompt rule: rev_cases) (auto simp: prefix_tokens_def split: if_splits)
qed

definition ready_service :: "nat mtp_hooks" where
  "ready_service = \<lparr>mh_initialize = (\<lambda>_ w. ((runner_status_none, Finite 0), w)),
     mh_decode = (\<lambda>control _ w. ((runner_status_none, control), w))\<rparr>"

lemma one_token_run:
  "run_generation_control plain_build (Some ready_service) silent_host counting_options counting_callbacks [6] 0 =
     (Inl UndefinedRead, 1)"
  by (simp add: run_generation_control_def checked_required_steps_def counting_defs run_prompt_def Let_def
      invalid_generation_request_def kMaximumRequestPrefillChunkSize_def ready_service_def
      is_valid_layer_major_prefill_mlp_schedule_tactic_def
      gthen_def prefix_tokens_def effective_prefill_chunk_size_def start_control_def finish_prompt_def execute_def
      outcome_ok_def check_step_def initialize_service_def
      bad_elapsed_def kReferenceVocabularySize_def initial_control_def initial_timing_def)

theorem undefined_read_only_one_token_witness:
  "run_generation_control plain_build (Some ready_service) silent_host counting_options counting_callbacks [6] 0 =
     (Inl UndefinedRead, 1) \<and> \<not> go_prefill_all_prompt_tokens counting_options"
  using one_token_run undefined_read_only_one_token [OF one_token_run] by blast

text \<open>
  C25. The controller stays within the contract of its callbacks. Two sets of callbacks that are present
  alike and agree on tokens of the vocabulary, on the last token of the prompt for the finishing calls, on
  tiles of one to chunk-size tokens of the vocabulary, on the whole prompt with the topology built for it,
  and on commits of complete uncommitted progress give the same generation: no other call is ever made.
\<close>

theorem callbacks_used_within_contract:
  assumes "callbacks_agree cfg opt prompt cbs cbs'"
  shows "run_generation_control cfg mtp host opt cbs prompt w = run_generation_control cfg mtp host opt cbs' prompt w"
proof (cases "invalid_generation_request opt cbs prompt \<or> list_ex (\<lambda>t. kReferenceVocabularySize \<le> t) prompt")
  case True
  then show ?thesis using invalid_request_call [OF assms] by (auto simp: run_generation_control_def)
next
  case False
  then have v: "\<not> invalid_generation_request opt cbs prompt" "\<not> invalid_generation_request opt cbs' prompt"
    and sub: "set prompt \<subseteq> vocabulary"
    using invalid_request_call [OF assms] by (auto simp: list_ex_iff not_le)
  have run: "gthen (run_prompt cfg host opt cbs prompt topology w) (\<lambda>(predicted, control) w.
        gthen (initialize_service mtp prompt control w)
         (\<lambda>control w. run_decode mtp host opt (the (cb_decode_step cbs)) predicted control w)) =
      gthen (run_prompt cfg host opt cbs' prompt topology w) (\<lambda>(predicted, control) w.
        gthen (initialize_service mtp prompt control w)
         (\<lambda>control w. run_decode mtp host opt (the (cb_decode_step cbs')) predicted control w))"
    if "topology_for cfg opt prompt topology" for topology
  proof (rule gthen_cong, goal_cases)
    case 1
    show ?case
      using that whole_request_call [OF assms _ v(1)] legacy_call [OF assms sub v(1)]
      by (auto simp: topology_for_def split: if_splits)
  next
    case (2 a w)
    then have "fst a \<in> vocabulary"
      using run_prompt_ok [of cfg host opt cbs' prompt topology _ "fst a" "snd a"] that v(2)
      by (fastforce simp: prompt_read_def)
    then show ?case
      using run_decode_call [OF assms v(1), where p = "fst a"] by (simp add: case_prod_beta)
  qed
  show ?thesis
    using v False run
    by (auto simp: run_generation_control_def Let_def topology_for_def split: sum.splits option.splits)
qed

text \<open>A runner that throws outside the vocabulary cannot be told from the counting one.\<close>

definition partial_step :: "nat step_function" where
  "partial_step token options n = (if token < kReferenceVocabularySize then counting_step token options n
     else (Inl OtherException, n))"

definition partial_callbacks :: "nat callbacks" where
  "partial_callbacks = counting_callbacks\<lparr>cb_prefix_step := Some partial_step, cb_decode_step := Some partial_step\<rparr>"

lemma partial_agree: "callbacks_agree plain_build counting_options [5, 6] counting_callbacks partial_callbacks"
  by (simp add: callbacks_agree_def counting_callbacks_def partial_callbacks_def partial_step_def fun_eq_iff)

theorem callbacks_used_within_contract_witness:
  "run_generation_control plain_build None silent_host counting_options counting_callbacks [5, 6] 0 =
     run_generation_control plain_build None silent_host counting_options partial_callbacks [5, 6] 0"
  by (rule callbacks_used_within_contract [OF partial_agree])

text \<open>
  C34. The controller and the progress protocol agree on when a prompt is complete. Of all records a runner
  can reach by reporting progress, the controller accepts exactly one: all 64 layers done, the final hidden
  row ready, nothing committed. On that record the commit callback decides alone: when it reports success the
  publication that follows cannot fail, and otherwise its status is returned.
\<close>

theorem accepted_progress_is_complete:
  assumes v: "valid_plan_topology cfg plan" and r: "progress_reachable cfg plan p"
  shows "(complete_uncommitted_whole_request_prefill_progress cfg plan p \<longleftrightarrow> p = progress_at plan 64 0 True False) \<and>
    (complete_uncommitted_whole_request_prefill_progress cfg plan p \<longrightarrow>
       (case fst (commit_whole_request_prefill cfg host commit plan p c w) of
          Inr _ \<Rightarrow> runner_ok (fst (commit plan p w))
        | Inl e \<Rightarrow> e = Failure GcRunnerFailure (fst (commit plan p w)) \<and> \<not> runner_ok (fst (commit plan p w))))"
proof
  have publishable: "layer_publishable plan (progress_at plan 64 0 h c) l" if "l < 64" for l h c
    using that whole_layer_values [OF v] valid_layers(2) [OF v that]
    by (auto simp: layer_publishable_def progress_at_def phases_done_def split: progress_domain.splits)
  show "complete_uncommitted_whole_request_prefill_progress cfg plan p \<longleftrightarrow> p = progress_at plan 64 0 True False"
  proof
    assume c: "complete_uncommitted_whole_request_prefill_progress cfg plan p"
    obtain n h k where p: "p = scheduled_progress plan n h k" and ok: "counter_ok plan n h k"
      using reachable_counter [OF v r] by blast
    have "h" "\<not> k"
      using c p by (auto simp: complete_uncommitted_whole_request_prefill_progress_def scheduled_progress_def
          progress_at_def)
    with ok p scheduled_end [OF v] show "p = progress_at plan 64 0 True False" by (simp add: counter_ok_def)
  next
    assume p: "p = progress_at plan 64 0 True False"
    then have "execution_complete cfg plan p" "pg_final_hidden_ready p" "\<not> pg_prefill_state_committed p"
      using last_layer_complete [OF v] by (simp_all add: progress_at_def)
    then show "complete_uncommitted_whole_request_prefill_progress cfg plan p"
      using publishable valid_layers(1) [OF v] p
      by (simp add: complete_uncommitted_whole_request_prefill_progress_def prefill_final_commit_ready_def
          execution_complete_def list_all_iff)
  qed
  show "complete_uncommitted_whole_request_prefill_progress cfg plan p \<longrightarrow>
       (case fst (commit_whole_request_prefill cfg host commit plan p c w) of
          Inr _ \<Rightarrow> runner_ok (fst (commit plan p w))
        | Inl e \<Rightarrow> e = Failure GcRunnerFailure (fst (commit plan p w)) \<and> \<not> runner_ok (fst (commit plan p w)))"
    by (auto simp: complete_uncommitted_whole_request_prefill_progress_def commit_whole_request_prefill_def
        publish_prefill_state_committed_def gfail_status_def Let_def split: prod.splits)
qed

lemma run_to_hidden:
  assumes "valid_plan_topology cfg plan"
  shows "snd (run_events cfg plan (make_prefill_execution_progress plan) (schedule plan @ [HiddenReady])) =
    progress_at plan 64 0 True False"
  using run_schedule [OF assms, of "request_phases plan"]
  by (simp add: scheduled_start [OF assms] run_events_append scheduled_end [OF assms] end_hidden [OF assms]
        del: progress_step.simps)

lemma example_complete:
  "progress_reachable plain_build example_plan (progress_at example_plan 64 0 True False)"
  using run_reachable [OF progress_reachable.start, of plain_build example_plan "schedule example_plan @ [HiddenReady]"]
  by (simp only: run_to_hidden [OF example_valid])

theorem accepted_progress_is_complete_witness:
  "complete_uncommitted_whole_request_prefill_progress plain_build example_plan
     (progress_at example_plan 64 0 True False)"
  by (rule accepted_progress_is_complete [OF example_valid example_complete, THEN conjunct1, THEN iffD2]) (rule refl)

end
