(* ===== verification/Gateway_Text.thy ===== *)
theory Gateway_Text
  imports Gateway_History Tokenizer_Decode Generation_Correct
begin

text \<open>
  From the committed tokens of a generation to what a client reads. The engine shows each token to the observer
  with its decoded text (\<^verbatim>\<open>observe_committed_token\<close> of \<^verbatim>\<open>src/runtime/reference_engine.cpp\<close>) and decodes the whole
  sequence at the end; a streamed answer is made of the first, a plain answer of the second. Both carry the same
  text, and every chunk of the stream can be read.
\<close>

subsection \<open>The text side of the engine\<close>

definition observe_committed_token :: "tokenizer_data \<Rightarrow> nat \<Rightarrow> nat \<Rightarrow> nat \<Rightarrow> tokenizer_error + token_event" where
  "observe_committed_token data stop_token_id token_id token_index =
     (if token_id \<noteq> stop_token_id
      then and_then (tokenizer_decode data False [token_id])
        (\<lambda>delta. Inr \<lparr>te_index = token_index, te_text_delta = delta, te_is_stop_token = False\<rparr>)
      else Inr \<lparr>te_index = token_index, te_text_delta = [], te_is_stop_token = True\<rparr>)"

text \<open>The events of all committed tokens, from an index on.\<close>

fun committed_events :: "tokenizer_data \<Rightarrow> nat \<Rightarrow> nat \<Rightarrow> nat list \<Rightarrow> tokenizer_error + token_event list" where
  "committed_events data stop_token_id index [] = Inr []"
| "committed_events data stop_token_id index (token_id # ids) =
     and_then (observe_committed_token data stop_token_id token_id index) (\<lambda>event.
       and_then (committed_events data stop_token_id (Suc index) ids) (\<lambda>events. Inr (event # events)))"

text \<open>The text of the generation, without a stop token at its end.\<close>

definition decode_generated :: "tokenizer_data \<Rightarrow> nat \<Rightarrow> nat list \<Rightarrow> stop_reason \<Rightarrow> tokenizer_error + string" where
  "decode_generated data stop_token_id ids reason =
     tokenizer_decode data False (take (generated_text_token_count ids reason stop_token_id) ids)"

text \<open>How a generation that was not cancelled ends; the controller guarantees it.\<close>

definition well_ended :: "nat \<Rightarrow> nat \<Rightarrow> nat list \<Rightarrow> stop_reason \<Rightarrow> bool" where
  "well_ended max_new_tokens stop_token_id ids reason \<longleftrightarrow>
     ids \<noteq> [] \<and> length ids \<le> max_new_tokens \<and> stop_token_id \<notin> set (butlast ids) \<and> reason \<noteq> SCancelled \<and>
     (reason = SImEnd \<longleftrightarrow> last ids = stop_token_id) \<and> (reason = SMaxNewTokens \<longrightarrow> length ids = max_new_tokens)"

lemma controller_well_ended:
  assumes "run_generation_control cfg None host opt cbs prompt w = (Inr c, w')" "gc_stop_reason c \<noteq> SCancelled"
  shows "well_ended (go_max_new_tokens opt) (go_stop_token_id opt) (gc_generated_token_ids c) (gc_stop_reason c)"
  using generation_ok(1,3) [OF assms(1)] assms(2) by (simp add: well_ended_def transcript_def ended_def Let_def)

subsection \<open>Events and tokens\<close>

definition piece :: "tokenizer_data \<Rightarrow> nat \<Rightarrow> string" where
  "piece data i = (case tokenizer_decode data False [i] of Inl _ \<Rightarrow> [] | Inr t \<Rightarrow> t)"

lemma committed_event_nth:
  assumes "committed_events data stop index ids = Inr tokens"
  shows "length tokens = length ids \<and>
    (\<forall>k<length ids. te_index (tokens ! k) = index + k \<and> (te_is_stop_token (tokens ! k) \<longleftrightarrow> ids ! k = stop))"
  using assms
proof (induction ids arbitrary: index tokens)
  case (Cons i ids)
  from Cons.prems obtain e es where *: "observe_committed_token data stop i index = Inr e"
    "committed_events data stop (Suc index) ids = Inr es" "tokens = e # es"
    by (auto simp: and_then_eq_Inr)
  have "te_index e = index" "te_is_stop_token e \<longleftrightarrow> i = stop"
    using *(1) by (auto simp: observe_committed_token_def and_then_eq_Inr split: if_splits)
  then show ?case using Cons.IH [OF *(2)] by (auto simp: *(3) nth_Cons split: nat.splits)
qed simp

lemma committed_event_text:
  assumes "committed_events data stop index ids = Inr tokens"
  shows "map te_text_delta tokens = map (\<lambda>i. if i = stop then [] else piece data i) ids \<and>
    (\<forall>i\<in>set ids. i = stop \<or> tokenizer_decode data False [i] = Inr (piece data i))"
  using assms
proof (induction ids arbitrary: index tokens)
  case (Cons i ids)
  from Cons.prems obtain e es where *: "observe_committed_token data stop i index = Inr e"
    "committed_events data stop (Suc index) ids = Inr es" "tokens = e # es"
    by (auto simp: and_then_eq_Inr)
  have "te_text_delta e = (if i = stop then [] else piece data i) \<and>
      (i = stop \<or> tokenizer_decode data False [i] = Inr (piece data i))"
    using *(1) by (auto simp: observe_committed_token_def and_then_eq_Inr piece_def split: if_splits)
  then show ?case using Cons.IH [OF *(2)] by (simp add: *(3))
qed simp

lemma generated_text_pieces:
  assumes events: "committed_events data stop 0 ids = Inr tokens" and ended: "well_ended n stop ids reason"
    and whole: "decode_generated data stop ids reason = Inr full"
  shows "concat (map te_text_delta tokens) = full"
proof -
  let ?ids = "take (generated_text_token_count ids reason stop) ids"
  note deltas = committed_event_text [OF events]
  have ids: "ids = butlast ids @ [last ids]" "stop \<notin> set (butlast ids)" using ended by (simp_all add: well_ended_def)
  have kept: "?ids = (if last ids = stop then butlast ids else ids)"
    using ended by (auto simp: generated_text_token_count_def well_ended_def butlast_conv_take)
  have free: "stop \<notin> set ?ids"
  proof (cases "last ids = stop")
    case False
    then have "stop \<notin> set (butlast ids @ [last ids])" using ids(2) by simp
    then show ?thesis using False kept ids(1) by simp
  qed (use kept ids(2) in simp)
  have "set ?ids \<subseteq> set ids" by (rule set_take_subset)
  then have "full = concat (map (piece data) ?ids)"
    using whole deltas free unfolding decode_generated_def by (intro tokenizer_decode_pieces) auto
  also have "\<dots> = concat (map (\<lambda>i. if i = stop then [] else piece data i) ?ids)"
    using free by (intro arg_cong [where f = concat] map_cong) auto
  also have "\<dots> = concat (map (\<lambda>i. if i = stop then [] else piece data i) ids)"
  proof (cases "last ids = stop")
    case True
    then have "map (\<lambda>i. if i = stop then [] else piece data i) ids =
        map (\<lambda>i. if i = stop then [] else piece data i) (butlast ids) @ [[]]"
      by (subst ids(1)) simp
    then show ?thesis using True kept by simp
  qed (use kept in simp)
  finally show ?thesis using deltas by simp
qed

subsection \<open>The streamed text\<close>

fun token_deltas :: "openai_request \<Rightarrow> string \<Rightarrow> token_event list \<Rightarrow> string list" where
  "token_deltas request pending [] = []"
| "token_deltas request pending (token # tokens) =
     (case token_delta request pending token of (delta, pending) \<Rightarrow> delta # token_deltas request pending tokens)"

text \<open>The last token, and no other, is the end of the answer.\<close>

fun ends_once :: "openai_request \<Rightarrow> token_event list \<Rightarrow> bool" where
  "ends_once request [] = False"
| "ends_once request [token] = token_finished request token"
| "ends_once request (token # tokens) = (\<not> token_finished request token \<and> ends_once request tokens)"

lemma length_token_deltas [simp]: "length (token_deltas request pending tokens) = length tokens"
  by (induction tokens arbitrary: pending) (simp_all split: prod.splits)

lemma ends_onceI:
  assumes "tokens \<noteq> []" "\<And>k. k < length tokens \<Longrightarrow> token_finished request (tokens ! k) \<longleftrightarrow> Suc k = length tokens"
  shows "ends_once request tokens"
  using assms
proof (induction request tokens rule: ends_once.induct)
  case (2 request token)
  then show ?case using 2(2) [of 0] by simp
next
  case (3 request token other tokens)
  have "token_finished request ((other # tokens) ! k) \<longleftrightarrow> Suc k = length (other # tokens)" if "k < length (other # tokens)" for k
    using 3(3) [of "Suc k"] that by simp
  then show ?case using 3(1) 3(3) [of 0] by simp
qed simp

lemma finished_nth:
  assumes "committed_events data stop 0 ids = Inr tokens" "well_ended (rq_max_tokens request) stop ids reason" "k < length tokens"
  shows "token_finished request (tokens ! k) \<longleftrightarrow> Suc k = length tokens"
    and "te_is_stop_token (tokens ! k) \<longleftrightarrow> Suc k = length tokens \<and> reason = SImEnd"
proof -
  have len: "length tokens = length ids" and nth: "te_index (tokens ! k) = k" "te_is_stop_token (tokens ! k) \<longleftrightarrow> ids ! k = stop"
    using committed_event_nth [OF assms(1)] assms(3) by auto
  have "ids ! k = stop \<longleftrightarrow> Suc k = length ids \<and> reason = SImEnd"
  proof (cases "Suc k = length ids")
    case True
    then have "ids ! k = last ids" using assms(2) by (simp add: well_ended_def last_conv_nth flip: True)
    then show ?thesis using True assms(2) by (auto simp: well_ended_def)
  next
    case False
    then have "ids ! k \<in> set (butlast ids)" using assms(3) len by (auto simp: in_set_conv_nth nth_butlast intro!: exI [of _ k])
    then show ?thesis using False assms(2) by (auto simp: well_ended_def)
  qed
  then show stop: "te_is_stop_token (tokens ! k) \<longleftrightarrow> Suc k = length tokens \<and> reason = SImEnd" using nth len by simp
  have "reason = SImEnd \<or> length ids = rq_max_tokens request" "length ids \<le> rq_max_tokens request"
    using assms(2) by (cases reason; auto simp: well_ended_def)+
  then show "token_finished request (tokens ! k) \<longleftrightarrow> Suc k = length tokens"
    using stop nth(1) len assms(3) by (auto simp: token_finished_def)
qed

lemma token_deltas_render:
  "ends_once request tokens \<Longrightarrow>
     concat (token_deltas request pending tokens) =
       fst (render_utf8_output (pending @ concat (map te_text_delta tokens)) True)"
proof (induction request tokens arbitrary: pending rule: ends_once.induct)
  case (2 request token)
  then show ?case by (simp add: token_delta_def split: prod.splits)
next
  case (3 request token next_token tokens)
  obtain delta rest where d: "render_utf8_output (pending @ te_text_delta token) False = (delta, rest)" by fastforce
  then have "token_delta request pending token = (delta, rest)" using 3(2) by (simp add: token_delta_def)
  then show ?case
    using 3(1) [of rest] 3(2) d
      render_split [of "pending @ te_text_delta token" "concat (map te_text_delta (next_token # tokens))" True]
    by (simp split: prod.splits)
qed simp

lemma token_events_deltas:
  "token_events job pending tokens =
     map (\<lambda>(delta, token). sse_data (token_payload job delta token)) (zip (token_deltas (jb_request job) pending tokens) tokens)"
  by (induction tokens arbitrary: pending) (simp_all split: prod.splits)

text \<open>
  C17. A streamed answer and a plain answer to the same generation carry the same text. The committed tokens are
  shown one by one to the observer and decoded once more as a whole at the end; the deltas of the events of the
  stream, put together, are the text that the plain completion holds, although a character may be spread over
  several tokens, malformed bytes are replaced, and a stop token has no text. The generation was not cancelled, and
  every token and the whole could be decoded.
\<close>

theorem streamed_text_equals_plain_text:
  assumes "committed_events data stop 0 (gn_generated_token_ids g) = Inr tokens"
    "decode_generated data stop (gn_generated_token_ids g) (gn_stop_reason g) = Inr (gn_generated_text g)"
    "well_ended (rq_max_tokens (jb_request job)) stop (gn_generated_token_ids g) (gn_stop_reason g)"
  shows "\<exists>deltas. token_events job [] tokens = map (\<lambda>(delta, token). sse_data (token_payload job delta token)) (zip deltas tokens) \<and>
    length deltas = length tokens \<and>
    completion_body job g =
      (if rq_endpoint (jb_request job) = kChatCompletions
       then serialize_chat_completion (jb_id job) (jb_created job) (rq_model (jb_request job)) (concat deltas)
         (finish_reason (gn_stop_reason g)) (usage_for g)
       else serialize_text_completion (jb_id job) (jb_created job) (rq_model (jb_request job)) (concat deltas)
         (finish_reason (gn_stop_reason g)) (usage_for g))"
proof -
  let ?deltas = "token_deltas (jb_request job) [] tokens"
  have "tokens \<noteq> []" using assms(3) committed_event_nth [OF assms(1)] by (auto simp: well_ended_def)
  then have "ends_once (jb_request job) tokens" using finished_nth(1) [OF assms(1,3)] by (intro ends_onceI)
  then have "concat ?deltas = fst (render_utf8_output (gn_generated_text g) True)"
    using token_deltas_render [of "jb_request job" tokens "[]"] generated_text_pieces [OF assms(1,3,2)] by simp
  then show ?thesis
    by (intro exI [of _ ?deltas]) (simp add: token_events_deltas completion_body_def Let_def)
qed

subsection \<open>Reading the chunks\<close>

text \<open>The document of the \<open>k\<close>-th of \<open>n\<close> chunks.\<close>

definition chunk_document :: "inference_job \<Rightarrow> nat \<Rightarrow> string \<Rightarrow> openai_finish_reason option \<Rightarrow> json_value" where
  "chunk_document job k delta reason =
     (if rq_endpoint (jb_request job) = kChatCompletions
      then read_response (JArray [JObject [(''delta'', JObject ((''content'', JString delta) #
            (if k = 0 then [(''role'', JString ''assistant'')] else []))),
          (''finish_reason'', finish_doc reason), (''index'', JNumber ''0''), (''logprobs'', JNull)]])
        (jb_id job) ''chat.completion.chunk'' (jb_created job) (rq_model (jb_request job)) []
      else read_response (read_choice reason [(''text'', JString delta)]) (jb_id job) ''text_completion'' (jb_created job)
        (rq_model (jb_request job)) [])"

lemma token_deltas_valid: "delta \<in> set (token_deltas request pending tokens) \<Longrightarrow> valid_utf8 delta"
proof (induction tokens arbitrary: pending)
  case (Cons token tokens)
  obtain d rest where d: "token_delta request pending token = (d, rest)" by fastforce
  then have "valid_utf8 d"
    using render_valid [of "pending @ te_text_delta token" "token_finished request token"] by (simp add: token_delta_def)
  then show ?case using Cons d by auto
qed simp

lemma payload_reason:
  assumes "committed_events data stop 0 ids = Inr tokens" "well_ended (rq_max_tokens (jb_request job)) stop ids reason"
    "k < length tokens"
  shows "token_payload job delta (tokens ! k) =
    (let r = if Suc k = length tokens then Some (finish_reason reason) else None in
     if rq_endpoint (jb_request job) = kChatCompletions
     then serialize_chat_chunk (jb_id job) (jb_created job) (rq_model (jb_request job)) delta (k = 0) r
     else serialize_text_chunk (jb_id job) (jb_created job) (rq_model (jb_request job)) delta r)"
proof -
  have "te_index (tokens ! k) = k" using committed_event_nth [OF assms(1)] assms(3) by auto
  moreover have "reason = SImEnd \<or> reason = SMaxNewTokens" using assms(2) by (cases reason) (auto simp: well_ended_def)
  ultimately show ?thesis using finished_nth [OF assms] by (auto simp: token_payload_def finish_reason_def Let_def)
qed

text \<open>
  C22. Every chunk of a streamed answer can be read. The event of the \<open>k\<close>-th token carries a JSON document with the
  delta of that token, the assistant role exactly on the first chat chunk, and the finish reason of the generation
  exactly on the last chunk, null before; the usage event carries a document with no choices and the token counts.
  The generation was not cancelled, and no event is longer than 100000000 bytes.
\<close>

theorem answer_chunks_readable:
  assumes "committed_events data stop 0 (gn_generated_token_ids g) = Inr tokens"
    "well_ended (rq_max_tokens (jb_request job)) stop (gn_generated_token_ids g) (gn_stop_reason g)"
    "valid_utf8 (jb_id job)" "valid_utf8 (rq_model (jb_request job))" "k < length tokens"
    "length (token_events job [] tokens ! k) \<le> 100000000" "length (usage_event job g) \<le> 100000000"
  shows "\<exists>chunk usage. token_events job [] tokens ! k = sse_data chunk \<and>
    json_parse chunk default_parse_options =
      Inr (chunk_document job k (token_deltas (jb_request job) [] tokens ! k)
        (if Suc k = length tokens then Some (finish_reason (gn_stop_reason g)) else None)) \<and>
    usage_event job g = sse_data usage \<and>
    json_parse usage default_parse_options =
      Inr (read_response (JArray []) (jb_id job)
        (if rq_endpoint (jb_request job) = kChatCompletions then ''chat.completion.chunk'' else ''text_completion'')
        (jb_created job) (rq_model (jb_request job)) [(''usage'', read_usage (usage_for g))])"
proof -
  let ?delta = "token_deltas (jb_request job) [] tokens ! k"
  let ?chunk = "token_payload job ?delta (tokens ! k)"
  let ?usage = "serialize_usage_chunk (rq_endpoint (jb_request job)) (jb_id job) (jb_created job) (rq_model (jb_request job)) (usage_for g)"
  define reason where "reason = (if Suc k = length tokens then Some (finish_reason (gn_stop_reason g)) else None)"
  have event: "token_events job [] tokens ! k = sse_data ?chunk" using assms(5) by (simp add: token_events_deltas)
  have "?delta \<in> set (token_deltas (jb_request job) [] tokens)" using assms(5) by simp
  then have valid: "valid_utf8 ?delta" by (rule token_deltas_valid)
  have short: "length ?chunk \<le> 100000000" "length ?usage \<le> 100000000"
    using assms(6,7) event by (simp_all add: sse_data_def usage_event_def)
  have payload: "?chunk =
      (if rq_endpoint (jb_request job) = kChatCompletions
       then serialize_chat_chunk (jb_id job) (jb_created job) (rq_model (jb_request job)) ?delta (k = 0) reason
       else serialize_text_chunk (jb_id job) (jb_created job) (rq_model (jb_request job)) ?delta reason)"
    using payload_reason [OF assms(1,2,5), of ?delta] by (simp only: Let_def reason_def)
  have "json_parse ?chunk default_parse_options = Inr (chunk_document job k ?delta reason)"
    using chat_chunk_readable [OF assms(3,4) valid, of "jb_created job" "k = 0" reason]
      text_chunk_readable [OF assms(3,4) valid, of "jb_created job" reason] short(1)
    by (cases "rq_endpoint (jb_request job) = kChatCompletions") (simp_all only: payload chunk_document_def if_True if_False refl)
  then show ?thesis
    using event usage_chunk_readable [OF assms(3,4) short(2)] unfolding reason_def
    by (intro exI [of _ ?chunk] exI [of _ ?usage] conjI) (simp_all only: usage_event_def)
qed

subsection \<open>Witnesses\<close>

definition sample_tokenizer :: tokenizer_data where
  "sample_tokenizer = \<lparr>tk_max_input_bytes = 100, tk_max_tokens = 100,
     tk_id_to_token = [''s'', ''t'', ''u'', ''v'', ''w'', ''x'', ''a'', ''b''], tk_added_tokens = [],
     tk_added_by_id = (\<lambda>_. None), tk_byte_decoder = Some\<rparr>"

lemma sample_text:
  "committed_events sample_tokenizer 9 0 (gn_generated_token_ids sample_generation) = Inr (er_tokens sample_run)"
  "decode_generated sample_tokenizer 9 (gn_generated_token_ids sample_generation) (gn_stop_reason sample_generation) =
     Inr (gn_generated_text sample_generation)"
  "well_ended (rq_max_tokens (jb_request (sample_job True))) 9 (gn_generated_token_ids sample_generation)
     (gn_stop_reason sample_generation)"
  by code_simp+

lemma sample_fields:
  "jb_id (sample_job True) = ''j''" "jb_created (sample_job True) = 7" "rq_model (jb_request (sample_job True)) = ''q''"
  "rq_endpoint (jb_request (sample_job True)) = kChatCompletions" "length (er_tokens sample_run) = 2"
  "finish_reason (gn_stop_reason sample_generation) = kLength"
  by (simp_all add: sample_job_def new_job_def default_request_def sample_run_def sample_generation_def finish_reason_def)

theorem streamed_text_equals_plain_text_witness:
  "\<exists>deltas. token_events (sample_job True) [] (er_tokens sample_run) =
      map (\<lambda>(delta, token). sse_data (token_payload (sample_job True) delta token)) (zip deltas (er_tokens sample_run)) \<and>
    length deltas = 2 \<and>
    completion_body (sample_job True) sample_generation =
      serialize_chat_completion ''j'' 7 ''q'' (concat deltas) kLength (usage_for sample_generation)"
  using streamed_text_equals_plain_text [OF sample_text] by (simp add: sample_fields)

theorem answer_chunks_readable_witness:
  "\<exists>chunk usage. token_events (sample_job True) [] (er_tokens sample_run) ! 0 = sse_data chunk \<and>
    json_parse chunk default_parse_options =
      Inr (chunk_document (sample_job True) 0 (token_deltas (jb_request (sample_job True)) [] (er_tokens sample_run) ! 0) None) \<and>
    usage_event (sample_job True) sample_generation = sse_data usage \<and>
    json_parse usage default_parse_options =
      Inr (read_response (JArray []) ''j'' ''chat.completion.chunk'' 7 ''q'' [(''usage'', read_usage (usage_for sample_generation))])"
proof -
  let ?job = "sample_job True"
  have "valid_utf8 (jb_id ?job)" "valid_utf8 (rq_model (jb_request ?job))"
    by (simp_all add: sample_fields valid_utf8_text)
  moreover have "length (token_events ?job [] (er_tokens sample_run) ! 0) \<le> 1000" by code_simp
  moreover have "length (usage_event ?job sample_generation) \<le> 1000" by code_simp
  ultimately show ?thesis
    using answer_chunks_readable [OF sample_text(1,3), of 0] by (simp add: sample_fields)
qed

end
