(* ===== verification/Mtp_Control.thy ===== *)
theory Mtp_Control
  imports Prelude
begin

text \<open>
  One round of speculative decoding, \<^verbatim>\<open>run_round\<close> of \<^verbatim>\<open>src/runtime/mtp_control.cpp\<close>. The abstract
  class \<^verbatim>\<open>RoundBackend\<close> is a record of operations on a backend state \<open>'s\<close>; arrays passed by pointer
  are lists that go in and come out. The observer reads the backend state and updates its own
  state \<open>'o\<close>. The locale \<open>round_contract\<close> states what a backend promises, and the round is shown
  to emit exactly the tokens plain greedy decoding of the target would emit.
\<close>

subsection \<open>Options, results and the backend interface\<close>

definition kMaximumDraftLength :: nat where
  "kMaximumDraftLength = 3"

definition kMaximumVerifyRows :: nat where
  "kMaximumVerifyRows = 4"

definition output_tail_budget :: "nat \<Rightarrow> nat \<Rightarrow> nat" where
  "output_tail_budget configured remaining = (if configured = 3 \<and> remaining \<noteq> 4 then 2 else configured)"

record round_options =
  draft_length :: nat
  seed_token :: nat
  remaining_output :: nat
  available_target_rows :: nat
  vocabulary_size :: nat
  stop_token :: nat
  confidence_lookahead :: bool
  eos_frontier :: bool

datatype round_status =
  kContinue | kLength | kStop | kCancelled | kInvalidOptions | kBackendFailure | kInvalidPrediction

record round_result =
  status :: round_status
  output_tokens :: "nat list"
  output_count :: nat
  proposed_tokens :: nat
  accepted_tokens :: nat
  verified_rows :: nat
  committed_target_rows :: nat
  eos_frontier_stopped :: bool
  abort_succeeded :: bool

definition round_ok :: "round_result \<Rightarrow> bool" where
  "round_ok r \<longleftrightarrow> status r = kContinue \<or> status r = kLength \<or> status r = kStop \<or> status r = kCancelled"

definition initial_result :: round_result where
  "initial_result = \<lparr>status = kInvalidOptions, output_tokens = replicate kMaximumVerifyRows 0, output_count = 0,
     proposed_tokens = 0, accepted_tokens = 0, verified_rows = 0, committed_target_rows = 0,
     eos_frontier_stopped = False, abort_succeeded = True\<rparr>"

text \<open>
  The operations that take \<^verbatim>\<open>draft\<close> or \<^verbatim>\<open>predictions\<close> by pointer return the array after the call;
  \<^verbatim>\<open>propose_bounded\<close> also returns \<^verbatim>\<open>actual\<close>, and \<^verbatim>\<open>propose_eos_bounded\<close> \<^verbatim>\<open>actual\<close> and \<^verbatim>\<open>stopped\<close>.
\<close>

record 's round_backend =
  b_begin :: "nat \<Rightarrow> 's \<Rightarrow> bool \<times> 's"
  b_propose :: "nat \<Rightarrow> nat \<Rightarrow> nat list \<Rightarrow> 's \<Rightarrow> bool \<times> nat list \<times> 's"
  b_propose_bounded :: "nat \<Rightarrow> nat \<Rightarrow> nat list \<Rightarrow> 's \<Rightarrow> bool \<times> nat list \<times> nat \<times> 's"
  b_propose_eos_bounded :: "nat \<Rightarrow> nat \<Rightarrow> nat \<Rightarrow> nat list \<Rightarrow> 's \<Rightarrow> bool \<times> nat list \<times> nat \<times> bool \<times> 's"
  b_verify :: "nat \<Rightarrow> nat list \<Rightarrow> nat \<Rightarrow> nat list \<Rightarrow> 's \<Rightarrow> bool \<times> nat list \<times> 's"
  b_commit_prefix :: "nat \<Rightarrow> nat \<Rightarrow> 's \<Rightarrow> bool \<times> 's"
  b_finish :: "'s \<Rightarrow> bool \<times> 's"
  b_abort :: "'s \<Rightarrow> bool \<times> 's"

type_synonym ('s, 'o) token_observer = "nat \<Rightarrow> 's \<Rightarrow> 'o \<Rightarrow> bool \<times> 'o"

subsection \<open>The round\<close>

definition invalid_options :: "round_options \<Rightarrow> bool \<Rightarrow> bool \<Rightarrow> bool" where
  "invalid_options opt has_observer has_context \<longleftrightarrow>
     (draft_length opt \<noteq> 2 \<and> draft_length opt \<noteq> 3) \<or> vocabulary_size opt = 0 \<or>
     seed_token opt \<ge> vocabulary_size opt \<or> stop_token opt \<ge> vocabulary_size opt \<or>
     seed_token opt = stop_token opt \<or> remaining_output opt = 0 \<or>
     available_target_rows opt < remaining_output opt \<or> (\<not> has_observer \<and> has_context)"

definition fail_round :: "'s round_backend \<Rightarrow> round_status \<Rightarrow> round_result \<Rightarrow> 's \<Rightarrow> 'o \<Rightarrow> round_result \<times> 's \<times> 'o" where
  "fail_round b st result s ob =
     (let (ok, s') = b_abort b s in (result\<lparr>status := st, abort_succeeded := ok\<rparr>, s', ob))"

text \<open>The three ways to propose a draft: success, draft array, count, stopped, state.\<close>

definition propose_round :: "round_options \<Rightarrow> 's round_backend \<Rightarrow> nat \<Rightarrow> nat list \<Rightarrow> 's \<Rightarrow> bool \<times> nat list \<times> nat \<times> bool \<times> 's" where
  "propose_round opt b maximum draft s =
     (if eos_frontier opt then b_propose_eos_bounded b (seed_token opt) maximum (stop_token opt) draft s
      else if confidence_lookahead opt then
        (let (ok, draft', count, s') = b_propose_bounded b (seed_token opt) maximum draft s
         in (ok, draft', count, False, s'))
      else let (ok, draft', s') = b_propose b (seed_token opt) maximum draft s
           in (ok, draft', maximum, False, s'))"

definition invalid_proposal :: "round_options \<Rightarrow> nat \<Rightarrow> nat list \<Rightarrow> nat \<Rightarrow> bool \<Rightarrow> bool" where
  "invalid_proposal opt maximum draft count stopped \<longleftrightarrow>
     count > maximum \<or> (count = 0 \<and> \<not> stopped) \<or>
     (stopped \<and> (count \<ge> maximum \<or> draft ! count \<noteq> stop_token opt))"

definition round_step_status :: "round_options \<Rightarrow> nat \<Rightarrow> bool \<Rightarrow> nat \<Rightarrow> round_status" where
  "round_step_status opt token proceed emitted =
     (if token = stop_token opt then kStop
      else if \<not> proceed then kCancelled
      else if emitted = remaining_output opt then kLength else kContinue)"

function round_loop ::
  "round_options \<Rightarrow> 's round_backend \<Rightarrow> ('s, 'o) token_observer option \<Rightarrow> nat list \<Rightarrow> nat list \<Rightarrow> nat \<Rightarrow> nat \<Rightarrow>
   round_result \<Rightarrow> 's \<Rightarrow> 'o \<Rightarrow> bool \<times> round_result \<times> 's \<times> 'o" where
  "round_loop opt b obs draft predictions count i result s ob =
     (if i \<le> count then
        let accepted = (i < count \<and> draft ! i = predictions ! i);
            token = predictions ! i;
            (committed, s1) = b_commit_prefix b (i + 1) token s
        in if \<not> committed then (False, result, s1, ob)
           else let result1 = result\<lparr>committed_target_rows := i + 1,
                      output_tokens := (output_tokens result)[output_count result := token],
                      output_count := output_count result + 1,
                      accepted_tokens := accepted_tokens result + (if accepted then 1 else 0)\<rparr>;
                    (proceed, ob1) = (case obs of None \<Rightarrow> (True, ob) | Some f \<Rightarrow> f token s1 ob);
                    st = round_step_status opt token proceed (output_count result1);
                    result2 = result1\<lparr>status := st\<rparr>
                in if st \<noteq> kContinue \<or> \<not> accepted then (True, result2, s1, ob1)
                   else round_loop opt b obs draft predictions count (i + 1) result2 s1 ob1
      else (True, result, s, ob))"
  by pat_completeness auto
termination
  by (relation "measure (\<lambda>(opt, b, obs, draft, predictions, count, i, result, s, ob). Suc count - i)") auto

declare round_loop.simps [simp del]

definition run_round ::
  "round_options \<Rightarrow> 's round_backend \<Rightarrow> ('s, 'o) token_observer option \<Rightarrow> bool \<Rightarrow> 's \<Rightarrow> 'o \<Rightarrow> round_result \<times> 's \<times> 'o" where
  "run_round opt b obs has_context s ob =
     (let result = initial_result in
      if invalid_options opt (obs \<noteq> None) has_context then (result, s, ob)
      else let maximum = min (draft_length opt) (remaining_output opt - 1);
               (began, s1) = b_begin b (maximum + 1) s
      in if \<not> began then fail_round b kBackendFailure result s1 ob
      else let draft0 = replicate kMaximumDraftLength 0;
               (ok, draft, count, stopped, s2) =
                 (if maximum \<noteq> 0 then propose_round opt b maximum draft0 s1 else (True, draft0, maximum, False, s1))
      in if \<not> ok then fail_round b kBackendFailure result s2 ob
      else if maximum \<noteq> 0 \<and> invalid_proposal opt maximum draft count stopped
      then fail_round b kInvalidPrediction result s2 ob
      else let result = result\<lparr>eos_frontier_stopped := stopped, proposed_tokens := count\<rparr>
      in if list_ex (\<lambda>i. draft ! i \<ge> vocabulary_size opt) [0..<count]
      then fail_round b kInvalidPrediction result s2 ob
      else let (verified, predictions, s3) =
                 b_verify b (seed_token opt) draft count (replicate kMaximumVerifyRows 0) s2
      in if \<not> verified then fail_round b kBackendFailure result s3 ob
      else let result = result\<lparr>verified_rows := count + 1\<rparr>
      in if list_ex (\<lambda>i. predictions ! i \<ge> vocabulary_size opt) [0..<count + 1]
      then fail_round b kInvalidPrediction result s3 ob
      else let (completed, result, s4, ob1) = round_loop opt b obs draft predictions count 0 result s3 ob
      in if \<not> completed then fail_round b kBackendFailure result s4 ob1
      else let (finished, s5) = b_finish b s4
      in if \<not> finished then fail_round b kBackendFailure result s5 ob1
      else (result, s5, ob1))"

subsection \<open>Plain greedy decoding\<close>

text \<open>\<open>target xs\<close> is the token the target model picks after the tokens \<open>xs\<close>.\<close>

fun greedy :: "(nat list \<Rightarrow> nat) \<Rightarrow> nat list \<Rightarrow> nat \<Rightarrow> nat list" where
  "greedy target xs 0 = []"
| "greedy target xs (Suc n) = target xs # greedy target (xs @ [target xs]) n"

lemma length_greedy [simp]: "length (greedy target xs n) = n"
  by (induction n arbitrary: xs) simp_all

lemma greedy_unique:
  "length ys = n \<Longrightarrow> (\<And>k. k < n \<Longrightarrow> ys ! k = target (xs @ take k ys)) \<Longrightarrow> ys = greedy target xs n"
proof (induction n arbitrary: xs ys)
  case (Suc n)
  then obtain y zs where ys: "ys = y # zs" by (cases ys) auto
  have y: "y = target xs" using Suc(3) [of 0] ys by simp
  have "zs = greedy target (xs @ [y]) n"
  proof (rule Suc.IH)
    fix k assume "k < n"
    then show "zs ! k = target ((xs @ [y]) @ take k zs)" using Suc(3) [of "Suc k"] ys by simp
  qed (use Suc(2) ys in simp)
  with ys y show ?case by simp
qed simp

lemma greedy_append: "greedy target xs (m + n) = greedy target xs m @ greedy target (xs @ greedy target xs m) n"
  by (induction m arbitrary: xs) simp_all

lemma take_greedy: "k \<le> n \<Longrightarrow> take k (greedy target xs n) = greedy target xs k"
  using greedy_append [of target xs k "n - k"] by simp

subsection \<open>The contract of a backend\<close>

text \<open>
  \<open>history\<close> is the token sequence the target has consumed and committed, \<open>base\<close> the history when the
  round began, \<open>staged\<close> the rows verified in the round. Only successful calls are promised
  anything; a failed call is followed by an abort.
\<close>

locale round_contract =
  fixes b :: "'s round_backend"
    and inv :: "'s \<Rightarrow> bool"
    and history :: "'s \<Rightarrow> nat list"
    and base :: "'s \<Rightarrow> nat list"
    and staged :: "'s \<Rightarrow> nat list"
    and target :: "nat list \<Rightarrow> nat"
  assumes begin_law: "inv s \<Longrightarrow> b_begin b rows s = (True, s') \<Longrightarrow>
      inv s' \<and> history s' = history s \<and> base s' = history s"
    and propose_law: "inv s \<Longrightarrow> b_propose b seed n d s = (True, d', s') \<Longrightarrow>
      inv s' \<and> history s' = history s \<and> base s' = base s \<and> length d' = length d"
    and bounded_law: "inv s \<Longrightarrow> b_propose_bounded b seed n d s = (True, d', m, s') \<Longrightarrow>
      inv s' \<and> history s' = history s \<and> base s' = base s \<and> length d' = length d"
    and eos_law: "inv s \<Longrightarrow> b_propose_eos_bounded b seed n stop d s = (True, d', m, st, s') \<Longrightarrow>
      inv s' \<and> history s' = history s \<and> base s' = base s \<and> length d' = length d"
    and verify_law: "inv s \<Longrightarrow> history s = base s \<Longrightarrow> n \<le> length d \<Longrightarrow> length ps = kMaximumVerifyRows \<Longrightarrow>
      b_verify b seed d n ps s = (True, ps', s') \<Longrightarrow>
      inv s' \<and> base s' = base s \<and> staged s' = seed # take n d \<and> length ps' = length ps \<and>
      (\<forall>i\<le>n. ps' ! i = target (base s @ seed # take i d))"
    and commit_law: "inv s \<Longrightarrow> b_commit_prefix b rows pending s = (True, s') \<Longrightarrow>
      inv s' \<and> base s' = base s \<and> staged s' = staged s \<and> history s' = base s @ take rows (staged s)"
    and finish_law: "inv s \<Longrightarrow> b_finish b s = (True, s') \<Longrightarrow> inv s' \<and> history s' = history s"
begin

lemma propose_round_law:
  "inv s \<Longrightarrow> propose_round opt b n d s = (True, d', m, st, s') \<Longrightarrow>
   inv s' \<and> history s' = history s \<and> base s' = base s \<and> length d' = length d"
  by (auto simp: propose_round_def dest: propose_law bounded_law eos_law split: if_splits prod.splits)

end

text \<open>
  What the commit loop leaves: \<open>n\<close> tokens were emitted, each the prediction of its row, and every
  draft token before the last emitted one was accepted.
\<close>

definition emitted :: "round_options \<Rightarrow> nat list \<Rightarrow> nat list \<Rightarrow> nat \<Rightarrow> round_result \<Rightarrow> nat \<Rightarrow> bool" where
  "emitted opt draft predictions count r n \<longleftrightarrow>
     1 \<le> n \<and> n \<le> count + 1 \<and> output_count r = n \<and> committed_target_rows r = n \<and>
     length (output_tokens r) = kMaximumVerifyRows \<and>
     take n (output_tokens r) = map ((!) predictions) [0..<n] \<and>
     (\<forall>k<n - 1. draft ! k = predictions ! k \<and> predictions ! k \<noteq> stop_token opt) \<and>
     n - 1 \<le> accepted_tokens r \<and> accepted_tokens r \<le> min n count \<and>
     (status r = kStop \<longleftrightarrow> predictions ! (n - 1) = stop_token opt) \<and>
     (status r = kLength \<longrightarrow> n = remaining_output opt) \<and>
     (status r = kContinue \<longrightarrow> n \<noteq> remaining_output opt) \<and> round_ok r"

definition step_result :: "round_options \<Rightarrow> nat \<Rightarrow> nat \<Rightarrow> bool \<Rightarrow> bool \<Rightarrow> round_result \<Rightarrow> round_result" where
  "step_result opt i token accepted proceed result = result\<lparr>committed_target_rows := i + 1,
     output_tokens := (output_tokens result)[output_count result := token],
     output_count := output_count result + 1,
     accepted_tokens := accepted_tokens result + (if accepted then 1 else 0),
     status := round_step_status opt token proceed (output_count result + 1)\<rparr>"

lemma round_loop_step:
  assumes "round_loop opt b obs draft predictions count i result s ob = (True, r, s', ob')" "i \<le> count"
  obtains proceed s1 ob1 where "b_commit_prefix b (i + 1) (predictions ! i) s = (True, s1)"
    "(case obs of None \<Rightarrow> (True, ob) | Some f \<Rightarrow> f (predictions ! i) s1 ob) = (proceed, ob1)"
    "let accepted = (i < count \<and> draft ! i = predictions ! i);
         r2 = step_result opt i (predictions ! i) accepted proceed result
     in if status r2 \<noteq> kContinue \<or> \<not> accepted then r = r2 \<and> s' = s1 \<and> ob' = ob1
        else round_loop opt b obs draft predictions count (i + 1) r2 s1 ob1 = (True, r, s', ob')"
proof -
  obtain c s1 where c: "b_commit_prefix b (i + 1) (predictions ! i) s = (c, s1)" by fastforce
  obtain proceed ob1 where o: "(case obs of None \<Rightarrow> (True, ob) | Some f \<Rightarrow> f (predictions ! i) s1 ob) = (proceed, ob1)"
    by fastforce
  show thesis
    using assms c o
    by (intro that [of s1 proceed ob1]; subst (asm) round_loop.simps)
       (auto simp: Let_def step_result_def split: if_splits)
qed

lemma round_step_status_ok: "round_step_status opt token proceed n \<in> {kStop, kCancelled, kLength, kContinue}"
  by (simp add: round_step_status_def)

lemma take_update_Suc: "i < length xs \<Longrightarrow> take (Suc i) (xs[i := x]) = take i xs @ [x]"
  by (simp add: take_Suc_conv_app_nth)

lemma step_result_emitted:
  assumes "i \<le> count" "count \<le> kMaximumDraftLength" "output_count result = i"
    "length (output_tokens result) = kMaximumVerifyRows"
    "take i (output_tokens result) = map ((!) predictions) [0..<i]"
    "\<forall>k<i. draft ! k = predictions ! k \<and> predictions ! k \<noteq> stop_token opt"
    "accepted_tokens result = i" "accepted \<longrightarrow> i < count"
  shows "emitted opt draft predictions count (step_result opt i (predictions ! i) accepted proceed result) (i + 1)"
  using assms round_step_status_ok [of opt "predictions ! i" proceed "i + 1"]
  by (auto simp: emitted_def step_result_def round_ok_def take_update_Suc kMaximumVerifyRows_def
      kMaximumDraftLength_def) (auto simp: round_step_status_def split: if_splits)

context round_contract
begin

lemma round_loop_emitted:
  assumes "round_loop opt b obs draft predictions count i result s ob = (True, r, s', ob')"
    and "inv s" "i \<le> count" "count \<le> kMaximumDraftLength"
    and "output_count result = i" "length (output_tokens result) = kMaximumVerifyRows"
    and "take i (output_tokens result) = map ((!) predictions) [0..<i]"
    and "\<forall>k<i. draft ! k = predictions ! k \<and> predictions ! k \<noteq> stop_token opt"
    and "accepted_tokens result = i"
  shows "\<exists>n. emitted opt draft predictions count r n \<and> inv s' \<and> base s' = base s \<and>
    history s' = base s @ take n (staged s)"
  using assms
proof (induction "count - i" arbitrary: i result s ob)
  case (0 i result s ob)
  then have i: "i = count" by simp
  from 0(2,4) obtain proceed s1 ob1 where step: "b_commit_prefix b (i + 1) (predictions ! i) s = (True, s1)"
    "r = step_result opt i (predictions ! i) False proceed result" "s' = s1"
    by (rule round_loop_step) (auto simp: i Let_def)
  have "emitted opt draft predictions count r (i + 1)"
    unfolding step(2) using 0 by (intro step_result_emitted) simp_all
  with commit_law [OF 0(3) step(1)] step(3) show ?case by blast
next
  case (Suc m i result s ob)
  show ?case using Suc(3,5)
  proof (rule round_loop_step)
    fix proceed s1 ob1
    let ?acc = "i < count \<and> draft ! i = predictions ! i"
    let ?r2 = "step_result opt i (predictions ! i) ?acc proceed result"
    assume c: "b_commit_prefix b (i + 1) (predictions ! i) s = (True, s1)"
      and rec: "let accepted = ?acc; r2 = step_result opt i (predictions ! i) accepted proceed result
        in if status r2 \<noteq> kContinue \<or> \<not> accepted then r = r2 \<and> s' = s1 \<and> ob' = ob1
           else round_loop opt b obs draft predictions count (i + 1) r2 s1 ob1 = (True, r, s', ob')"
    have e: "emitted opt draft predictions count ?r2 (i + 1)"
      using Suc by (intro step_result_emitted) simp_all
    show ?thesis
    proof (cases "status ?r2 \<noteq> kContinue \<or> \<not> ?acc")
      case True
      then have "r = ?r2 \<and> s' = s1" using rec unfolding Let_def by presburger
      with e commit_law [OF Suc(4) c] show ?thesis by blast
    next
      case False
      have more: "round_loop opt b obs draft predictions count (i + 1) ?r2 s1 ob1 = (True, r, s', ob')"
        using rec unfolding Let_def by (simp only: if_not_P [OF False])
      have s1: "inv s1" "base s1 = base s" "staged s1 = staged s" using commit_law [OF Suc(4) c] by simp_all
      have go: "predictions ! i \<noteq> stop_token opt" "status ?r2 = kContinue"
        using False by (auto simp: step_result_def round_step_status_def)
      have "\<exists>n. emitted opt draft predictions count r n \<and> inv s' \<and> base s' = base s1 \<and>
          history s' = base s1 @ take n (staged s1)"
      proof (rule Suc(1) [OF _ more s1(1)])
        show "take (i + 1) (output_tokens ?r2) = map ((!) predictions) [0..<i + 1]"
          and "output_count ?r2 = i + 1" and "length (output_tokens ?r2) = kMaximumVerifyRows"
          using e by (simp_all add: emitted_def)
        show "accepted_tokens ?r2 = i + 1" using False Suc(11) by (simp add: step_result_def)
        show "\<forall>k<i + 1. draft ! k = predictions ! k \<and> predictions ! k \<noteq> stop_token opt"
          using False go(1) Suc(10) by (auto simp: less_Suc_eq)
      qed (use False Suc(2,6) in auto)
      with s1 show ?thesis by simp
    qed
  qed
qed

text \<open>The outcome of a round that ends well: exactly the tokens of plain greedy decoding.\<close>

lemma predictions_greedy:
  assumes "\<forall>i\<le>count. predictions ! i = target (xs @ seed # take i draft)" "n \<le> count + 1"
    "\<forall>k<n - 1. draft ! k = predictions ! k" "count \<le> length draft"
  shows "map ((!) predictions) [0..<n] = greedy target (xs @ [seed]) n"
proof (rule greedy_unique)
  fix k assume k: "k < n"
  have "take k (map ((!) predictions) [0..<n]) = map ((!) predictions) [0..<k]"
    using k by (simp add: take_map)
  also have "\<dots> = take k draft"
    using k assms(2-4) by (intro nth_equalityI) auto
  finally show "map ((!) predictions) [0..<n] ! k = target ((xs @ [seed]) @ take k (map ((!) predictions) [0..<n]))"
    using k assms(1,2) by simp
qed simp

lemma run_round_steps:
  assumes "run_round opt b obs has_context s ob = (r, s', ob')" "round_ok r"
  obtains maximum s1 draft count stopped s2 predictions s3 s4 r0 where
    "\<not> invalid_options opt (obs \<noteq> None) has_context" "maximum = min (draft_length opt) (remaining_output opt - 1)"
    "b_begin b (maximum + 1) s = (True, s1)"
    "(if maximum \<noteq> 0 then propose_round opt b maximum (replicate kMaximumDraftLength 0) s1
      else (True, replicate kMaximumDraftLength 0, maximum, False, s1)) = (True, draft, count, stopped, s2)"
    "maximum \<noteq> 0 \<longrightarrow> \<not> invalid_proposal opt maximum draft count stopped"
    "b_verify b (seed_token opt) draft count (replicate kMaximumVerifyRows 0) s2 = (True, predictions, s3)"
    "\<forall>i\<le>count. predictions ! i < vocabulary_size opt"
    "round_loop opt b obs draft predictions count 0 r0 s3 ob = (True, r, s4, ob')"
    "r0 = initial_result\<lparr>eos_frontier_stopped := stopped, proposed_tokens := count, verified_rows := count + 1\<rparr>"
    "b_finish b s4 = (True, s')"
proof -
  have bad: "fail_round b st r0 s0 ob0 = (r, s', ob') \<Longrightarrow> st \<in> {kBackendFailure, kInvalidPrediction} \<Longrightarrow> thesis" for st r0 s0 ob0
    using assms(2) by (auto simp: fail_round_def round_ok_def split: prod.splits)
  have "initial_result \<noteq> r" using assms(2) by (auto simp: initial_result_def round_ok_def)
  with assms(1) show thesis
    unfolding run_round_def Let_def
    by (auto split: if_splits prod.splits dest!: bad intro!: that simp: list_ex_iff not_le Ball_def)
       (metis le_neq_implies_less)
qed

lemma round_exact:
  assumes "run_round opt b obs has_context s ob = (r, s', ob')" "round_ok r" "inv s"
  shows "inv s' \<and> (\<exists>n. output_count r = n \<and> 1 \<le> n \<and> n \<le> remaining_output opt \<and> n \<le> kMaximumVerifyRows \<and>
    take n (output_tokens r) = greedy target (history s @ [seed_token opt]) n \<and>
    history s' = history s @ seed_token opt # greedy target (history s @ [seed_token opt]) (n - 1) \<and>
    stop_token opt \<notin> set (greedy target (history s @ [seed_token opt]) (n - 1)) \<and>
    (\<forall>x\<in>set (take n (output_tokens r)). x < vocabulary_size opt) \<and>
    (status r = kStop \<longleftrightarrow> last (take n (output_tokens r)) = stop_token opt) \<and>
    (status r = kLength \<longrightarrow> n = remaining_output opt) \<and>
    (status r = kContinue \<longrightarrow> n < remaining_output opt))"
  using assms(1,2)
proof (rule run_round_steps)
  fix maximum s1 draft count stopped s2 predictions s3 s4 r0
  assume options: "\<not> invalid_options opt (obs \<noteq> None) has_context"
      "maximum = min (draft_length opt) (remaining_output opt - 1)"
    and begin_round: "b_begin b (maximum + 1) s = (True, s1)"
    and propose: "(if maximum \<noteq> 0 then propose_round opt b maximum (replicate kMaximumDraftLength 0) s1
      else (True, replicate kMaximumDraftLength 0, maximum, False, s1)) = (True, draft, count, stopped, s2)"
      "maximum \<noteq> 0 \<longrightarrow> \<not> invalid_proposal opt maximum draft count stopped"
    and verify: "b_verify b (seed_token opt) draft count (replicate kMaximumVerifyRows 0) s2 = (True, predictions, s3)"
      "\<forall>i\<le>count. predictions ! i < vocabulary_size opt"
    and loop: "round_loop opt b obs draft predictions count 0 r0 s3 ob = (True, r, s4, ob')"
      "r0 = initial_result\<lparr>eos_frontier_stopped := stopped, proposed_tokens := count, verified_rows := count + 1\<rparr>"
    and finish: "b_finish b s4 = (True, s')"
  have s1: "inv s1" "history s1 = history s" "base s1 = history s" using begin_law [OF assms(3) begin_round] by simp_all
  have s2: "inv s2" "history s2 = history s" "base s2 = history s" "length draft = kMaximumDraftLength"
    using propose(1) s1 propose_round_law [OF s1(1), of opt maximum _ draft count stopped s2]
    by (auto split: if_splits)
  have max: "maximum \<le> kMaximumDraftLength" "Suc maximum \<le> remaining_output opt"
    using options by (auto simp: invalid_options_def kMaximumDraftLength_def)
  have count: "count \<le> maximum" using propose by (auto simp: invalid_proposal_def split: if_splits)
  have s3: "inv s3" "base s3 = history s" "staged s3 = seed_token opt # take count draft"
    "\<forall>i\<le>count. predictions ! i = target (history s @ seed_token opt # take i draft)"
    using verify_law [OF s2(1) _ _ _ verify(1)] s2 count max
    by (simp_all add: kMaximumVerifyRows_def kMaximumDraftLength_def)
  obtain n where e: "emitted opt draft predictions count r n" and s4: "inv s4"
    "history s4 = history s @ take n (staged s3)"
    using round_loop_emitted [OF loop(1) s3(1)] loop(2) count max s3(2)
    by (auto simp: initial_result_def)
  have n: "1 \<le> n" "n \<le> count + 1" "\<forall>k<n - 1. draft ! k = predictions ! k" using e by (auto simp: emitted_def)
  have out: "take n (output_tokens r) = greedy target (history s @ [seed_token opt]) n"
    using predictions_greedy [OF s3(4) n(2,3)] e count max s2(4) by (simp add: emitted_def)
  have short: "map ((!) predictions) [0..<n - 1] = greedy target (history s @ [seed_token opt]) (n - 1)"
    using n count max s2(4) by (intro predictions_greedy [OF s3(4)]) auto
  have rows: "take n (staged s3) = seed_token opt # greedy target (history s @ [seed_token opt]) (n - 1)"
  proof -
    have "take (n - 1) draft = map ((!) predictions) [0..<n - 1]"
      using n count max s2(4) by (intro nth_equalityI) auto
    then show ?thesis unfolding short using n by (cases n) (auto simp: s3(3) min_def)
  qed
  have no_stop: "stop_token opt \<notin> set (greedy target (history s @ [seed_token opt]) (n - 1))"
    unfolding short [symmetric] using e by (auto simp: emitted_def)
  have list: "take n (output_tokens r) = map ((!) predictions) [0..<n]" using e by (simp add: emitted_def)
  have last: "last (take n (output_tokens r)) = predictions ! (n - 1)"
    unfolding list using n by (simp add: last_map)
  have fin: "inv s'" "history s' = history s @ take n (staged s3)"
    using finish_law [OF s4(1) finish] s4(2) by simp_all
  have bound: "n \<le> remaining_output opt" "n \<le> kMaximumVerifyRows"
    using n count max by (simp_all add: kMaximumVerifyRows_def kMaximumDraftLength_def)
  have small: "\<forall>x\<in>set (take n (output_tokens r)). x < vocabulary_size opt"
    unfolding list using verify(2) n by auto
  show ?thesis
  proof (intro conjI exI [of _ n])
    show "status r = kStop \<longleftrightarrow> last (take n (output_tokens r)) = stop_token opt"
      unfolding last using e by (simp add: emitted_def)
    show "history s' = history s @ seed_token opt # greedy target (history s @ [seed_token opt]) (n - 1)"
      using fin(2) rows by simp
    show "status r = kContinue \<longrightarrow> n < remaining_output opt" using e bound by (auto simp: emitted_def)
  qed (use e n bound out no_stop small fin(1) in \<open>simp_all add: emitted_def\<close>)
qed

end

end
