(* ===== verification/Mtp_Transaction.thy ===== *)
theory Mtp_Transaction
  imports Mtp_Control
begin

text \<open>
  The backend the service runs rounds on: \<^verbatim>\<open>Draft\<close> and \<^verbatim>\<open>TargetTransaction\<close> of
  \<^verbatim>\<open>src/runtime/mtp_device_internal.cpp\<close> (with \<^verbatim>\<open>verify_multirow\<close> of \<^verbatim>\<open>mtp_verify_internal.cpp\<close>), the host
  side of it: admission checks, positions, snapshots, the seed cache and the prepared tail. The
  device is a parameter, a record of operations on a device state \<open>'d\<close> that may fail; the
  recurrent state in the request arena and in a snapshot slot is represented by the token
  sequence that produced it. Compiled without \<^verbatim>\<open>Q3X_ENABLE_MTP_GDN_OWNER\<close>.
\<close>

subsection \<open>The device\<close>

text \<open>
  \<open>dv_target xs\<close> runs the target model on the last token of \<open>xs\<close> after the others and gives the
  argmax of the logits, \<open>dv_draft\<close> one step of the draft model (its token and whether the
  confidence is below 0.4), \<open>dv_sync\<close> any other copy or launch that is waited for.
\<close>

record 'd device =
  dv_target :: "nat list \<Rightarrow> 'd \<Rightarrow> nat option \<times> 'd"
  dv_draft :: "nat \<Rightarrow> bool \<Rightarrow> 'd \<Rightarrow> (nat \<times> bool) option \<times> 'd"
  dv_sync :: "'d \<Rightarrow> bool \<times> 'd"

definition kMtpVocabulary :: nat where
  "kMtpVocabulary = 248320"

subsection \<open>The draft model\<close>

record draft_state =
  dr_position :: nat
  dr_capacity :: nat
  dr_poisoned :: bool
  dr_prepared_begin :: nat
  dr_prepared_rows :: nat
  dr_prepared_committed :: nat

definition discard_prepared_kv :: "draft_state \<Rightarrow> draft_state" where
  "discard_prepared_kv d = d\<lparr>dr_prepared_begin := 0, dr_prepared_rows := 0, dr_prepared_committed := 0\<rparr>"

text \<open>\<^verbatim>\<open>Impl::call\<close> on a failed status.\<close>

definition draft_failed :: "draft_state \<Rightarrow> draft_state" where
  "draft_failed d = d\<lparr>dr_poisoned := True, dr_prepared_begin := 0, dr_prepared_rows := 0, dr_prepared_committed := 0\<rparr>"

definition draft_rewind :: "nat \<Rightarrow> draft_state \<Rightarrow> bool \<times> draft_state" where
  "draft_rewind position d =
     (if dr_poisoned d \<or> position > dr_position d then (False, d)
      else (True, (discard_prepared_kv d)\<lparr>dr_position := position\<rparr>))"

definition draft_append_kv :: "'d device \<Rightarrow> nat \<Rightarrow> draft_state \<Rightarrow> 'd \<Rightarrow> bool \<times> draft_state \<times> 'd" where
  "draft_append_kv dev token d w =
     (if dr_poisoned d then (False, d, w)
      else if token \<ge> kMtpVocabulary \<or> dr_position d \<ge> dr_capacity d then (False, draft_failed d, w)
      else let (ok, w') = dv_sync dev w in
        if ok then (True, (discard_prepared_kv d)\<lparr>dr_position := dr_position d + 1\<rparr>, w')
        else (False, draft_failed d, w'))"

definition draft_prepare_kv_prefix :: "'d device \<Rightarrow> nat list \<Rightarrow> draft_state \<Rightarrow> 'd \<Rightarrow> bool \<times> draft_state \<times> 'd" where
  "draft_prepare_kv_prefix dev tokens d w =
     (let rows = length tokens in
      if dr_poisoned d then (False, d, w)
      else if rows < 1 \<or> rows > 4 \<or> dr_prepared_rows d \<noteq> 0 \<or> rows > dr_capacity d - dr_position d \<or>
              list_ex (\<lambda>t. t \<ge> kMtpVocabulary) tokens
      then (False, draft_failed d, w)
      else let (ok, w') = dv_sync dev w in
        if ok then (True, d\<lparr>dr_prepared_begin := dr_position d, dr_prepared_rows := rows, dr_prepared_committed := 0\<rparr>, w')
        else (False, draft_failed d, w'))"

definition draft_commit_prepared_kv :: "nat \<Rightarrow> draft_state \<Rightarrow> bool \<times> draft_state" where
  "draft_commit_prepared_kv rows d =
     (if dr_poisoned d \<or> dr_prepared_rows d = 0 \<or> rows \<noteq> dr_prepared_committed d + 1 \<or>
         rows > dr_prepared_rows d \<or> dr_position d \<noteq> dr_prepared_begin d + dr_prepared_committed d
      then (False, d)
      else (True, d\<lparr>dr_position := dr_prepared_begin d + rows, dr_prepared_committed := rows\<rparr>))"

definition draft_step :: "'d device \<Rightarrow> nat \<Rightarrow> bool \<Rightarrow> draft_state \<Rightarrow> 'd \<Rightarrow> (nat \<times> bool) option \<times> draft_state \<times> 'd" where
  "draft_step dev token confidence d w =
     (if dr_poisoned d then (None, d, w)
      else if token \<ge> kMtpVocabulary \<or> dr_position d \<ge> dr_capacity d then (None, draft_failed d, w)
      else case dv_draft dev token confidence w of
          (None, w') \<Rightarrow> (None, draft_failed d, w')
        | (Some (prediction, low), w') \<Rightarrow>
            if prediction \<ge> kMtpVocabulary then (None, draft_failed d, w')
            else (Some (prediction, confidence \<and> low), (discard_prepared_kv d)\<lparr>dr_position := dr_position d + 1\<rparr>, w'))"

definition draft_poison :: "'d device \<Rightarrow> draft_state \<Rightarrow> 'd \<Rightarrow> bool \<times> draft_state \<times> 'd" where
  "draft_poison dev d w =
     (let (ok, w') = dv_sync dev w in (ok, (discard_prepared_kv d)\<lparr>dr_poisoned := True\<rparr>, w'))"

subsection \<open>The transaction\<close>

record 'd transaction =
  tx_device :: 'd
  tx_draft :: draft_state
  tx_tokens :: "nat list"
  tx_position :: nat
  tx_capacity :: nat
  tx_poisoned :: bool
  tx_prefill_active :: bool
  tx_trace_valid :: bool
  tx_retained_prefill_hidden_valid :: bool
  tx_request_reuse_boundary :: nat
  tx_committed_request_positions :: nat
  tx_multirow :: bool
  tx_slots :: "nat list list"
  tx_entry_position :: nat
  tx_rows :: nat
  tx_committed :: nat
  tx_inputs :: "nat list"
  tx_predictions :: "nat list"
  tx_prepared_tail_rows :: nat
  tx_cached_seed :: nat
  tx_seed_cache_valid :: bool
  tx_active :: bool
  tx_verified :: bool
  tx_entry_snapshots :: nat
  tx_scalar_verify_rows :: nat
  tx_direct_gdn_rows :: nat
  tx_seed_kv_reuses :: nat
  tx_tail_kv_batches :: nat
  tx_tail_kv_rows :: nat

definition tx_sync :: "'d device \<Rightarrow> 'd transaction \<Rightarrow> bool \<times> 'd transaction" where
  "tx_sync dev t = (let (ok, w) = dv_sync dev (tx_device t) in (ok, t\<lparr>tx_device := w\<rparr>))"

definition tx_snapshot :: "'d device \<Rightarrow> nat \<Rightarrow> 'd transaction \<Rightarrow> bool \<times> 'd transaction" where
  "tx_snapshot dev slot t =
     (let (ok, t) = tx_sync dev t in
      if \<not> ok then (False, t)
      else if slot = 0 then (True, t\<lparr>tx_entry_snapshots := tx_entry_snapshots t + 1\<rparr>)
      else (True, t\<lparr>tx_slots := (tx_slots t)[slot := tx_tokens t]\<rparr>))"

definition tx_begin :: "'d device \<Rightarrow> nat \<Rightarrow> 'd transaction \<Rightarrow> bool \<times> 'd transaction" where
  "tx_begin dev rows t =
     (if tx_active t \<or> tx_poisoned t \<or> tx_prefill_active t \<or> rows < 1 \<or> rows > 4 \<or> tx_position t = 0 \<or>
         dr_position (tx_draft t) + 1 \<noteq> tx_position t \<or> rows > tx_capacity t - tx_position t
      then (False, t)
      else tx_snapshot dev 0 (t\<lparr>tx_active := True, tx_seed_cache_valid := False, tx_verified := False,
             tx_committed := 0, tx_prepared_tail_rows := 0, tx_draft := discard_prepared_kv (tx_draft t),
             tx_entry_position := tx_position t, tx_rows := rows, tx_request_reuse_boundary := 2,
             tx_committed_request_positions := 0\<rparr>))"

text \<open>One draft step of a proposal at index \<open>i\<close>, with the seed cache it fills.\<close>

definition tx_draft_step ::
  "'d device \<Rightarrow> nat \<Rightarrow> nat \<Rightarrow> nat list \<Rightarrow> bool \<Rightarrow> 'd transaction \<Rightarrow> (nat \<times> bool) option \<times> 'd transaction" where
  "tx_draft_step dev seed i draft confidence t =
     (let (r, d, w) = draft_step dev (if i = 0 then seed else draft ! (i - 1)) confidence (tx_draft t) (tx_device t);
          t = t\<lparr>tx_draft := d, tx_device := w\<rparr>
      in case r of
           None \<Rightarrow> (None, t)
         | Some p \<Rightarrow> (Some p, if i = 0 then t\<lparr>tx_cached_seed := seed, tx_seed_cache_valid := True\<rparr> else t))"

fun tx_propose_loop :: "'d device \<Rightarrow> nat \<Rightarrow> nat \<Rightarrow> nat \<Rightarrow> nat list \<Rightarrow> 'd transaction \<Rightarrow> bool \<times> nat list \<times> 'd transaction" where
  "tx_propose_loop dev seed i 0 draft t = (True, draft, t)"
| "tx_propose_loop dev seed i (Suc left) draft t =
     (case tx_draft_step dev seed i draft False t of
        (None, t) \<Rightarrow> (False, draft, t)
      | (Some (p, _), t) \<Rightarrow> tx_propose_loop dev seed (i + 1) left (draft[i := p]) t)"

definition tx_propose :: "'d device \<Rightarrow> nat \<Rightarrow> nat \<Rightarrow> nat list \<Rightarrow> 'd transaction \<Rightarrow> bool \<times> nat list \<times> 'd transaction" where
  "tx_propose dev seed count draft t =
     (if \<not> tx_active t \<or> tx_verified t \<or> count + 1 \<noteq> tx_rows t \<or>
         dr_position (tx_draft t) + 1 \<noteq> tx_entry_position t
      then (False, draft, t)
      else tx_propose_loop dev seed 0 count draft t)"

fun tx_prefix_loop ::
  "'d device \<Rightarrow> nat \<Rightarrow> bool \<Rightarrow> nat \<Rightarrow> nat \<Rightarrow> nat \<Rightarrow> nat list \<Rightarrow> nat \<Rightarrow> 'd transaction \<Rightarrow>
   bool \<times> nat list \<times> nat \<times> bool \<times> 'd transaction" where
  "tx_prefix_loop dev seed eos stop i 0 draft actual t = (True, draft, actual, False, t)"
| "tx_prefix_loop dev seed eos stop i (Suc left) draft actual t =
     (case tx_draft_step dev seed i draft (left \<noteq> 0) t of
        (None, t) \<Rightarrow> (False, draft, actual, False, t)
      | (Some (p, low), t) \<Rightarrow>
          if eos \<and> p = stop then (True, draft[i := p], actual, True, t)
          else if low then (True, draft[i := p], actual + 1, False, t)
          else tx_prefix_loop dev seed eos stop (i + 1) left (draft[i := p]) (actual + 1) t)"

definition tx_propose_prefix ::
  "'d device \<Rightarrow> nat \<Rightarrow> nat \<Rightarrow> nat list \<Rightarrow> bool \<Rightarrow> nat \<Rightarrow> 'd transaction \<Rightarrow> bool \<times> nat list \<times> nat \<times> bool \<times> 'd transaction" where
  "tx_propose_prefix dev seed maximum draft eos stop t =
     (if \<not> tx_active t \<or> tx_verified t \<or> maximum = 0 \<or> maximum + 1 \<noteq> tx_rows t \<or>
         dr_position (tx_draft t) + 1 \<noteq> tx_entry_position t
      then (False, draft, 0, False, t)
      else let (ok, draft, actual, stopped, t) = tx_prefix_loop dev seed eos stop 0 maximum draft 0 t
           in if \<not> ok then (False, draft, actual, stopped, t)
              else (True, draft, actual, stopped, t\<lparr>tx_rows := actual + 1\<rparr>))"

definition tx_propose_bounded :: "'d device \<Rightarrow> nat \<Rightarrow> nat \<Rightarrow> nat list \<Rightarrow> 'd transaction \<Rightarrow> bool \<times> nat list \<times> nat \<times> 'd transaction" where
  "tx_propose_bounded dev seed maximum draft t =
     (let (ok, draft, actual, stopped, t) = tx_propose_prefix dev seed maximum draft False 0 t
      in (ok, draft, actual, t))"

definition tx_propose_eos_bounded ::
  "'d device \<Rightarrow> nat \<Rightarrow> nat \<Rightarrow> nat \<Rightarrow> nat list \<Rightarrow> 'd transaction \<Rightarrow> bool \<times> nat list \<times> nat \<times> bool \<times> 'd transaction" where
  "tx_propose_eos_bounded dev seed maximum stop draft t = tx_propose_prefix dev seed maximum draft True stop t"

text \<open>
  Verification, row by row with \<^verbatim>\<open>ReferenceRunner::step\<close> and a snapshot after each row, or all rows in
  one pass with \<^verbatim>\<open>verify_multirow\<close>, which assembles the snapshots itself and leaves the position of
  the request where it was.
\<close>

definition tx_runner_step :: "'d device \<Rightarrow> nat \<Rightarrow> 'd transaction \<Rightarrow> nat option \<times> 'd transaction" where
  "tx_runner_step dev token t =
     (case dv_target dev (tx_tokens t @ [token]) (tx_device t) of
        (None, w) \<Rightarrow> (None, t\<lparr>tx_device := w\<rparr>)
      | (Some p, w) \<Rightarrow> (Some p, t\<lparr>tx_device := w, tx_tokens := tx_tokens t @ [token],
                                  tx_position := tx_position t + 1\<rparr>))"

fun tx_verify_rows :: "'d device \<Rightarrow> nat \<Rightarrow> nat \<Rightarrow> nat list \<Rightarrow> 'd transaction \<Rightarrow> bool \<times> nat list \<times> 'd transaction" where
  "tx_verify_rows dev i 0 predictions t = (True, predictions, t)"
| "tx_verify_rows dev i (Suc left) predictions t =
     (case tx_runner_step dev (tx_inputs t ! i) t of
        (None, t) \<Rightarrow> (False, predictions, t)
      | (Some p, t) \<Rightarrow>
          (case tx_snapshot dev (i + 1) t of
             (False, t) \<Rightarrow> (False, predictions, t)
           | (True, t) \<Rightarrow>
               tx_verify_rows dev (i + 1) left (predictions[i := p])
                 (t\<lparr>tx_predictions := (tx_predictions t)[i := p],
                    tx_scalar_verify_rows := tx_scalar_verify_rows t + (if tx_multirow t then 1 else 0)\<rparr>)))"

text \<open>The argmax of each row of one pass over \<open>inputs\<close>, after the tokens \<open>xs\<close>.\<close>

fun device_rows :: "'d device \<Rightarrow> nat list \<Rightarrow> nat list \<Rightarrow> 'd \<Rightarrow> nat list option \<times> 'd" where
  "device_rows dev xs [] w = (Some [], w)"
| "device_rows dev xs (x # inputs) w =
     (case dv_target dev (xs @ [x]) w of
        (None, w) \<Rightarrow> (None, w)
      | (Some p, w) \<Rightarrow>
          (case device_rows dev (xs @ [x]) inputs w of
             (None, w) \<Rightarrow> (None, w) | (Some ps, w) \<Rightarrow> (Some (p # ps), w)))"

definition tx_verify_multirow :: "'d device \<Rightarrow> nat list \<Rightarrow> 'd transaction \<Rightarrow> bool \<times> nat list \<times> 'd transaction" where
  "tx_verify_multirow dev predictions t =
     (let inputs = take (tx_rows t) (tx_inputs t) in
      if \<not> tx_active t \<or> tx_verified t \<or> tx_rows t < 1 \<or> tx_rows t > 4 \<or>
         tx_position t \<noteq> tx_entry_position t \<or> tx_entry_position t + tx_rows t > tx_capacity t \<or>
         list_ex (\<lambda>x. x \<ge> kMtpVocabulary) inputs
      then (False, predictions, t)
      else case device_rows dev (tx_tokens t) inputs (tx_device t) of
          (None, w) \<Rightarrow> (False, predictions, t\<lparr>tx_device := w\<rparr>)
        | (Some ps, w) \<Rightarrow>
            if list_ex (\<lambda>p. p \<ge> kMtpVocabulary) ps then (False, predictions, t\<lparr>tx_device := w\<rparr>)
            else (True, ps @ drop (length ps) predictions,
              t\<lparr>tx_device := w,
                tx_slots := hd (tx_slots t) # map (\<lambda>k. tx_tokens t @ take k inputs) [1..<tx_rows t + 1] @
                  drop (tx_rows t + 1) (tx_slots t),
                tx_tokens := tx_tokens t @ inputs,
                tx_predictions := ps @ drop (length ps) (tx_predictions t),
                tx_direct_gdn_rows := tx_direct_gdn_rows t + tx_rows t * 48\<rparr>))"

definition tx_verify :: "'d device \<Rightarrow> nat \<Rightarrow> nat list \<Rightarrow> nat \<Rightarrow> nat list \<Rightarrow> 'd transaction \<Rightarrow> bool \<times> nat list \<times> 'd transaction" where
  "tx_verify dev seed draft count predictions t =
     (if \<not> tx_active t \<or> tx_verified t \<or> count + 1 \<noteq> tx_rows t then (False, predictions, t)
      else let t = t\<lparr>tx_inputs := (seed # take count draft) @ drop (count + 1) (tx_inputs t)\<rparr>;
               (ok, predictions, t) =
                 (if tx_multirow t \<and> tx_rows t > 1 then tx_verify_multirow dev predictions t
                  else tx_verify_rows dev 0 (count + 1) predictions t)
      in if \<not> ok then (False, predictions, t)
      else let valid = (tx_seed_cache_valid t \<and> tx_cached_seed t = seed);
               t = t\<lparr>tx_seed_cache_valid := valid\<rparr>;
               (rewound, d) = draft_rewind (tx_entry_position t - (if valid then 0 else 1)) (tx_draft t);
               t = t\<lparr>tx_draft := d\<rparr>
      in if \<not> rewound then (False, predictions, t)
         else (True, predictions, t\<lparr>tx_verified := True\<rparr>))"

text \<open>How many staged rows agree with the prediction before them.\<close>

function tx_valid_rows :: "'d transaction \<Rightarrow> nat \<Rightarrow> nat" where
  "tx_valid_rows t n =
     (if n < tx_rows t \<and> tx_inputs t ! n = tx_predictions t ! (n - 1) then tx_valid_rows t (n + 1) else n)"
  by pat_completeness auto
termination
  by (relation "measure (\<lambda>(t, n). tx_rows t - n)") auto

declare tx_valid_rows.simps [simp del]

text \<open>The tail that the second commit of a multi-row round prepares in the draft cache.\<close>

definition tx_prepare_tail :: "'d device \<Rightarrow> nat \<Rightarrow> 'd transaction \<Rightarrow> bool \<times> 'd transaction" where
  "tx_prepare_tail dev rows t =
     (if tx_multirow t \<and> rows = 2 then
        let tail = tx_valid_rows t 1 - 1 in
        if tail \<ge> 2 then
          let (ok, d, w) = draft_prepare_kv_prefix dev (take tail (drop 1 (tx_inputs t))) (tx_draft t) (tx_device t);
              t = t\<lparr>tx_draft := d, tx_device := w\<rparr>
          in if \<not> ok then (False, t)
             else (True, t\<lparr>tx_prepared_tail_rows := tail, tx_tail_kv_batches := tx_tail_kv_batches t + 1,
                           tx_tail_kv_rows := tx_tail_kv_rows t + tail\<rparr>)
        else (True, t)
      else (True, t))"

text \<open>The draft cache row of a commit: the seed row again, a prepared row, or a fresh one.\<close>

definition tx_commit_draft :: "'d device \<Rightarrow> nat \<Rightarrow> 'd transaction \<Rightarrow> bool \<times> 'd transaction" where
  "tx_commit_draft dev rows t =
     (if rows = 1 \<and> tx_seed_cache_valid t then
        if dr_position (tx_draft t) \<noteq> tx_entry_position t then (False, t)
        else (True, t\<lparr>tx_seed_kv_reuses := tx_seed_kv_reuses t + 1, tx_seed_cache_valid := False\<rparr>)
      else if tx_prepared_tail_rows t \<noteq> 0 then
        let (ok, d) = draft_commit_prepared_kv (rows - 1) (tx_draft t) in (ok, t\<lparr>tx_draft := d\<rparr>)
      else let (ok, d, w) = draft_append_kv dev (tx_inputs t ! (rows - 1)) (tx_draft t) (tx_device t)
           in (ok, t\<lparr>tx_draft := d, tx_device := w\<rparr>))"

definition tx_commit_prefix :: "'d device \<Rightarrow> nat \<Rightarrow> nat \<Rightarrow> 'd transaction \<Rightarrow> bool \<times> 'd transaction" where
  "tx_commit_prefix dev rows pending t =
     (if \<not> tx_active t \<or> \<not> tx_verified t \<or> rows \<noteq> tx_committed t + 1 \<or> rows > tx_rows t \<or>
         tx_predictions t ! (rows - 1) \<noteq> pending \<or>
         (rows > 1 \<and> tx_inputs t ! (rows - 1) \<noteq> tx_predictions t ! (rows - 2))
      then (False, t)
      else let (prepared, t) = tx_prepare_tail dev rows t
      in if \<not> prepared then (False, t)
      else let (ok, t) = tx_sync dev t
      in if \<not> ok then (False, t)
      else let (drafted, t) = tx_commit_draft dev rows (t\<lparr>tx_tokens := tx_slots t ! rows\<rparr>)
      in if \<not> drafted then (False, t)
      else if tx_entry_position t + rows > tx_capacity t then (False, t)
      else (True, t\<lparr>tx_position := tx_entry_position t + rows, tx_trace_valid := False,
              tx_retained_prefill_hidden_valid := False, tx_committed := rows\<rparr>))"

definition tx_finish :: "'d transaction \<Rightarrow> bool \<times> 'd transaction" where
  "tx_finish t =
     (if \<not> tx_active t \<or> \<not> tx_verified t \<or> tx_committed t = 0 \<or>
         tx_position t \<noteq> tx_entry_position t + tx_committed t \<or>
         dr_position (tx_draft t) + 1 \<noteq> tx_position t
      then (False, t)
      else (True, t\<lparr>tx_draft := discard_prepared_kv (tx_draft t), tx_prepared_tail_rows := 0,
             tx_active := False, tx_seed_cache_valid := False, tx_verified := False\<rparr>))"

definition tx_abort :: "'d device \<Rightarrow> 'd transaction \<Rightarrow> bool \<times> 'd transaction" where
  "tx_abort dev t =
     (let (ok, t) = tx_sync dev t;
          (draft_ok, d, w) = draft_poison dev (tx_draft t) (tx_device t)
      in (ok \<and> draft_ok,
          t\<lparr>tx_draft := discard_prepared_kv d, tx_device := w, tx_poisoned := True, tx_trace_valid := False,
            tx_retained_prefill_hidden_valid := False, tx_request_reuse_boundary := 2,
            tx_committed_request_positions := 0, tx_prepared_tail_rows := 0, tx_active := False,
            tx_seed_cache_valid := False, tx_verified := False\<rparr>))"

definition transaction_backend :: "'d device \<Rightarrow> 'd transaction round_backend" where
  "transaction_backend dev =
     \<lparr>b_begin = tx_begin dev, b_propose = tx_propose dev, b_propose_bounded = tx_propose_bounded dev,
      b_propose_eos_bounded = tx_propose_eos_bounded dev, b_verify = tx_verify dev,
      b_commit_prefix = tx_commit_prefix dev, b_finish = tx_finish, b_abort = tx_abort dev\<rparr>"

subsection \<open>The invariant of a transaction\<close>

definition tx_base :: "'d transaction \<Rightarrow> nat list" where
  "tx_base t = take (tx_entry_position t) (tx_tokens t)"

definition tx_staged :: "'d transaction \<Rightarrow> nat list" where
  "tx_staged t = take (tx_rows t) (tx_inputs t)"

definition tx_history :: "'d transaction \<Rightarrow> nat list" where
  "tx_history t = (if tx_active t then tx_base t @ take (tx_committed t) (tx_inputs t) else tx_tokens t)"

definition tx_inv :: "'d transaction \<Rightarrow> bool" where
  "tx_inv t \<longleftrightarrow> length (tx_inputs t) = 4 \<and> length (tx_predictions t) = 4 \<and> length (tx_slots t) = 5 \<and>
     (if \<not> tx_active t then length (tx_tokens t) = tx_position t
      else tx_rows t \<le> 4 \<and> tx_entry_position t \<le> length (tx_tokens t) \<and>
        (if \<not> tx_verified t
         then tx_committed t = 0 \<and> length (tx_tokens t) = tx_entry_position t \<and> tx_position t = tx_entry_position t
         else tx_committed t \<le> tx_rows t \<and>
           (\<forall>k\<in>{1..tx_rows t}. tx_slots t ! k = tx_base t @ take k (tx_inputs t)) \<and>
           (tx_committed t \<noteq> 0 \<longrightarrow> tx_tokens t = tx_base t @ take (tx_committed t) (tx_inputs t))))"

lemmas tx_view = tx_base_def tx_staged_def tx_history_def

text \<open>Operations of the draft leave everything but the draft, the device and the seed cache alone.\<close>

definition draft_frame :: "'d transaction \<Rightarrow> 'd transaction \<Rightarrow> bool" where
  "draft_frame t t' \<longleftrightarrow> t' = t\<lparr>tx_draft := tx_draft t', tx_device := tx_device t',
     tx_cached_seed := tx_cached_seed t', tx_seed_cache_valid := tx_seed_cache_valid t'\<rparr>"

lemma draft_frame_refl [simp]: "draft_frame t t"
  by (simp add: draft_frame_def)

lemma draft_frame_trans: "draft_frame t u \<Longrightarrow> draft_frame u v \<Longrightarrow> draft_frame t v"
  by (cases t; cases u; cases v) (simp add: draft_frame_def)

lemma draft_frame_step: "tx_draft_step dev seed i draft c t = (r, t') \<Longrightarrow> draft_frame t t'"
  by (cases t) (auto simp: tx_draft_step_def draft_frame_def Let_def split: prod.splits option.splits if_splits)

lemma draft_frame_propose:
  "tx_propose_loop dev seed i n draft t = (ok, draft', t') \<Longrightarrow> draft_frame t t' \<and> length draft' = length draft"
proof (induction dev seed i n draft t rule: tx_propose_loop.induct)
  case (2 dev seed i left draft t)
  obtain r u where u: "tx_draft_step dev seed i draft False t = (r, u)" by fastforce
  from 2 u draft_frame_step [OF u] show ?case
    by (cases r) (auto intro: draft_frame_trans split: prod.splits)
qed simp

lemma draft_frame_prefix:
  "tx_prefix_loop dev seed eos stop i n draft actual t = (ok, draft', actual', stopped, t') \<Longrightarrow>
   draft_frame t t' \<and> length draft' = length draft \<and> actual' \<le> actual + n"
proof (induction dev seed eos stop i n draft actual t rule: tx_prefix_loop.induct)
  case (2 dev seed eos stop i left draft actual t)
  obtain r u where u: "tx_draft_step dev seed i draft (left \<noteq> 0) t = (r, u)" by fastforce
  show ?case
  proof (cases r)
    case None
    with 2(2) u draft_frame_step [OF u] show ?thesis by simp
  next
    case (Some pl)
    obtain p low where pl: "pl = (p, low)" by (cases pl)
    have "draft_frame u t' \<Longrightarrow> draft_frame t t'" using draft_frame_step [OF u] by (rule draft_frame_trans)
    with 2 u Some pl draft_frame_step [OF u] show ?thesis by (fastforce split: if_splits)
  qed
qed simp

lemma draft_frame_view:
  assumes "draft_frame t t'"
  shows "tx_inv t' = tx_inv t" "tx_history t' = tx_history t" "tx_base t' = tx_base t"
    "tx_rows t' = tx_rows t" "tx_active t' = tx_active t" "tx_verified t' = tx_verified t"
  by (subst assms [unfolded draft_frame_def], simp add: tx_inv_def tx_view)+

lemma tx_propose_law:
  assumes "tx_inv t" "tx_propose dev seed n draft t = (True, draft', t')"
  shows "tx_inv t' \<and> tx_history t' = tx_history t \<and> tx_base t' = tx_base t \<and> length draft' = length draft"
  using assms draft_frame_propose [of dev seed 0 n draft t True draft' t'] draft_frame_view [of t t']
  by (auto simp: tx_propose_def split: if_splits)

lemma tx_shrink_rows:
  "tx_inv u \<Longrightarrow> tx_active u \<Longrightarrow> \<not> tx_verified u \<Longrightarrow> r \<le> tx_rows u \<Longrightarrow>
   tx_inv (u\<lparr>tx_rows := r\<rparr>) \<and> tx_history (u\<lparr>tx_rows := r\<rparr>) = tx_history u \<and> tx_base (u\<lparr>tx_rows := r\<rparr>) = tx_base u"
  by (simp add: tx_inv_def tx_view)

lemma tx_propose_prefix_law:
  assumes "tx_inv t" "tx_propose_prefix dev seed n draft eos stop t = (True, draft', m, st, t')"
  shows "tx_inv t' \<and> tx_history t' = tx_history t \<and> tx_base t' = tx_base t \<and> length draft' = length draft"
proof -
  obtain u where loop: "tx_prefix_loop dev seed eos stop 0 n draft 0 t = (True, draft', m, st, u)"
    and t': "t' = u\<lparr>tx_rows := m + 1\<rparr>" and t: "tx_active t" "\<not> tx_verified t" "n + 1 = tx_rows t"
    using assms(2) by (auto simp: tx_propose_prefix_def Let_def split: if_splits prod.splits)
  from draft_frame_prefix [OF loop] have f: "draft_frame t u" "length draft' = length draft" "m \<le> n" by simp_all
  have "tx_inv u" "tx_history u = tx_history t" "tx_base u = tx_base t" "tx_active u" "\<not> tx_verified u" "tx_rows u = n + 1"
    using draft_frame_view [OF f(1)] assms(1) t by simp_all
  with f tx_shrink_rows [of u "m + 1"] show ?thesis unfolding t' by simp
qed

lemma tx_propose_bounded_law:
  assumes "tx_inv t" "tx_propose_bounded dev seed n draft t = (True, draft', m, t')"
  shows "tx_inv t' \<and> tx_history t' = tx_history t \<and> tx_base t' = tx_base t \<and> length draft' = length draft"
proof -
  obtain st where "tx_propose_prefix dev seed n draft False 0 t = (True, draft', m, st, t')"
    using assms(2) by (auto simp: tx_propose_bounded_def split: prod.splits)
  from tx_propose_prefix_law [OF assms(1) this] show ?thesis .
qed

lemma tx_sync_frame: "tx_sync dev t = (ok, t') \<Longrightarrow> \<exists>w. t' = t\<lparr>tx_device := w\<rparr>"
  by (auto simp: tx_sync_def split: prod.splits)

lemma tx_begin_law:
  assumes "tx_inv t" "tx_begin dev rows t = (True, t')"
  shows "tx_inv t' \<and> tx_history t' = tx_history t \<and> tx_base t' = tx_history t"
  using assms
  by (auto simp: tx_begin_def tx_snapshot_def tx_inv_def tx_view tx_sync_def Let_def split: if_splits prod.splits)

lemma tx_finish_law:
  assumes "tx_inv t" "tx_finish t = (True, t')"
  shows "tx_inv t' \<and> tx_history t' = tx_history t"
proof -
  have t: "tx_active t" "tx_verified t" "tx_committed t \<noteq> 0" "tx_position t = tx_entry_position t + tx_committed t"
    using assms(2) by (auto simp: tx_finish_def split: if_splits)
  have tokens: "tx_tokens t = tx_base t @ take (tx_committed t) (tx_inputs t)" using assms(1) t by (simp add: tx_inv_def)
  have "length (tx_base t) = tx_entry_position t" "tx_committed t \<le> length (tx_inputs t)"
    using assms(1) t by (simp_all add: tx_inv_def) (simp add: tx_base_def)
  then have "length (tx_base t @ take (tx_committed t) (tx_inputs t)) = tx_position t" using t by simp
  then have "length (tx_tokens t) = tx_position t" using tokens by simp
  moreover have "t' = t\<lparr>tx_draft := discard_prepared_kv (tx_draft t), tx_prepared_tail_rows := 0,
      tx_active := False, tx_seed_cache_valid := False, tx_verified := False\<rparr>"
    using assms(2) by (auto simp: tx_finish_def split: if_splits)
  ultimately show ?thesis using assms(1) t tokens by (simp add: tx_inv_def tx_history_def)
qed

text \<open>A commit restores the snapshot of its row.\<close>

lemma tx_prepare_tail_frame:
  "tx_prepare_tail dev rows t = (ok, t') \<Longrightarrow> \<exists>d w a b c. t' = t\<lparr>tx_draft := d, tx_device := w,
     tx_prepared_tail_rows := a, tx_tail_kv_batches := b, tx_tail_kv_rows := c\<rparr>"
  by (cases t) (auto simp: tx_prepare_tail_def Let_def split: if_splits prod.splits)

lemma tx_commit_draft_frame:
  "tx_commit_draft dev rows t = (ok, t') \<Longrightarrow> \<exists>d w a b. t' = t\<lparr>tx_draft := d, tx_device := w,
     tx_seed_kv_reuses := a, tx_seed_cache_valid := b\<rparr>"
  by (cases t) (auto simp: tx_commit_draft_def Let_def split: if_splits prod.splits)

lemma tx_commit_law:
  assumes "tx_inv t" "tx_commit_prefix dev rows pending t = (True, t')"
  shows "tx_inv t' \<and> tx_base t' = tx_base t \<and> tx_staged t' = tx_staged t \<and>
    tx_history t' = tx_base t @ take rows (tx_staged t)"
proof -
  have t: "tx_active t" "tx_verified t" "1 \<le> rows" "rows \<le> tx_rows t"
    using assms(2) by (auto simp: tx_commit_prefix_def split: if_splits)
  obtain t1 where t1: "tx_prepare_tail dev rows t = (True, t1)"
    using assms(2) by (auto simp: tx_commit_prefix_def Let_def split: if_splits prod.splits)
  obtain t2 where t2: "tx_sync dev t1 = (True, t2)"
    using assms(2) t1 by (auto simp: tx_commit_prefix_def Let_def split: if_splits prod.splits)
  obtain t3 where t3: "tx_commit_draft dev rows (t2\<lparr>tx_tokens := tx_slots t2 ! rows\<rparr>) = (True, t3)"
    and t': "t' = t3\<lparr>tx_position := tx_entry_position t3 + rows, tx_trace_valid := False,
              tx_retained_prefill_hidden_valid := False, tx_committed := rows\<rparr>"
    using assms(2) t1 t2 by (auto simp: tx_commit_prefix_def Let_def split: if_splits prod.splits)
  have same: "tx_tokens t3 = tx_slots t ! rows \<and> tx_inputs t3 = tx_inputs t \<and> tx_slots t3 = tx_slots t \<and>
      tx_rows t3 = tx_rows t \<and> tx_entry_position t3 = tx_entry_position t \<and> tx_active t3 \<and> tx_verified t3 \<and>
      tx_predictions t3 = tx_predictions t"
    using tx_prepare_tail_frame [OF t1] tx_sync_frame [OF t2] tx_commit_draft_frame [OF t3] t
    by (elim exE) simp
  have slot: "tx_slots t ! rows = tx_base t @ take rows (tx_inputs t)" and entry: "length (tx_base t) = tx_entry_position t"
    using assms(1) t by (auto simp: tx_inv_def tx_base_def)
  have base: "tx_base t' = tx_base t" using t' same slot entry by (simp add: tx_base_def)
  moreover have "tx_inv t'" using assms(1) t same slot base entry unfolding tx_inv_def base
    by (auto simp: t')
  ultimately show ?thesis using t same t' by (simp add: tx_history_def tx_staged_def min_def)
qed

subsection \<open>Verification gives the target's tokens\<close>

text \<open>
  The device is faithful to a target model when every successful pass yields the token the
  model picks after the given sequence.
\<close>

locale faithful_device =
  fixes dev :: "'d device"
    and target :: "nat list \<Rightarrow> nat"
  assumes target_law: "dv_target dev xs w = (Some p, w') \<Longrightarrow> p = target xs"
begin

lemma device_rows_target:
  "device_rows dev xs ys w = (Some ps, w') \<Longrightarrow>
   length ps = length ys \<and> (\<forall>i<length ys. ps ! i = target (xs @ take (Suc i) ys))"
proof (induction ys arbitrary: xs w ps)
  case (Cons y ys)
  then obtain p w1 qs where p: "dv_target dev (xs @ [y]) w = (Some p, w1)"
    and qs: "device_rows dev (xs @ [y]) ys w1 = (Some qs, w')" and ps: "ps = p # qs"
    by (auto split: prod.splits option.splits)
  from Cons.IH [OF qs] target_law [OF p] ps show ?case by (auto simp: nth_Cons split: nat.splits)
qed simp

text \<open>The rows verified so far: tokens, snapshots and predictions agree with the target.\<close>

definition rows_staged :: "nat list \<Rightarrow> nat \<Rightarrow> nat list \<Rightarrow> 'd transaction \<Rightarrow> bool" where
  "rows_staged xs n ps t \<longleftrightarrow> tx_tokens t = xs @ take n (tx_inputs t) \<and>
     length (tx_slots t) = 5 \<and> length (tx_predictions t) = 4 \<and>
     (\<forall>k\<in>{1..n}. tx_slots t ! k = xs @ take k (tx_inputs t)) \<and>
     (\<forall>k<n. ps ! k = target (xs @ take (Suc k) (tx_inputs t)))"

definition verify_frame :: "'d transaction \<Rightarrow> 'd transaction \<Rightarrow> bool" where
  "verify_frame t t' \<longleftrightarrow> t' = t\<lparr>tx_device := tx_device t', tx_tokens := tx_tokens t', tx_position := tx_position t',
     tx_slots := tx_slots t', tx_predictions := tx_predictions t', tx_scalar_verify_rows := tx_scalar_verify_rows t',
     tx_direct_gdn_rows := tx_direct_gdn_rows t'\<rparr>"

lemma verify_frame_trans: "verify_frame t u \<Longrightarrow> verify_frame u v \<Longrightarrow> verify_frame t v"
  by (cases t; cases u; cases v) (simp add: verify_frame_def)

lemma verify_frame_sel:
  "verify_frame t t' \<Longrightarrow> tx_inputs t' = tx_inputs t \<and> tx_rows t' = tx_rows t \<and> tx_active t' = tx_active t \<and>
     tx_verified t' = tx_verified t \<and> tx_committed t' = tx_committed t \<and> tx_entry_position t' = tx_entry_position t"
  by (cases t; cases t') (simp add: verify_frame_def)

lemma verify_row:
  assumes "tx_runner_step dev (tx_inputs t ! i) t = (Some p, t1)" "tx_snapshot dev (i + 1) t1 = (True, t2)"
    "rows_staged xs i ps t" "i < 4" "length (tx_inputs t) = 4" "length ps = 4"
    "t' = t2\<lparr>tx_predictions := (tx_predictions t2)[i := p], tx_scalar_verify_rows := n\<rparr>"
  shows "rows_staged xs (Suc i) (ps[i := p]) t' \<and> verify_frame t t'"
proof -
  let ?in = "tx_inputs t"
  have tokens: "tx_tokens t = xs @ take i ?in" using assms(3) by (simp add: rows_staged_def)
  have row: "xs @ take i ?in @ [?in ! i] = xs @ take (Suc i) ?in"
    using assms(4,5) by (simp add: take_Suc_conv_app_nth)
  obtain w where t1: "t1 = t\<lparr>tx_device := w, tx_tokens := xs @ take (Suc i) ?in, tx_position := tx_position t + 1\<rparr>"
    and p: "p = target (xs @ take (Suc i) ?in)"
    using assms(1) tokens row target_law by (fastforce simp: tx_runner_step_def split: prod.splits option.splits)
  obtain w' where t2: "t2 = t1\<lparr>tx_device := w', tx_slots := (tx_slots t1)[i + 1 := tx_tokens t1]\<rparr>"
    using assms(2) by (auto simp: tx_snapshot_def tx_sync_def Let_def split: prod.splits if_splits)
  show ?thesis
    using assms(3-6) p unfolding assms(7) t2 t1
    by (auto simp: rows_staged_def verify_frame_def nth_list_update less_Suc_eq le_Suc_eq)
qed

lemma tx_verify_rows_target:
  assumes "tx_verify_rows dev i n ps t = (True, ps', t')" "rows_staged xs i ps t" "i + n \<le> 4"
    "length (tx_inputs t) = 4" "length ps = 4"
  shows "rows_staged xs (i + n) ps' t' \<and> verify_frame t t' \<and> length ps' = 4"
  using assms
proof (induction n arbitrary: i ps t)
  case 0
  then show ?case by (simp add: verify_frame_def)
next
  case (Suc n)
  obtain p t1 t2 where step: "tx_runner_step dev (tx_inputs t ! i) t = (Some p, t1)"
      "tx_snapshot dev (i + 1) t1 = (True, t2)"
    and rec: "tx_verify_rows dev (i + 1) n (ps[i := p]) (t2\<lparr>tx_predictions := (tx_predictions t2)[i := p],
        tx_scalar_verify_rows := tx_scalar_verify_rows t2 + (if tx_multirow t2 then 1 else 0)\<rparr>) = (True, ps', t')"
    (is "tx_verify_rows dev (i + 1) n (ps[i := p]) ?t3 = _")
    using Suc.prems(1) by (auto split: prod.splits option.splits bool.splits)
  have one: "rows_staged xs (Suc i) (ps[i := p]) ?t3 \<and> verify_frame t ?t3"
    using Suc.prems by (intro verify_row [OF step]) simp_all
  then have same: "tx_inputs ?t3 = tx_inputs t" using verify_frame_sel [of t ?t3] by blast
  have "rows_staged xs (i + 1 + n) ps' t' \<and> verify_frame ?t3 t' \<and> length ps' = 4"
    using Suc.prems one same by (intro Suc.IH [OF rec]) simp_all
  with one show ?case by (auto intro: verify_frame_trans)
qed

lemma tx_verify_multirow_target:
  assumes "tx_verify_multirow dev ps t = (True, ps', t')" "tx_tokens t = xs" "length ps = 4"
    "length (tx_inputs t) = 4" "length (tx_slots t) = 5" "length (tx_predictions t) = 4"
  shows "rows_staged xs (tx_rows t) ps' t' \<and> verify_frame t t' \<and> length ps' = 4"
proof -
  let ?in = "take (tx_rows t) (tx_inputs t)"
  obtain qs w where rows: "device_rows dev xs ?in (tx_device t) = (Some qs, w)" and n: "1 \<le> tx_rows t" "tx_rows t \<le> 4"
    and ps': "ps' = qs @ drop (length qs) ps" and t': "t' = t\<lparr>tx_device := w,
                tx_slots := hd (tx_slots t) # map (\<lambda>k. xs @ take k ?in) [1..<tx_rows t + 1] @ drop (tx_rows t + 1) (tx_slots t),
                tx_tokens := xs @ ?in, tx_predictions := qs @ drop (length qs) (tx_predictions t),
                tx_direct_gdn_rows := tx_direct_gdn_rows t + tx_rows t * 48\<rparr>"
    using assms(1,2) by (auto simp: tx_verify_multirow_def Let_def split: if_splits prod.splits option.splits)
  from device_rows_target [OF rows] n assms(4) have qs: "length qs = tx_rows t"
    "\<forall>i<tx_rows t. qs ! i = target (xs @ take (Suc i) (tx_inputs t))"
    by (auto simp: min_def)
  have slots: "\<forall>k\<in>{1..tx_rows t}. tx_slots t' ! k = xs @ take k (tx_inputs t)"
  proof
    fix k assume k: "k \<in> {1..tx_rows t}"
    then have "tx_slots t' ! k = xs @ take k ?in"
      unfolding t' by (cases "k = tx_rows t") (auto simp: nth_Cons nth_append split: nat.splits)
    with k show "tx_slots t' ! k = xs @ take k (tx_inputs t)" by (simp add: min_def)
  qed
  have "length (tx_slots t') = 5" using n assms(5) unfolding t' by simp
  with slots qs n assms show ?thesis
    by (simp add: rows_staged_def verify_frame_def t' ps' nth_append)
qed

lemma tx_verify_law:
  assumes "tx_inv t" "tx_history t = tx_base t" "n \<le> length d" "length ps = kMaximumVerifyRows"
    "tx_verify dev seed d n ps t = (True, ps', t')"
  shows "tx_inv t' \<and> tx_base t' = tx_base t \<and> tx_staged t' = seed # take n d \<and> length ps' = length ps \<and>
    (\<forall>i\<le>n. ps' ! i = target (tx_base t @ seed # take i d))"
proof -
  let ?in = "(seed # take n d) @ drop (n + 1) (tx_inputs t)"
  let ?t0 = "t\<lparr>tx_inputs := ?in\<rparr>"
  let ?xs = "tx_base t"
  have t: "tx_active t" "\<not> tx_verified t" "n + 1 = tx_rows t"
    using assms(5) by (auto simp: tx_verify_def split: if_splits)
  have inv: "length (tx_inputs t) = 4" "length (tx_predictions t) = 4" "length (tx_slots t) = 5" "tx_rows t \<le> 4"
    "tx_committed t = 0" "tx_tokens t = ?xs" "length ?xs = tx_entry_position t"
    using assms(1) t by (simp_all add: tx_inv_def tx_base_def)
  have four: "length ps = 4" using assms(4) by (simp add: kMaximumVerifyRows_def)
  have len: "length ?in = 4" using inv t assms(3) by simp
  have rows: "take (Suc i) ?in = seed # take i d" if "i \<le> n" for i using that assms(3) by (simp add: min_def)
  obtain t1 where t1: "(if tx_multirow ?t0 \<and> tx_rows ?t0 > 1 then tx_verify_multirow dev ps ?t0
       else tx_verify_rows dev 0 (n + 1) ps ?t0) = (True, ps', t1)"
    and t': "\<exists>dr v. t' = t1\<lparr>tx_seed_cache_valid := v, tx_draft := dr, tx_verified := True\<rparr>"
    using assms(5) t by (auto simp: tx_verify_def Let_def split: if_splits prod.splits)
  have t0: "tx_rows ?t0 = n + 1" "length (tx_inputs ?t0) = 4" "tx_tokens ?t0 = ?xs" "length (tx_slots ?t0) = 5"
      "length (tx_predictions ?t0) = 4" "n + 1 \<le> 4" "rows_staged ?xs 0 ps ?t0"
    using t inv len by (simp_all add: rows_staged_def)
  have "rows_staged ?xs (n + 1) ps' t1 \<and> verify_frame ?t0 t1 \<and> length ps' = 4"
  proof (cases "tx_multirow ?t0 \<and> tx_rows ?t0 > 1")
    case True
    from tx_verify_multirow_target [OF t1 [unfolded if_P [OF True]] t0(3) four t0(2,4,5)] show ?thesis
      unfolding t0(1) .
  next
    case False
    have "0 + (n + 1) \<le> 4" using t0(6) by simp
    from tx_verify_rows_target [OF t1 [unfolded if_not_P [OF False]] t0(7) this t0(2) four] show ?thesis
      by (simp only: add_0)
  qed
  then have staged: "rows_staged ?xs (n + 1) ps' t1" and frame: "verify_frame ?t0 t1" and ps': "length ps' = 4"
    by simp_all
  have f: "tx_inputs t1 = ?in" "tx_rows t1 = n + 1" "tx_active t1" "tx_committed t1 = 0"
      "tx_entry_position t1 = tx_entry_position t"
    using verify_frame_sel [OF frame] t inv by simp_all
  have base: "tx_base t1 = ?xs" using staged f inv(7) by (simp add: tx_base_def rows_staged_def)
  have "tx_inv t' \<and> tx_base t' = ?xs \<and> tx_staged t' = take (n + 1) ?in"
    using t' staged f base inv(4,7) t(3) len
    by (elim exE) (simp add: tx_inv_def tx_base_def tx_staged_def rows_staged_def)
  moreover have "\<forall>i\<le>n. ps' ! i = target (?xs @ seed # take i d)"
    using staged rows unfolding rows_staged_def f(1) by (metis Suc_eq_plus1 less_Suc_eq_le)
  ultimately show ?thesis using rows [of n] ps' four by simp
qed

end

sublocale faithful_device \<subseteq> tx: round_contract "transaction_backend dev" tx_inv tx_history tx_base tx_staged target
  by (unfold_locales; unfold transaction_backend_def round_backend.simps tx_propose_eos_bounded_def)
     (rule tx_begin_law tx_propose_law tx_propose_bounded_law tx_propose_prefix_law tx_verify_law
       tx_commit_law tx_finish_law; assumption)+

end
