(* ===== verification/Mtp_Service.thy ===== *)
theory Mtp_Service
  imports Mtp_Transaction Generation_Types
begin

text \<open>
  The decode loop of the speculative service, \<^verbatim>\<open>Service::decode\<close> of
  \<^verbatim>\<open>src/runtime/mtp_service_internal.cpp\<close>: rounds of \<^verbatim>\<open>run_round\<close> on the transaction, an observer that
  appends every committed token to the generation, and the counters of \<^verbatim>\<open>ServiceReport\<close> (its wall
  clock totals aside). The loop takes fuel; one unit per token still to be produced is enough,
  since every round that ends well commits a token.
\<close>

subsection \<open>The observer sees exactly the committed tokens\<close>

text \<open>
  \<open>seen\<close> reads the tokens recorded by an observer. Whatever the status of the round, the observer
  has been given the output tokens of the result, in order.
\<close>

lemma take_snoc_update:
  "n < length xs \<Longrightarrow> take (Suc n) (xs[n := x]) = take n xs @ [x]"
  by (simp add: take_Suc_conv_app_nth)

lemma round_loop_unfold:
  assumes "i \<le> count" "b_commit_prefix b (i + 1) (predictions ! i) s = (c, s1)"
    "(case obs of None \<Rightarrow> (True, ob) | Some f \<Rightarrow> f (predictions ! i) s1 ob) = (p, ob1)"
  shows "round_loop opt b obs draft predictions count i result s ob =
    (let acc = (i < count \<and> draft ! i = predictions ! i); r2 = step_result opt i (predictions ! i) acc p result
     in if \<not> c then (False, result, s1, ob)
        else if status r2 \<noteq> kContinue \<or> \<not> acc then (True, r2, s1, ob1)
        else round_loop opt b obs draft predictions count (i + 1) r2 s1 ob1)"
  using assms by (subst round_loop.simps; cases c) (auto simp: step_result_def Let_def)

text \<open>A property of the result and the observer that every committed row keeps.\<close>

lemma round_loop_keeps:
  assumes "round_loop opt b obs draft predictions count i result s ob = (ok, r, s', ob')" "P result ob"
    and keep: "\<And>i result ob acc p ob1 s1. P result ob \<Longrightarrow>
      (case obs of None \<Rightarrow> (True, ob) | Some f \<Rightarrow> f (predictions ! i) s1 ob) = (p, ob1) \<Longrightarrow>
      P (step_result opt i (predictions ! i) acc p result) ob1"
  shows "P r ob'"
  using assms(1,2)
proof (induction "Suc count - i" arbitrary: i result s ob)
  case 0
  then show ?case by (subst (asm) round_loop.simps) auto
next
  case (Suc m i result s ob)
  then have i: "i \<le> count" by simp
  obtain c s1 where c: "b_commit_prefix b (i + 1) (predictions ! i) s = (c, s1)" by fastforce
  obtain p ob1 where p: "(case obs of None \<Rightarrow> (True, ob) | Some f \<Rightarrow> f (predictions ! i) s1 ob) = (p, ob1)" by fastforce
  let ?acc = "i < count \<and> draft ! i = predictions ! i"
  let ?r2 = "step_result opt i (predictions ! i) ?acc p result"
  have "(if \<not> c then (False, result, s1, ob)
      else if status ?r2 \<noteq> kContinue \<or> \<not> ?acc then (True, ?r2, s1, ob1)
      else round_loop opt b obs draft predictions count (i + 1) ?r2 s1 ob1) = (ok, r, s', ob')"
    using Suc(3) round_loop_unfold [OF i c p] by (simp only: Let_def)
  moreover have "P ?r2 ob1" using keep [OF Suc(4) p] .
  moreover have "round_loop opt b obs draft predictions count (i + 1) ?r2 s1 ob1 = (ok, r, s', ob') \<Longrightarrow> P ?r2 ob1 \<Longrightarrow> P r ob'"
    using Suc(2) by (intro Suc(1)) simp_all
  ultimately show ?case using Suc(4) by (auto split: if_splits)
qed

lemma round_loop_ok:
  assumes "round_loop opt b obs draft predictions count i result s ob = (True, r, s', ob')" "i \<le> count"
  shows "round_ok r"
  using assms
proof (rule round_loop_step)
  fix p s1 ob1
  let ?acc = "i < count \<and> draft ! i = predictions ! i"
  let ?r2 = "step_result opt i (predictions ! i) ?acc p result"
  have ok: "round_ok (step_result opt j token acc p res)" for j token acc p res
    using round_step_status_ok [of opt token p "output_count res + 1"] by (auto simp: round_ok_def step_result_def)
  assume "let accepted = ?acc; r2 = step_result opt i (predictions ! i) accepted p result
     in if status r2 \<noteq> kContinue \<or> \<not> accepted then r = r2 \<and> s' = s1 \<and> ob' = ob1
        else round_loop opt b obs draft predictions count (i + 1) r2 s1 ob1 = (True, r, s', ob')"
  then consider "r = ?r2" | "round_loop opt b obs draft predictions count (i + 1) ?r2 s1 ob1 = (True, r, s', ob')"
    by (metis (no_types))
  then show ?thesis
  proof cases
    case 2
    then show ?thesis by (rule round_loop_keeps [where P = "\<lambda>r ob. round_ok r"]) (simp_all add: ok)
  qed (simp add: ok)
qed

text \<open>
  What the rows of a round have delivered, also when the round fails later: the predictions of the
  first rows, with every draft token before the last one accepted and not the stop token.
\<close>

definition delivered :: "round_options \<Rightarrow> nat list \<Rightarrow> nat list \<Rightarrow> round_result \<Rightarrow> bool" where
  "delivered opt draft predictions r \<longleftrightarrow>
     take (output_count r) (output_tokens r) = map ((!) predictions) [0..<output_count r] \<and>
     (\<forall>k<output_count r - 1. draft ! k = predictions ! k \<and> predictions ! k \<noteq> stop_token opt)"

lemma round_loop_observed:
  assumes "round_loop opt b (Some f) draft predictions count i result s ob = (ok, r, s', ob')"
    and "\<And>token s ob. seen (snd (f token s ob)) = seen ob @ [token]"
    and "seen ob = xs @ take (output_count result) (output_tokens result)"
    and "output_count result = i" "count < length (output_tokens result)" "i \<le> Suc count"
    and "take i (output_tokens result) = map ((!) predictions) [0..<i]"
    and "\<forall>k<i. draft ! k = predictions ! k \<and> predictions ! k \<noteq> stop_token opt"
    and "accepted_tokens result = i"
  shows "seen ob' = xs @ take (output_count r) (output_tokens r) \<and> delivered opt draft predictions r \<and>
    output_count r \<le> Suc count \<and> (ok \<longrightarrow> i \<le> count \<longrightarrow> i < output_count r) \<and>
    accepted_tokens r \<le> max i count \<and> accepted_tokens r \<le> output_count r \<and>
    length (output_tokens r) = length (output_tokens result) \<and> proposed_tokens r = proposed_tokens result \<and>
    verified_rows r = verified_rows result"
  using assms
proof (induction "Suc count - i" arbitrary: i result s ob)
  case 0
  from 0(2,4-) show ?case
    by (subst (asm) round_loop.simps) (use 0(1) in \<open>auto simp: delivered_def\<close>)
next
  case (Suc m i result s ob)
  then have i: "i \<le> count" by simp
  obtain c s1 where c: "b_commit_prefix b (i + 1) (predictions ! i) s = (c, s1)" by fastforce
  obtain p ob1 where p: "f (predictions ! i) s1 ob = (p, ob1)" by fastforce
  let ?acc = "i < count \<and> draft ! i = predictions ! i"
  let ?r2 = "step_result opt i (predictions ! i) ?acc p result"
  have unfolded: "(if \<not> c then (False, result, s1, ob)
      else if status ?r2 \<noteq> kContinue \<or> \<not> ?acc then (True, ?r2, s1, ob1)
      else round_loop opt b (Some f) draft predictions count (i + 1) ?r2 s1 ob1) = (ok, r, s', ob')"
    unfolding Suc(3) [symmetric]
    by (subst round_loop_unfold [where obs = "Some f" and p = p and ?ob1.0 = ob1, OF i c])
       (simp_all only: p option.case Let_def)
  have seen1: "seen ob1 = seen ob @ [predictions ! i]" using Suc(4) [of "predictions ! i" s1 ob] p by simp
  have r2: "output_count ?r2 = i + 1" "length (output_tokens ?r2) = length (output_tokens result)"
    "seen ob1 = xs @ take (output_count ?r2) (output_tokens ?r2)"
    "take (i + 1) (output_tokens ?r2) = map ((!) predictions) [0..<i + 1]"
    "proposed_tokens ?r2 = proposed_tokens result" "verified_rows ?r2 = verified_rows result"
    "accepted_tokens ?r2 = (if ?acc then i + 1 else i)"
    using seen1 Suc(5-7) Suc(9,11) i by (simp_all add: step_result_def take_snoc_update)
  show ?case
  proof (cases "\<not> c")
    case True
    with unfolded Suc(5,6,9,10,11) i show ?thesis by (auto simp: delivered_def)
  next
    case c: False
    show ?thesis
    proof (cases "status ?r2 \<noteq> kContinue \<or> \<not> ?acc")
      case True
      have r: "r = ?r2" "ob' = ob1" using unfolded unfolding if_not_P [OF c] if_P [OF True] by simp_all
      have "delivered opt draft predictions r" unfolding r delivered_def r2(1) using r2(4) Suc(10) by simp
      then show ?thesis using r2 i Suc(6) unfolding r by auto
    next
      case False
      have rec: "round_loop opt b (Some f) draft predictions count (i + 1) ?r2 s1 ob1 = (ok, r, s', ob')"
        using unfolded unfolding if_not_P [OF c] if_not_P [OF False] .
      have "seen ob' = xs @ take (output_count r) (output_tokens r) \<and> delivered opt draft predictions r \<and>
          output_count r \<le> Suc count \<and> (ok \<longrightarrow> i + 1 \<le> count \<longrightarrow> i + 1 < output_count r) \<and>
          accepted_tokens r \<le> max (i + 1) count \<and> accepted_tokens r \<le> output_count r \<and>
          length (output_tokens r) = length (output_tokens ?r2) \<and> proposed_tokens r = proposed_tokens ?r2 \<and>
          verified_rows r = verified_rows ?r2"
      proof (rule Suc(1) [OF _ rec Suc(4) r2(3,1)])
        show "\<forall>k<i + 1. draft ! k = predictions ! k \<and> predictions ! k \<noteq> stop_token opt"
          using False Suc(10) by (auto simp: less_Suc_eq step_result_def round_step_status_def split: if_splits)
      qed (use i Suc(2,7) r2 False in auto)
      with r2 Suc(6) False show ?thesis by auto
    qed
  qed
qed

text \<open>Every way a round ends: refused, failed before the commit loop, or through the loop.\<close>

lemma run_round_cases:
  assumes run: "run_round opt b obs has_context s ob = (r, s', ob')"
  obtains (invalid) "invalid_options opt (obs \<noteq> None) has_context" "r = initial_result" "s' = s" "ob' = ob"
  | (failed) st r0 s0 where "fail_round b st r0 s0 ob = (r, s', ob')" "st \<in> {kBackendFailure, kInvalidPrediction}"
      "r0 = initial_result\<lparr>eos_frontier_stopped := eos_frontier_stopped r0, proposed_tokens := proposed_tokens r0,
         verified_rows := verified_rows r0\<rparr>" "proposed_tokens r0 \<le> kMaximumDraftLength"
      "\<not> invalid_options opt (obs \<noteq> None) has_context"
  | (loop) maximum s1 draft count stopped s2 predictions s3 complete r1 s4 ob1 where
      "\<not> invalid_options opt (obs \<noteq> None) has_context" "maximum = min (draft_length opt) (remaining_output opt - 1)"
      "count \<le> maximum" "b_begin b (maximum + 1) s = (True, s1)"
      "(if maximum \<noteq> 0 then propose_round opt b maximum (replicate kMaximumDraftLength 0) s1
        else (True, replicate kMaximumDraftLength 0, maximum, False, s1)) = (True, draft, count, stopped, s2)"
      "b_verify b (seed_token opt) draft count (replicate kMaximumVerifyRows 0) s2 = (True, predictions, s3)"
      "\<forall>i\<le>count. predictions ! i < vocabulary_size opt"
      "round_loop opt b obs draft predictions count 0 (initial_result\<lparr>eos_frontier_stopped := stopped,
         proposed_tokens := count, verified_rows := count + 1\<rparr>) s3 ob = (complete, r1, s4, ob1)"
      "(if \<not> complete then fail_round b kBackendFailure r1 s4 ob1
        else case b_finish b s4 of (finished, s5) \<Rightarrow>
          if \<not> finished then fail_round b kBackendFailure r1 s5 ob1 else (r1, s5, ob1)) = (r, s', ob')"
proof (cases "invalid_options opt (obs \<noteq> None) has_context")
  case True
  with run show thesis by (intro invalid) (simp_all add: run_round_def)
next
  case valid: False
  define maximum where "maximum = min (draft_length opt) (remaining_output opt - 1)"
  define draft0 where "draft0 = replicate kMaximumDraftLength (0 :: nat)"
  have three: "maximum \<le> kMaximumDraftLength"
    using valid by (auto simp: invalid_options_def maximum_def kMaximumDraftLength_def)
  obtain began s1 where begin_round: "b_begin b (maximum + 1) s = (began, s1)" by fastforce
  obtain ok draft count stopped s2 where propose: "(if maximum \<noteq> 0 then propose_round opt b maximum draft0 s1
      else (True, draft0, maximum, False, s1)) = (ok, draft, count, stopped, s2)" by (metis prod_cases5)
  obtain verified predictions s3 where
    verify: "b_verify b (seed_token opt) draft count (replicate kMaximumVerifyRows 0) s2 = (verified, predictions, s3)"
    by (metis prod_cases3)
  define r1 where "r1 = initial_result\<lparr>eos_frontier_stopped := stopped, proposed_tokens := count\<rparr>"
  obtain complete r3 s4 ob1 where
    loop: "round_loop opt b obs draft predictions count 0 (r1\<lparr>verified_rows := count + 1\<rparr>) s3 ob = (complete, r3, s4, ob1)"
    by (metis prod_cases4)
  define bad where "bad \<longleftrightarrow> maximum \<noteq> 0 \<and> invalid_proposal opt maximum draft count stopped"
  note run' = run [unfolded run_round_def Let_def if_not_P [OF valid], folded maximum_def draft0_def,
      unfolded begin_round propose prod.case, folded r1_def bad_def,
      unfolded verify prod.case, unfolded loop prod.case]
  have count: "count \<le> maximum" if "\<not> bad" using that propose by (auto simp: bad_def invalid_proposal_def split: if_splits)
  consider "\<not> began" | "began" "\<not> ok" | "began" "ok" "bad"
    | "began" "ok" "\<not> bad" "list_ex (\<lambda>i. draft ! i \<ge> vocabulary_size opt) [0..<count]"
    | "began" "ok" "\<not> bad" "\<not> list_ex (\<lambda>i. draft ! i \<ge> vocabulary_size opt) [0..<count]" "\<not> verified"
    | "began" "ok" "\<not> bad" "\<not> list_ex (\<lambda>i. draft ! i \<ge> vocabulary_size opt) [0..<count]" "verified"
        "list_ex (\<lambda>i. predictions ! i \<ge> vocabulary_size opt) [0..<count + 1]"
    | "began" "ok" "\<not> bad" "\<not> list_ex (\<lambda>i. draft ! i \<ge> vocabulary_size opt) [0..<count]" "verified"
        "\<not> list_ex (\<lambda>i. predictions ! i \<ge> vocabulary_size opt) [0..<count + 1]"
    by argo
  then show thesis
  proof cases
    case 1
    then show thesis using run' valid by (intro failed [of kBackendFailure initial_result s1]) (simp_all add: initial_result_def)
  next
    case 2
    then show thesis using run' valid by (intro failed [of kBackendFailure initial_result s2]) (simp_all add: initial_result_def)
  next
    case 3
    then show thesis using run' valid
      by (intro failed [of kInvalidPrediction initial_result s2]) (simp_all add: initial_result_def)
  next
    case 4
    then have "fail_round b kInvalidPrediction r1 s2 ob = (r, s', ob')" using run' by simp
    then show thesis
      by (rule failed) (use valid count three 4(3) in \<open>simp_all add: r1_def initial_result_def\<close>)
  next
    case 5
    then have "fail_round b kBackendFailure r1 s3 ob = (r, s', ob')" using run' by simp
    then show thesis
      by (rule failed) (use valid count three 5(3) in \<open>simp_all add: r1_def initial_result_def\<close>)
  next
    case 6
    then have "fail_round b kInvalidPrediction (r1\<lparr>verified_rows := count + 1\<rparr>) s3 ob = (r, s', ob')" using run' by simp
    then show thesis
      by (rule failed) (use valid count three 6(3) in \<open>simp_all add: r1_def initial_result_def\<close>)
  next
    case 7
    show thesis
    proof (rule that(3) [OF valid maximum_def count [OF 7(3)] _ _ _ _ loop [unfolded r1_def round_result.update_convs]])
      show "b_begin b (maximum + 1) s = (True, s1)" using begin_round 7(1) by simp
      show "(if maximum \<noteq> 0 then propose_round opt b maximum (replicate kMaximumDraftLength 0) s1
          else (True, replicate kMaximumDraftLength 0, maximum, False, s1)) = (True, draft, count, stopped, s2)"
        using propose 7(2) unfolding draft0_def by simp
      show "b_verify b (seed_token opt) draft count (replicate kMaximumVerifyRows 0) s2 = (True, predictions, s3)"
        using verify 7(5) by simp
      show "\<forall>i\<le>count. predictions ! i < vocabulary_size opt"
        using 7(6) by (auto simp: list_ex_iff not_le)
      show "(if \<not> complete then fail_round b kBackendFailure r3 s4 ob1
        else case b_finish b s4 of (finished, s5) \<Rightarrow>
          if \<not> finished then fail_round b kBackendFailure r3 s5 ob1 else (r3, s5, ob1)) = (r, s', ob')"
        using run' 7 by (simp split: prod.splits)
    qed
  qed
qed

text \<open>The counters of a result, and what the observer has seen of it.\<close>

definition round_account :: "round_result \<Rightarrow> bool" where
  "round_account r \<longleftrightarrow> output_count r \<le> kMaximumVerifyRows \<and> length (output_tokens r) = kMaximumVerifyRows \<and>
     proposed_tokens r \<le> kMaximumDraftLength \<and> accepted_tokens r \<le> proposed_tokens r \<and>
     accepted_tokens r \<le> output_count r \<and> (round_ok r \<longrightarrow> 1 \<le> output_count r)"

lemma run_round_observed:
  assumes run: "run_round opt b (Some f) has_context s ob = (r, s', ob')"
    and f: "\<And>token s ob. seen (snd (f token s ob)) = seen ob @ [token]"
  shows "seen ob' = seen ob @ take (output_count r) (output_tokens r) \<and> round_account r"
  using run
proof (cases rule: run_round_cases)
  case invalid
  then show ?thesis by (simp add: round_account_def initial_result_def round_ok_def)
next
  case (failed st r0 s0)
  have "output_count r0 = 0" "length (output_tokens r0) = kMaximumVerifyRows" "accepted_tokens r0 = 0"
    by (subst failed(3), simp add: initial_result_def)+
  with failed(1,2,4) show ?thesis by (auto simp: round_account_def fail_round_def round_ok_def split: prod.splits)
next
  case (loop maximum s1 draft count stopped s2 predictions s3 complete r1 s4 ob1)
  have "count \<le> 3" using loop(1-3) by (auto simp: invalid_options_def)
  then have "seen ob1 = seen ob @ take (output_count r1) (output_tokens r1) \<and> delivered opt draft predictions r1 \<and>
      output_count r1 \<le> Suc count \<and> (complete \<longrightarrow> 0 \<le> count \<longrightarrow> 0 < output_count r1) \<and>
      accepted_tokens r1 \<le> max 0 count \<and> accepted_tokens r1 \<le> output_count r1 \<and>
      length (output_tokens r1) = kMaximumVerifyRows \<and> proposed_tokens r1 = count \<and> verified_rows r1 = count + 1"
    using round_loop_observed [OF loop(8), of seen "seen ob"] f
    by (simp add: initial_result_def kMaximumVerifyRows_def)
  with loop(9) \<open>count \<le> 3\<close> show ?thesis
    by (auto simp: round_account_def fail_round_def round_ok_def kMaximumVerifyRows_def kMaximumDraftLength_def
        split: prod.splits if_splits)
qed

lemma run_round_keeps:
  assumes run: "run_round opt b (Some f) has_context s ob = (r, s', ob')" and init: "P kContinue ob"
    and keep: "\<And>st ob token s1 n. P st ob \<Longrightarrow>
      P (round_step_status opt token (fst (f token s1 ob)) n) (snd (f token s1 ob))"
  shows "round_ok r \<Longrightarrow> P (status r) ob'" "\<not> round_ok r \<Longrightarrow> \<exists>st. P st ob'"
proof -
  have "(round_ok r \<longrightarrow> P (status r) ob') \<and> (\<not> round_ok r \<longrightarrow> (\<exists>st. P st ob'))"
    using run
  proof (cases rule: run_round_cases)
    case invalid
    then show ?thesis using init by (auto simp: initial_result_def round_ok_def)
  next
    case (failed st r0 s0)
    then show ?thesis using init by (auto simp: fail_round_def round_ok_def split: prod.splits)
  next
    case (loop maximum s1 draft count stopped s2 predictions s3 complete r1 s4 ob1)
    have "P (if status r1 = kInvalidOptions then kContinue else status r1) ob1"
      using loop(8)
    proof (rule round_loop_keeps)
      fix i ob acc p ob1 s1 and result :: round_result
      assume before: "P (if status result = kInvalidOptions then kContinue else status result) ob"
        and call: "(case Some f of None \<Rightarrow> (True, ob) | Some f \<Rightarrow> f (predictions ! i) s1 ob) = (p, ob1)"
      have "f (predictions ! i) s1 ob = (p, ob1)" using call by simp
      then have "P (round_step_status opt (predictions ! i) p (output_count result + 1)) ob1"
        using keep [OF before, of "predictions ! i" s1 "output_count result + 1"] by simp
      then show "P (if status (step_result opt i (predictions ! i) acc p result) = kInvalidOptions then kContinue
        else status (step_result opt i (predictions ! i) acc p result)) ob1"
        using round_step_status_ok [of opt "predictions ! i" p "output_count result + 1"]
        by (auto simp: step_result_def)
    qed (simp add: init initial_result_def)
    with loop(9) show ?thesis
      by (auto simp: fail_round_def round_ok_def split: prod.splits if_splits)
  qed
  then show "round_ok r \<Longrightarrow> P (status r) ob'" "\<not> round_ok r \<Longrightarrow> \<exists>st. P st ob'" by simp_all
qed

context round_contract
begin

text \<open>Every token a round hands to the observer is the greedy one, whatever the status of the round.\<close>

lemma round_delivers:
  assumes run: "run_round opt b (Some f) has_context s ob = (r, s', ob')" and inv: "inv s"
    and f: "\<And>token s ob. seen (snd (f token s ob)) = seen ob @ [token]"
  shows "take (output_count r) (output_tokens r) = greedy target (history s @ [seed_token opt]) (output_count r) \<and>
    output_count r \<le> remaining_output opt \<and>
    stop_token opt \<notin> set (greedy target (history s @ [seed_token opt]) (output_count r - 1)) \<and>
    (\<forall>x\<in>set (greedy target (history s @ [seed_token opt]) (output_count r)). x < vocabulary_size opt)"
  using run
proof (cases rule: run_round_cases)
  case invalid
  then show ?thesis by (simp add: initial_result_def)
next
  case (failed st r0 s0)
  have "output_count r0 = 0" by (subst failed(3), simp add: initial_result_def)
  with failed(1) show ?thesis by (auto simp: fail_round_def split: prod.splits)
next
  case (loop maximum s1 draft count stopped s2 predictions s3 complete r1 s4 ob1)
  let ?g = "greedy target (history s @ [seed_token opt])"
  have max: "maximum \<le> 3" "Suc maximum \<le> remaining_output opt" using loop(1,2) by (auto simp: invalid_options_def)
  have s1: "inv s1" "history s1 = history s" "base s1 = history s" using begin_law [OF inv loop(4)] by simp_all
  have s2: "inv s2" "history s2 = history s" "base s2 = history s" "length draft = 3"
    using loop(5) s1 propose_round_law [OF s1(1), of opt maximum _ draft count stopped s2]
    by (auto simp: kMaximumDraftLength_def split: if_splits)
  have target: "\<forall>i\<le>count. predictions ! i = target (history s @ seed_token opt # take i draft)"
    using verify_law [OF s2(1) _ _ _ loop(6)] s2 loop(3) max by simp
  have d: "delivered opt draft predictions r1 \<and> output_count r1 \<le> Suc count"
    using round_loop_observed [OF loop(8), of seen "seen ob"] f loop(3) max
    by (simp add: initial_result_def kMaximumVerifyRows_def)
  have r: "output_count r = output_count r1" "output_tokens r = output_tokens r1"
    using loop(9) by (auto simp: fail_round_def split: prod.splits if_splits)
  let ?n = "output_count r1"
  have out: "map ((!) predictions) [0..<?n] = ?g ?n"
    using d loop(3) max s2(4) by (intro predictions_greedy [OF target]) (auto simp: delivered_def)
  have short: "map ((!) predictions) [0..<?n - 1] = ?g (?n - 1)"
    using d loop(3) max s2(4) by (intro predictions_greedy [OF target]) (auto simp: delivered_def)
  have "stop_token opt \<notin> set (?g (?n - 1))" unfolding short [symmetric] using d by (auto simp: delivered_def)
  moreover have "\<forall>x\<in>set (?g ?n). x < vocabulary_size opt" unfolding out [symmetric] using loop(7) d by auto
  ultimately show ?thesis using d r out loop(3) max by (simp add: delivered_def)
qed

end

subsection \<open>The service\<close>

record service_report =
  rp_proposal_histogram :: "nat list"
  rp_requested_budget_histogram :: "nat list"
  rp_draft_length :: nat
  rp_prompt_rows :: nat
  rp_draft_rows :: nat
  rp_rounds :: nat
  rp_eos_frontier_stops :: nat
  rp_proposed :: nat
  rp_accepted :: nat
  rp_verified :: nat
  rp_committed :: nat
  rp_accepted_by_position :: "nat list"
  rp_initialization_ms :: double
  rp_initialized :: bool
  rp_cancelled :: bool
  rp_failed :: bool

definition reset_report :: "nat \<Rightarrow> service_report" where
  "reset_report configured = \<lparr>rp_proposal_histogram = replicate 4 0, rp_requested_budget_histogram = replicate 4 0,
     rp_draft_length = configured, rp_prompt_rows = 0, rp_draft_rows = 0, rp_rounds = 0, rp_eos_frontier_stops = 0, rp_proposed = 0, rp_accepted = 0,
     rp_verified = 0, rp_committed = 0, rp_accepted_by_position = replicate 3 0, rp_initialization_ms = Finite 0,
     rp_initialized = False, rp_cancelled = False,
     rp_failed = False\<rparr>"

record 'd service =
  sv_transaction :: "'d transaction"
  sv_length :: nat
  sv_report :: service_report

definition service_failure :: "bool \<Rightarrow> runner_status" where
  "service_failure cancelled = runner_status_none\<lparr>
     rs_error := (if cancelled then RCancelled else RPoisoned),
     rs_operation := Some (if cancelled then ''mtp_cancelled'' else ''mtp_transaction_failure'')\<rparr>"

text \<open>\<open>++a[i]\<close> on an array inside the report.\<close>

definition bump :: "nat \<Rightarrow> nat list \<Rightarrow> nat list" where
  "bump i xs = xs[i := xs ! i + 1]"

text \<open>\<^verbatim>\<open>Observer::emit\<close>: one step and one token, then the callback of the request.\<close>

type_synonym 'w observer_state = "generation_control \<times> service_report \<times> 'w"

definition emit :: "'w host \<Rightarrow> ('d transaction, 'w observer_state) token_observer" where
  "emit host token t = (\<lambda>(c, report, w).
     let (ms, w) = h_elapsed host w;
         result = \<lparr>sr_position = tx_position t - 1, sr_input_token_id = last (gc_generated_token_ids c),
                 sr_logits = None, sr_timing = Some ms, sr_prediction = Some token\<rparr>;
         index = length (gc_generated_token_ids c);
         timing = gc_timing c;
         c = c\<lparr>gc_steps := gc_steps c @ [result], gc_generated_token_ids := gc_generated_token_ids c @ [token],
               gc_timing := timing\<lparr>gt_subsequent_token := gt_subsequent_token timing @ [ms],
                 gt_decode_after_first := add_double (gt_decode_after_first timing) ms,
                 gt_total_generation := add_double (gt_total_generation timing) ms\<rparr>\<rparr>;
         report = report\<lparr>rp_committed := rp_committed report + 1\<rparr>;
         (proceed, w) = commit_callback host token index ms w
     in (proceed, (c, report, w)))"

definition decode_round_options :: "nat \<Rightarrow> generation_options \<Rightarrow> generation_control \<Rightarrow> 'd transaction \<Rightarrow> round_options" where
  "decode_round_options configured opt c t =
     (let remaining = go_max_new_tokens opt - length (gc_generated_token_ids c) in
      \<lparr>draft_length = output_tail_budget configured remaining, seed_token = last (gc_generated_token_ids c),
       remaining_output = remaining, available_target_rows = tx_capacity t - tx_position t,
       vocabulary_size = kReferenceVocabularySize, stop_token = go_stop_token_id opt,
       confidence_lookahead = True, eos_frontier = True\<rparr>)"

definition account_round :: "round_result \<Rightarrow> service_report \<Rightarrow> service_report" where
  "account_round r report = report\<lparr>
     rp_proposal_histogram := (if round_ok r then bump (proposed_tokens r) (rp_proposal_histogram report)
       else rp_proposal_histogram report),
     rp_rounds := rp_rounds report + 1,
     rp_proposed := rp_proposed report + proposed_tokens r,
     rp_eos_frontier_stops := rp_eos_frontier_stops report + (if eos_frontier_stopped r then 1 else 0),
     rp_accepted := rp_accepted report + accepted_tokens r,
     rp_verified := rp_verified report + verified_rows r,
     rp_accepted_by_position := fold bump [0..<accepted_tokens r] (rp_accepted_by_position report)\<rparr>"

fun decode_loop ::
  "'d device \<Rightarrow> 'w host \<Rightarrow> generation_options \<Rightarrow> nat \<Rightarrow> generation_control \<Rightarrow> 'd service \<Rightarrow> 'w \<Rightarrow>
   (runner_status \<times> generation_control \<times> 'd service \<times> 'w) option" where
  "decode_loop dev host opt 0 c sv w = None"
| "decode_loop dev host opt (Suc fuel) c sv w =
     (if \<not> length (gc_generated_token_ids c) < go_max_new_tokens opt then Some (runner_status_none, c, sv, w)
      else let (cancelled, w) = cancel_requested host w
      in if cancelled
      then Some (runner_status_none, c\<lparr>gc_stop_reason := SCancelled\<rparr>,
                 sv\<lparr>sv_report := (sv_report sv)\<lparr>rp_cancelled := True\<rparr>\<rparr>, w)
      else let options = decode_round_options (sv_length sv) opt c (sv_transaction sv);
               report = (sv_report sv)\<lparr>rp_requested_budget_histogram :=
                 bump (draft_length options) (rp_requested_budget_histogram (sv_report sv))\<rparr>;
               (result, t, c, report, w) = run_round options (transaction_backend dev) (Some (emit host)) True
                 (sv_transaction sv) (c, report, w);
               report = account_round result report;
               sv = sv\<lparr>sv_transaction := t, sv_report := report\<rparr>
      in if \<not> round_ok result
      then Some (service_failure False, c, sv\<lparr>sv_report := report\<lparr>rp_failed := True\<rparr>\<rparr>, w)
      else if status result = kStop then Some (runner_status_none, c\<lparr>gc_stop_reason := SImEnd\<rparr>, sv, w)
      else if status result = kCancelled
      then Some (runner_status_none, c\<lparr>gc_stop_reason := SCancelled\<rparr>,
                 sv\<lparr>sv_report := report\<lparr>rp_cancelled := True\<rparr>\<rparr>, w)
      else decode_loop dev host opt fuel c sv w)"

text \<open>After the loop the decode time is read from the clock again; a failure returns before that.\<close>

definition decode ::
  "'d device \<Rightarrow> 'w host \<Rightarrow> generation_options \<Rightarrow> nat \<Rightarrow> generation_control \<Rightarrow> 'd service \<Rightarrow> 'w \<Rightarrow>
   (runner_status \<times> generation_control \<times> 'd service \<times> 'w) option" where
  "decode dev host opt fuel c sv w =
     (case decode_loop dev host opt fuel c sv w of
        None \<Rightarrow> None
      | Some (st, c, sv, w) \<Rightarrow>
          if \<not> runner_ok st then Some (st, c, sv, w)
          else let (ms, w) = h_elapsed host w; timing = gc_timing c
               in Some (st, c\<lparr>gc_timing := timing\<lparr>gt_decode_after_first := ms,
                    gt_total_generation := add_double (gt_prompt_prefill timing) ms\<rparr>\<rparr>, sv, w))"

subsection \<open>The loop returns\<close>

lemma emit_seen: "gc_generated_token_ids (fst (snd (emit host token t ob))) = gc_generated_token_ids (fst ob) @ [token]"
  by (simp add: emit_def Let_def split: prod.splits)

lemmas round_observed = run_round_observed [where f = "emit host" and seen = "\<lambda>ob. gc_generated_token_ids (fst ob)" for host,
    OF _ emit_seen]

lemma decode_loop_fuel:
  "go_max_new_tokens opt - length (gc_generated_token_ids c) < fuel \<Longrightarrow> \<exists>y. decode_loop dev host opt fuel c sv w = Some y"
proof (induction fuel arbitrary: c sv w)
  case (Suc fuel)
  show ?case
  proof (cases "length (gc_generated_token_ids c) < go_max_new_tokens opt")
    case True
    obtain cancelled w1 where 1: "cancel_requested host w = (cancelled, w1)" by fastforce
    let ?opt = "decode_round_options (sv_length sv) opt c (sv_transaction sv)"
    let ?rep = "(sv_report sv)\<lparr>rp_requested_budget_histogram :=
      bump (draft_length ?opt) (rp_requested_budget_histogram (sv_report sv))\<rparr>"
    obtain r t c' rep w2 where 2: "run_round ?opt (transaction_backend dev) (Some (emit host)) True (sv_transaction sv)
      (c, ?rep, w1) = (r, t, c', rep, w2)" by (metis prod_cases5)
    have grow: "round_ok r \<Longrightarrow> length (gc_generated_token_ids c) < length (gc_generated_token_ids c')"
      using round_observed [OF 2] by (auto simp: round_account_def)
    show ?thesis
    proof (cases "cancelled \<or> \<not> round_ok r \<or> status r = kStop \<or> status r = kCancelled")
      case True
      then show ?thesis using 1 2 by (auto simp: Let_def)
    next
      case False
      have "go_max_new_tokens opt - length (gc_generated_token_ids c') < fuel" using Suc.prems True grow False by linarith
      from Suc.IH [OF this] show ?thesis using True False 1 2 by (simp add: Let_def)
    qed
  qed simp
qed simp

subsection \<open>What the loop generates\<close>

lemma round_stop_reason:
  assumes "run_round opt b (Some (emit host)) True t (c, rep, w) = (r, t', c', rep', w')"
  shows "gc_stop_reason c' = gc_stop_reason c"
proof -
  note keeps = run_round_keeps [where P = "\<lambda>st ob. gc_stop_reason (fst ob) = gc_stop_reason c", OF assms]
  show ?thesis
    by (cases "round_ok r"; drule keeps [rotated 2]) (auto simp: emit_def Let_def split: prod.splits)
qed

lemma round_not_cancelled:
  assumes "run_round opt b (Some (emit host)) True t (c, rep, w) = (r, t', c', rep', w')" "h_committed_token host = None"
  shows "status r \<noteq> kCancelled"
proof (cases "round_ok r")
  case True
  show ?thesis
    by (rule run_round_keeps(1) [where P = "\<lambda>st ob. st \<noteq> kCancelled", OF assms(1) _ _ True])
       (auto simp: emit_def commit_callback_def round_step_status_def assms(2) Let_def split: prod.splits)
qed (auto simp: round_ok_def)

text \<open>
  \<open>greedy_continuation\<close>: from \<open>gen\<close> after the prompt, the tokens of greedy decoding were appended, at
  most to the requested length and none after the stop token.
\<close>

definition greedy_continuation :: "(nat list \<Rightarrow> nat) \<Rightarrow> generation_options \<Rightarrow> nat list \<Rightarrow> nat list \<Rightarrow> nat list \<Rightarrow> bool" where
  "greedy_continuation target opt prompt gen gen' \<longleftrightarrow>
     (\<exists>n. gen' = gen @ greedy target (prompt @ gen) n \<and> n \<le> go_max_new_tokens opt - length gen \<and>
        go_stop_token_id opt \<notin> set (greedy target (prompt @ gen) (n - 1)) \<and>
        (\<forall>x\<in>set (greedy target (prompt @ gen) n). x < kReferenceVocabularySize))"

lemma greedy_continuation_refl [simp]: "greedy_continuation target opt prompt gen gen"
  by (auto simp: greedy_continuation_def intro: exI [of _ 0])

lemma greedy_eq_Nil [simp]: "greedy target xs n = [] \<longleftrightarrow> n = 0"
  by (cases n) simp_all

lemma greedy_last:
  assumes "n \<noteq> 0"
  shows "greedy target xs n = greedy target xs (n - 1) @ [last (greedy target xs n)]"
proof -
  have "greedy target xs n \<noteq> []" using assms by simp
  moreover have "butlast (greedy target xs n) = greedy target xs (n - 1)"
    by (simp add: butlast_conv_take take_greedy)
  ultimately show ?thesis using append_butlast_last_id by metis
qed

lemma greedy_continuation_trans:
  assumes "greedy_continuation target opt prompt gen gen1" "greedy_continuation target opt prompt gen1 gen2"
    and "gen1 \<noteq> gen \<Longrightarrow> last gen1 \<noteq> go_stop_token_id opt"
  shows "greedy_continuation target opt prompt gen gen2"
proof -
  obtain m where m: "gen1 = gen @ greedy target (prompt @ gen) m" "m \<le> go_max_new_tokens opt - length gen"
    "go_stop_token_id opt \<notin> set (greedy target (prompt @ gen) (m - 1))"
    "\<forall>x\<in>set (greedy target (prompt @ gen) m). x < kReferenceVocabularySize"
    using assms(1) by (auto simp: greedy_continuation_def)
  obtain n where n: "gen2 = gen1 @ greedy target (prompt @ gen1) n" "n \<le> go_max_new_tokens opt - length gen1"
    "go_stop_token_id opt \<notin> set (greedy target (prompt @ gen1) (n - 1))"
    "\<forall>x\<in>set (greedy target (prompt @ gen1) n). x < kReferenceVocabularySize"
    using assms(2) by (auto simp: greedy_continuation_def)
  have join: "greedy target (prompt @ gen) (m + k) = greedy target (prompt @ gen) m @ greedy target (prompt @ gen1) k" for k
    using greedy_append [of target "prompt @ gen" m k] m(1) by simp
  have "go_stop_token_id opt \<notin> set (greedy target (prompt @ gen) m)"
  proof (cases "m = 0")
    case False
    note snoc = greedy_last [OF False, of target "prompt @ gen"]
    have "last gen1 = last (greedy target (prompt @ gen) m)" "gen1 \<noteq> gen"
      using m(1) False greedy_eq_Nil [of target "prompt @ gen" m] by simp_all
    then show ?thesis using m(3) assms(3) by (subst snoc) auto
  qed simp
  then have "go_stop_token_id opt \<notin> set (greedy target (prompt @ gen) (m + n - 1))"
    using n(3) m(3) by (cases n) (simp_all add: join)
  then show ?thesis
    unfolding greedy_continuation_def using m n by (intro exI [of _ "m + n"]) (auto simp: join)
qed

text \<open>One iteration of the loop that runs a round.\<close>

lemma decode_loop_early:
  assumes "decode_loop dev host opt (Suc fuel) c sv w = Some (st, c', sv', w')"
    "\<not> length (gc_generated_token_ids c) < go_max_new_tokens opt \<or> fst (cancel_requested host w)"
  shows "st = runner_status_none" "sv_transaction sv' = sv_transaction sv"
    "c' = c \<and> sv' = sv \<and> go_max_new_tokens opt \<le> length (gc_generated_token_ids c) \<or>
     fst (cancel_requested host w) \<and> c' = c\<lparr>gc_stop_reason := SCancelled\<rparr>"
proof (atomize (full), goal_cases)
  case 1
  obtain b w1 where b: "cancel_requested host w = (b, w1)" by fastforce
  show ?case
  proof (cases "length (gc_generated_token_ids c) < go_max_new_tokens opt")
    case True
    with assms b have "b" by simp
    with assms(1) True b show ?thesis by (simp add: Let_def) auto
  next
    case False
    with assms(1) show ?thesis by simp
  qed
qed

definition decode_after ::
  "'d device \<Rightarrow> 'w host \<Rightarrow> generation_options \<Rightarrow> nat \<Rightarrow> round_result \<Rightarrow> generation_control \<Rightarrow> 'd service \<Rightarrow> 'w \<Rightarrow>
   (runner_status \<times> generation_control \<times> 'd service \<times> 'w) option" where
  "decode_after dev host opt fuel r c sv w =
     (if \<not> round_ok r then Some (service_failure False, c, sv\<lparr>sv_report := (sv_report sv)\<lparr>rp_failed := True\<rparr>\<rparr>, w)
      else if status r = kStop then Some (runner_status_none, c\<lparr>gc_stop_reason := SImEnd\<rparr>, sv, w)
      else if status r = kCancelled
      then Some (runner_status_none, c\<lparr>gc_stop_reason := SCancelled\<rparr>, sv\<lparr>sv_report := (sv_report sv)\<lparr>rp_cancelled := True\<rparr>\<rparr>, w)
      else decode_loop dev host opt fuel c sv w)"

lemma decode_loop_round:
  assumes "decode_loop dev host opt (Suc fuel) c sv w = Some (st, c', sv', w')"
    "length (gc_generated_token_ids c) < go_max_new_tokens opt" "\<not> fst (cancel_requested host w)"
  obtains r t c1 rep rep0 w1 w2 sv1 where
    "run_round (decode_round_options (sv_length sv) opt c (sv_transaction sv)) (transaction_backend dev)
       (Some (emit host)) True (sv_transaction sv) (c, rep0, w1) = (r, t, c1, rep, w2)"
    "rep0 = (sv_report sv)\<lparr>rp_requested_budget_histogram := bump
       (output_tail_budget (sv_length sv) (go_max_new_tokens opt - length (gc_generated_token_ids c)))
       (rp_requested_budget_histogram (sv_report sv))\<rparr>"
    "sv_transaction sv1 = t" "sv_length sv1 = sv_length sv" "sv_report sv1 = account_round r rep"
    "decode_after dev host opt fuel r c1 sv1 w2 = Some (st, c', sv', w')"
proof -
  obtain w1 where w1: "cancel_requested host w = (False, w1)" using assms(3) by (cases "cancel_requested host w") auto
  let ?opt = "decode_round_options (sv_length sv) opt c (sv_transaction sv)"
  let ?rep = "(sv_report sv)\<lparr>rp_requested_budget_histogram :=
    bump (draft_length ?opt) (rp_requested_budget_histogram (sv_report sv))\<rparr>"
  obtain r t c1 rep w2 where run: "run_round ?opt (transaction_backend dev) (Some (emit host)) True (sv_transaction sv)
    (c, ?rep, w1) = (r, t, c1, rep, w2)" by (metis prod_cases5)
  show thesis
    using assms(1,2) w1 run
    by (intro that [OF run, of "sv\<lparr>sv_transaction := t, sv_report := account_round r rep\<rparr>"])
       (auto simp: Let_def decode_round_options_def decode_after_def split: if_splits)
qed

text \<open>The transaction has consumed the prompt and all generated tokens but the last.\<close>

definition in_step :: "nat list \<Rightarrow> generation_control \<Rightarrow> 'd transaction \<Rightarrow> bool" where
  "in_step prompt c t \<longleftrightarrow> gc_generated_token_ids c \<noteq> [] \<and> tx_inv t \<and>
     tx_history t = prompt @ butlast (gc_generated_token_ids c)"

text \<open>How a run that ends well stopped: at the stop token, at the requested length, or cancelled.\<close>

definition stopped_for :: "generation_options \<Rightarrow> generation_control \<Rightarrow> generation_control \<Rightarrow> bool" where
  "stopped_for opt c c' \<longleftrightarrow>
     (case gc_stop_reason c' of
        SImEnd \<Rightarrow> last (gc_generated_token_ids c') = go_stop_token_id opt
      | SMaxNewTokens \<Rightarrow> go_max_new_tokens opt \<le> length (gc_generated_token_ids c') \<and>
          (gc_generated_token_ids c' \<noteq> gc_generated_token_ids c \<longrightarrow>
           last (gc_generated_token_ids c') \<noteq> go_stop_token_id opt)
      | SCancelled \<Rightarrow> True)"

lemma timing_frame [simp]:
  "in_step prompt (c\<lparr>gc_timing := t\<rparr>) tx = in_step prompt c tx"
  "stopped_for opt c (c'\<lparr>gc_timing := t\<rparr>) = stopped_for opt c c'"
  by (simp_all add: in_step_def stopped_for_def cong: stop_reason.case_cong)

context faithful_device
begin

text \<open>A round of the loop extends the generation greedily, and keeps the transaction in step with it.\<close>

lemma decode_round_greedy:
  assumes run: "run_round (decode_round_options n opt c t) (transaction_backend dev) (Some (emit host)) True t (c, rep0, w) =
      (r, t', c', rep, w')" and step: "in_step prompt c t" and less: "length (gc_generated_token_ids c) < go_max_new_tokens opt"
  shows "greedy_continuation target opt prompt (gc_generated_token_ids c) (gc_generated_token_ids c')"
    and "round_ok r \<Longrightarrow> in_step prompt c' t'"
    and "round_ok r \<Longrightarrow> (status r = kStop \<longleftrightarrow> last (gc_generated_token_ids c') = go_stop_token_id opt)"
proof -
  let ?gen = "gc_generated_token_ids c" and ?n = "output_count r"
  have ctxt: "tx_history t @ [last ?gen] = prompt @ ?gen" "tx_inv t" using step by (simp_all add: in_step_def)
  note opts = decode_round_options_def Let_def round_options.select_convs
  have gen': "gc_generated_token_ids c' = ?gen @ take ?n (output_tokens r)" and acc: "round_account r"
    using round_observed [OF run] by simp_all
  have out: "take ?n (output_tokens r) = greedy target (prompt @ ?gen) ?n"
    "?n \<le> go_max_new_tokens opt - length ?gen"
    "go_stop_token_id opt \<notin> set (greedy target (prompt @ ?gen) (?n - 1))"
    "\<forall>x\<in>set (greedy target (prompt @ ?gen) ?n). x < kReferenceVocabularySize"
    using tx.round_delivers [OF run ctxt(2), of "\<lambda>ob. gc_generated_token_ids (fst ob)", OF emit_seen]
    unfolding opts ctxt(1) by simp_all
  then show "greedy_continuation target opt prompt ?gen (gc_generated_token_ids c')"
    unfolding greedy_continuation_def gen' by blast
  assume ok: "round_ok r"
  have exact: "tx_inv t'" "tx_history t' = prompt @ ?gen @ greedy target (prompt @ ?gen) (?n - 1)"
    "status r = kStop \<longleftrightarrow> last (take ?n (output_tokens r)) = go_stop_token_id opt" "?n \<noteq> 0"
    using tx.round_exact [OF run ok ctxt(2)] ctxt(1) unfolding opts by (auto simp: append_eq_append_conv2)
  have nonempty: "take ?n (output_tokens r) \<noteq> []" using acc exact(4) by (auto simp: round_account_def kMaximumVerifyRows_def)
  have "butlast (gc_generated_token_ids c') = ?gen @ greedy target (prompt @ ?gen) (?n - 1)"
    using exact(4) unfolding gen' out(1) butlast_append by (simp add: butlast_conv_take take_greedy)
  then show "in_step prompt c' t'" using exact step by (simp add: in_step_def gen')
  show "status r = kStop \<longleftrightarrow> last (gc_generated_token_ids c') = go_stop_token_id opt"
    using exact(3) nonempty gen' by simp
qed

lemma decode_loop_exact:
  assumes "decode_loop dev host opt fuel c sv w = Some (st, c', sv', w')" "in_step prompt c (sv_transaction sv)"
    "gc_stop_reason c = SMaxNewTokens"
  shows "greedy_continuation target opt prompt (gc_generated_token_ids c) (gc_generated_token_ids c') \<and>
    (runner_ok st \<longrightarrow> in_step prompt c' (sv_transaction sv') \<and> stopped_for opt c c')"
  using assms
proof (induction fuel arbitrary: c sv w)
  case (Suc fuel)
  show ?case
  proof (cases "\<not> length (gc_generated_token_ids c) < go_max_new_tokens opt \<or> fst (cancel_requested host w)")
    case True
    have "sv_transaction sv' = sv_transaction sv \<and> gc_generated_token_ids c' = gc_generated_token_ids c \<and>
        (gc_stop_reason c' = SCancelled \<or>
         gc_stop_reason c' = SMaxNewTokens \<and> go_max_new_tokens opt \<le> length (gc_generated_token_ids c'))"
      using decode_loop_early [OF Suc.prems(1) True] Suc.prems(3) by auto
    with Suc.prems(2) show ?thesis unfolding in_step_def stopped_for_def by (elim conjE disjE) simp_all
  next
    case False
    then have less: "length (gc_generated_token_ids c) < go_max_new_tokens opt" "\<not> fst (cancel_requested host w)" by simp_all
    obtain r t c1 rep rep0 w1 w2 sv1 where run:
      "run_round (decode_round_options (sv_length sv) opt c (sv_transaction sv)) (transaction_backend dev)
         (Some (emit host)) True (sv_transaction sv) (c, rep0, w1) = (r, t, c1, rep, w2)"
      and sv1: "sv_transaction sv1 = t"
      and rest: "decode_after dev host opt fuel r c1 sv1 w2 = Some (st, c', sv', w')"
      by (rule decode_loop_round [OF Suc.prems(1) less])
    note one = decode_round_greedy [OF run Suc.prems(2) less(1)]
    have reason: "gc_stop_reason c1 = SMaxNewTokens" using round_stop_reason [OF run] Suc.prems(3) by simp
    consider "\<not> round_ok r" | "round_ok r" "status r = kStop" | "round_ok r" "status r = kCancelled"
      | "round_ok r" "status r \<noteq> kStop" "status r \<noteq> kCancelled" by blast
    then show ?thesis
    proof cases
      case 1
      with rest one(1) show ?thesis by (auto simp: decode_after_def service_failure_def runner_ok_def)
    next
      case 2
      with rest one sv1 show ?thesis by (auto simp: decode_after_def in_step_def stopped_for_def)
    next
      case 3
      with rest one sv1 show ?thesis by (auto simp: decode_after_def in_step_def stopped_for_def)
    next
      case 4
      then have more: "decode_loop dev host opt fuel c1 sv1 w2 = Some (st, c', sv', w')" using rest by (simp add: decode_after_def)
      have last: "last (gc_generated_token_ids c1) \<noteq> go_stop_token_id opt" using one(3) 4 by simp
      have "greedy_continuation target opt prompt (gc_generated_token_ids c1) (gc_generated_token_ids c') \<and>
          (runner_ok st \<longrightarrow> in_step prompt c' (sv_transaction sv') \<and> stopped_for opt c1 c')"
        using one(2) 4 sv1 reason by (intro Suc.IH [OF more]) simp_all
      with one(1) last show ?thesis
        by (auto simp: stopped_for_def split: stop_reason.splits intro: greedy_continuation_trans)
    qed
  qed
qed simp

end

subsection \<open>A failed round\<close>

lemma abort_poisons:
  "fail_round (transaction_backend dev) st r0 t0 ob0 = (r, t, ob) \<Longrightarrow>
   tx_poisoned t \<and> dr_poisoned (tx_draft t) \<and> \<not> tx_active t \<and> status r = st"
  by (auto simp: fail_round_def transaction_backend_def tx_abort_def draft_poison_def discard_prepared_kv_def Let_def
      split: prod.splits)

lemma poisoned_begin: "tx_poisoned t \<Longrightarrow> tx_begin dev rows t = (False, t)"
  by (simp add: tx_begin_def)

subsection \<open>The report\<close>

definition report_consistent :: "nat \<Rightarrow> generation_control \<Rightarrow> service_report \<Rightarrow> bool" where
  "report_consistent first c rep \<longleftrightarrow>
     length (rp_proposal_histogram rep) = 4 \<and> length (rp_requested_budget_histogram rep) = 4 \<and>
     length (rp_accepted_by_position rep) = 3 \<and>
     sum_list (rp_proposal_histogram rep) = rp_rounds rep \<and>
     sum_list (rp_requested_budget_histogram rep) = rp_rounds rep \<and>
     sum_list (rp_accepted_by_position rep) = rp_accepted rep \<and>
     rp_accepted rep \<le> rp_proposed rep \<and> rp_proposed rep \<le> kMaximumDraftLength * rp_rounds rep \<and>
     rp_rounds rep \<le> rp_committed rep \<and> rp_accepted rep \<le> rp_committed rep \<and>
     first + rp_committed rep = length (gc_generated_token_ids c)"

lemma report_consistent_frame [simp]:
  "report_consistent first (c\<lparr>gc_stop_reason := x\<rparr>) rep = report_consistent first c rep"
  "report_consistent first (c\<lparr>gc_timing := t\<rparr>) rep = report_consistent first c rep"
  "report_consistent first c (rep\<lparr>rp_cancelled := b\<rparr>) = report_consistent first c rep"
  by (simp_all add: report_consistent_def)

lemma length_bump [simp]: "length (bump i xs) = length xs"
  by (simp add: bump_def)

lemma sum_list_bump: "i < length xs \<Longrightarrow> sum_list (bump i xs) = sum_list xs + 1"
  by (simp add: bump_def sum_list_update)

lemma fold_bump: "n \<le> length xs \<Longrightarrow> length (fold bump [0..<n] xs) = length xs \<and> sum_list (fold bump [0..<n] xs) = sum_list xs + n"
  by (induction n) (simp_all add: sum_list_bump)

lemma round_report:
  assumes "run_round opt b (Some (emit host)) True t (c, rep, w) = (r, t', c', rep', w')"
  shows "rep' = rep\<lparr>rp_committed := rp_committed rep + output_count r\<rparr>"
    "length (gc_generated_token_ids c') = length (gc_generated_token_ids c) + output_count r"
proof -
  let ?P = "\<lambda>(st :: round_status) ob. \<exists>n. fst (snd ob) = rep\<lparr>rp_committed := rp_committed rep + n\<rparr> \<and>
    length (gc_generated_token_ids (fst ob)) = length (gc_generated_token_ids c) + n"
  note keeps = run_round_keeps [where P = ?P, OF assms]
  have P: "\<exists>n. rep' = rep\<lparr>rp_committed := rp_committed rep + n\<rparr> \<and>
      length (gc_generated_token_ids c') = length (gc_generated_token_ids c) + n"
    by (cases "round_ok r"; drule keeps [rotated 2])
       (force simp: emit_def Let_def intro: exI [of _ 0] split: prod.splits)+
  have "gc_generated_token_ids c' = gc_generated_token_ids c @ take (output_count r) (output_tokens r)" "round_account r"
    using round_observed [OF assms] by simp_all
  then show len: "length (gc_generated_token_ids c') = length (gc_generated_token_ids c) + output_count r"
    by (simp add: round_account_def)
  show "rep' = rep\<lparr>rp_committed := rp_committed rep + output_count r\<rparr>" using P len by auto
qed

lemma report_round_consistent:
  assumes run: "run_round opt b (Some (emit host)) True t
      (c, rep\<lparr>rp_requested_budget_histogram := bump k (rp_requested_budget_histogram rep)\<rparr>, w) = (r, t', c', rep', w')"
    and "round_ok r" "k < 4" "report_consistent first c rep"
  shows "report_consistent first c' (account_round r rep')"
proof -
  have "round_account r" using round_observed [OF run] by simp
  then show ?thesis
    using assms(2-) round_report(2) [OF run] unfolding round_report(1) [OF run]
    by (simp add: report_consistent_def account_round_def sum_list_bump fold_bump round_account_def
        kMaximumDraftLength_def kMaximumVerifyRows_def)
qed

lemma decode_loop_report:
  assumes "decode_loop dev host opt fuel c sv w = Some (st, c', sv', w')" "runner_ok st"
    "sv_length sv \<in> {2, 3}" "report_consistent first c (sv_report sv)"
  shows "report_consistent first c' (sv_report sv')"
  using assms
proof (induction fuel arbitrary: c sv w)
  case (Suc fuel)
  show ?case
  proof (cases "\<not> length (gc_generated_token_ids c) < go_max_new_tokens opt \<or> fst (cancel_requested host w)")
    case True
    then show ?thesis using decode_loop_early [OF Suc.prems(1) True] Suc.prems
      by (auto simp: report_consistent_def Let_def split: prod.splits if_splits)
  next
    case False
    then have less: "length (gc_generated_token_ids c) < go_max_new_tokens opt" "\<not> fst (cancel_requested host w)" by simp_all
    show ?thesis
    proof (rule decode_loop_round [OF Suc.prems(1) less])
      fix r t c1 rep rep0 w1 w2 sv1
      assume run: "run_round (decode_round_options (sv_length sv) opt c (sv_transaction sv)) (transaction_backend dev)
          (Some (emit host)) True (sv_transaction sv) (c, rep0, w1) = (r, t, c1, rep, w2)"
        and rep0: "rep0 = (sv_report sv)\<lparr>rp_requested_budget_histogram := bump
          (output_tail_budget (sv_length sv) (go_max_new_tokens opt - length (gc_generated_token_ids c)))
          (rp_requested_budget_histogram (sv_report sv))\<rparr>"
        and sv1: "sv_length sv1 = sv_length sv" "sv_report sv1 = account_round r rep"
        and rest: "decode_after dev host opt fuel r c1 sv1 w2 = Some (st, c', sv', w')"
      have ok: "round_ok r" using rest Suc.prems(2) by (auto simp: decode_after_def service_failure_def runner_ok_def split: if_splits)
      have "report_consistent first c1 (sv_report sv1)" unfolding sv1
        by (rule report_round_consistent [OF run [unfolded rep0] ok _ Suc.prems(4)])
           (use Suc.prems(3) in \<open>auto simp: output_tail_budget_def\<close>)
      with rest ok sv1 Suc.prems(2,3) show ?thesis
        by (auto simp: decode_after_def intro: Suc.IH split: if_splits)
    qed
  qed
qed simp

subsection \<open>A faithful device\<close>

text \<open>
  The device that always succeeds, for any target and draft model. It shows the contract of the
  transaction can hold for every target.
\<close>

definition ideal_device :: "(nat list \<Rightarrow> nat) \<Rightarrow> (nat \<Rightarrow> nat \<times> bool) \<Rightarrow> unit device" where
  "ideal_device target draft = \<lparr>dv_target = (\<lambda>xs w. (Some (target xs), w)),
     dv_draft = (\<lambda>token confidence w. (Some (draft token), w)), dv_sync = (\<lambda>w. (True, w))\<rparr>"

interpretation ideal: faithful_device "ideal_device target draft" target for target draft
  by unfold_locales (simp add: ideal_device_def)

text \<open>A transaction at rest after a prompt, and a service with a fresh report on it.\<close>

definition idle_transaction :: "nat list \<Rightarrow> nat \<Rightarrow> unit transaction" where
  "idle_transaction xs capacity = \<lparr>tx_device = (), tx_draft = \<lparr>dr_position = length xs - 1, dr_capacity = capacity,
       dr_poisoned = False, dr_prepared_begin = 0, dr_prepared_rows = 0, dr_prepared_committed = 0\<rparr>,
     tx_tokens = xs, tx_position = length xs, tx_capacity = capacity, tx_poisoned = False, tx_prefill_active = False,
     tx_trace_valid = False, tx_retained_prefill_hidden_valid = False, tx_request_reuse_boundary = 2,
     tx_committed_request_positions = 0, tx_multirow = True, tx_slots = replicate 5 [], tx_entry_position = 0,
     tx_rows = 0, tx_committed = 0, tx_inputs = replicate 4 0, tx_predictions = replicate 4 0,
     tx_prepared_tail_rows = 0, tx_cached_seed = 0, tx_seed_cache_valid = False, tx_active = False,
     tx_verified = False, tx_entry_snapshots = 0, tx_scalar_verify_rows = 0, tx_direct_gdn_rows = 0,
     tx_seed_kv_reuses = 0, tx_tail_kv_batches = 0, tx_tail_kv_rows = 0\<rparr>"

lemma idle_transaction_inv [simp]:
  "tx_inv (idle_transaction xs n)" "tx_history (idle_transaction xs n) = xs"
  by (simp_all add: idle_transaction_def tx_inv_def tx_history_def)

definition example_host :: "unit host" where
  "example_host = \<lparr>h_committed_token = None, h_cancel = None, h_elapsed = (\<lambda>w. (Finite 1, w))\<rparr>"

definition example_options :: generation_options where
  "example_options = \<lparr>go_max_new_tokens = 7, go_stop_token_id = 9, go_max_sequence_length = 64,
     go_prefill_chunk_size = 32, go_capture_trace = False, go_logits_mode = PredictedTokenOnly,
     go_prefill_all_prompt_tokens = False, go_prefill_single_arbitrary_tile = False,
     go_prefill_whole_request_layer_major = False, go_prefill_mlp_schedule_tactic = PerOperatorPanel\<rparr>"

definition example_target :: "nat list \<Rightarrow> nat" where
  "example_target xs = length xs mod 8 + 2"

definition example_service :: "unit service" where
  "example_service = \<lparr>sv_transaction = idle_transaction [1, 1, 1] 64, sv_length = 3, sv_report = reset_report 3\<rparr>"

definition example_control :: generation_control where
  "example_control = initial_control\<lparr>gc_generated_token_ids := [5]\<rparr>"

abbreviation "example_device \<equiv> ideal_device example_target (\<lambda>t. ((t + 1) mod 11, False))"

subsection \<open>Properties\<close>

text \<open>
  C2. Speculative decoding is lossless. With a device whose successful passes give the token the
  target model picks, and a transaction in step with the generation, the decode loop returns with
  fuel for one round per missing token, and the tokens it appends are exactly those of plain
  greedy decoding: at most up to the requested length, none after the stop token, all in the
  vocabulary. This holds even when the run ends in a failure. A run that ends well is in step
  again, and has stopped at the stop token, at the requested length, or because it was cancelled.
\<close>

theorem decode_lossless:
  assumes "\<And>xs w p w'. dv_target dev xs w = (Some p, w') \<Longrightarrow> p = target xs"
    "in_step prompt c (sv_transaction sv)" "gc_stop_reason c = SMaxNewTokens"
    "go_max_new_tokens opt - length (gc_generated_token_ids c) < fuel"
  shows "\<exists>st c' sv' w'. decode dev host opt fuel c sv w = Some (st, c', sv', w') \<and>
    greedy_continuation target opt prompt (gc_generated_token_ids c) (gc_generated_token_ids c') \<and>
    (runner_ok st \<longrightarrow> in_step prompt c' (sv_transaction sv') \<and> stopped_for opt c c')"
proof -
  obtain st c' sv' w' where loop: "decode_loop dev host opt fuel c sv w = Some (st, c', sv', w')"
    using decode_loop_fuel [OF assms(4)] by (metis prod_cases4)
  have dev: "faithful_device dev target" using assms(1) by (rule faithful_device.intro)
  note exact = faithful_device.decode_loop_exact [OF dev loop assms(2,3)]
  obtain ms w2 where ms: "h_elapsed host w' = (ms, w2)" by fastforce
  show ?thesis
    using exact loop ms
    by (cases "runner_ok st") (auto simp: decode_def Let_def)
qed

lemma example_in_step: "in_step [1, 1, 1] example_control (sv_transaction example_service)"
  by (simp add: in_step_def example_control_def example_service_def)

theorem decode_lossless_witness:
  "\<exists>st c' sv' w'. decode example_device example_host example_options 7 example_control example_service () =
      Some (st, c', sv', w') \<and>
    greedy_continuation example_target example_options [1, 1, 1] [5] (gc_generated_token_ids c') \<and>
    (runner_ok st \<longrightarrow> in_step [1, 1, 1] c' (sv_transaction sv') \<and> stopped_for example_options example_control c')"
  using decode_lossless [of example_device example_target "[1, 1, 1]" example_control example_service example_options 7
      example_host "()"] example_in_step
  by (simp add: ideal_device_def example_control_def initial_control_def example_options_def)

text \<open>
  C9. A round that does not end well either was refused before it touched anything, or has aborted:
  the transaction and the draft are poisoned, no round is active, and no later round can begin.
\<close>

theorem round_failure_poisons:
  assumes "run_round opt (transaction_backend dev) obs has_context t ob = (r, t', ob')" "\<not> round_ok r"
  shows "status r = kInvalidOptions \<and> t' = t \<and> ob' = ob \<or>
    status r \<in> {kBackendFailure, kInvalidPrediction} \<and> tx_poisoned t' \<and> dr_poisoned (tx_draft t') \<and>
    \<not> tx_active t' \<and> (\<forall>rows. tx_begin dev rows t' = (False, t'))"
  using assms(1)
proof (cases rule: run_round_cases)
  case invalid
  then show ?thesis by (simp add: initial_result_def)
next
  case (failed st r0 s0)
  with abort_poisons [OF failed(1)] show ?thesis by (simp add: poisoned_begin)
next
  case (loop maximum s1 draft count stopped s2 predictions s3 complete r1 s4 ob1)
  have "\<exists>s0. fail_round (transaction_backend dev) kBackendFailure r1 s0 ob1 = (r, t', ob')"
  proof (cases complete)
    case True
    have "round_ok r1" using loop(8) True by (intro round_loop_ok [OF _ le0]) simp
    with assms(2) loop(9) True show ?thesis by (auto split: prod.splits if_splits)
  qed (use loop(9) in auto)
  then obtain s0 where "fail_round (transaction_backend dev) kBackendFailure r1 s0 ob1 = (r, t', ob')" ..
  from abort_poisons [OF this] show ?thesis by (simp add: poisoned_begin)
qed

definition broken_device :: "unit device" where
  "broken_device = (ideal_device example_target (\<lambda>t. (t + 1, False)))\<lparr>dv_sync := (\<lambda>w. (False, w))\<rparr>"

lemma broken_round:
  "\<not> round_ok (fst (run_round (decode_round_options 3 example_options example_control (idle_transaction [1, 1, 1] 64))
     (transaction_backend broken_device) None False (idle_transaction [1, 1, 1] 64) ()))"
  by (simp add: run_round_def decode_round_options_def example_options_def example_control_def initial_control_def
      invalid_options_def output_tail_budget_def kReferenceVocabularySize_def idle_transaction_def transaction_backend_def
      tx_begin_def tx_snapshot_def tx_sync_def broken_device_def ideal_device_def fail_round_def tx_abort_def
      draft_poison_def round_ok_def Let_def)

theorem round_failure_poisons_witness:
  "let (r, t, ob) = run_round (decode_round_options 3 example_options example_control (idle_transaction [1, 1, 1] 64))
     (transaction_backend broken_device) None False (idle_transaction [1, 1, 1] 64) ()
   in \<not> round_ok r \<and> (status r = kInvalidOptions \<and> t = idle_transaction [1, 1, 1] 64 \<and> ob = () \<or>
    status r \<in> {kBackendFailure, kInvalidPrediction} \<and> tx_poisoned t \<and> dr_poisoned (tx_draft t) \<and>
    \<not> tx_active t \<and> (\<forall>rows. tx_begin broken_device rows t = (False, t)))"
  using broken_round round_failure_poisons [of "decode_round_options 3 example_options example_control (idle_transaction [1, 1, 1] 64)"
      broken_device None False "idle_transaction [1, 1, 1] 64" "()"]
  by (auto simp del: insert_iff split: prod.split)

end
