(* ===== verification/Mtp_Progress.thy ===== *)
theory Mtp_Progress
  imports Mtp_Service
begin

text \<open>
  The guards of the transaction never refuse a round that the service starts. On a device that
  does not fail, every stage of a round succeeds from the state the previous one leaves, so the
  decode loop always ends well.
\<close>

locale healthy_device = faithful_device +
  assumes target_total: "\<exists>w'. dv_target dev xs w = (Some (target xs), w')"
    and target_small: "target xs < kMtpVocabulary"
    and draft_total: "\<exists>p low w'. dv_draft dev token confidence w = (Some (p, low), w') \<and> p < kMtpVocabulary"
    and sync_total: "\<exists>w'. dv_sync dev w = (True, w')"

subsection \<open>The stages of a round\<close>

definition round_frame :: "'d transaction \<Rightarrow> bool" where
  "round_frame t \<longleftrightarrow> tx_active t \<and> \<not> tx_poisoned t \<and> \<not> tx_prefill_active t \<and> \<not> dr_poisoned (tx_draft t) \<and>
     dr_capacity (tx_draft t) = tx_capacity t \<and> 1 \<le> tx_entry_position t \<and> 1 \<le> tx_rows t \<and> tx_rows t \<le> 4 \<and>
     tx_entry_position t + tx_rows t \<le> tx_capacity t"

definition tx_ready :: "'d transaction \<Rightarrow> bool" where
  "tx_ready t \<longleftrightarrow> tx_inv t \<and> \<not> tx_active t \<and> \<not> tx_poisoned t \<and> \<not> tx_prefill_active t \<and> \<not> dr_poisoned (tx_draft t) \<and>
     dr_capacity (tx_draft t) = tx_capacity t \<and> dr_position (tx_draft t) + 1 = tx_position t"

definition drafting :: "nat \<Rightarrow> nat \<Rightarrow> 'd transaction \<Rightarrow> bool" where
  "drafting seed i t \<longleftrightarrow> round_frame t \<and> \<not> tx_verified t \<and> tx_committed t = 0 \<and> tx_prepared_tail_rows t = 0 \<and>
     dr_prepared_rows (tx_draft t) = 0 \<and> dr_position (tx_draft t) + 1 = tx_entry_position t + i \<and>
     tx_position t = tx_entry_position t \<and> (tx_seed_cache_valid t \<longleftrightarrow> 0 < i) \<and> (0 < i \<longrightarrow> tx_cached_seed t = seed)"

lemma drafting_frame:
  "drafting seed i t \<Longrightarrow> round_frame t \<and> \<not> tx_verified t \<and> tx_active t"
  by (simp add: drafting_def round_frame_def)

text \<open>What a bounded proposal that started at index \<open>i\<close> with \<open>n\<close> steps left has produced.\<close>

definition prefix_ok :: "nat \<Rightarrow> nat \<Rightarrow> nat \<Rightarrow> nat \<Rightarrow> nat list \<Rightarrow> nat \<Rightarrow> bool \<Rightarrow> 'd transaction \<Rightarrow> bool" where
  "prefix_ok seed stop i n draft actual stopped t \<longleftrightarrow>
     (\<exists>j\<ge>i. drafting seed j t \<and> (0 < n \<longrightarrow> i < j)) \<and> i \<le> actual \<and> actual \<le> i + n \<and>
     (\<forall>k<actual. draft ! k < kMtpVocabulary) \<and> (0 < n \<longrightarrow> \<not> stopped \<longrightarrow> i < actual) \<and>
     (stopped \<longrightarrow> actual < i + n \<and> draft ! actual = stop)"

lemma prefix_ok_Suc: "prefix_ok seed stop (Suc i) n d a s t \<Longrightarrow> prefix_ok seed stop i (Suc n) d a s t"
  unfolding prefix_ok_def by (metis Suc_le_eq add_Suc_shift less_imp_le less_le_trans order_trans zero_less_Suc)

lemma draft_frame_geometry:
  assumes "draft_frame t t'"
  shows "tx_rows t' = tx_rows t" "tx_capacity t' = tx_capacity t" "tx_entry_position t' = tx_entry_position t"
    "tx_multirow t' = tx_multirow t"
  by (subst assms [unfolded draft_frame_def], simp)+

context healthy_device
begin

lemma tx_sync_total: "\<exists>w. tx_sync dev t = (True, t\<lparr>tx_device := w\<rparr>)"
  using sync_total [of "tx_device t"] by (auto simp: tx_sync_def)

lemma begin_progress:
  assumes "tx_ready t" "1 \<le> rows" "rows \<le> 4" "tx_position t + rows \<le> tx_capacity t"
  shows "\<exists>t'. tx_begin dev rows t = (True, t') \<and> drafting seed 0 t' \<and> tx_rows t' = rows \<and>
    tx_entry_position t' = tx_position t \<and> tx_capacity t' = tx_capacity t"
proof -
  let ?t = "t\<lparr>tx_active := True, tx_seed_cache_valid := False, tx_verified := False,
      tx_committed := 0, tx_prepared_tail_rows := 0, tx_draft := discard_prepared_kv (tx_draft t),
      tx_entry_position := tx_position t, tx_rows := rows, tx_request_reuse_boundary := 2,
      tx_committed_request_positions := 0\<rparr>"
  obtain w where w: "tx_sync dev ?t = (True, ?t\<lparr>tx_device := w\<rparr>)" using tx_sync_total by blast
  have guard: "\<not> (tx_active t \<or> tx_poisoned t \<or> tx_prefill_active t \<or> rows < 1 \<or> rows > 4 \<or> tx_position t = 0 \<or>
      dr_position (tx_draft t) + 1 \<noteq> tx_position t \<or> rows > tx_capacity t - tx_position t)"
    using assms by (auto simp: tx_ready_def)
  show ?thesis
    unfolding tx_begin_def if_not_P [OF guard] tx_snapshot_def w Let_def
    using assms by (auto simp: tx_ready_def drafting_def round_frame_def discard_prepared_kv_def)
qed

lemma draft_step_progress:
  assumes "drafting seed i t" "(if i = 0 then seed else draft ! (i - 1)) < kMtpVocabulary" "i + 1 < tx_rows t + 1"
  shows "\<exists>p low t'. tx_draft_step dev seed i draft confidence t = (Some (p, low), t') \<and> p < kMtpVocabulary \<and>
    drafting seed (i + 1) t'"
proof -
  obtain p low w where d: "dv_draft dev (if i = 0 then seed else draft ! (i - 1)) confidence (tx_device t) = (Some (p, low), w)"
    "p < kMtpVocabulary" using draft_total by metis
  have "\<not> dr_poisoned (tx_draft t)" "dr_position (tx_draft t) < dr_capacity (tx_draft t)"
    using assms by (auto simp: drafting_def round_frame_def)
  then have step: "draft_step dev (if i = 0 then seed else draft ! (i - 1)) confidence (tx_draft t) (tx_device t) =
      (Some (p, confidence \<and> low), (discard_prepared_kv (tx_draft t))\<lparr>dr_position := dr_position (tx_draft t) + 1\<rparr>, w)"
    using d assms(2) by (simp add: draft_step_def)
  show ?thesis
    unfolding tx_draft_step_def step Let_def prod.case option.case
    using assms d(2) by (auto simp: drafting_def round_frame_def discard_prepared_kv_def)
qed

lemma prefix_loop_progress:
  assumes "drafting seed i t" "seed < kMtpVocabulary" "i + n \<le> 3" "length draft = 3" "\<forall>k<i. draft ! k < kMtpVocabulary"
    "i + n + 1 = tx_rows t"
  shows "\<exists>draft' actual stopped t'. tx_prefix_loop dev seed eos stop i n draft i t = (True, draft', actual, stopped, t') \<and>
    prefix_ok seed stop i n draft' actual stopped t'"
  using assms
proof (induction n arbitrary: i draft t)
  case 0
  then show ?case by (auto simp: prefix_ok_def)
next
  case (Suc n)
  have "(if i = 0 then seed else draft ! (i - 1)) < kMtpVocabulary" using Suc.prems by auto
  then obtain p low u where step: "tx_draft_step dev seed i draft (n \<noteq> 0) t = (Some (p, low), u)"
    and p: "p < kMtpVocabulary" and u: "drafting seed (Suc i) u"
    using draft_step_progress [OF Suc.prems(1), of draft "n \<noteq> 0"] Suc.prems(6) by auto
  have small: "\<forall>k<Suc i. draft[i := p] ! k < kMtpVocabulary" using p Suc.prems by (auto simp: less_Suc_eq nth_list_update)
  consider (eos) "eos" "p = stop" | (low) "\<not> (eos \<and> p = stop)" "low" | (more) "\<not> (eos \<and> p = stop)" "\<not> low" by blast
  then show ?case
  proof cases
    case eos
    have "prefix_ok seed stop i (Suc n) (draft[i := p]) i True u"
      using u small eos Suc.prems unfolding prefix_ok_def by (auto intro!: exI [of _ "Suc i"])
    with step eos show ?thesis by (auto intro: exI [of _ True])
  next
    case low
    have "prefix_ok seed stop i (Suc n) (draft[i := p]) (Suc i) False u"
      using u small unfolding prefix_ok_def by (auto intro!: exI [of _ "Suc i"])
    with step low show ?thesis by auto
  next
    case more
    have rows: "Suc i + n + 1 = tx_rows u" using Suc.prems(6) draft_frame_geometry(1) [OF draft_frame_step [OF step]] by simp
    obtain draft' actual stopped t' where loop:
      "tx_prefix_loop dev seed eos stop (Suc i) n (draft[i := p]) (Suc i) u = (True, draft', actual, stopped, t')"
      "prefix_ok seed stop (Suc i) n draft' actual stopped t'"
      using Suc.IH [OF u Suc.prems(2) _ _ small rows] Suc.prems(3,4) by auto
    have "tx_prefix_loop dev seed eos stop i (Suc n) draft i t = (True, draft', actual, stopped, t')"
      using step more loop(1) by auto
    with prefix_ok_Suc [OF loop(2)] show ?thesis by blast
  qed
qed

lemma propose_progress:
  assumes "drafting seed 0 t" "seed < kMtpVocabulary" "tx_rows t = n + 1" "0 < n"
  shows "\<exists>draft actual stopped t' j. tx_propose_eos_bounded dev seed n stop (replicate 3 0) t = (True, draft, actual, stopped, t') \<and>
    drafting seed j t' \<and> 0 < j \<and> tx_rows t' = actual + 1 \<and> actual \<le> n \<and> (\<forall>k<actual. draft ! k < kMtpVocabulary) \<and>
    length draft = 3 \<and> (\<not> stopped \<longrightarrow> 0 < actual) \<and> (stopped \<longrightarrow> actual < n \<and> draft ! actual = stop) \<and>
    tx_capacity t' = tx_capacity t \<and> tx_entry_position t' = tx_entry_position t \<and> tx_multirow t' = tx_multirow t"
proof -
  have guard: "\<not> (\<not> tx_active t \<or> tx_verified t \<or> n = 0 \<or> n + 1 \<noteq> tx_rows t \<or> dr_position (tx_draft t) + 1 \<noteq> tx_entry_position t)"
    using assms by (auto simp: drafting_def round_frame_def)
  have "n \<le> 3" using assms(1,3) by (simp add: drafting_def round_frame_def)
  then obtain draft actual stopped u where loop:
    "tx_prefix_loop dev seed True stop 0 n (replicate 3 0) 0 t = (True, draft, actual, stopped, u)"
    "prefix_ok seed stop 0 n draft actual stopped u"
    using prefix_loop_progress [OF assms(1,2), of n "replicate 3 0" True stop] assms(3) by auto
  have f: "draft_frame t u" "length draft = 3" using draft_frame_prefix [OF loop(1)] by simp_all
  obtain j where j: "drafting seed j u" "0 < j" "actual \<le> n" using loop(2) assms(4) by (auto simp: prefix_ok_def)
  have "drafting seed j (u\<lparr>tx_rows := actual + 1\<rparr>)"
    using j draft_frame_geometry(1) [OF f(1)] assms(3) by (auto simp: drafting_def round_frame_def)
  then show ?thesis
    unfolding tx_propose_eos_bounded_def tx_propose_prefix_def if_not_P [OF guard] loop(1) Let_def prod.case
    using j loop(2) f draft_frame_geometry [OF f(1)] assms(4)
    by (intro exI [of _ draft] exI [of _ actual] exI [of _ stopped] exI [of _ "u\<lparr>tx_rows := actual + 1\<rparr>"] exI [of _ j])
       (auto simp: prefix_ok_def)
qed

subsection \<open>Verification succeeds\<close>

end

text \<open>
  The state after verification and \<open>k\<close> commits. The draft cache has one row per committed token, from
  the seed cache, the prepared tail or a fresh append. A prepared tail is there only from commit
  \<open>low\<close> on: 2 between commits, 1 within the second commit.
\<close>

definition committing :: "nat \<Rightarrow> nat list \<Rightarrow> nat \<Rightarrow> 'd transaction \<Rightarrow> bool" where
  "committing low ps k t \<longleftrightarrow> round_frame t \<and> tx_verified t \<and> tx_committed t = k \<and> k \<le> tx_rows t \<and>
     length (tx_inputs t) = 4 \<and> (\<forall>i<tx_rows t. tx_inputs t ! i < kMtpVocabulary) \<and>
     (\<forall>i<tx_rows t. tx_predictions t ! i = ps ! i) \<and>
     (if k = 0 then dr_position (tx_draft t) + (if tx_seed_cache_valid t then 0 else 1) = tx_entry_position t
      else dr_position (tx_draft t) + 1 = tx_entry_position t + k) \<and>
     (0 < k \<longrightarrow> tx_position t = tx_entry_position t + k) \<and>
     (if tx_prepared_tail_rows t = 0 then dr_prepared_rows (tx_draft t) = 0
      else low \<le> k \<and> dr_prepared_rows (tx_draft t) = tx_valid_rows t 1 - 1 \<and>
        dr_prepared_begin (tx_draft t) = tx_entry_position t \<and> dr_prepared_committed (tx_draft t) + 1 = k)"

lemma tx_valid_rows_cong:
  "tx_rows u = tx_rows t \<Longrightarrow> tx_inputs u = tx_inputs t \<Longrightarrow> tx_predictions u = tx_predictions t \<Longrightarrow>
   tx_valid_rows u n = tx_valid_rows t n"
proof (induction t n rule: tx_valid_rows.induct)
  case (1 t n)
  show ?case by (subst (1 2) tx_valid_rows.simps) (use 1 in auto)
qed

lemma tx_valid_rows_ge:
  assumes "\<forall>m. n \<le> m \<longrightarrow> m < k \<longrightarrow> tx_inputs t ! m = tx_predictions t ! (m - 1)" "k \<le> tx_rows t" "n \<le> k"
  shows "k \<le> tx_valid_rows t n"
  using assms
proof (induction t n rule: tx_valid_rows.induct)
  case (1 t n)
  show ?case
  proof (cases "n = k")
    case True
    have "n \<le> tx_valid_rows t n" for n
      by (induction t n rule: tx_valid_rows.induct) (subst tx_valid_rows.simps, auto)
    with True show ?thesis by simp
  next
    case False
    then show ?thesis using 1 by (subst tx_valid_rows.simps) auto
  qed
qed

lemma tx_valid_rows_le: "n \<le> tx_rows t \<Longrightarrow> tx_valid_rows t n \<le> tx_rows t"
  by (induction t n rule: tx_valid_rows.induct) (subst tx_valid_rows.simps, auto)

context healthy_device
begin

lemma device_rows_total:
  "\<exists>ps w'. device_rows dev xs ys w = (Some ps, w') \<and> length ps = length ys \<and> (\<forall>p\<in>set ps. p < kMtpVocabulary)"
proof (induction ys arbitrary: xs w)
  case (Cons y ys)
  obtain w1 where 1: "dv_target dev (xs @ [y]) w = (Some (target (xs @ [y])), w1)" using target_total by blast
  obtain ps w2 where "device_rows dev (xs @ [y]) ys w1 = (Some ps, w2)" "length ps = length ys" "\<forall>p\<in>set ps. p < kMtpVocabulary"
    using Cons.IH by blast
  with 1 target_small show ?case by simp
qed simp

lemma verify_rows_total:
  "length (tx_predictions t) = 4 \<Longrightarrow> length ps = 4 \<Longrightarrow> i + n \<le> 4 \<Longrightarrow> \<forall>k<i. tx_predictions t ! k = ps ! k \<Longrightarrow>
   \<exists>ps' t'. tx_verify_rows dev i n ps t = (True, ps', t') \<and> verify_frame t t' \<and> length ps' = 4 \<and>
     (\<forall>k<i + n. tx_predictions t' ! k = ps' ! k)"
proof (induction n arbitrary: i ps t)
  case 0
  then show ?case by (simp add: verify_frame_def)
next
  case (Suc n)
  obtain w1 where 1: "dv_target dev (tx_tokens t @ [tx_inputs t ! i]) (tx_device t) =
    (Some (target (tx_tokens t @ [tx_inputs t ! i])), w1)" using target_total by blast
  let ?p = "target (tx_tokens t @ [tx_inputs t ! i])"
  let ?t1 = "t\<lparr>tx_device := w1, tx_tokens := tx_tokens t @ [tx_inputs t ! i], tx_position := tx_position t + 1\<rparr>"
  have r: "tx_runner_step dev (tx_inputs t ! i) t = (Some ?p, ?t1)" using 1 by (simp add: tx_runner_step_def)
  obtain w2 where "tx_sync dev ?t1 = (True, ?t1\<lparr>tx_device := w2\<rparr>)" using tx_sync_total by blast
  then have s: "tx_snapshot dev (i + 1) ?t1 = (True, ?t1\<lparr>tx_device := w2, tx_slots := (tx_slots t)[i + 1 := tx_tokens t @ [tx_inputs t ! i]]\<rparr>)"
    (is "_ = (True, ?t2)") by (simp add: tx_snapshot_def)
  let ?t3 = "?t2\<lparr>tx_predictions := (tx_predictions t)[i := ?p],
    tx_scalar_verify_rows := tx_scalar_verify_rows t + (if tx_multirow t then 1 else 0)\<rparr>"
  have eq: "tx_verify_rows dev i (Suc n) ps t = tx_verify_rows dev (i + 1) n (ps[i := ?p]) ?t3"
    using r s by simp
  have "\<exists>ps' t'. tx_verify_rows dev (i + 1) n (ps[i := ?p]) ?t3 = (True, ps', t') \<and> verify_frame ?t3 t' \<and> length ps' = 4 \<and>
     (\<forall>k<i + 1 + n. tx_predictions t' ! k = ps' ! k)"
    using Suc.prems by (intro Suc.IH) (auto simp: less_Suc_eq nth_list_update)
  moreover have "verify_frame t ?t3" by (simp add: verify_frame_def)
  ultimately show ?case unfolding eq using verify_frame_trans by fastforce
qed

lemma verify_any_total:
  assumes "length (tx_predictions t) = 4" "length (tx_inputs t) = 4" "1 \<le> tx_rows t" "tx_rows t \<le> 4" "tx_active t" "\<not> tx_verified t"
    "tx_position t = tx_entry_position t" "tx_entry_position t + tx_rows t \<le> tx_capacity t"
    "\<forall>i<tx_rows t. tx_inputs t ! i < kMtpVocabulary"
  shows "\<exists>ps t'. (if tx_multirow t \<and> tx_rows t > 1 then tx_verify_multirow dev (replicate 4 0) t
      else tx_verify_rows dev 0 (tx_rows t) (replicate 4 0) t) = (True, ps, t') \<and> verify_frame t t' \<and>
     (\<forall>k<tx_rows t. tx_predictions t' ! k = ps ! k)"
proof (cases "tx_multirow t \<and> tx_rows t > 1")
  case True
  let ?in = "take (tx_rows t) (tx_inputs t)"
  have len: "length ?in = tx_rows t" using assms(2,4) by simp
  have small: "\<not> list_ex (\<lambda>x. x \<ge> kMtpVocabulary) ?in"
    using assms(9) len by (auto simp: list_ex_iff in_set_conv_nth not_le)
  obtain ps w where rows: "device_rows dev (tx_tokens t) ?in (tx_device t) = (Some ps, w)" and ps: "length ps = tx_rows t"
    "\<not> list_ex (\<lambda>p. p \<ge> kMtpVocabulary) ps"
    using device_rows_total [of "tx_tokens t" ?in "tx_device t"] len by (auto simp: list_ex_iff not_le)
  show ?thesis
    unfolding if_P [OF True] using assms small rows ps
    by (auto simp: tx_verify_multirow_def Let_def verify_frame_def nth_append)
next
  case False
  show ?thesis
    unfolding if_not_P [OF False] using verify_rows_total [of t "replicate 4 0" 0 "tx_rows t"] assms by auto
qed

lemma verify_progress:
  assumes "drafting seed j t" "tx_inv t" "tx_rows t = n + 1" "length d = 3" "\<forall>k<n. d ! k < kMtpVocabulary" "seed < kMtpVocabulary"
  shows "\<exists>ps t'. tx_verify dev seed d n (replicate 4 0) t = (True, ps, t') \<and> committing 2 ps 0 t' \<and>
    (\<forall>i\<le>n. ps ! i < kMtpVocabulary) \<and> (\<forall>i<n. tx_inputs t' ! Suc i = d ! i) \<and> tx_rows t' = n + 1 \<and>
    tx_entry_position t' = tx_entry_position t \<and> tx_capacity t' = tx_capacity t"
proof -
  let ?in = "(seed # take n d) @ drop (n + 1) (tx_inputs t)"
  let ?t0 = "t\<lparr>tx_inputs := ?in\<rparr>"
  have frame: "round_frame t" "\<not> tx_verified t" "tx_active t" using drafting_frame [OF assms(1)] by simp_all
  have n: "n \<le> 3" using frame(1) assms(3) by (simp add: round_frame_def)
  have inv: "length (tx_inputs t) = 4" "length (tx_predictions t) = 4" using assms(2) by (simp_all add: tx_inv_def)
  have len: "length ?in = 4" using inv n assms(4) by simp
  have small: "\<forall>i<n + 1. ?in ! i < kMtpVocabulary"
    using assms(4-6) n by (auto simp: nth_append nth_Cons split: nat.splits)
  have nth: "\<forall>i<n. ?in ! Suc i = d ! i" using assms(4) n by (simp add: nth_append)
  have rows0: "tx_rows ?t0 = n + 1" using assms(3) by simp
  have "\<exists>ps t1. (if tx_multirow ?t0 \<and> tx_rows ?t0 > 1 then tx_verify_multirow dev (replicate 4 0) ?t0
      else tx_verify_rows dev 0 (tx_rows ?t0) (replicate 4 0) ?t0) = (True, ps, t1) \<and> verify_frame ?t0 t1 \<and>
     (\<forall>k<tx_rows ?t0. tx_predictions t1 ! k = ps ! k)"
    using assms(1,3) frame inv len small by (intro verify_any_total) (auto simp: drafting_def round_frame_def)
  then obtain ps t1 where verify: "(if tx_multirow ?t0 \<and> n + 1 > 1 then tx_verify_multirow dev (replicate 4 0) ?t0
      else tx_verify_rows dev 0 (n + 1) (replicate 4 0) ?t0) = (True, ps, t1)" and f: "verify_frame ?t0 t1"
    and preds: "\<forall>k<n + 1. tx_predictions t1 ! k = ps ! k"
    unfolding rows0 by (elim exE conjE)
  have t1: "t1 = ?t0\<lparr>tx_device := tx_device t1, tx_tokens := tx_tokens t1, tx_position := tx_position t1,
     tx_slots := tx_slots t1, tx_predictions := tx_predictions t1, tx_scalar_verify_rows := tx_scalar_verify_rows t1,
     tx_direct_gdn_rows := tx_direct_gdn_rows t1\<rparr>"
    using f by (simp add: verify_frame_def)
  have keep: "tx_draft t1 = tx_draft t" "tx_seed_cache_valid t1 = tx_seed_cache_valid t" "tx_cached_seed t1 = tx_cached_seed t"
    "tx_entry_position t1 = tx_entry_position t" "tx_inputs t1 = ?in" "tx_rows t1 = n + 1" "tx_committed t1 = 0"
    "tx_prepared_tail_rows t1 = 0" "tx_capacity t1 = tx_capacity t" "tx_active t1" "\<not> tx_poisoned t1" "\<not> tx_prefill_active t1"
    using assms(1,3) by (subst t1, simp add: drafting_def round_frame_def)+
  let ?valid = "tx_seed_cache_valid t1 \<and> tx_cached_seed t1 = seed"
  let ?pos = "tx_entry_position t1 - (if ?valid then 0 else 1)"
  have valid: "?valid \<longleftrightarrow> 0 < j" using assms(1) keep by (auto simp: drafting_def)
  have rewind: "draft_rewind ?pos (tx_draft t1) = (True, (discard_prepared_kv (tx_draft t))\<lparr>dr_position := ?pos\<rparr>)"
    using assms(1) unfolding valid keep draft_rewind_def by (auto simp: drafting_def round_frame_def)
  let ?t' = "t1\<lparr>tx_seed_cache_valid := ?valid, tx_draft := (discard_prepared_kv (tx_draft t))\<lparr>dr_position := ?pos\<rparr>,
    tx_verified := True\<rparr>"
  have guard: "\<not> (\<not> tx_active t \<or> tx_verified t \<or> n + 1 \<noteq> tx_rows t)" using frame assms(3) by simp
  have run: "tx_verify dev seed d n (replicate 4 0) t = (True, ps, ?t')"
    unfolding tx_verify_def if_not_P [OF guard] Let_def rows0 verify prod.case using rewind by simp
  have "tx_history t = tx_base t" using frame assms(1) by (simp add: tx_history_def drafting_def)
  from tx_verify_law [OF assms(2) this _ _ run] n assms(4)
  have target: "\<forall>i\<le>n. ps ! i < kMtpVocabulary" using target_small by (simp add: kMaximumVerifyRows_def)
  have "committing 2 ps 0 ?t'"
    using assms(1,3) keep small len preds frame(1) valid
    by (auto simp: committing_def round_frame_def discard_prepared_kv_def drafting_def)
  with run target nth keep show ?thesis by auto
qed

subsection \<open>Commits succeed\<close>

lemma append_progress:
  assumes "\<not> dr_poisoned d" "token < kMtpVocabulary" "dr_position d < dr_capacity d"
  shows "\<exists>w'. draft_append_kv dev token d w = (True, (discard_prepared_kv d)\<lparr>dr_position := dr_position d + 1\<rparr>, w')"
  using assms sync_total [of w] by (auto simp: draft_append_kv_def)

lemma prepare_progress:
  assumes "committing 2 ps k t" "k < tx_rows t"
  shows "\<exists>u. tx_prepare_tail dev (k + 1) t = (True, u) \<and> committing 1 ps k u"
proof (cases "tx_multirow t \<and> k = 1 \<and> tx_valid_rows t 1 - 1 \<ge> 2")
  case True
  let ?tail = "tx_valid_rows t 1 - 1" and ?d = "tx_draft t"
  have tail: "?tail + 1 \<le> tx_rows t" using tx_valid_rows_le [of 1 t] assms(1) True by (auto simp: committing_def)
  have in4: "length (tx_inputs t) = 4" "tx_rows t \<le> 4" using assms(1) by (auto simp: committing_def round_frame_def)
  have tokens: "length (take ?tail (drop 1 (tx_inputs t))) = ?tail" using in4 tail by simp
  have small: "\<not> list_ex (\<lambda>t. t \<ge> kMtpVocabulary) (take ?tail (drop 1 (tx_inputs t)))"
    using assms(1) in4 tail by (auto simp: list_ex_iff in_set_conv_nth not_le committing_def)
  have k: "k = 1" using True by simp
  have d: "\<not> dr_poisoned ?d" "dr_prepared_rows ?d = 0" "dr_position ?d = tx_entry_position t"
    "?tail \<le> dr_capacity ?d - dr_position ?d" "tx_prepared_tail_rows t = 0"
    using assms(1) tail unfolding committing_def round_frame_def k by (auto split: if_splits)
  obtain w where "dv_sync dev (tx_device t) = (True, w)" using sync_total by blast
  then have prep: "draft_prepare_kv_prefix dev (take ?tail (drop 1 (tx_inputs t))) ?d (tx_device t) =
      (True, ?d\<lparr>dr_prepared_begin := dr_position ?d, dr_prepared_rows := ?tail, dr_prepared_committed := 0\<rparr>, w)"
    unfolding draft_prepare_kv_prefix_def tokens Let_def using small d True tail in4 by auto
  let ?u = "t\<lparr>tx_draft := ?d\<lparr>dr_prepared_begin := dr_position ?d, dr_prepared_rows := ?tail, dr_prepared_committed := 0\<rparr>,
    tx_device := w, tx_prepared_tail_rows := ?tail, tx_tail_kv_batches := tx_tail_kv_batches t + 1,
    tx_tail_kv_rows := tx_tail_kv_rows t + ?tail\<rparr>"
  have "tx_valid_rows ?u 1 = tx_valid_rows t 1" by (rule tx_valid_rows_cong) simp_all
  then have "committing 1 ps k ?u" using assms(1) True d(3) by (auto simp: committing_def round_frame_def)
  moreover have "tx_prepare_tail dev (k + 1) t = (True, ?u)" using True prep k by (auto simp: tx_prepare_tail_def Let_def)
  ultimately show ?thesis by blast
next
  case False
  then have "tx_prepare_tail dev (k + 1) t = (True, t)" by (auto simp: tx_prepare_tail_def Let_def)
  moreover have "committing 1 ps k t" using assms(1) by (auto simp: committing_def split: if_splits)
  ultimately show ?thesis by blast
qed

lemma commit_draft_progress:
  assumes t: "committing 1 ps k t" "k < tx_rows t"
    and chain: "\<forall>m. 1 \<le> m \<longrightarrow> m \<le> k \<longrightarrow> tx_inputs t ! m = ps ! (m - 1)"
  shows "\<exists>t'. tx_commit_draft dev (k + 1) t = (True, t') \<and> \<not> dr_poisoned (tx_draft t') \<and>
    dr_capacity (tx_draft t') = tx_capacity t \<and> dr_position (tx_draft t') = tx_entry_position t + k \<and>
    (if tx_prepared_tail_rows t = 0 then dr_prepared_rows (tx_draft t') = 0
     else dr_prepared_rows (tx_draft t') = tx_valid_rows t 1 - 1 \<and> dr_prepared_begin (tx_draft t') = tx_entry_position t \<and>
       dr_prepared_committed (tx_draft t') = k)"
proof -
  have frame: "round_frame t" using t by (simp add: committing_def)
  consider (seed) "k = 0" "tx_seed_cache_valid t" | (tail) "\<not> (k = 0 \<and> tx_seed_cache_valid t)" "tx_prepared_tail_rows t \<noteq> 0"
    | (fresh) "\<not> (k = 0 \<and> tx_seed_cache_valid t)" "tx_prepared_tail_rows t = 0" by blast
  then show ?thesis
  proof cases
    case seed
    with t frame show ?thesis by (auto simp: tx_commit_draft_def committing_def round_frame_def split: if_splits)
  next
    case tail
    have "k + 1 \<le> tx_valid_rows t 1"
      using t chain by (intro tx_valid_rows_ge) (auto simp: committing_def)
    with tail t frame show ?thesis
      by (auto simp: tx_commit_draft_def draft_commit_prepared_kv_def committing_def round_frame_def split: if_splits)
  next
    case fresh
    have "\<not> dr_poisoned (tx_draft t)" "tx_inputs t ! k < kMtpVocabulary" "dr_position (tx_draft t) < dr_capacity (tx_draft t)"
      using t frame fresh by (auto simp: committing_def round_frame_def split: if_splits)
    then obtain w where "draft_append_kv dev (tx_inputs t ! k) (tx_draft t) (tx_device t) =
        (True, (discard_prepared_kv (tx_draft t))\<lparr>dr_position := dr_position (tx_draft t) + 1\<rparr>, w)"
      using append_progress by blast
    with fresh t frame show ?thesis
      by (auto simp: tx_commit_draft_def committing_def round_frame_def discard_prepared_kv_def Let_def split: if_splits)
  qed
qed

lemma commit_progress:
  assumes t: "committing 2 ps k t" "k < tx_rows t"
    and chain: "\<forall>m. 1 \<le> m \<longrightarrow> m \<le> k \<longrightarrow> tx_inputs t ! m = ps ! (m - 1)"
  shows "\<exists>t'. tx_commit_prefix dev (k + 1) (ps ! k) t = (True, t') \<and> committing 2 ps (k + 1) t' \<and>
    tx_inputs t' = tx_inputs t \<and> tx_rows t' = tx_rows t \<and> tx_entry_position t' = tx_entry_position t \<and>
    tx_capacity t' = tx_capacity t"
proof -
  have last: "k = 0 \<or> tx_inputs t ! k = ps ! (k - 1)" using chain [rule_format, of k] by (cases k) simp_all
  have guard: "\<not> (\<not> tx_active t \<or> \<not> tx_verified t \<or> k + 1 \<noteq> tx_committed t + 1 \<or> k + 1 > tx_rows t \<or>
      tx_predictions t ! (k + 1 - 1) \<noteq> ps ! k \<or>
      (k + 1 > 1 \<and> tx_inputs t ! (k + 1 - 1) \<noteq> tx_predictions t ! (k + 1 - 2)))"
    using t last by (auto simp: committing_def round_frame_def)
  obtain u where u: "tx_prepare_tail dev (k + 1) t = (True, u)" "committing 1 ps k u" using prepare_progress [OF t] by blast
  have fu: "tx_inputs u = tx_inputs t" "tx_rows u = tx_rows t" "tx_entry_position u = tx_entry_position t"
    "tx_capacity u = tx_capacity t" "tx_predictions u = tx_predictions t" "tx_active u = tx_active t"
    using tx_prepare_tail_frame [OF u(1)] by auto
  obtain w where w: "tx_sync dev u = (True, u\<lparr>tx_device := w\<rparr>)" using tx_sync_total by blast
  let ?v = "u\<lparr>tx_device := w, tx_tokens := tx_slots u ! (k + 1)\<rparr>"
  have same: "tx_valid_rows ?v 1 = tx_valid_rows u 1" by (rule tx_valid_rows_cong) simp_all
  have v: "committing 1 ps k ?v" using u(2) same by (auto simp: committing_def round_frame_def split: if_splits)
  obtain x where x: "tx_commit_draft dev (k + 1) ?v = (True, x)" and dr: "\<not> dr_poisoned (tx_draft x)"
    "dr_capacity (tx_draft x) = tx_capacity u" "dr_position (tx_draft x) = tx_entry_position u + k"
    "if tx_prepared_tail_rows u = 0 then dr_prepared_rows (tx_draft x) = 0
     else dr_prepared_rows (tx_draft x) = tx_valid_rows u 1 - 1 \<and> dr_prepared_begin (tx_draft x) = tx_entry_position u \<and>
       dr_prepared_committed (tx_draft x) = k"
    using commit_draft_progress [OF v] t chain fu same by auto
  obtain d' w' a b where x': "x = ?v\<lparr>tx_draft := d', tx_device := w', tx_seed_kv_reuses := a, tx_seed_cache_valid := b\<rparr>"
    using tx_commit_draft_frame [OF x] by blast
  have room: "\<not> tx_entry_position x + (k + 1) > tx_capacity x"
    using t fu unfolding x' by (auto simp: committing_def round_frame_def)
  let ?t' = "x\<lparr>tx_position := tx_entry_position x + (k + 1), tx_trace_valid := False,
              tx_retained_prefill_hidden_valid := False, tx_committed := k + 1\<rparr>"
  have run: "tx_commit_prefix dev (k + 1) (ps ! k) t = (True, ?t')"
    unfolding tx_commit_prefix_def if_not_P [OF guard] Let_def u(1) w prod.case using x room by simp
  have same': "tx_valid_rows ?t' 1 = tx_valid_rows u 1" by (rule tx_valid_rows_cong) (simp_all add: x')
  have "committing 2 ps (k + 1) ?t'"
    using u(2) dr t(2) fu same' unfolding committing_def round_frame_def x' by (auto split: if_splits)
  with run fu show ?thesis by (auto simp: x')
qed

lemma loop_progress:
  assumes "committing 2 ps i t" "i \<le> count" "tx_rows t = count + 1" "\<forall>m<count. tx_inputs t ! Suc m = draft ! m"
    "\<forall>m. 1 \<le> m \<longrightarrow> m \<le> i \<longrightarrow> tx_inputs t ! m = ps ! (m - 1)"
  shows "\<exists>r t' ob' n. round_loop opt (transaction_backend dev) obs draft ps count i res t ob = (True, r, t', ob') \<and>
    0 < n \<and> committing 2 ps n t' \<and> tx_capacity t' = tx_capacity t"
  using assms
proof (induction "count - i" arbitrary: i t res ob rule: less_induct)
  case less
  obtain t1 where c: "b_commit_prefix (transaction_backend dev) (i + 1) (ps ! i) t = (True, t1)" and t1: "committing 2 ps (i + 1) t1"
    "tx_inputs t1 = tx_inputs t" "tx_rows t1 = tx_rows t" "tx_capacity t1 = tx_capacity t"
    using commit_progress [OF less(2)] less(3-) by (auto simp: transaction_backend_def)
  obtain p ob1 where p: "(case obs of None \<Rightarrow> (True, ob) | Some f \<Rightarrow> f (ps ! i) t1 ob) = (p, ob1)" by fastforce
  let ?acc = "i < count \<and> draft ! i = ps ! i" and ?loop = "round_loop opt (transaction_backend dev) obs draft ps count"
  let ?r2 = "step_result opt i (ps ! i) ?acc p res"
  have eq: "?loop i res t ob =
      (if status ?r2 \<noteq> kContinue \<or> \<not> ?acc then (True, ?r2, t1, ob1) else ?loop (i + 1) ?r2 t1 ob1)"
    using round_loop_unfold [OF less(3) c p] by (simp only: Let_def if_False not_True_eq_False)
  show ?case
  proof (cases "status ?r2 \<noteq> kContinue \<or> \<not> ?acc")
    case True
    then show ?thesis unfolding eq if_P [OF True] using t1 by auto
  next
    case False
    have "\<exists>r t' ob' n. ?loop (i + 1) ?r2 t1 ob1 = (True, r, t', ob') \<and> 0 < n \<and> committing 2 ps n t' \<and> tx_capacity t' = tx_capacity t1"
    proof (rule less(1) [OF _ t1(1)])
      show "\<forall>m. 1 \<le> m \<longrightarrow> m \<le> i + 1 \<longrightarrow> tx_inputs t1 ! m = ps ! (m - 1)"
        using False less(5,6) t1(2) by (auto simp: le_Suc_eq)
    qed (use False less(4,5) t1 in auto)
    then show ?thesis unfolding eq if_not_P [OF False] using t1(4) by simp
  qed
qed

lemma finish_progress:
  assumes "committing 2 ps n t" "0 < n"
  shows "\<exists>t'. tx_finish t = (True, t') \<and> \<not> tx_active t' \<and> \<not> tx_poisoned t' \<and> \<not> tx_prefill_active t' \<and>
    \<not> dr_poisoned (tx_draft t') \<and> dr_capacity (tx_draft t') = tx_capacity t' \<and>
    dr_position (tx_draft t') + 1 = tx_position t' \<and> tx_capacity t' = tx_capacity t"
  using assms by (auto simp: tx_finish_def committing_def round_frame_def discard_prepared_kv_def)

text \<open>A round with valid options on a ready transaction ends well and leaves it ready.\<close>

lemma round_progress:
  assumes ready: "tx_ready t" and valid: "\<not> invalid_options opt (obs \<noteq> None) has_context"
    and opt: "vocabulary_size opt = kMtpVocabulary" "eos_frontier opt" "tx_position t + remaining_output opt \<le> tx_capacity t"
    and run: "run_round opt (transaction_backend dev) obs has_context t ob = (r, t', ob')"
  shows "round_ok r \<and> tx_ready t' \<and> tx_capacity t' = tx_capacity t"
proof -
  let ?b = "transaction_backend dev"
  define maximum where "maximum = min (draft_length opt) (remaining_output opt - 1)"
  have max: "maximum \<le> 3" "maximum + 1 \<le> remaining_output opt" and seed: "seed_token opt < kMtpVocabulary"
    using valid opt(1) by (auto simp: invalid_options_def maximum_def)
  obtain t1 where t1: "tx_begin dev (maximum + 1) t = (True, t1)" "drafting (seed_token opt) 0 t1" "tx_rows t1 = maximum + 1"
    "tx_entry_position t1 = tx_position t" "tx_capacity t1 = tx_capacity t"
    using begin_progress [OF ready, of "maximum + 1" "seed_token opt"] max opt(3) by auto
  have inv1: "tx_inv t1" using tx_begin_law [OF _ t1(1)] ready by (simp add: tx_ready_def)
  have "\<exists>d n st t2 j. (if maximum \<noteq> 0 then propose_round opt ?b maximum (replicate 3 0) t1
      else (True, replicate 3 0, maximum, False, t1)) = (True, d, n, st, t2) \<and> drafting (seed_token opt) j t2 \<and> tx_inv t2 \<and>
      tx_rows t2 = n + 1 \<and> (\<forall>k<n. d ! k < kMtpVocabulary) \<and> length d = 3 \<and> n \<le> maximum \<and>
      tx_capacity t2 = tx_capacity t \<and> (maximum \<noteq> 0 \<longrightarrow> \<not> invalid_proposal opt maximum d n st)"
  proof (cases "maximum = 0")
    case True
    with t1 inv1 show ?thesis by auto
  next
    case False
    then have "0 < maximum" by simp
    from propose_progress [OF t1(2) seed t1(3) this, of "stop_token opt"]
    obtain d n st t2 j where
      p: "tx_propose_eos_bounded dev (seed_token opt) maximum (stop_token opt) (replicate 3 0) t1 = (True, d, n, st, t2)"
      "drafting (seed_token opt) j t2" "tx_rows t2 = n + 1" "n \<le> maximum" "\<forall>k<n. d ! k < kMtpVocabulary" "length d = 3"
      "\<not> st \<longrightarrow> 0 < n" "st \<longrightarrow> n < maximum \<and> d ! n = stop_token opt" "tx_capacity t2 = tx_capacity t1"
      by (elim exE conjE)
    have "tx_inv t2" using tx_propose_prefix_law [OF inv1 p(1) [unfolded tx_propose_eos_bounded_def]] by simp
    moreover have "\<not> invalid_proposal opt maximum d n st" using p by (auto simp: invalid_proposal_def)
    moreover have "propose_round opt ?b maximum (replicate 3 0) t1 = (True, d, n, st, t2)"
      using opt(2) p(1) by (simp add: propose_round_def transaction_backend_def)
    ultimately show ?thesis
      using False p t1(5) by (intro exI [of _ d] exI [of _ n] exI [of _ st] exI [of _ t2] exI [of _ j]) simp
  qed
  then obtain d n st t2 j where t2: "(if maximum \<noteq> 0 then propose_round opt ?b maximum (replicate 3 0) t1
      else (True, replicate 3 0, maximum, False, t1)) = (True, d, n, st, t2)" "drafting (seed_token opt) j t2" "tx_inv t2"
      "tx_rows t2 = n + 1" "\<forall>k<n. d ! k < kMtpVocabulary" "length d = 3" "n \<le> maximum"
      "tx_capacity t2 = tx_capacity t" "maximum \<noteq> 0 \<longrightarrow> \<not> invalid_proposal opt maximum d n st" by blast
  obtain ps t3 where t3: "tx_verify dev (seed_token opt) d n (replicate 4 0) t2 = (True, ps, t3)" "committing 2 ps 0 t3"
    "\<forall>i\<le>n. ps ! i < kMtpVocabulary" "\<forall>i<n. tx_inputs t3 ! Suc i = d ! i" "tx_rows t3 = n + 1" "tx_capacity t3 = tx_capacity t"
    using verify_progress [OF t2(2,3,4,6,5) seed] t2(8) by auto
  define r0 where "r0 = initial_result\<lparr>eos_frontier_stopped := st, proposed_tokens := n, verified_rows := n + 1\<rparr>"
  obtain r1 t4 ob1 m where t4: "round_loop opt ?b obs d ps n 0 r0 t3 ob = (True, r1, t4, ob1)" "0 < m" "committing 2 ps m t4"
    "tx_capacity t4 = tx_capacity t"
    using loop_progress [OF t3(2) _ t3(5,4), of opt obs r0 ob] t3(6) by auto
  obtain t5 where t5: "tx_finish t4 = (True, t5)" "\<not> tx_active t5" "\<not> tx_poisoned t5" "\<not> tx_prefill_active t5"
    "\<not> dr_poisoned (tx_draft t5)" "dr_capacity (tx_draft t5) = tx_capacity t5"
    "dr_position (tx_draft t5) + 1 = tx_position t5" "tx_capacity t5 = tx_capacity t"
    using finish_progress [OF t4(3,2)] t4(4) by auto
  have small: "\<not> list_ex (\<lambda>i. d ! i \<ge> vocabulary_size opt) [0..<n]" "\<not> list_ex (\<lambda>i. ps ! i \<ge> vocabulary_size opt) [0..<n + 1]"
    using t2(5) t3(3) opt(1) by (auto simp: list_ex_iff not_le)
  have ops: "b_begin ?b = tx_begin dev" "b_verify ?b = tx_verify dev" "b_finish ?b = tx_finish" by (simp_all add: transaction_backend_def)
  have bad: "\<not> (maximum \<noteq> 0 \<and> invalid_proposal opt maximum d n st)" using t2(9) by blast
  have "run_round opt ?b obs has_context t ob = (r1, t5, ob1)"
    unfolding run_round_def Let_def if_not_P [OF valid] maximum_def [symmetric] ops t1(1) prod.case
      kMaximumDraftLength_def kMaximumVerifyRows_def t2(1)
    unfolding if_not_P [OF bad] if_not_P [OF small(1)] t3(1) prod.case if_not_P [OF small(2)]
    using t4(1) t5(1) by (simp add: r0_def)
  with run have r: "r = r1" "t' = t5" by simp_all
  have ok: "round_ok r" unfolding r by (rule round_loop_ok [OF t4(1) le0])
  have "tx_inv t'" using tx.round_exact [OF run ok] ready by (simp add: tx_ready_def)
  with ok t5 show ?thesis unfolding r by (simp add: tx_ready_def)
qed

subsection \<open>The decode loop ends well\<close>

end

definition servable :: "nat list \<Rightarrow> generation_options \<Rightarrow> generation_control \<Rightarrow> 'd service \<Rightarrow> bool" where
  "servable prompt opt c sv \<longleftrightarrow> in_step prompt c (sv_transaction sv) \<and> tx_ready (sv_transaction sv) \<and> sv_length sv \<in> {2, 3} \<and>
     go_stop_token_id opt < kReferenceVocabularySize \<and> last (gc_generated_token_ids c) < kReferenceVocabularySize \<and>
     last (gc_generated_token_ids c) \<noteq> go_stop_token_id opt \<and>
     length prompt + go_max_new_tokens opt \<le> tx_capacity (sv_transaction sv) + 1"

lemma servable_options:
  assumes "servable prompt opt c sv" "length (gc_generated_token_ids c) < go_max_new_tokens opt"
  shows "\<not> invalid_options (decode_round_options (sv_length sv) opt c (sv_transaction sv)) True True"
    and "tx_position (sv_transaction sv) + remaining_output (decode_round_options (sv_length sv) opt c (sv_transaction sv))
      \<le> tx_capacity (sv_transaction sv)"
proof -
  let ?t = "sv_transaction sv" and ?gen = "gc_generated_token_ids c"
  have "tx_position ?t = length (tx_history ?t)" using assms(1) by (simp add: servable_def tx_ready_def tx_inv_def tx_history_def)
  also have "\<dots> = length prompt + (length ?gen - 1)" using assms(1) by (simp add: servable_def in_step_def)
  finally have pos: "tx_position ?t = length prompt + (length ?gen - 1)" .
  have "?gen \<noteq> []" using assms(1) by (simp add: servable_def in_step_def)
  then have "0 < length ?gen" by simp
  with pos assms have le: "tx_position ?t + (go_max_new_tokens opt - length ?gen) \<le> tx_capacity ?t"
    unfolding servable_def by linarith
  then show le: "tx_position ?t + remaining_output (decode_round_options (sv_length sv) opt c ?t) \<le> tx_capacity ?t"
    by (simp add: decode_round_options_def Let_def)
  show "\<not> invalid_options (decode_round_options (sv_length sv) opt c ?t) True True"
    using le assms by (auto simp: servable_def decode_round_options_def invalid_options_def output_tail_budget_def Let_def)
qed

context healthy_device
begin

lemma decode_loop_progress:
  assumes "decode_loop dev host opt fuel c sv w = Some (st, c', sv', w')" "servable prompt opt c sv"
  shows "runner_ok st"
  using assms
proof (induction fuel arbitrary: c sv w)
  case (Suc fuel)
  show ?case
  proof (cases "\<not> length (gc_generated_token_ids c) < go_max_new_tokens opt \<or> fst (cancel_requested host w)")
    case True
    then show ?thesis using decode_loop_early(1) [OF Suc.prems(1) True] by simp
  next
    case False
    then have less: "length (gc_generated_token_ids c) < go_max_new_tokens opt" "\<not> fst (cancel_requested host w)" by simp_all
    show ?thesis
    proof (rule decode_loop_round [OF Suc.prems(1) less])
      fix r t c1 rep rep0 w1 w2 sv1
      let ?opt = "decode_round_options (sv_length sv) opt c (sv_transaction sv)"
      assume run: "run_round ?opt (transaction_backend dev) (Some (emit host)) True (sv_transaction sv) (c, rep0, w1) =
          (r, t, c1, rep, w2)"
        and sv1: "sv_transaction sv1 = t" "sv_length sv1 = sv_length sv"
        and rest: "decode_after dev host opt fuel r c1 sv1 w2 = Some (st, c', sv', w')"
      have ready: "tx_ready (sv_transaction sv)" "in_step prompt c (sv_transaction sv)" using Suc.prems(2) by (simp_all add: servable_def)
      have ok: "round_ok r \<and> tx_ready t \<and> tx_capacity t = tx_capacity (sv_transaction sv)"
        using servable_options [OF Suc.prems(2) less(1)]
        by (intro round_progress [OF ready(1) _ _ _ _ run])
           (simp_all add: decode_round_options_def Let_def kReferenceVocabularySize_def kMtpVocabulary_def)
      note one = decode_round_greedy [OF run ready(2) less(1)]
      have small: "last (gc_generated_token_ids c1) < kReferenceVocabularySize"
      proof -
        obtain n where "gc_generated_token_ids c1 = gc_generated_token_ids c @ greedy target (prompt @ gc_generated_token_ids c) n"
          "\<forall>x\<in>set (greedy target (prompt @ gc_generated_token_ids c) n). x < kReferenceVocabularySize"
          using one(1) by (auto simp: greedy_continuation_def)
        then show ?thesis using Suc.prems(2) by (cases "n = 0") (auto simp: servable_def)
      qed
      have "servable prompt opt c1 sv1" if "status r \<noteq> kStop"
        using that Suc.prems(2) ok one(2,3) small sv1 by (simp add: servable_def)
      then show ?thesis using rest ok Suc.IH [of c1 sv1 w2] by (auto simp: decode_after_def split: if_splits)
    qed
  qed
qed simp

end

text \<open>The ideal device is healthy for every target and draft model with tokens in the vocabulary.\<close>

interpretation ideal_healthy: healthy_device "ideal_device (\<lambda>xs. target xs mod kMtpVocabulary)
    (\<lambda>t. (fst (draft t) mod kMtpVocabulary, snd (draft t)))" "\<lambda>xs. target xs mod kMtpVocabulary" for target draft
  by unfold_locales (simp_all add: ideal_device_def kMtpVocabulary_def)

lemma decode_loop_not_cancelled:
  assumes "decode_loop dev host opt fuel c sv w = Some (st, c', sv', w')" "h_committed_token host = None" "h_cancel host = None"
    "gc_stop_reason c \<noteq> SCancelled"
  shows "gc_stop_reason c' \<noteq> SCancelled"
  using assms(1,4)
proof (induction fuel arbitrary: c sv w)
  case (Suc fuel)
  have no: "\<not> fst (cancel_requested host w)" using assms(3) by (simp add: cancel_requested_def)
  show ?case
  proof (cases "length (gc_generated_token_ids c) < go_max_new_tokens opt")
    case False
    then show ?thesis using decode_loop_early(3) [OF Suc.prems(1)] Suc.prems(2) no by auto
  next
    case True
    show ?thesis
    proof (rule decode_loop_round [OF Suc.prems(1) True no])
      fix r t c1 rep rep0 w1 w2 sv1
      assume run: "run_round (decode_round_options (sv_length sv) opt c (sv_transaction sv)) (transaction_backend dev)
          (Some (emit host)) True (sv_transaction sv) (c, rep0, w1) = (r, t, c1, rep, w2)"
        and rest: "decode_after dev host opt fuel r c1 sv1 w2 = Some (st, c', sv', w')"
      have "gc_stop_reason c1 \<noteq> SCancelled" "status r \<noteq> kCancelled"
        using round_stop_reason [OF run] Suc.prems(2) round_not_cancelled [OF run assms(2)] by simp_all
      then show ?thesis using rest Suc.IH [of c1 sv1 w2] by (auto simp: decode_after_def split: if_splits)
    qed
  qed
qed simp

subsection \<open>Properties\<close>

text \<open>
  C3. On a device that does not fail, a decode that fits the sequence capacity always ends well:
  none of the checks of the transaction refuses a round. Without callbacks the generation is then
  complete, it ends with the stop token or has the requested length, and it is the greedy one.
\<close>

theorem decode_succeeds:
  assumes "\<And>xs w. \<exists>w'. dv_target dev xs w = (Some (target xs), w')" "\<And>xs. target xs < kMtpVocabulary"
    "\<And>token confidence w. \<exists>p low w'. dv_draft dev token confidence w = (Some (p, low), w') \<and> p < kMtpVocabulary"
    "\<And>w. \<exists>w'. dv_sync dev w = (True, w')"
    "servable prompt opt c sv" "gc_stop_reason c = SMaxNewTokens"
    "go_max_new_tokens opt - length (gc_generated_token_ids c) < fuel"
  shows "\<exists>st c' sv' w'. decode dev host opt fuel c sv w = Some (st, c', sv', w') \<and> runner_ok st \<and>
    greedy_continuation target opt prompt (gc_generated_token_ids c) (gc_generated_token_ids c') \<and>
    (h_committed_token host = None \<longrightarrow> h_cancel host = None \<longrightarrow>
       last (gc_generated_token_ids c') = go_stop_token_id opt \<or>
       go_max_new_tokens opt \<le> length (gc_generated_token_ids c'))"
proof -
  have dev: "healthy_device dev target"
    using assms(1-4) by unfold_locales (metis fst_conv option.inject, blast+)
  obtain st c' sv' w' where loop: "decode_loop dev host opt fuel c sv w = Some (st, c', sv', w')"
    using decode_loop_fuel [OF assms(7)] by (metis prod_cases4)
  have ok: "runner_ok st" by (rule healthy_device.decode_loop_progress [OF dev loop assms(5)])
  have step: "in_step prompt c (sv_transaction sv)" using assms(5) by (simp add: servable_def)
  have exact: "greedy_continuation target opt prompt (gc_generated_token_ids c) (gc_generated_token_ids c')" "stopped_for opt c c'"
    using faithful_device.decode_loop_exact [OF healthy_device.axioms(1) [OF dev] loop step assms(6)] ok by simp_all
  have "h_committed_token host = None \<Longrightarrow> h_cancel host = None \<Longrightarrow> gc_stop_reason c' \<noteq> SCancelled"
    using decode_loop_not_cancelled [OF loop] assms(6) by simp
  with exact(2) have "h_committed_token host = None \<longrightarrow> h_cancel host = None \<longrightarrow>
      last (gc_generated_token_ids c') = go_stop_token_id opt \<or> go_max_new_tokens opt \<le> length (gc_generated_token_ids c')"
    by (auto simp: stopped_for_def split: stop_reason.splits)
  with loop ok exact(1) show ?thesis
    by (auto simp: decode_def Let_def split: prod.splits)
qed

lemma example_servable: "servable [1, 1, 1] example_options example_control example_service"
  using example_in_step
  by (simp add: servable_def example_service_def example_options_def example_control_def tx_ready_def)
     (simp add: idle_transaction_def kReferenceVocabularySize_def)

lemma example_healthy:
  "\<exists>w'. dv_target example_device xs w = (Some (example_target xs), w')" "example_target xs < kMtpVocabulary"
  "\<exists>p low w'. dv_draft example_device token confidence w = (Some (p, low), w') \<and> p < kMtpVocabulary"
  "\<exists>w'. dv_sync example_device w = (True, w')"
proof -
  have "length xs mod 8 < 8" by simp
  then show "example_target xs < kMtpVocabulary" by (simp add: example_target_def kMtpVocabulary_def)
  have "(token + 1) mod 11 < 11" by (rule mod_less_divisor) simp
  then have "(token + 1) mod 11 < kMtpVocabulary" unfolding kMtpVocabulary_def by linarith
  then show "\<exists>p low w'. dv_draft example_device token confidence w = (Some (p, low), w') \<and> p < kMtpVocabulary"
    by (intro exI [of _ "(token + 1) mod 11"] exI [of _ False] exI [of _ w]) (simp add: ideal_device_def)
qed (simp_all add: ideal_device_def)

theorem decode_succeeds_witness:
  "\<exists>st c' sv' w'. decode example_device example_host example_options 7 example_control example_service () =
      Some (st, c', sv', w') \<and> runner_ok st \<and>
    greedy_continuation example_target example_options [1, 1, 1] [5] (gc_generated_token_ids c') \<and>
    (last (gc_generated_token_ids c') = 9 \<or> 7 \<le> length (gc_generated_token_ids c'))"
  using decode_succeeds [of example_device example_target "[1, 1, 1]" example_options example_control example_service 7
      example_host "()", OF example_healthy example_servable]
  by (simp add: example_control_def initial_control_def example_options_def example_host_def)

text \<open>
  C24. The report of a decode that ends well accounts for every round and token: the histograms sum
  to the number of rounds, the positions to the accepted tokens, at most three tokens are proposed
  and at least one committed per round, and the committed tokens are the ones generated.
\<close>

theorem decode_report_consistent:
  assumes "decode dev host opt fuel c sv w = Some (st, c', sv', w')" "runner_ok st"
    "sv_length sv \<in> {2, 3}" "sv_report sv = reset_report (sv_length sv)"
  shows "report_consistent (length (gc_generated_token_ids c)) c' (sv_report sv')"
proof -
  obtain c1 w1 where loop: "decode_loop dev host opt fuel c sv w = Some (st, c1, sv', w1)"
    and c': "\<exists>t. c' = c1\<lparr>gc_timing := t\<rparr>"
    using assms(1,2) by (auto simp: decode_def Let_def split: option.splits prod.splits if_splits)
  have "report_consistent (length (gc_generated_token_ids c)) c (sv_report sv)"
    unfolding assms(4) by (simp add: report_consistent_def reset_report_def)
  from decode_loop_report [OF loop assms(2,3) this] c' show ?thesis by auto
qed

lemma example_runs:
  "\<exists>st c' sv' w'. decode example_device example_host example_options 7 example_control example_service () =
     Some (st, c', sv', w') \<and> runner_ok st"
proof -
  have dev: "healthy_device example_device example_target"
    using example_healthy by unfold_locales (metis fst_conv option.inject, blast+)
  obtain st c' sv' w' where loop: "decode_loop example_device example_host example_options 7 example_control example_service () =
      Some (st, c', sv', w')"
    using decode_loop_fuel [of example_options example_control 7 example_device example_host example_service "()"]
    by (auto simp: example_options_def example_control_def)
  have "runner_ok st" by (rule healthy_device.decode_loop_progress [OF dev loop example_servable])
  with loop show ?thesis by (auto simp: decode_def Let_def split: prod.splits)
qed

theorem decode_report_consistent_witness:
  "\<exists>st c' sv' w'. decode example_device example_host example_options 7 example_control example_service () =
      Some (st, c', sv', w') \<and> report_consistent 1 c' (sv_report sv')"
proof -
  obtain st c' sv' w' where run: "decode example_device example_host example_options 7 example_control example_service () =
      Some (st, c', sv', w')" "runner_ok st" using example_runs by blast
  show ?thesis
    using run decode_report_consistent [OF run] by (simp add: example_service_def example_control_def)
qed

end
