(* ===== verification/Mtp_Initialize.thy ===== *)
theory Mtp_Initialize
  imports Mtp_Progress
begin

text \<open>
  The hand-over from the prompt to the speculative service: \<^verbatim>\<open>Service::initialize\<close> of
  \<^verbatim>\<open>src/runtime/mtp_service_internal.cpp\<close>, \<^verbatim>\<open>TargetTransaction::initialize_whole_core_prefill\<close>,
  \<^verbatim>\<open>Draft::reset\<close> and \<^verbatim>\<open>Draft::initialize_kv\<close> of \<^verbatim>\<open>src/runtime/mtp_device_internal.cpp\<close>. What the
  function reads of the runner (route evidence, the residual view of the prompt, the row buffer) is a
  record; the kernels are the device of the transaction. Compiled with the service and without the GDN owner.
\<close>

subsection \<open>The draft cache of the prompt\<close>

definition kDraftPrefillBatch :: nat where
  "kDraftPrefillBatch = 32"

definition draft_reset :: "'d device \<Rightarrow> draft_state \<Rightarrow> 'd \<Rightarrow> bool \<times> draft_state \<times> 'd" where
  "draft_reset dev d x =
     (let d = discard_prepared_kv d; (ok, x) = dv_sync dev x in
      if \<not> ok then (False, draft_failed d, x)
      else
        let (ok, x) = dv_sync dev x in
        if \<not> ok then (False, draft_failed d, x)
        else (True, d\<lparr>dr_position := 0, dr_poisoned := False\<rparr>, x))"

text \<open>The callback for cancellation poisons the draft.\<close>

definition draft_cancelled :: "'d device \<Rightarrow> 'w host \<Rightarrow> draft_state \<Rightarrow> 'd \<Rightarrow> 'w \<Rightarrow> bool \<times> draft_state \<times> 'd \<times> 'w" where
  "draft_cancelled dev host d x w =
     (let (stop, w) = cancel_requested host w in
      if \<not> stop then (False, d, x, w)
      else let (ok, d, x) = draft_poison dev d x in (True, d, x, w))"

function draft_prefill_batches ::
  "'d device \<Rightarrow> 'w host \<Rightarrow> nat \<Rightarrow> nat \<Rightarrow> draft_state \<Rightarrow> 'd \<Rightarrow> 'w \<Rightarrow> bool \<times> draft_state \<times> 'd \<times> 'w" where
  "draft_prefill_batches dev host rows first d x w =
     (if \<not> first < rows then (True, d, x, w)
      else
        let batch = min kDraftPrefillBatch (rows - first); (ok, x) = dv_sync dev x in
        if \<not> ok then (False, draft_failed d, x, w)
        else
          let (stop, d, x, w) = draft_cancelled dev host (d\<lparr>dr_position := first + batch\<rparr>) x w in
          if stop then (False, d, x, w) else draft_prefill_batches dev host rows (first + kDraftPrefillBatch) d x w)"
  by pat_completeness auto
termination
  by (relation "measure (\<lambda>(dev, host, rows, first, d, x, w). rows - first)") (auto simp: kDraftPrefillBatch_def)

declare draft_prefill_batches.simps [simp del]

definition draft_initialize_kv ::
  "'d device \<Rightarrow> 'w host \<Rightarrow> nat list \<Rightarrow> draft_state \<Rightarrow> 'd \<Rightarrow> 'w \<Rightarrow> bool \<times> draft_state \<times> 'd \<times> 'w" where
  "draft_initialize_kv dev host tokens d x w =
     (if dr_poisoned d then (False, d, x, w)
      else if dr_position d \<noteq> 0 \<or> length tokens > dr_capacity d then (False, draft_failed d, x, w)
      else if list_ex (\<lambda>token. token \<ge> kMtpVocabulary) tokens then (False, draft_failed d, x, w)
      else
        let (stop, d, x, w) = draft_cancelled dev host (discard_prepared_kv d) x w in
        if stop then (False, d, x, w) else draft_prefill_batches dev host (length tokens) 0 d x w)"

subsection \<open>The transaction\<close>

record route_view =
  rt_complete :: bool
  rt_request_active :: bool
  rt_error :: bool
  rt_completed_layer_passes :: nat
  rt_operator_forbidden_hits :: "nat list"
  rt_forbidden_boundary_hits :: "nat list"

record residual_view =
  rv_columns :: nat
  rv_row_stride_elements :: nat
  rv_row_capacity :: nat
  rv_present :: bool

record runner_view =
  ru_route :: route_view
  ru_residual :: residual_view
  ru_prompt_hidden :: bool

definition kMtpHidden :: nat where
  "kMtpHidden = 5120"

definition route_ready :: "route_view \<Rightarrow> bool \<Rightarrow> bool" where
  "route_ready route committed_service_handoff \<longleftrightarrow>
     (if committed_service_handoff \<and> rt_request_active route \<and> \<not> rt_complete route \<and> \<not> rt_error route \<and>
         rt_completed_layer_passes route > 0
      then list_all (\<lambda>hits. hits = 0) (rt_operator_forbidden_hits route) \<and>
           list_all (\<lambda>hits. hits = 0) (rt_forbidden_boundary_hits route)
      else rt_complete route)"

definition initialize_whole_core_prefill ::
  "'d device \<Rightarrow> 'w host \<Rightarrow> runner_view \<Rightarrow> nat list \<Rightarrow> bool \<Rightarrow> 'd transaction \<Rightarrow> 'w \<Rightarrow> bool \<times> 'd transaction \<times> 'w" where
  "initialize_whole_core_prefill dev host view prompt committed_service_handoff t w =
     (let n = length prompt mod 2 ^ 32; residual = ru_residual view in
      if tx_active t \<or> tx_poisoned t \<or> tx_prefill_active t \<or> \<not> ru_prompt_hidden view \<or> n = 0 \<or>
         n \<noteq> tx_position t \<or> n > tx_capacity t \<or> \<not> route_ready (ru_route view) committed_service_handoff
      then (False, t, w)
      else if list_ex (\<lambda>token. token \<ge> kMtpVocabulary) (take n prompt) then (False, t, w)
      else if rv_columns residual \<noteq> kMtpHidden \<or> rv_row_stride_elements residual \<noteq> kMtpHidden \<or>
              rv_row_capacity residual < n \<or> \<not> rv_present residual
      then (False, t, w)
      else
        let t = t\<lparr>tx_request_reuse_boundary := 2, tx_committed_request_positions := 0, tx_seed_cache_valid := False,
                  tx_entry_snapshots := 0, tx_direct_gdn_rows := 0, tx_seed_kv_reuses := 0, tx_scalar_verify_rows := 0,
                  tx_tail_kv_batches := 0, tx_tail_kv_rows := 0, tx_prepared_tail_rows := 0\<rparr>;
            (ok, t) = tx_sync dev t in
        if \<not> ok then (False, snd (tx_abort dev t), w)
        else
          let (ok, d, x) = draft_reset dev (tx_draft t) (tx_device t); t = t\<lparr>tx_draft := d, tx_device := x\<rparr> in
          if \<not> ok then (False, snd (tx_abort dev t), w)
          else
            let (ok, d, x, w) = draft_initialize_kv dev host (drop 1 (take n prompt)) (tx_draft t) (tx_device t) w;
                t = t\<lparr>tx_draft := d, tx_device := x\<rparr> in
            if \<not> ok then (False, snd (tx_abort dev t), w)
            else (dr_position d + 1 = n, t\<lparr>tx_trace_valid := False, tx_retained_prefill_hidden_valid := False\<rparr>, w))"

subsection \<open>The service\<close>

definition initialize ::
  "'d device \<Rightarrow> 'w host \<Rightarrow> runner_view \<Rightarrow> nat list \<Rightarrow> 'd service \<Rightarrow> 'w \<Rightarrow> (runner_status \<times> double) \<times> 'd service \<times> 'w" where
  "initialize dev host view prompt sv w =
     (let (ok, t, w) = initialize_whole_core_prefill dev host view prompt True (sv_transaction sv) w;
          (ms, w) = h_elapsed host w;
          report = (sv_report sv)\<lparr>rp_initialization_ms := ms, rp_prompt_rows := length prompt mod 2 ^ 32,
                     rp_draft_rows := dr_position (tx_draft t), rp_initialized := ok\<rparr>;
          sv = sv\<lparr>sv_transaction := t\<rparr> in
      if \<not> ok
      then let (cancelled, w) = cancel_requested host w in
        ((service_failure cancelled, ms), sv\<lparr>sv_report := report\<lparr>rp_cancelled := cancelled, rp_failed := \<not> cancelled\<rparr>\<rparr>, w)
      else ((runner_status_none, ms), sv\<lparr>sv_report := report\<rparr>, w))"

subsection \<open>A successful hand-over\<close>

text \<open>The request state after the runner has committed the prompt.\<close>

definition committed_prompt :: "nat list \<Rightarrow> 'd transaction \<Rightarrow> bool" where
  "committed_prompt prompt t \<longleftrightarrow> \<not> tx_active t \<and> tx_tokens t = prompt \<and> tx_position t = length prompt \<and>
     length (tx_inputs t) = 4 \<and> length (tx_predictions t) = 4 \<and> length (tx_slots t) = 5"

lemma draft_cancelled_capacity:
  "draft_cancelled dev host d x w = (stop, d', x', w') \<Longrightarrow> dr_capacity d' = dr_capacity d \<and> (\<not> stop \<longrightarrow> d' = d)"
  by (auto simp: draft_cancelled_def Let_def draft_poison_def discard_prepared_kv_def split: prod.splits if_splits)

lemma draft_prefill_batches_ok:
  assumes "draft_prefill_batches dev host rows first d x w = (True, d', x', w')"
    "\<not> dr_poisoned d" "first < rows \<or> dr_position d = rows"
  shows "dr_position d' = rows \<and> \<not> dr_poisoned d' \<and> dr_capacity d' = dr_capacity d"
  using assms
proof (induction dev host rows first d x w rule: draft_prefill_batches.induct)
  case (1 dev host rows first d x w)
  show ?case
  proof (cases "first < rows")
    case False
    then show ?thesis using 1(2-4) by (simp add: draft_prefill_batches.simps)
  next
    case True
    let ?batch = "min kDraftPrefillBatch (rows - first)"
    obtain ok x1 where s: "dv_sync dev x = (ok, x1)" by fastforce
    obtain stop d1 x2 w1 where c: "draft_cancelled dev host (d\<lparr>dr_position := first + ?batch\<rparr>) x1 w = (stop, d1, x2, w1)"
      by (metis prod_cases4)
    have step: "ok \<and> \<not> stop \<and> draft_prefill_batches dev host rows (first + kDraftPrefillBatch) d1 x2 w1 = (True, d', x', w')"
      using 1(2) True s c by (subst (asm) draft_prefill_batches.simps) (auto simp: Let_def split: if_splits)
    then have d1: "d1 = d\<lparr>dr_position := first + ?batch\<rparr>" using draft_cancelled_capacity [OF c] by simp
    have "\<not> dr_poisoned d1" "first + kDraftPrefillBatch < rows \<or> dr_position d1 = rows"
      using 1(3) True by (auto simp: d1)
    then show ?thesis
      using 1(1) [of ?batch "(ok, x1)" ok x1 "(stop, d1, x2, w1)" stop "(d1, x2, w1)" d1 "(x2, w1)" x2 w1] step True s c
      by (simp add: d1)
  qed
qed


lemma draft_initialize_kv_ok:
  assumes "draft_initialize_kv dev host tokens d x w = (True, d', x', w')"
  shows "dr_position d' = length tokens \<and> \<not> dr_poisoned d' \<and> dr_capacity d' = dr_capacity d"
proof -
  obtain stop d1 x1 w1 where c: "draft_cancelled dev host (discard_prepared_kv d) x w = (stop, d1, x1, w1)"
    by (metis prod_cases4)
  have d: "\<not> dr_poisoned d" "dr_position d = 0" "\<not> stop"
    and b: "draft_prefill_batches dev host (length tokens) 0 d1 x1 w1 = (True, d', x', w')"
    using assms c by (auto simp: draft_initialize_kv_def split: if_splits)
  have "d1 = discard_prepared_kv d" using draft_cancelled_capacity [OF c] d(3) by simp
  then show ?thesis using draft_prefill_batches_ok [OF b] d by (auto simp: discard_prepared_kv_def)
qed

text \<open>After a successful hand-over the transaction is at rest behind the prompt, and the draft one row behind it.\<close>

lemma initialize_whole_core_prefill_ok:
  assumes "initialize_whole_core_prefill dev host view prompt handoff t w = (True, t', w')" "committed_prompt prompt t"
  shows "committed_prompt prompt t' \<and> \<not> tx_poisoned t' \<and> \<not> tx_prefill_active t' \<and> tx_capacity t' = tx_capacity t \<and>
    \<not> dr_poisoned (tx_draft t') \<and> dr_position (tx_draft t') + 1 = tx_position t' \<and>
    dr_capacity (tx_draft t') = dr_capacity (tx_draft t)"
proof -
  let ?n = "length prompt mod 2 ^ 32"
  obtain ok1 x1 where s: "dv_sync dev (tx_device t) = (ok1, x1)" by fastforce
  obtain ok2 d2 x2 where r: "draft_reset dev (tx_draft t) x1 = (ok2, d2, x2)" by (metis prod_cases3)
  obtain ok3 d3 x3 w3 where k: "draft_initialize_kv dev host (drop 1 (take ?n prompt)) d2 x2 w = (ok3, d3, x3, w3)"
    by (metis prod_cases4)
  have ok: "ok2" "ok3" "?n = tx_position t" "dr_position d3 + 1 = ?n" "\<not> tx_poisoned t" "\<not> tx_prefill_active t"
    and t': "t' = t\<lparr>tx_request_reuse_boundary := 2, tx_committed_request_positions := 0,
      tx_seed_cache_valid := False, tx_entry_snapshots := 0, tx_direct_gdn_rows := 0, tx_seed_kv_reuses := 0,
      tx_scalar_verify_rows := 0, tx_tail_kv_batches := 0, tx_tail_kv_rows := 0, tx_prepared_tail_rows := 0,
      tx_draft := d3, tx_device := x3, tx_trace_valid := False, tx_retained_prefill_hidden_valid := False\<rparr>"
    using assms(1) s r k
    by (simp_all add: initialize_whole_core_prefill_def tx_sync_def Let_def split: if_splits)
  have "dr_capacity d2 = dr_capacity (tx_draft t)"
    using r ok(1) by (auto simp: draft_reset_def Let_def discard_prepared_kv_def split: prod.splits if_splits)
  then show ?thesis
    using draft_initialize_kv_ok [of dev host "drop 1 (take ?n prompt)" d2 x2 w d3 x3 w3] k ok t' assms(2)
    by (simp add: committed_prompt_def)
qed

lemma initialize_ok:
  assumes "initialize dev host view prompt sv w = ((st, ms), sv', w')" "runner_ok st" "committed_prompt prompt (sv_transaction sv)"
  shows "committed_prompt prompt (sv_transaction sv') \<and> sv_length sv' = sv_length sv \<and>
    (dr_capacity (tx_draft (sv_transaction sv)) = tx_capacity (sv_transaction sv) \<longrightarrow> tx_ready (sv_transaction sv')) \<and>
    tx_capacity (sv_transaction sv') = tx_capacity (sv_transaction sv)"
proof -
  obtain ok t w1 where i: "initialize_whole_core_prefill dev host view prompt True (sv_transaction sv) w = (ok, t, w1)"
    by (metis prod_cases3)
  have ok: "ok" and sv': "sv_transaction sv' = t" "sv_length sv' = sv_length sv"
    using assms(1,2) i by (auto simp: initialize_def service_failure_def runner_ok_def Let_def split: prod.splits if_splits)
  then show ?thesis
    using initialize_whole_core_prefill_ok [of dev host view prompt True "sv_transaction sv" w t w1] i assms(3)
    by (auto simp: tx_ready_def committed_prompt_def tx_inv_def)
qed

lemma committed_prompt_in_step:
  "committed_prompt prompt t \<Longrightarrow> gc_generated_token_ids c = [p] \<Longrightarrow> in_step prompt c t"
  by (simp add: in_step_def committed_prompt_def tx_inv_def tx_history_def)

end
