(* ===== verification/Speculative_Generation.thy ===== *)
theory Speculative_Generation
  imports Generation_Correct Mtp_Initialize
begin

text \<open>
  The controller and the speculative service together. The world of the controller is the service, with the
  request state its transaction works on, beside the world of the callbacks; the hooks the controller calls
  are \<^verbatim>\<open>Service::initialize\<close> and \<^verbatim>\<open>Service::decode\<close>. With the same target model, a generation with
  the service and one without it give the same tokens.
\<close>

subsection \<open>The hooks\<close>

definition lift_host :: "'w host \<Rightarrow> ('s \<times> 'w) host" where
  "lift_host host = \<lparr>
     h_committed_token = map_option (\<lambda>f token index ms (s, w). apsnd (Pair s) (f token index ms w)) (h_committed_token host),
     h_cancel = map_option (\<lambda>f (s, w). apsnd (Pair s) (f w)) (h_cancel host),
     h_elapsed = (\<lambda>(s, w). apsnd (Pair s) (h_elapsed host w))\<rparr>"

text \<open>The fuel of the decode loop is one round per token that may be generated, and one for the exit.\<close>

definition service_hooks ::
  "'d device \<Rightarrow> 'w host \<Rightarrow> ('d service \<times> 'w \<Rightarrow> runner_view) \<Rightarrow> ('d service \<times> 'w) mtp_hooks" where
  "service_hooks dev host view = \<lparr>
     mh_initialize = (\<lambda>prompt (sv, w). initialize dev host (view (sv, w)) prompt sv w),
     mh_decode = (\<lambda>control opt (sv, w).
       case decode dev host opt (Suc (go_max_new_tokens opt)) control sv w of
         Some (st, control, sv, w) \<Rightarrow> ((st, control), sv, w)
       | None \<Rightarrow> ((service_failure False, control), sv, w))\<rparr>"

lemma commit_callback_lift:
  "commit_callback (lift_host host) token index ms (sv, w) = apsnd (Pair sv) (commit_callback host token index ms w)"
  by (simp add: commit_callback_def lift_host_def split: option.splits)

subsection \<open>What the runner promises\<close>

text \<open>
  The runner on which the controller and the service work: the call that finishes the prompt predicts the
  token the target picks after it, and once the prompt is finished (committed, for a whole request) the
  request state holds it.
\<close>

locale prompt_runner =
  fixes cbs :: "('d service \<times> 'w) callbacks"
    and opt :: generation_options
    and prompt :: "nat list"
    and target :: "nat list \<Rightarrow> nat"
  assumes finish_predicts: "Some finish \<in> {cb_finish_prefill cbs, cb_finish_prefill_from_tile cbs, cb_finish_whole_request cbs} \<Longrightarrow>
      finish (last prompt) options w = (Inr outcome, world) \<Longrightarrow> outcome_ok outcome = Some step \<Longrightarrow>
      predicted_token opt step \<in> {None, Some (target prompt)}"
    and finish_holds: "Some finish \<in> {cb_finish_prefill cbs, cb_finish_prefill_from_tile cbs} \<Longrightarrow>
      finish (last prompt) options w = (Inr outcome, (sv, w')) \<Longrightarrow> outcome_ok outcome = Some step \<Longrightarrow>
      committed_prompt prompt (sv_transaction sv)"
    and commit_holds: "cb_commit_whole_request cbs = Some commit \<Longrightarrow> commit topology progress w = (st, (sv, w')) \<Longrightarrow>
      runner_ok st \<Longrightarrow> committed_prompt prompt (sv_transaction sv)"
begin

lemma finish_prompt_target:
  assumes "finish_prompt opt thrown finish (last prompt) c w = (Inr (p, c'), (sv, w'))" "\<And>e w a w'. thrown e w \<noteq> (Inr a, w')"
    "Some finish \<in> {cb_finish_prefill cbs, cb_finish_prefill_from_tile cbs, cb_finish_whole_request cbs}"
  shows "p = target prompt \<and>
    (Some finish \<in> {cb_finish_prefill cbs, cb_finish_prefill_from_tile cbs} \<longrightarrow> committed_prompt prompt (sv_transaction sv))"
proof -
  obtain c0 ms c1 where ex: "execute opt thrown finish (last prompt) True c0 w = (Inr (ms, p, c1), (sv, w'))"
    using assms(1) by (auto simp: finish_prompt_def gthen_Inr Let_def split: if_splits)
  then obtain options outcome step where call: "finish (last prompt) options w = (Inr outcome, (sv, w'))"
    and ok: "outcome_ok outcome = Some step" and check: "check_step opt (length (gc_steps c0)) (last prompt) True step = Inr (ms, p)"
    using assms(2) by (fastforce simp: execute_def split: prod.splits sum.splits option.splits)
  have "predicted_token opt step = Some p" using check_step_ok(3) [OF check] by simp
  moreover have "predicted_token opt step \<in> {None, Some (target prompt)}"
    by (rule finish_predicts [OF assms(3) call ok])
  ultimately show ?thesis using finish_holds [of finish] call ok by auto
qed

lemma run_prompt_target:
  assumes "run_prompt cfg host opt cbs prompt topology w = (Inr (p, c), (sv, w'))" "\<not> invalid_generation_request opt cbs prompt"
    "topology_for cfg opt prompt topology" "\<And>sv w. fst (snd (h_elapsed host (sv, w))) = sv"
  shows "p = target prompt \<and> committed_prompt prompt (sv_transaction sv)"
proof (cases topology)
  case None
  let ?finish = "the (if go_prefill_all_prompt_tokens opt then cb_finish_prefill_from_tile cbs else cb_finish_prefill cbs)"
  have "\<not> go_prefill_whole_request_layer_major opt" using assms(3) None by (auto simp: topology_for_def split: if_splits)
  then have some: "Some ?finish \<in> {cb_finish_prefill cbs, cb_finish_prefill_from_tile cbs}"
    using assms(2) by (auto simp: invalid_generation_request_def Let_def split: if_splits)
  obtain c1 w1 where "finish_prompt opt gthrow ?finish (last prompt) c1 w1 = (Inr (p, c), (sv, w'))"
    using assms(1) None by (auto simp: run_prompt_def Let_def gthen_Inr split: if_splits)
  from finish_prompt_target [OF this] some show ?thesis by auto
next
  case (Some plan)
  have "go_prefill_whole_request_layer_major opt" using assms(3) Some by (auto simp: topology_for_def split: if_splits)
  then obtain finish commit where cb: "cb_finish_whole_request cbs = Some finish" "cb_commit_whole_request cbs = Some commit"
    using assms(2) by (auto simp: invalid_generation_request_def Let_def)
  obtain c1 w1 c2 w2 progress where
    fin: "finish_prompt opt (gthrow_guarded ''whole_request_finalizer_exception'') finish (last prompt) c1 w1 = (Inr (p, c2), w2)"
    and com: "commit_whole_request_prefill cfg host commit plan progress c2 w2 = (Inr c, (sv, w'))"
    using assms(1) Some cb by (auto simp: run_prompt_def Let_def gthen_Inr)
  obtain sv2 w3 where w2: "w2 = (sv2, w3)" by fastforce
  have "p = target prompt"
    using finish_prompt_target [OF fin [unfolded w2]] cb by simp
  moreover obtain st s4 w4 where call: "commit plan progress w2 = (st, (s4, w4))" by (metis prod_cases3)
  have "runner_ok st" "s4 = sv"
    using com call assms(4) [of s4 w4]
    by (auto simp: commit_whole_request_prefill_def Let_def split: prod.splits if_splits)
  ultimately show ?thesis using commit_holds [OF cb(2) call] by simp
qed

end


subsection \<open>Both ways to generate\<close>

text \<open>How a generation that was not cancelled ends: at the first stop token or at the requested length.\<close>

definition greedy_generation :: "(nat list \<Rightarrow> nat) \<Rightarrow> generation_options \<Rightarrow> nat list \<Rightarrow> generation_control \<Rightarrow> bool" where
  "greedy_generation target opt prompt c \<longleftrightarrow>
     (let generated = gc_generated_token_ids c in
      generated \<noteq> [] \<and> generated = greedy target prompt (length generated) \<and>
      go_stop_token_id opt \<notin> set (butlast generated) \<and> length generated \<le> go_max_new_tokens opt \<and>
      (gc_stop_reason c = SImEnd \<longrightarrow> last generated = go_stop_token_id opt) \<and>
      (gc_stop_reason c = SMaxNewTokens \<longrightarrow>
         length generated = go_max_new_tokens opt \<and> last generated \<noteq> go_stop_token_id opt))"

lemma greedy_generation_shorter:
  assumes "greedy_generation target opt prompt c" "greedy_generation target opt prompt c'" "gc_stop_reason c \<noteq> SCancelled"
  shows "length (gc_generated_token_ids c') \<le> length (gc_generated_token_ids c)"
proof (rule ccontr)
  let ?g = "gc_generated_token_ids c" and ?g' = "gc_generated_token_ids c'"
  assume less: "\<not> length ?g' \<le> length ?g"
  then have "length ?g < go_max_new_tokens opt" using assms(2) by (simp add: greedy_generation_def Let_def)
  then have "gc_stop_reason c = SImEnd"
    using assms(1,3) by (cases "gc_stop_reason c") (auto simp: greedy_generation_def Let_def)
  then have last: "last ?g = go_stop_token_id opt" "?g \<noteq> []" using assms(1) by (auto simp: greedy_generation_def Let_def)
  have "?g = greedy target prompt (length ?g)" "?g' = greedy target prompt (length ?g')"
    using assms(1,2) by (simp_all add: greedy_generation_def Let_def)
  then have "?g = take (length ?g) ?g'" using less by (metis linorder_le_cases min_absorb1 take_greedy)
  then have "set ?g \<subseteq> set (butlast ?g')"
    using less by (metis butlast_conv_take less_imp_le not_less set_take_subset_set_take Suc_leI diff_Suc_1 diff_le_mono)
  then have "go_stop_token_id opt \<in> set (butlast ?g')" using last last_in_set [of ?g] by auto
  then show False using assms(2) by (simp add: greedy_generation_def Let_def)
qed

lemma greedy_generation_unique:
  assumes "greedy_generation target opt prompt c" "greedy_generation target opt prompt c'"
    "gc_stop_reason c \<noteq> SCancelled" "gc_stop_reason c' \<noteq> SCancelled"
  shows "gc_generated_token_ids c = gc_generated_token_ids c' \<and> gc_stop_reason c = gc_stop_reason c'"
proof -
  have "length (gc_generated_token_ids c) = length (gc_generated_token_ids c')"
    using assms by (meson antisym greedy_generation_shorter)
  then have "gc_generated_token_ids c = gc_generated_token_ids c'"
    using assms(1,2) by (metis greedy_generation_def)
  then show ?thesis
    using assms by (cases "gc_stop_reason c"; cases "gc_stop_reason c'") (auto simp: greedy_generation_def Let_def)
qed

subsubsection \<open>Without the service\<close>

text \<open>The steps of a run are faithful: each prediction is the token the target picks for the inputs so far.\<close>

definition faithful_steps :: "(nat list \<Rightarrow> nat) \<Rightarrow> generation_options \<Rightarrow> nat list \<Rightarrow> generation_control \<Rightarrow> bool" where
  "faithful_steps target opt prompt c \<longleftrightarrow>
     (\<forall>i<length (gc_steps c). length prompt \<le> Suc i \<longrightarrow>
        predicted_token opt (gc_steps c ! i) \<in> {None, Some (target (map sr_input_token_id (take (Suc i) (gc_steps c))))})"

lemma greedy_by_steps:
  "(\<And>i. i < length gen \<Longrightarrow> gen ! i = target (xs @ take i gen)) \<Longrightarrow> gen = greedy target xs (length gen)"
proof (induction gen arbitrary: xs)
  case (Cons g gen)
  have "g = target xs" using Cons.prems [of 0] by simp
  moreover have "gen = greedy target (xs @ [g]) (length gen)"
    using Cons.prems [of "Suc _"] by (intro Cons.IH) simp
  ultimately show ?case by simp
qed simp

lemma plain_generation:
  assumes "run_generation_control cfg None host opt cbs prompt w = (Inr c, w')" "faithful_steps target opt prompt c"
  shows "greedy_generation target opt prompt c"
proof -
  let ?g = "gc_generated_token_ids c" and ?s = "gc_steps c"
  note ok = generation_ok [OF assms(1)]
  have tr: "?g \<noteq> []" "map sr_input_token_id ?s = prompt @ butlast ?g" "go_stop_token_id opt \<notin> set (butlast ?g)"
    "map (predicted_token opt) (drop (length prompt - 1) ?s) = map Some ?g"
    using ok(1) by (simp_all add: transcript_def Let_def)
  have len: "length ?s = length prompt + (length ?g - 1)" by (rule transcript_length [OF ok(1)])
  have "prompt \<noteq> []" using run_generation_InrD [OF assms(1)] by (auto simp: invalid_generation_request_def Let_def)
  have "?g ! i = target (prompt @ take i ?g)" if i: "i < length ?g" for i
  proof -
    let ?i = "length prompt - 1 + i"
    have "?i < length ?s" using i len \<open>prompt \<noteq> []\<close> by (cases prompt) auto
    then have "predicted_token opt (?s ! ?i) = Some (?g ! i)"
      using arg_cong [OF tr(4), of "\<lambda>xs. xs ! i"] i by (simp add: add.commute)
    moreover have "map sr_input_token_id (take (Suc ?i) ?s) = prompt @ take i ?g"
      using tr(2) i \<open>prompt \<noteq> []\<close> by (cases prompt) (simp_all add: take_butlast flip: take_map)
    ultimately show ?thesis
      using assms(2) \<open>?i < length ?s\<close> \<open>prompt \<noteq> []\<close> unfolding faithful_steps_def by (cases prompt) fastforce+
  qed
  then have "?g = greedy target prompt (length ?g)" by (rule greedy_by_steps)
  moreover have "gc_stop_reason c = SMaxNewTokens \<Longrightarrow> last ?g \<noteq> go_stop_token_id opt"
    using ok(3) by (metis ended_def stop_reason.distinct(1))
  ultimately show ?thesis using tr(1,3) ok(3) by (simp add: greedy_generation_def ended_def Let_def)
qed


subsubsection \<open>With the service\<close>

lemma greedy_continuation_generation:
  assumes "greedy_continuation target opt prompt [target prompt] (gc_generated_token_ids c)" "stopped_for opt c0 c"
    "gc_generated_token_ids c0 = [target prompt]" "target prompt \<noteq> go_stop_token_id opt" "0 < go_max_new_tokens opt"
  shows "greedy_generation target opt prompt c"
proof -
  obtain n where n: "gc_generated_token_ids c = target prompt # greedy target (prompt @ [target prompt]) n"
    "n \<le> go_max_new_tokens opt - 1" "go_stop_token_id opt \<notin> set (greedy target (prompt @ [target prompt]) (n - 1))"
    using assms(1) by (auto simp: greedy_continuation_def)
  have "butlast (greedy target (prompt @ [target prompt]) n) = greedy target (prompt @ [target prompt]) (n - 1)"
    by (simp add: butlast_conv_take take_greedy)
  then have "go_stop_token_id opt \<notin> set (butlast (gc_generated_token_ids c))"
    using n(1,3) assms(4) by auto
  moreover have "length (gc_generated_token_ids c) = Suc n" by (simp add: n(1))
  moreover have "gc_stop_reason c = SMaxNewTokens \<Longrightarrow> last (gc_generated_token_ids c) \<noteq> go_stop_token_id opt"
    using assms(2-4) n(1) by (cases n) (auto simp: stopped_for_def)
  moreover have "gc_stop_reason c = SMaxNewTokens \<Longrightarrow> go_max_new_tokens opt \<le> Suc n"
    "gc_stop_reason c = SImEnd \<Longrightarrow> last (gc_generated_token_ids c) = go_stop_token_id opt"
    using assms(2) n(1) by (auto simp: stopped_for_def)
  ultimately show ?thesis
    unfolding greedy_generation_def Let_def using n(1,2) assms(5) by auto
qed

lemma decode_exact:
  assumes "faithful_device dev target" "in_step prompt c (sv_transaction sv)" "gc_stop_reason c = SMaxNewTokens"
    "decode dev host opt fuel c sv w = Some (st, c', sv', w')" "runner_ok st"
  shows "greedy_continuation target opt prompt (gc_generated_token_ids c) (gc_generated_token_ids c') \<and> stopped_for opt c c'"
proof -
  obtain c1 w1 where "decode_loop dev host opt fuel c sv w = Some (st, c1, sv', w1)" "\<exists>t. c' = c1\<lparr>gc_timing := t\<rparr>"
    using assms(4,5) by (auto simp: decode_def Let_def split: option.splits prod.splits if_splits)
  then show ?thesis
    using faithful_device.decode_loop_exact [OF assms(1) _ assms(2,3)] assms(5) by fastforce
qed

lemma service_generation:
  assumes "faithful_device dev target" "prompt_runner cbs opt prompt target"
    "run_generation_control cfg (Some (service_hooks dev host view)) (lift_host host) opt cbs prompt w = (Inr c, w')"
  shows "greedy_generation target opt prompt c"
proof -
  let ?hooks = "service_hooks dev host view"
  from assms(3) obtain topology p c1 w1 c2 w2 where valid: "\<not> invalid_generation_request opt cbs prompt"
    and topology: "topology_for cfg opt prompt topology"
    and pre: "run_prompt cfg (lift_host host) opt cbs prompt topology w = (Inr (p, c1), w1)"
    and ini: "initialize_service (Some ?hooks) prompt c1 w1 = (Inr c2, w2)"
    and dec: "run_decode (Some ?hooks) (lift_host host) opt (the (cb_decode_step cbs)) p c2 w2 = (Inr c, w')"
    by (rule run_generation_InrD)
  obtain sv1 x1 where w1: "w1 = (sv1, x1)" by fastforce
  have p: "p = target prompt \<and> committed_prompt prompt (sv_transaction sv1)"
    by (rule prompt_runner.run_prompt_target [OF assms(2) pre [unfolded w1] valid topology])
       (simp add: lift_host_def)
  have read: "gc_generated_token_ids c1 = []" "gc_stop_reason c1 = SMaxNewTokens"
    using run_prompt_ok [OF pre topology valid] by (simp_all add: prompt_read_def)
  obtain st ms sv2 x2 where i: "initialize dev host (view w1) prompt sv1 x1 = ((st, ms), sv2, x2)"
    by (metis prod.exhaust)
  have c2: "runner_ok st" "w2 = (sv2, x2)" "gc_generated_token_ids c2 = []" "gc_stop_reason c2 = SMaxNewTokens"
    using ini i read by (auto simp: initialize_service_def service_hooks_def w1 gfail_status_def Let_def split: if_splits)
  have committed: "committed_prompt prompt (sv_transaction sv2)"
    using initialize_ok [OF i c2(1)] p by simp
  obtain proceed x3 where cb: "commit_callback host p 0 (gt_prompt_prefill (gc_timing c2)) x2 = (proceed, x3)" by fastforce
  define c3 where "c3 = c2\<lparr>gc_timing := (gc_timing c2)\<lparr>gt_time_to_first_token := gt_prompt_prefill (gc_timing c2),
     gt_total_generation := gt_prompt_prefill (gc_timing c2)\<rparr>, gc_generated_token_ids := [p]\<rparr>"
  have len: "0 < go_max_new_tokens opt" using valid by (auto simp: invalid_generation_request_def Let_def)
  have rest: "(if p = go_stop_token_id opt then (Inr (c3\<lparr>gc_stop_reason := SImEnd\<rparr>), (sv2, x3))
      else if \<not> proceed then (Inr (c3\<lparr>gc_stop_reason := SCancelled\<rparr>), (sv2, x3))
      else case mh_decode ?hooks c3 opt (sv2, x3) of ((st', control), w) \<Rightarrow>
        if runner_ok st' then (Inr control, w) else gfail_status GcRunnerFailure st' w) = (Inr c, w')"
    using dec cb c2 by (auto simp: run_decode_def Let_def commit_token_def commit_callback_lift c3_def split: if_splits)
  show ?thesis
  proof (cases "p = go_stop_token_id opt \<or> \<not> proceed")
    case True
    then have "c = c3\<lparr>gc_stop_reason := if p = go_stop_token_id opt then SImEnd else SCancelled\<rparr>"
      using rest by (auto split: if_splits)
    then show ?thesis using p len by (auto simp: greedy_generation_def Let_def c3_def)
  next
    case False
    then obtain st' sv3 x4 where d: "decode dev host opt (Suc (go_max_new_tokens opt)) c3 sv2 x3 = Some (st', c, sv3, x4)"
      "runner_ok st'"
      using rest
      by (auto simp: service_hooks_def gfail_status_def service_failure_def runner_ok_def
          split: option.splits prod.splits if_splits)
    have c3: "gc_generated_token_ids c3 = [target prompt]" "gc_stop_reason c3 = SMaxNewTokens"
      using p c2 by (simp_all add: c3_def)
    have "greedy_continuation target opt prompt [target prompt] (gc_generated_token_ids c) \<and> stopped_for opt c3 c"
      using decode_exact [OF assms(1) committed_prompt_in_step [OF committed c3(1)] c3(2) d] c3(1) by simp
    then show ?thesis using greedy_continuation_generation [of target opt prompt c c3] c3(1) False p len by simp
  qed
qed


subsection \<open>An example with the service\<close>

text \<open>
  The counting runner on the request state of a service: each step adds its token to the state. The target
  counts up, the draft counts up with a mistake now and then.
\<close>

definition counting_target :: "nat list \<Rightarrow> nat" where
  "counting_target xs = (if last xs < 100 then last xs + 1 else 0)"

abbreviation "counting_device \<equiv> ideal_device counting_target (\<lambda>t. (if t = 7 then 3 else (t + 1) mod 11, False))"

definition recording_step :: "(unit service \<times> nat) step_function" where
  "recording_step token options = (\<lambda>(sv, n).
     let t = sv_transaction sv in
     apsnd (Pair (sv\<lparr>sv_transaction := t\<lparr>tx_tokens := tx_tokens t @ [token], tx_position := tx_position t + 1\<rparr>\<rparr>))
       (counting_step token options n))"

definition recording_finish :: "(unit service \<times> nat) step_function" where
  "recording_finish token options = (\<lambda>(sv, n).
     if tx_tokens (sv_transaction sv) = [5] \<and> tx_position (sv_transaction sv) = 1 \<and> \<not> tx_active (sv_transaction sv) \<and>
        length (tx_inputs (sv_transaction sv)) = 4 \<and> length (tx_predictions (sv_transaction sv)) = 4 \<and>
        length (tx_slots (sv_transaction sv)) = 5
     then recording_step token options (sv, n) else (Inl OtherException, (sv, n)))"

definition recording_callbacks :: "(unit service \<times> nat) callbacks" where
  "recording_callbacks = \<lparr>cb_prefix_step = Some recording_step, cb_finish_prefill = Some recording_finish,
     cb_prefix_tile = None, cb_finish_prefill_from_tile = None, cb_whole_request = None,
     cb_finish_whole_request = None, cb_commit_whole_request = None, cb_decode_step = Some recording_step\<rparr>"

definition open_view :: runner_view where
  "open_view = \<lparr>ru_route = \<lparr>rt_complete = True, rt_request_active = False, rt_error = False,
       rt_completed_layer_passes = 0, rt_operator_forbidden_hits = [], rt_forbidden_boundary_hits = []\<rparr>,
     ru_residual = \<lparr>rv_columns = 5120, rv_row_stride_elements = 5120, rv_row_capacity = 64, rv_present = True\<rparr>,
     ru_prompt_hidden = True\<rparr>"

definition fresh_service :: "unit service" where
  "fresh_service = \<lparr>sv_transaction = idle_transaction [] 64, sv_length = 3, sv_report = reset_report 3\<rparr>"

interpretation recording: prompt_runner recording_callbacks counting_options "[5, 6]" counting_target
  by unfold_locales
     (auto simp: recording_callbacks_def recording_finish_def recording_step_def counting_step_def outcome_ok_def
       predicted_token_def counting_options_def counting_target_def committed_prompt_def Let_def split: if_splits)

interpretation counting: healthy_device counting_device counting_target
proof
  have "(token + 1) mod 11 < kMtpVocabulary" for token :: nat
    by (rule less_trans [OF mod_less_divisor]) (simp_all add: kMtpVocabulary_def)
  then show "\<exists>p low w'. dv_draft counting_device token confidence w = (Some (p, low), w') \<and> p < kMtpVocabulary" for token confidence w
    by (auto simp: ideal_device_def kMtpVocabulary_def)
qed (auto simp: ideal_device_def counting_target_def kMtpVocabulary_def)


lemma counting_faithful: "faithful_steps counting_target counting_options [5, 6] counting_control"
  by (auto simp: faithful_steps_def counting_control_def counting_steps_def predicted_token_def counting_options_def
      counting_target_def less_Suc_eq numeral_eq_Suc)

lemma recording_prompt:
  "\<exists>c sv. run_prompt plain_build (lift_host silent_host) counting_options recording_callbacks [5, 6] None (fresh_service, 0) =
     (Inr (7, c), (sv, 2)) \<and> sv_length sv = 3 \<and> sv_transaction sv = (idle_transaction [5, 6] 64)
       \<lparr>tx_draft := tx_draft (idle_transaction [] 64)\<rparr> \<and>
     gc_generated_token_ids c = [] \<and> gc_stop_reason c = SMaxNewTokens \<and> gt_prefix_execution (gc_timing c) \<noteq> []"
  by (simp add: run_prompt_def recording_callbacks_def recording_step_def recording_finish_def counting_defs Let_def
      gthen_def prefix_tokens_def effective_prefill_chunk_size_def start_control_def finish_prompt_def execute_def
      outcome_ok_def check_step_def account_prefix_def fresh_service_def idle_transaction_def bad_elapsed_def
      kReferenceVocabularySize_def initial_control_def initial_timing_def planned_prefix_executions_def
      prefix_execution_count_def)

lemma recording_initialize:
  "sv_transaction sv = (idle_transaction [5, 6] 64)\<lparr>tx_draft := tx_draft (idle_transaction [] 64)\<rparr> \<Longrightarrow>
   \<exists>sv'. initialize counting_device silent_host open_view [5, 6] sv n = ((runner_status_none, Finite 0), sv', n)"
  by (simp add: initialize_def initialize_whole_core_prefill_def idle_transaction_def open_view_def route_ready_def
      kMtpVocabulary_def kMtpHidden_def tx_sync_def ideal_device_def draft_reset_def discard_prepared_kv_def
      draft_initialize_kv_def draft_cancelled_def cancel_requested_def silent_host_def draft_prefill_batches.simps
      kDraftPrefillBatch_def Let_def)


lemma recording_run:
  "\<exists>c w'. run_generation_control plain_build (Some (service_hooks counting_device silent_host (\<lambda>_. open_view)))
      (lift_host silent_host) counting_options recording_callbacks [5, 6] (fresh_service, 0) = (Inr c, w') \<and>
     gc_stop_reason c \<noteq> SCancelled"
proof -
  let ?hooks = "service_hooks counting_device silent_host (\<lambda>_. open_view)"
  obtain c1 sv1 where pre: "run_prompt plain_build (lift_host silent_host) counting_options recording_callbacks [5, 6] None
      (fresh_service, 0) = (Inr (7, c1), (sv1, 2))"
    and sv1: "sv_length sv1 = 3" "sv_transaction sv1 = (idle_transaction [5, 6] 64)\<lparr>tx_draft := tx_draft (idle_transaction [] 64)\<rparr>"
    and c1: "gc_generated_token_ids c1 = []" "gc_stop_reason c1 = SMaxNewTokens" "gt_prefix_execution (gc_timing c1) \<noteq> []"
    using recording_prompt by blast
  obtain sv2 where ini: "initialize counting_device silent_host open_view [5, 6] sv1 2 = ((runner_status_none, Finite 0), sv2, 2)"
    using recording_initialize [OF sv1(2)] by blast
  have prompt: "committed_prompt [5, 6] (sv_transaction sv1)"
    by (simp add: sv1(2) committed_prompt_def idle_transaction_def)
  have sv2: "committed_prompt [5, 6] (sv_transaction sv2)" "sv_length sv2 = 3" "tx_ready (sv_transaction sv2)" "tx_capacity (sv_transaction sv2) = 64"
    using initialize_ok [OF ini _ prompt] sv1 by (simp_all add: idle_transaction_def)
  obtain c2 where c2: "initialize_service (Some ?hooks) [5, 6] c1 (sv1, 2) = (Inr c2, (sv2, 2))"
    "gc_generated_token_ids c2 = []" "gc_stop_reason c2 = SMaxNewTokens"
    using ini c1 by (simp add: initialize_service_def service_hooks_def Let_def)
  define c3 where "c3 = c2\<lparr>gc_timing := (gc_timing c2)\<lparr>gt_time_to_first_token := gt_prompt_prefill (gc_timing c2),
     gt_total_generation := gt_prompt_prefill (gc_timing c2)\<rparr>, gc_generated_token_ids := [7]\<rparr>"
  have c3: "gc_generated_token_ids c3 = [7]" "gc_stop_reason c3 = SMaxNewTokens" using c2 by (simp_all add: c3_def)
  have "servable [5, 6] counting_options c3 sv2"
    using committed_prompt_in_step [OF sv2(1) c3(1)] sv2 c3
    by (simp add: servable_def counting_options_def kReferenceVocabularySize_def)
  moreover obtain st c4 sv4 w4 where loop: "decode_loop counting_device silent_host counting_options 6 c3 sv2 2 = Some (st, c4, sv4, w4)"
    using decode_loop_fuel [of counting_options c3 6 counting_device silent_host sv2 2] c3(1)
    by (auto simp: counting_options_def)
  ultimately have ok: "runner_ok st" by (intro counting.decode_loop_progress)
  have "gc_stop_reason c4 \<noteq> SCancelled"
    using decode_loop_not_cancelled [OF loop] c3(2) by (simp add: silent_host_def)
  then obtain c5 where "decode counting_device silent_host counting_options 6 c3 sv2 2 = Some (st, c5, sv4, w4)"
    "gc_stop_reason c5 \<noteq> SCancelled"
    unfolding decode_def loop using ok by (simp add: silent_host_def Let_def)
  moreover have "Suc (go_max_new_tokens counting_options) = 6" by (simp add: counting_options_def)
  ultimately have "mh_decode ?hooks c3 counting_options (sv2, 2) = ((st, c5), (sv4, w4))" "gc_stop_reason c5 \<noteq> SCancelled"
    by (simp_all add: service_hooks_def)
  moreover have "\<not> invalid_generation_request counting_options recording_callbacks [5, 6]"
    by (simp add: invalid_generation_request_def recording_callbacks_def counting_defs Let_def kMaximumRequestPrefillChunkSize_def
        kReferenceVocabularySize_def is_valid_layer_major_prefill_mlp_schedule_tactic_def)
  ultimately show ?thesis
    using pre c2 ok
    by (simp add: run_generation_control_def checked_required_steps_def counting_options_def gthen_def run_decode_def
        commit_token_def commit_callback_def lift_host_def silent_host_def kReferenceVocabularySize_def Let_def c3_def)
qed

subsection \<open>Properties\<close>

text \<open>
  C1. Speculation does not change the answer. On one request, let a generation run with the speculative
  service, whose device gives the token the target picks whenever a pass succeeds and whose runner keeps its
  promises about the prompt, and let another run without it on a runner whose steps predict what the target
  picks. If both succeed and neither is cancelled, they generate the same tokens, those of greedy decoding of
  the target after the prompt, and stop for the same reason.
\<close>

theorem speculative_equals_plain:
  assumes "\<And>xs x p x'. dv_target dev xs x = (Some p, x') \<Longrightarrow> p = target xs" "prompt_runner cbs opt prompt target"
    "run_generation_control cfg (Some (service_hooks dev host view)) (lift_host host) opt cbs prompt w = (Inr c, w')"
    "run_generation_control cfg' None host' opt cbs' prompt v = (Inr c', v')" "faithful_steps target opt prompt c'"
    "gc_stop_reason c \<noteq> SCancelled" "gc_stop_reason c' \<noteq> SCancelled"
  shows "gc_generated_token_ids c = gc_generated_token_ids c' \<and> gc_stop_reason c = gc_stop_reason c' \<and>
    gc_generated_token_ids c = greedy target prompt (length (gc_generated_token_ids c))"
proof -
  have "greedy_generation target opt prompt c"
    by (rule service_generation [OF faithful_device.intro assms(2,3)]) (rule assms(1))
  moreover have "greedy_generation target opt prompt c'" by (rule plain_generation [OF assms(4,5)])
  ultimately show ?thesis
    using greedy_generation_unique assms(6,7) by (metis greedy_generation_def)
qed

theorem speculative_equals_plain_witness:
  "\<exists>c w'. run_generation_control plain_build (Some (service_hooks counting_device silent_host (\<lambda>_. open_view)))
      (lift_host silent_host) counting_options recording_callbacks [5, 6] (fresh_service, 0) = (Inr c, w') \<and>
     gc_generated_token_ids c = [7, 8, 9]"
proof -
  obtain c w' where run: "run_generation_control plain_build (Some (service_hooks counting_device silent_host (\<lambda>_. open_view)))
      (lift_host silent_host) counting_options recording_callbacks [5, 6] (fresh_service, 0) = (Inr c, w')"
    "gc_stop_reason c \<noteq> SCancelled"
    using recording_run by blast
  have "gc_generated_token_ids c = gc_generated_token_ids counting_control"
    using speculative_equals_plain [OF _ recording.prompt_runner_axioms run(1) counting_run counting_faithful run(2)]
    by (simp add: ideal_device_def counting_control_def)
  then show ?thesis using run by (auto simp: counting_control_def)
qed

end
