(* ===== verification/Safetensors.thy ===== *)
theory Safetensors
  imports Json_Sound "HOL-Library.Product_Lexorder"
begin

text \<open>
  The checkpoint reader of \<^verbatim>\<open>src/io/safetensors.cpp\<close>: element types, the header of one shard, the index of
  a sharded checkpoint, the policy for shard paths and the validation of all shards against the index.

  \<^item> An open file is a \<open>file_view\<close>: whether it opens, the size the stream reports, if any, and the bytes
    that can be read. The two may disagree, as when the file changes while it is read.
  \<^item> The file system below the checkpoint directory is a \<open>checkpoint\<close>: the status of each relative path,
    its text and the file behind it.
  \<^item> A \<^verbatim>\<open>std::map\<close> is the list of its entries in the order of the keys, a \<^verbatim>\<open>std::set\<close> the sorted list of
    its elements. 64-bit integers are natural numbers with the checks of the code. Allocation failure (the
    \<^verbatim>\<open>catch\<close> clauses) is not modelled.
\<close>

subsection \<open>Element types\<close>

datatype dtype =
  DBool | DF4 | DF6E2M3 | DF6E3M2 | DU8 | DI8 | DF8E5M2 | DF8E4M3 | DF8E8M0 | DF8E4M3Fnuz | DF8E5M2Fnuz |
  DI16 | DU16 | DF16 | DBf16 | DI32 | DU32 | DF32 | DC64 | DF64 | DI64 | DU64

definition parse_dtype :: "string \<Rightarrow> dtype option" where
  "parse_dtype name =
     (if name = ''BOOL'' then Some DBool else if name = ''F4'' then Some DF4
      else if name = ''F6_E2M3'' then Some DF6E2M3 else if name = ''F6_E3M2'' then Some DF6E3M2
      else if name = ''U8'' then Some DU8 else if name = ''I8'' then Some DI8
      else if name = ''F8_E5M2'' then Some DF8E5M2 else if name = ''F8_E4M3'' then Some DF8E4M3
      else if name = ''F8_E8M0'' then Some DF8E8M0 else if name = ''F8_E4M3FNUZ'' then Some DF8E4M3Fnuz
      else if name = ''F8_E5M2FNUZ'' then Some DF8E5M2Fnuz else if name = ''I16'' then Some DI16
      else if name = ''U16'' then Some DU16 else if name = ''F16'' then Some DF16
      else if name = ''BF16'' then Some DBf16 else if name = ''I32'' then Some DI32
      else if name = ''U32'' then Some DU32 else if name = ''F32'' then Some DF32
      else if name = ''C64'' then Some DC64 else if name = ''F64'' then Some DF64
      else if name = ''I64'' then Some DI64 else if name = ''U64'' then Some DU64 else None)"

fun dtype_to_string :: "dtype \<Rightarrow> string" where
  "dtype_to_string DBool = ''BOOL''" | "dtype_to_string DF4 = ''F4''"
| "dtype_to_string DF6E2M3 = ''F6_E2M3''" | "dtype_to_string DF6E3M2 = ''F6_E3M2''"
| "dtype_to_string DU8 = ''U8''" | "dtype_to_string DI8 = ''I8''"
| "dtype_to_string DF8E5M2 = ''F8_E5M2''" | "dtype_to_string DF8E4M3 = ''F8_E4M3''"
| "dtype_to_string DF8E8M0 = ''F8_E8M0''" | "dtype_to_string DF8E4M3Fnuz = ''F8_E4M3FNUZ''"
| "dtype_to_string DF8E5M2Fnuz = ''F8_E5M2FNUZ''" | "dtype_to_string DI16 = ''I16''"
| "dtype_to_string DU16 = ''U16''" | "dtype_to_string DF16 = ''F16''" | "dtype_to_string DBf16 = ''BF16''"
| "dtype_to_string DI32 = ''I32''" | "dtype_to_string DU32 = ''U32''" | "dtype_to_string DF32 = ''F32''"
| "dtype_to_string DC64 = ''C64''" | "dtype_to_string DF64 = ''F64''" | "dtype_to_string DI64 = ''I64''"
| "dtype_to_string DU64 = ''U64''"

definition bit_width :: "dtype \<Rightarrow> nat" where
  "bit_width t =
     (if t = DF4 then 4
      else if t \<in> {DF6E2M3, DF6E3M2} then 6
      else if t \<in> {DBool, DU8, DI8, DF8E5M2, DF8E4M3, DF8E8M0, DF8E4M3Fnuz, DF8E5M2Fnuz} then 8
      else if t \<in> {DI16, DU16, DF16, DBf16} then 16
      else if t \<in> {DI32, DU32, DF32} then 32
      else 64)"

subsection \<open>Errors and results\<close>

datatype st_code =
  StInvalidOption | StOpenFailed | StIoFailure | StFileTooSmall | StFileTooLarge | StHeaderTooLarge |
  StInvalidHeaderLength | StInvalidHeaderStart | StInvalidJson | StHeaderNotObject | StTooManyTensors |
  StTensorDescriptorNotObject | StMissingTensorField | StUnknownTensorField | StUnsupportedDType |
  StInvalidShape | StRankLimitExceeded | StArithmeticOverflow | StInvalidDataOffsets | StMisalignedTensor |
  StTensorSizeMismatch | StDataOutOfRange | StOverlappingData | StDataGap | StDataNotFullyCovered |
  StInvalidMetadata | StIndexTooLarge | StIndexNotObject | StMissingWeightMap | StInvalidWeightMap |
  StTooManyShards | StUnsafeShardPath | StShardMissing | StShardNotRegular | StShardSetMismatch |
  StUnexpectedTensor | StTensorInWrongShard | StMissingIndexedTensor | StMissingTotalSize | StPayloadSizeMismatch

text \<open>The message of an error.\<close>

fun st_code_to_string :: "st_code \<Rightarrow> string" where
  "st_code_to_string StInvalidOption = ''invalid safetensors read option''"
| "st_code_to_string StOpenFailed = ''failed to open file''"
| "st_code_to_string StIoFailure = ''file I/O failed''"
| "st_code_to_string StFileTooSmall = ''file is too small for a safetensors prefix''"
| "st_code_to_string StFileTooLarge = ''file exceeds the configured byte limit''"
| "st_code_to_string StHeaderTooLarge = ''safetensors header exceeds the configured byte limit''"
| "st_code_to_string StInvalidHeaderLength = ''safetensors header length is outside the file''"
| "st_code_to_string StInvalidHeaderStart = ''safetensors header does not begin with an object''"
| "st_code_to_string StInvalidJson = ''invalid JSON document''"
| "st_code_to_string StHeaderNotObject = ''safetensors header root is not an object''"
| "st_code_to_string StTooManyTensors = ''tensor count exceeds the configured limit''"
| "st_code_to_string StTensorDescriptorNotObject = ''tensor descriptor is not an object''"
| "st_code_to_string StMissingTensorField = ''tensor descriptor is missing a required field''"
| "st_code_to_string StUnknownTensorField = ''tensor descriptor contains an unknown field''"
| "st_code_to_string StUnsupportedDType = ''tensor dtype is missing, malformed, or unsupported''"
| "st_code_to_string StInvalidShape = ''tensor shape must contain unsigned integer dimensions''"
| "st_code_to_string StRankLimitExceeded = ''tensor rank exceeds the configured limit''"
| "st_code_to_string StArithmeticOverflow = ''integer overflow while validating tensor metadata''"
| "st_code_to_string StInvalidDataOffsets = ''tensor data_offsets must be two ordered unsigned integers''"
| "st_code_to_string StMisalignedTensor = ''sub-byte tensor size is not byte aligned''"
| "st_code_to_string StTensorSizeMismatch = ''tensor offsets do not match shape and dtype size''"
| "st_code_to_string StDataOutOfRange = ''tensor data range is outside the file data buffer''"
| "st_code_to_string StOverlappingData = ''tensor data ranges overlap''"
| "st_code_to_string StDataGap = ''tensor data ranges leave an unindexed gap''"
| "st_code_to_string StDataNotFullyCovered = ''tensor metadata does not cover the complete data buffer''"
| "st_code_to_string StInvalidMetadata = ''checkpoint or index metadata is malformed''"
| "st_code_to_string StIndexTooLarge = ''index JSON exceeds the configured byte limit''"
| "st_code_to_string StIndexNotObject = ''index JSON root is not an object''"
| "st_code_to_string StMissingWeightMap = ''index JSON has no weight_map''"
| "st_code_to_string StInvalidWeightMap = ''index weight_map must map tensor names to shard names''"
| "st_code_to_string StTooManyShards = ''shard count exceeds the configured limit''"
| "st_code_to_string StUnsafeShardPath = ''index contains an unsafe relative shard path''"
| "st_code_to_string StShardMissing = ''referenced shard is missing''"
| "st_code_to_string StShardNotRegular = ''referenced shard is not a regular non-symlink file''"
| "st_code_to_string StShardSetMismatch = ''index shard list disagrees with weight_map''"
| "st_code_to_string StUnexpectedTensor = ''shard contains a tensor not mapped there by the index''"
| "st_code_to_string StTensorInWrongShard = ''tensor is stored in a different shard than the index declares''"
| "st_code_to_string StMissingIndexedTensor = ''index tensor is missing from its declared shard''"
| "st_code_to_string StMissingTotalSize = ''index metadata.total_size is required for shard validation''"
| "st_code_to_string StPayloadSizeMismatch = ''aggregate shard payload bytes differ from metadata.total_size''"

definition kUnknownOffset :: nat where
  "kUnknownOffset = 2 ^ 64 - 1"

definition kDefaultMaxHeaderBytes :: nat where
  "kDefaultMaxHeaderBytes = 100000000"

record st_error =
  er_code :: st_code
  er_offset :: nat
  er_context :: string
  er_expected :: string
  er_actual :: string

type_synonym 'a st_result = "st_error + 'a"

definition st_fail :: "st_code \<Rightarrow> nat \<Rightarrow> string \<Rightarrow> 'a st_result" where
  "st_fail c pos text =
     Inl \<lparr>er_code = c, er_offset = pos, er_context = text, er_expected = [], er_actual = []\<rparr>"

definition st_fail_detail :: "st_code \<Rightarrow> string \<Rightarrow> string \<Rightarrow> string \<Rightarrow> 'a st_result" where
  "st_fail_detail c text expected actual =
     Inl \<lparr>er_code = c, er_offset = kUnknownOffset, er_context = text, er_expected = expected, er_actual = actual\<rparr>"

definition checked_add_u64 :: "nat \<Rightarrow> nat \<Rightarrow> nat option" where
  "checked_add_u64 l r = (if r > 2 ^ 64 - 1 - l then None else Some (l + r))"

definition checked_multiply_u64 :: "nat \<Rightarrow> nat \<Rightarrow> nat option" where
  "checked_multiply_u64 l r = (if l \<noteq> 0 \<and> r > (2 ^ 64 - 1) div l then None else Some (l * r))"

text \<open>\<^verbatim>\<open>std::map::emplace\<close> and \<^verbatim>\<open>std::set::emplace\<close> in key order.\<close>

fun emplace_entry :: "string \<Rightarrow> 'a \<Rightarrow> (string \<times> 'a) list \<Rightarrow> (string \<times> 'a) list" where
  "emplace_entry k v [] = [(k, v)]"
| "emplace_entry k v ((k', v') # ms) =
     (if k < k' then (k, v) # (k', v') # ms
      else if k = k' then (k', v') # ms
      else (k', v') # emplace_entry k v ms)"

definition emplace_set :: "string \<Rightarrow> string list \<Rightarrow> string list" where
  "emplace_set s ss = (if s \<in> set ss then ss else insort s ss)"

subsection \<open>Files\<close>

record file_view =
  fv_opens :: bool
  fv_size :: "nat option"
  fv_bytes :: string

definition read_exact :: "file_view \<Rightarrow> nat \<Rightarrow> nat \<Rightarrow> string option" where
  "read_exact file position n =
     (if n = 0 then Some []
      else if n > 2 ^ 63 - 1 then None
      else if position + n \<le> length (fv_bytes file) then Some (take n (drop position (fv_bytes file)))
      else None)"

definition decode_little_endian_u64 :: "string \<Rightarrow> nat" where
  "decode_little_endian_u64 bytes =
     unat (fold (\<lambda>index value. value OR push_bit (index * 8) (word_of_nat (byte (bytes ! index)))) [0..<8] (0 :: u64))"

subsection \<open>The header of a shard\<close>

record tensor_info =
  ti_dtype :: dtype
  ti_shape :: "nat list"
  ti_element_count :: nat
  ti_byte_size :: nat
  ti_data_begin :: nat
  ti_data_end :: nat
  ti_file_begin :: nat
  ti_file_end :: nat

record header =
  hdr_file_size :: nat
  hdr_header_size :: nat
  hdr_data_offset :: nat
  hdr_data_size :: nat
  hdr_tensors :: "(string \<times> tensor_info) list"
  hdr_metadata :: "(string \<times> string) list"

record read_options =
  ro_max_file_bytes :: nat
  ro_max_header_bytes :: nat
  ro_max_tensors :: nat
  ro_max_rank :: nat
  ro_json_options :: parse_options

definition default_read_options :: read_options where
  "default_read_options = \<lparr>ro_max_file_bytes = 2 ^ 64 - 1, ro_max_header_bytes = kDefaultMaxHeaderBytes,
     ro_max_tensors = 2000000, ro_max_rank = 64, ro_json_options = default_parse_options\<rparr>"

definition is_known_tensor_field :: "string \<Rightarrow> bool" where
  "is_known_tensor_field name \<longleftrightarrow> name = ''dtype'' \<or> name = ''shape'' \<or> name = ''data_offsets''"

fun parse_shape :: "string \<Rightarrow> json_value list \<Rightarrow> nat list \<Rightarrow> nat \<Rightarrow> (nat list \<times> nat) st_result" where
  "parse_shape name [] shape count = Inr (shape, count)"
| "parse_shape name (v # vs) shape count =
     (case Option.bind (as_number v) to_uint64 of
        None \<Rightarrow> st_fail StInvalidShape 8 name
      | Some dimension \<Rightarrow>
          (case checked_multiply_u64 count dimension of
             None \<Rightarrow> st_fail StArithmeticOverflow 8 name
           | Some count \<Rightarrow> parse_shape name vs (shape @ [dimension]) count))"

definition parse_byte_size :: "string \<Rightarrow> nat \<Rightarrow> dtype \<Rightarrow> nat st_result" where
  "parse_byte_size name count t =
     (case checked_multiply_u64 count (bit_width t) of
        None \<Rightarrow> st_fail StArithmeticOverflow 8 name
      | Some bit_count \<Rightarrow>
          if bit_count mod 8 \<noteq> 0 then st_fail StMisalignedTensor 8 name else Inr (bit_count div 8))"

definition parse_data_offsets :: "string \<Rightarrow> json_value \<Rightarrow> (nat \<times> nat) st_result" where
  "parse_data_offsets name v =
     (case as_array v of
        Some [b, e] \<Rightarrow>
          (case (Option.bind (as_number b) to_uint64, Option.bind (as_number e) to_uint64) of
             (Some data_begin, Some data_end) \<Rightarrow>
               if data_end < data_begin then st_fail StInvalidDataOffsets 8 name else Inr (data_begin, data_end)
           | _ \<Rightarrow> st_fail StInvalidDataOffsets 8 name)
      | _ \<Rightarrow> st_fail StInvalidDataOffsets 8 name)"

definition parse_fields :: "string \<Rightarrow> (string \<times> json_value) list \<Rightarrow> (json_value \<times> json_value \<times> json_value) st_result" where
  "parse_fields name descriptor =
     (case List.find (\<lambda>field. \<not> is_known_tensor_field (fst field)) descriptor of
        Some field \<Rightarrow> st_fail StUnknownTensorField 8 (name @ ''.'' @ fst field)
      | None \<Rightarrow>
          (case (map_of descriptor ''dtype'', map_of descriptor ''shape'', map_of descriptor ''data_offsets'') of
             (Some d, Some s, Some offsets) \<Rightarrow> Inr (d, s, offsets)
           | _ \<Rightarrow> st_fail StMissingTensorField 8 name))"

definition parse_tensor_dtype :: "string \<Rightarrow> json_value \<Rightarrow> dtype st_result" where
  "parse_tensor_dtype name v =
     (case as_string v of
        None \<Rightarrow> st_fail StUnsupportedDType 8 name
      | Some s \<Rightarrow> (case parse_dtype s of
          None \<Rightarrow> st_fail StUnsupportedDType 8 (name @ '':'' @ s)
        | Some t \<Rightarrow> Inr t))"

definition place_tensor :: "header \<Rightarrow> string \<Rightarrow> tensor_info \<Rightarrow> tensor_info st_result" where
  "place_tensor h name tensor =
     (if ti_data_end tensor - ti_data_begin tensor \<noteq> ti_byte_size tensor then st_fail StTensorSizeMismatch 8 name
      else if ti_data_begin tensor > hdr_data_size h \<or> ti_data_end tensor > hdr_data_size h
      then st_fail StDataOutOfRange 8 name
      else case (checked_add_u64 (hdr_data_offset h) (ti_data_begin tensor),
                 checked_add_u64 (hdr_data_offset h) (ti_data_end tensor)) of
        (Some file_begin, Some file_end) \<Rightarrow> Inr (tensor\<lparr>ti_file_begin := file_begin, ti_file_end := file_end\<rparr>)
      | _ \<Rightarrow> st_fail StArithmeticOverflow 8 name)"

definition parse_tensor :: "read_options \<Rightarrow> header \<Rightarrow> string \<Rightarrow> json_value \<Rightarrow> tensor_info st_result" where
  "parse_tensor options h name v =
     (case as_object v of
        None \<Rightarrow> st_fail StTensorDescriptorNotObject 8 name
      | Some descriptor \<Rightarrow>
          and_then (parse_fields name descriptor) (\<lambda>(dtype_value, shape_value, offsets_value).
          and_then (parse_tensor_dtype name dtype_value) (\<lambda>t.
          case as_array shape_value of
            None \<Rightarrow> st_fail StInvalidShape 8 name
          | Some shape \<Rightarrow>
              if length shape > ro_max_rank options then st_fail StRankLimitExceeded 8 name
              else
                and_then (parse_shape name shape [] 1) (\<lambda>(dims, count).
                and_then (parse_byte_size name count t) (\<lambda>bytes.
                and_then (parse_data_offsets name offsets_value) (\<lambda>(data_begin, data_end).
                  place_tensor h name \<lparr>ti_dtype = t, ti_shape = dims, ti_element_count = count, ti_byte_size = bytes,
                    ti_data_begin = data_begin, ti_data_end = data_end, ti_file_begin = 0, ti_file_end = 0\<rparr>))))))"

fun parse_metadata :: "(string \<times> json_value) list \<Rightarrow> (string \<times> string) list \<Rightarrow> (string \<times> string) list st_result" where
  "parse_metadata [] metadata = Inr metadata"
| "parse_metadata ((key, v) # items) metadata =
     (case as_string v of
        None \<Rightarrow> st_fail StInvalidMetadata 8 key
      | Some s \<Rightarrow> parse_metadata items (emplace_entry key s metadata))"

type_synonym data_range = "nat \<times> nat \<times> string"

fun parse_entries ::
  "read_options \<Rightarrow> (string \<times> json_value) list \<Rightarrow> header \<Rightarrow> data_range list \<Rightarrow> (header \<times> data_range list) st_result" where
  "parse_entries options [] h ranges = Inr (h, ranges)"
| "parse_entries options ((name, v) # entries) h ranges =
     (if name = ''__metadata__'' then
        (case as_object v of
           None \<Rightarrow> st_fail StInvalidMetadata 8 ''__metadata__''
         | Some items \<Rightarrow>
             and_then (parse_metadata items (hdr_metadata h)) (\<lambda>metadata.
               parse_entries options entries (h\<lparr>hdr_metadata := metadata\<rparr>) ranges))
      else
        and_then (parse_tensor options h name v) (\<lambda>tensor.
          parse_entries options entries (h\<lparr>hdr_tensors := emplace_entry name tensor (hdr_tensors h)\<rparr>)
            (ranges @ [(ti_data_begin tensor, ti_data_end tensor, name)])))"

fun check_ranges :: "data_range list \<Rightarrow> nat \<Rightarrow> nat st_result" where
  "check_ranges [] cursor = Inr cursor"
| "check_ranges ((data_begin, data_end, name) # ranges) cursor =
     (if data_begin < cursor then st_fail StOverlappingData 8 name
      else if data_begin > cursor then st_fail StDataGap 8 name
      else check_ranges ranges data_end)"

definition parse_header_document :: "json_value \<Rightarrow> nat \<Rightarrow> nat \<Rightarrow> read_options \<Rightarrow> header st_result" where
  "parse_header_document document file_size header_size options =
     (case as_object document of
        None \<Rightarrow> st_fail StHeaderNotObject 8 []
      | Some entries \<Rightarrow>
          (case checked_add_u64 8 header_size of
             None \<Rightarrow> st_fail StInvalidHeaderLength 0 []
           | Some data_offset \<Rightarrow>
               if data_offset > file_size then st_fail StInvalidHeaderLength 0 []
               else if length (filter (\<lambda>entry. fst entry \<noteq> ''__metadata__'') entries) > ro_max_tensors options
               then st_fail StTooManyTensors 8 []
               else
                 and_then (parse_entries options entries
                     \<lparr>hdr_file_size = file_size, hdr_header_size = header_size, hdr_data_offset = data_offset,
                      hdr_data_size = file_size - data_offset, hdr_tensors = [], hdr_metadata = []\<rparr> []) (\<lambda>(h, ranges).
                 and_then (check_ranges (sort ranges) 0) (\<lambda>cursor.
                   if cursor \<noteq> hdr_data_size h then st_fail StDataNotFullyCovered 8 [] else Inr h))))"

definition find_tensor :: "header \<Rightarrow> string \<Rightarrow> tensor_info option" where
  "find_tensor h name = map_of (hdr_tensors h) name"

definition read_header :: "string \<Rightarrow> file_view \<Rightarrow> read_options \<Rightarrow> header st_result" where
  "read_header path file options =
     (if \<not> fv_opens file then st_fail StOpenFailed kUnknownOffset path
      else case fv_size file of
        None \<Rightarrow> st_fail StIoFailure kUnknownOffset path
      | Some file_size \<Rightarrow>
          if file_size > ro_max_file_bytes options then st_fail StFileTooLarge kUnknownOffset path
          else if file_size < 8 then st_fail StFileTooSmall file_size path
          else case read_exact file 0 8 of
            None \<Rightarrow> st_fail StIoFailure 0 path
          | Some length_bytes \<Rightarrow>
              (let header_size = decode_little_endian_u64 length_bytes in
               if header_size > ro_max_header_bytes options \<or> header_size > 2 ^ 64 - 1 \<or> header_size > 2 ^ 63 - 1
               then st_fail StHeaderTooLarge 0 path
               else case checked_add_u64 8 header_size of
                 None \<Rightarrow> st_fail StInvalidHeaderLength 0 path
               | Some data_offset \<Rightarrow>
                   if data_offset > file_size then st_fail StInvalidHeaderLength 0 path
                   else case read_exact file 8 header_size of
                     None \<Rightarrow> st_fail StIoFailure 8 path
                   | Some header_text \<Rightarrow>
                       if header_text = [] \<or> hd header_text \<noteq> CHR ''{'' then st_fail StInvalidHeaderStart 8 path
                       else case json_parse header_text (ro_json_options options) of
                         Inl e \<Rightarrow>
                           st_fail StInvalidJson
                             (case checked_add_u64 8 (offset e) of None \<Rightarrow> kUnknownOffset | Some n \<Rightarrow> n)
                             (error_to_string (code e))
                       | Inr document \<Rightarrow> parse_header_document document file_size header_size options))"

subsection \<open>The index of a checkpoint\<close>

record checkpoint_index =
  ix_weight_map :: "(string \<times> string) list"
  ix_shards :: "string list"
  ix_metadata :: "(string \<times> json_value) list"
  ix_total_size :: "nat option"

record index_read_options =
  io_max_file_bytes :: nat
  io_max_tensors :: nat
  io_max_shards :: nat
  io_json_options :: parse_options

fun parse_weight_map ::
  "index_read_options \<Rightarrow> (string \<times> json_value) list \<Rightarrow> (string \<times> string) list \<Rightarrow> string list \<Rightarrow>
   ((string \<times> string) list \<times> string list) st_result" where
  "parse_weight_map options [] weight_map shards = Inr (weight_map, shards)"
| "parse_weight_map options ((name, v) # items) weight_map shards =
     (case as_string v of
        None \<Rightarrow> st_fail StInvalidWeightMap 0 name
      | Some shard \<Rightarrow>
          if name = [] \<or> shard = [] \<or> CHR 0x00 \<in> set shard then st_fail StInvalidWeightMap 0 name
          else
            (let shards = emplace_set shard shards in
             if length shards > io_max_shards options then st_fail StTooManyShards 0 shard
             else parse_weight_map options items (emplace_entry name shard weight_map) shards))"

definition parse_index_metadata :: "(string \<times> json_value) list \<Rightarrow> ((string \<times> json_value) list \<times> nat option) st_result" where
  "parse_index_metadata entries =
     (case map_of entries ''metadata'' of
        None \<Rightarrow> Inr ([], None)
      | Some v \<Rightarrow>
          (case as_object v of
             None \<Rightarrow> st_fail StInvalidMetadata 0 ''metadata''
           | Some metadata \<Rightarrow>
               (case map_of metadata ''total_size'' of
                  None \<Rightarrow> Inr (metadata, None)
                | Some total_value \<Rightarrow>
                    (case Option.bind (as_number total_value) to_uint64 of
                       None \<Rightarrow> st_fail StInvalidMetadata 0 ''metadata.total_size''
                     | Some total_size \<Rightarrow> Inr (metadata, Some total_size)))))"

definition parse_index_document :: "json_value \<Rightarrow> index_read_options \<Rightarrow> checkpoint_index st_result" where
  "parse_index_document document options =
     (case as_object document of
        None \<Rightarrow> st_fail StIndexNotObject 0 []
      | Some entries \<Rightarrow>
          (case map_of entries ''weight_map'' of
             None \<Rightarrow> st_fail StMissingWeightMap 0 ''weight_map''
           | Some v \<Rightarrow>
               (case as_object v of
                  None \<Rightarrow> st_fail StInvalidWeightMap 0 ''weight_map''
                | Some weight_map \<Rightarrow>
                    if weight_map = [] then st_fail StInvalidWeightMap 0 ''weight_map''
                    else if length weight_map > io_max_tensors options then st_fail StTooManyTensors 0 ''weight_map''
                    else
                      and_then (parse_weight_map options weight_map [] []) (\<lambda>(names, shards).
                      and_then (parse_index_metadata entries) (\<lambda>(metadata, total_size).
                        Inr \<lparr>ix_weight_map = names, ix_shards = shards, ix_metadata = metadata,
                          ix_total_size = total_size\<rparr>)))))"

definition shard_for :: "checkpoint_index \<Rightarrow> string \<Rightarrow> string option" where
  "shard_for index name = map_of (ix_weight_map index) name"

definition read_index :: "string \<Rightarrow> file_view \<Rightarrow> index_read_options \<Rightarrow> checkpoint_index st_result" where
  "read_index path file options =
     (if \<not> fv_opens file then st_fail StOpenFailed kUnknownOffset path
      else case fv_size file of
        None \<Rightarrow> st_fail StIoFailure kUnknownOffset path
      | Some file_size \<Rightarrow>
          if file_size > io_max_file_bytes options \<or> file_size > 2 ^ 64 - 1 \<or> file_size > 2 ^ 63 - 1
          then st_fail StIndexTooLarge kUnknownOffset path
          else case read_exact file 0 file_size of
            None \<Rightarrow> st_fail StIoFailure 0 path
          | Some s \<Rightarrow>
              (case json_parse s (io_json_options options) of
                 Inl e \<Rightarrow> st_fail StInvalidJson (offset e) (error_to_string (code e))
               | Inr document \<Rightarrow> parse_index_document document options))"

subsection \<open>Shard paths\<close>

text \<open>
  \<^verbatim>\<open>std::filesystem::path\<close> on this platform: the components of a path without a leading, trailing or double
  slash are the parts between the slashes, and the extension of the last one starts at its last dot, unless
  that is its first character or the name is a dot component.
\<close>

fun path_components :: "string \<Rightarrow> string list" where
  "path_components [] = [[]]"
| "path_components (c # cs) =
     (if c = CHR ''/'' then [] # path_components cs
      else (c # hd (path_components cs)) # tl (path_components cs))"

definition path_extension :: "string \<Rightarrow> string" where
  "path_extension name =
     (let stem = rev (tl (dropWhile (\<lambda>c. c \<noteq> CHR ''.'') (rev name))) in
      if name = ''.'' \<or> name = ''..'' \<or> CHR ''.'' \<notin> set name \<or> stem = [] then [] else drop (length stem) name)"

definition is_safe_relative_shard_path :: "string \<Rightarrow> bool" where
  "is_safe_relative_shard_path path \<longleftrightarrow>
     \<not> (path = [] \<or> length path > 4096 \<or> hd path = CHR ''/'' \<or> last path = CHR ''/'' \<or> sublist ''//'' path \<or>
        CHR 0x5C \<in> set path \<or> CHR '':'' \<in> set path) \<and>
     list_all (\<lambda>c. \<not> (byte c < 0x20 \<or> byte c = 0x7F)) path \<and>
     path_extension (last (path_components path)) = ''.safetensors'' \<and>
     list_all (\<lambda>component. component \<noteq> [] \<and> component \<noteq> ''.'' \<and> component \<noteq> ''..'') (path_components path)"

subsection \<open>Shards against the index\<close>

datatype file_status = FsError string | FsNoEntry | FsNotFound | FsSymlink | FsDirectory | FsRegular | FsOther

record checkpoint =
  cp_status :: "string list \<Rightarrow> file_status"
  cp_path :: "string list \<Rightarrow> string"
  cp_file :: "string list \<Rightarrow> file_view"

record validation_options =
  vo_max_shards :: nat
  vo_max_tensors :: nat
  vo_header_options :: read_options

record validation_summary =
  vs_validated_shards :: nat
  vs_validated_tensors :: nat
  vs_payload_bytes :: nat

fun check_mappings :: "nat \<Rightarrow> (string \<times> string) list \<Rightarrow> string list \<Rightarrow> string list st_result" where
  "check_mappings max_shards [] referenced = Inr referenced"
| "check_mappings max_shards ((name, shard) # mappings) referenced =
     (if name = [] \<or> shard = [] then st_fail StInvalidWeightMap kUnknownOffset name
      else if \<not> is_safe_relative_shard_path shard then st_fail StUnsafeShardPath kUnknownOffset shard
      else
        (let referenced = emplace_set shard referenced in
         if length referenced > max_shards then st_fail StTooManyShards kUnknownOffset shard
         else check_mappings max_shards mappings referenced))"

fun check_shard_list :: "string list \<Rightarrow> string list \<Rightarrow> unit st_result" where
  "check_shard_list [] stored = Inr ()"
| "check_shard_list (r # referenced) [] = st_fail_detail StShardSetMismatch ''shards'' r ''<end>''"
| "check_shard_list (r # referenced) (s # stored) =
     (if s \<noteq> r then st_fail_detail StShardSetMismatch ''shards'' r s else check_shard_list referenced stored)"

text \<open>The status of every prefix of a shard path: directories up to the last, which is a regular file.\<close>

fun check_components :: "checkpoint \<Rightarrow> string \<Rightarrow> string list \<Rightarrow> string list \<Rightarrow> unit st_result" where
  "check_components cp shard parents [] = Inr ()"
| "check_components cp shard parents (component # rest) =
     (let path = parents @ [component] in
      case cp_status cp path of
        FsNoEntry \<Rightarrow> st_fail StShardMissing kUnknownOffset shard
      | FsError m \<Rightarrow> st_fail_detail StIoFailure shard [] m
      | FsNotFound \<Rightarrow> st_fail StShardMissing kUnknownOffset shard
      | FsSymlink \<Rightarrow> st_fail_detail StUnsafeShardPath shard
          ''path components contained within checkpoint root'' (cp_path cp path)
      | status \<Rightarrow>
          if rest \<noteq> [] \<and> status \<noteq> FsDirectory then st_fail StShardNotRegular kUnknownOffset shard
          else if rest = [] \<and> status \<noteq> FsRegular then st_fail StShardNotRegular kUnknownOffset shard
          else check_components cp shard path rest)"

fun check_tensors ::
  "nat \<Rightarrow> (string \<times> string) list \<Rightarrow> string \<Rightarrow> (string \<times> tensor_info) list \<Rightarrow> string list \<Rightarrow> nat \<Rightarrow>
   (string list \<times> nat) st_result" where
  "check_tensors max_tensors weight_map shard [] seen count = Inr (seen, count)"
| "check_tensors max_tensors weight_map shard ((name, _) # tensors) seen count =
     (case map_of weight_map name of
        None \<Rightarrow> st_fail_detail StUnexpectedTensor name ''tensor present in index weight_map'' shard
      | Some declared \<Rightarrow>
          if declared \<noteq> shard then st_fail_detail StTensorInWrongShard name declared shard
          else if name \<in> set seen
          then st_fail_detail StUnexpectedTensor name ''tensor stored exactly once'' ''duplicate tensor across shards''
          else if count \<ge> max_tensors then st_fail StTooManyTensors kUnknownOffset name
          else check_tensors max_tensors weight_map shard tensors (emplace_set name seen) (count + 1))"

fun check_shards ::
  "checkpoint \<Rightarrow> validation_options \<Rightarrow> (string \<times> string) list \<Rightarrow> string list \<Rightarrow> string list \<Rightarrow> validation_summary \<Rightarrow>
   (string list \<times> validation_summary) st_result" where
  "check_shards cp options weight_map [] seen summary = Inr (seen, summary)"
| "check_shards cp options weight_map (shard # shards) seen summary =
     (let components = path_components shard;
          header_options = (vo_header_options options)\<lparr>ro_max_tensors :=
            min (ro_max_tensors (vo_header_options options)) (vo_max_tensors options)\<rparr> in
      and_then (check_components cp shard [] components) (\<lambda>_.
      case read_header (cp_path cp components) (cp_file cp components) header_options of
        Inl e \<Rightarrow> Inl (e\<lparr>er_actual := er_context e, er_context := shard, er_expected := ''valid safetensors shard header''\<rparr>)
      | Inr h \<Rightarrow>
          if vs_validated_shards summary \<ge> vo_max_shards options then st_fail StTooManyShards kUnknownOffset shard
          else case checked_add_u64 (vs_payload_bytes summary) (hdr_data_size h) of
            None \<Rightarrow> st_fail StArithmeticOverflow kUnknownOffset shard
          | Some payload \<Rightarrow>
              and_then (check_tensors (vo_max_tensors options) weight_map shard (hdr_tensors h) seen
                  (vs_validated_tensors summary)) (\<lambda>(seen, count).
                check_shards cp options weight_map shards seen
                  (summary\<lparr>vs_validated_shards := vs_validated_shards summary + 1, vs_payload_bytes := payload,
                     vs_validated_tensors := count\<rparr>))))"

definition validate_index_shards :: "checkpoint \<Rightarrow> checkpoint_index \<Rightarrow> validation_options \<Rightarrow> validation_summary st_result" where
  "validate_index_shards cp index options =
     (let weight_map = ix_weight_map index in
      if vo_max_shards options = 0 \<or> vo_max_tensors options = 0 \<or> ro_max_tensors (vo_header_options options) = 0
      then st_fail StInvalidOption kUnknownOffset []
      else if weight_map = [] then st_fail StInvalidWeightMap kUnknownOffset ''weight_map''
      else if length weight_map > vo_max_tensors options then st_fail StTooManyTensors kUnknownOffset ''weight_map''
      else
        and_then (check_mappings (vo_max_shards options) weight_map []) (\<lambda>referenced.
        if length (ix_shards index) \<noteq> length referenced
        then st_fail_detail StShardSetMismatch ''shards'' (to_string_nat (length referenced) @ '' referenced shards'')
               (to_string_nat (length (ix_shards index)) @ '' stored shards'')
        else
          and_then (check_shard_list referenced (ix_shards index)) (\<lambda>_.
          case ix_total_size index of
            None \<Rightarrow> st_fail StMissingTotalSize kUnknownOffset ''metadata.total_size''
          | Some total_size \<Rightarrow>
              and_then (check_shards cp options weight_map referenced []
                  \<lparr>vs_validated_shards = 0, vs_validated_tensors = 0, vs_payload_bytes = 0\<rparr>) (\<lambda>(seen, summary).
              case List.find (\<lambda>mapping. fst mapping \<notin> set seen) weight_map of
                Some mapping \<Rightarrow> st_fail_detail StMissingIndexedTensor (fst mapping) (snd mapping)
                  ''tensor absent from referenced shard''
              | None \<Rightarrow>
                  if vs_validated_tensors summary \<noteq> length weight_map
                  then st_fail StArithmeticOverflow kUnknownOffset ''validated_tensors''
                  else if vs_payload_bytes summary \<noteq> total_size
                  then st_fail_detail StPayloadSizeMismatch ''metadata.total_size'' (to_string_nat total_size)
                         (to_string_nat (vs_payload_bytes summary))
                  else Inr summary))))"

end
