(* ===== verification/Safetensors_Sound.thy ===== *)
theory Safetensors_Sound
  imports Safetensors "HOL-Library.Multiset"
begin

text \<open>
  Soundness of the checkpoint reader. A header that is accepted lays its tensors out over the payload
  without gap or overlap; an index that passes validation names every tensor of every shard exactly once;
  a shard path that passes the policy is a plain relative path.
\<close>

subsection \<open>Shard paths\<close>

primrec join_path :: "string list \<Rightarrow> string" where
  "join_path [] = []"
| "join_path (c # cs) = (if cs = [] then c else c @ CHR ''/'' # join_path cs)"

lemma path_components_not_Nil [simp]: "path_components p \<noteq> []"
  by (cases p) auto

lemma join_path_components: "join_path (path_components p) = p"
proof (induction p)
  case (Cons c p)
  obtain d ds where "path_components p = d # ds" by (cases "path_components p") auto
  then show ?case using Cons by auto
qed simp

lemma path_components_plain: "CHR ''/'' \<notin> set p \<Longrightarrow> path_components p = [p]"
  by (induction p) auto

lemma path_components_append: "path_components (p @ CHR ''/'' # q) = path_components p @ path_components q"
  by (induction p) auto

lemma path_components_join:
  "cs \<noteq> [] \<Longrightarrow> \<forall>c\<in>set cs. CHR ''/'' \<notin> set c \<Longrightarrow> path_components (join_path cs) = cs"
  by (induction cs) (auto simp: path_components_plain path_components_append)

lemma path_components_chars: "(\<Union>c\<in>set (path_components p). set c) = set p - {CHR ''/''}"
proof (induction p)
  case (Cons c p)
  obtain d ds where "path_components p = d # ds" by (cases "path_components p") auto
  then show ?case using Cons by auto
qed simp

lemma empty_component:
  assumes "[] \<notin> set (path_components p)" "p \<noteq> []"
  shows "hd p \<noteq> CHR ''/''" "last p \<noteq> CHR ''/''" "\<not> sublist ''//'' p"
proof -
  show "hd p \<noteq> CHR ''/''" using assms by (cases p) auto
  show "last p \<noteq> CHR ''/''"
    using assms path_components_append [of _ "[]"] by (cases p rule: rev_cases) auto
  show "\<not> sublist ''//'' p"
  proof
    assume "sublist ''//'' p"
    then obtain a b where "p = a @ CHR ''/'' # CHR ''/'' # b" by (auto simp: sublist_def)
    then show False using assms(1) by (simp add: path_components_append)
  qed
qed

lemma path_extension_iff:
  assumes "ext = CHR ''.'' # e" "CHR ''.'' \<notin> set e" "e \<noteq> []"
  shows "path_extension name = ext \<longleftrightarrow> (\<exists>stem. stem \<noteq> [] \<and> name = stem @ ext)"
proof
  assume ext: "path_extension name = ext"
  define stem where "stem = rev (tl (dropWhile (\<lambda>c. c \<noteq> CHR ''.'') (rev name)))"
  have "stem \<noteq> []" "drop (length stem) name = ext"
    using ext assms(1) by (auto simp: path_extension_def Let_def stem_def split: if_splits)
  moreover have "take (length stem) name = stem"
  proof -
    have "rev name = takeWhile (\<lambda>c. c \<noteq> CHR ''.'') (rev name) @ dropWhile (\<lambda>c. c \<noteq> CHR ''.'') (rev name)" by simp
    moreover have "dropWhile (\<lambda>c. c \<noteq> CHR ''.'') (rev name) = hd (dropWhile (\<lambda>c. c \<noteq> CHR ''.'') (rev name)) # rev stem"
      using \<open>stem \<noteq> []\<close> by (cases "dropWhile (\<lambda>c. c \<noteq> CHR ''.'') (rev name)") (auto simp: stem_def)
    ultimately obtain u c where "rev name = u @ c # rev stem" by metis
    then have "name = stem @ [c] @ rev u" by (metis append.assoc append_Cons append_Nil rev.simps(2) rev_append rev_rev_ident)
    then show ?thesis by simp
  qed
  ultimately show "\<exists>stem. stem \<noteq> [] \<and> name = stem @ ext" by (metis append_take_drop_id)
next
  assume "\<exists>stem. stem \<noteq> [] \<and> name = stem @ ext"
  then obtain stem where stem: "stem \<noteq> []" "name = stem @ ext" by blast
  have "dropWhile (\<lambda>c. c \<noteq> CHR ''.'') (rev e @ CHR ''.'' # rev stem) = CHR ''.'' # rev stem"
    using assms(2) by (subst dropWhile_append2) auto
  then have "dropWhile (\<lambda>c. c \<noteq> CHR ''.'') (rev name) = CHR ''.'' # rev stem"
    using stem(2) assms(1) by simp
  moreover have "name \<noteq> ''.''" "name \<noteq> ''..''"
    using stem assms by (cases stem; cases e; auto)+
  ultimately show "path_extension name = ext"
    using stem assms(1) by (auto simp: path_extension_def Let_def)
qed

subsection \<open>Headers\<close>

text \<open>A tensor whose size follows from its shape and type, placed inside the payload of its shard.\<close>

definition tensor_placed :: "header \<Rightarrow> tensor_info \<Rightarrow> bool" where
  "tensor_placed h t \<longleftrightarrow>
     ti_element_count t = prod_list (ti_shape t) \<and> 8 * ti_byte_size t = ti_element_count t * bit_width (ti_dtype t) \<and>
     ti_data_end t = ti_data_begin t + ti_byte_size t \<and> ti_data_end t \<le> hdr_data_size h \<and>
     ti_file_begin t = hdr_data_offset h + ti_data_begin t \<and> ti_file_end t = hdr_data_offset h + ti_data_end t"

lemma checked_multiply_ok: "checked_multiply_u64 l r = Some n \<Longrightarrow> n = l * r"
  by (auto simp: checked_multiply_u64_def split: if_splits)

lemma checked_add_ok: "checked_add_u64 l r = Some n \<Longrightarrow> n = l + r"
  by (auto simp: checked_add_u64_def split: if_splits)

lemma st_fail_not_Inr [simp]: "st_fail c p s \<noteq> Inr x" "st_fail_detail c s e a \<noteq> Inr x"
  by (simp_all add: st_fail_def st_fail_detail_def)

lemma parse_shape_ok: "parse_shape name vs shape (prod_list shape) = Inr (dims, n) \<Longrightarrow> n = prod_list dims"
proof (induction vs arbitrary: shape)
  case (Cons v vs)
  then obtain d where "parse_shape name vs (shape @ [d]) (prod_list (shape @ [d])) = Inr (dims, n)"
    by (auto split: option.splits dest!: checked_multiply_ok)
  then show ?case by (rule Cons.IH)
qed simp

lemma parse_byte_size_ok: "parse_byte_size name elements t = Inr n \<Longrightarrow> 8 * n = elements * bit_width t"
  by (auto simp: parse_byte_size_def split: option.splits if_splits dest!: checked_multiply_ok)

lemma parse_data_offsets_ok: "parse_data_offsets name v = Inr (b, e) \<Longrightarrow> b \<le> e"
  by (auto simp: parse_data_offsets_def split: option.splits list.splits if_splits)

lemma place_tensor_ok:
  assumes "place_tensor h name t = Inr t'" "ti_data_begin t \<le> ti_data_end t"
    "ti_element_count t = prod_list (ti_shape t)" "8 * ti_byte_size t = ti_element_count t * bit_width (ti_dtype t)"
  shows "tensor_placed h t'"
  using assms
  by (auto simp: place_tensor_def tensor_placed_def split: if_splits option.splits prod.splits dest!: checked_add_ok)

lemma parse_tensor_ok:
  assumes "parse_tensor options h name v = Inr t"
  shows "tensor_placed h t"
proof -
  from assms obtain d vs dims elements bytes b e offsets where
    "parse_shape name vs [] 1 = Inr (dims, elements)" "parse_byte_size name elements d = Inr bytes"
    "parse_data_offsets name offsets = Inr (b, e)"
    "place_tensor h name \<lparr>ti_dtype = d, ti_shape = dims, ti_element_count = elements, ti_byte_size = bytes,
       ti_data_begin = b, ti_data_end = e, ti_file_begin = 0, ti_file_end = 0\<rparr> = Inr t"
    by (auto simp: parse_tensor_def and_then_eq_Inr split: option.splits if_splits)
  then show ?thesis
    using parse_shape_ok [of name vs "[]"] parse_byte_size_ok parse_data_offsets_ok by (intro place_tensor_ok) auto
qed

lemma emplace_entry_last: "\<forall>k'\<in>fst ` set ms. k' < k \<Longrightarrow> emplace_entry k v ms = ms @ [(k, v)]"
  by (induction ms) auto

definition same_geometry :: "header \<Rightarrow> header \<Rightarrow> bool" where
  "same_geometry h h' \<longleftrightarrow> hdr_file_size h' = hdr_file_size h \<and> hdr_header_size h' = hdr_header_size h \<and>
     hdr_data_offset h' = hdr_data_offset h \<and> hdr_data_size h' = hdr_data_size h"

lemma tensor_placed_geometry: "same_geometry h h' \<Longrightarrow> tensor_placed h' t = tensor_placed h t"
  by (simp add: same_geometry_def tensor_placed_def)

definition range_of :: "string \<times> tensor_info \<Rightarrow> data_range" where
  "range_of nt = (ti_data_begin (snd nt), ti_data_end (snd nt), fst nt)"

lemma parse_entries_ok:
  assumes "parse_entries options entries h ranges = Inr (h', ranges')" "sorted_wrt (<) (map fst entries)"
    "\<forall>k\<in>fst ` set (hdr_tensors h). \<forall>e\<in>set entries. k < fst e" "sorted_wrt (<) (map fst (hdr_tensors h))"
    "\<forall>nt\<in>set (hdr_tensors h). tensor_placed h (snd nt)" "ranges = map range_of (hdr_tensors h)"
  shows "same_geometry h h' \<and> sorted_wrt (<) (map fst (hdr_tensors h')) \<and>
    (\<forall>nt\<in>set (hdr_tensors h'). tensor_placed h (snd nt)) \<and> ranges' = map range_of (hdr_tensors h')"
  using assms
proof (induction options entries h ranges rule: parse_entries.induct)
  case (1 options h ranges)
  then show ?case by (auto simp: same_geometry_def)
next
  case (2 options name v entries h ranges)
  show ?case
  proof (cases "name = ''__metadata__''")
    case True
    with "2.prems"(1) obtain items metadata where
      "as_object v = Some items" "parse_metadata items (hdr_metadata h) = Inr metadata"
      "parse_entries options entries (h\<lparr>hdr_metadata := metadata\<rparr>) ranges = Inr (h', ranges')"
      by (auto simp: and_then_eq_Inr split: option.splits)
    note run = this
    have geo: "same_geometry h (h\<lparr>hdr_metadata := metadata\<rparr>)" by (simp add: same_geometry_def)
    have "same_geometry (h\<lparr>hdr_metadata := metadata\<rparr>) h' \<and> sorted_wrt (<) (map fst (hdr_tensors h')) \<and>
      (\<forall>nt\<in>set (hdr_tensors h'). tensor_placed (h\<lparr>hdr_metadata := metadata\<rparr>) (snd nt)) \<and>
      ranges' = map range_of (hdr_tensors h')"
      using "2.prems"(2-6) by (intro "2.IH"(1) [OF True run]) (simp_all add: tensor_placed_geometry [OF geo])
    then show ?thesis by (simp add: tensor_placed_geometry [OF geo]) (simp add: same_geometry_def)
  next
    case False
    with "2.prems"(1) obtain t where t: "parse_tensor options h name v = Inr t" and
      run: "parse_entries options entries (h\<lparr>hdr_tensors := emplace_entry name t (hdr_tensors h)\<rparr>)
        (ranges @ [(ti_data_begin t, ti_data_end t, name)]) = Inr (h', ranges')"
      by (auto simp: and_then_eq_Inr)
    have last: "emplace_entry name t (hdr_tensors h) = hdr_tensors h @ [(name, t)]"
      using "2.prems"(3) by (intro emplace_entry_last) auto
    let ?h = "h\<lparr>hdr_tensors := hdr_tensors h @ [(name, t)]\<rparr>"
    have geo: "same_geometry h ?h" by (simp add: same_geometry_def)
    have placed: "tensor_placed h t" using t by (rule parse_tensor_ok)
    have "same_geometry ?h h' \<and> sorted_wrt (<) (map fst (hdr_tensors h')) \<and>
      (\<forall>nt\<in>set (hdr_tensors h'). tensor_placed ?h (snd nt)) \<and> ranges' = map range_of (hdr_tensors h')"
    proof (rule "2.IH"(2) [OF False t run, unfolded last])
      show "sorted_wrt (<) (map fst entries)" using "2.prems"(2) by simp
      show "\<forall>k\<in>fst ` set (hdr_tensors ?h). \<forall>e\<in>set entries. k < fst e" using "2.prems"(2,3) by auto
      show "sorted_wrt (<) (map fst (hdr_tensors ?h))" using "2.prems"(3,4) by (auto simp: sorted_wrt_append)
      show "\<forall>nt\<in>set (hdr_tensors ?h). tensor_placed ?h (snd nt)"
        using "2.prems"(5) placed by (simp add: tensor_placed_geometry [OF geo])
      show "ranges @ [(ti_data_begin t, ti_data_end t, name)] = map range_of (hdr_tensors ?h)"
        using "2.prems"(6) by (simp add: range_of_def)
    qed
    then show ?thesis by (simp add: tensor_placed_geometry [OF geo]) (simp add: same_geometry_def)
  qed
qed

text \<open>Ranges that pass the check follow each other: every position is in exactly one of them.\<close>

definition owners :: "nat \<Rightarrow> data_range list \<Rightarrow> nat" where
  "owners k rs = length (filter (\<lambda>(b, e, n). b \<le> k \<and> k < e) rs)"

lemma owners_simps [simp]:
  "owners k [] = 0" "owners k ((b, e, n) # rs) = (if b \<le> k \<and> k < e then 1 else 0) + owners k rs"
  by (simp_all add: owners_def)

lemma check_ranges_ok:
  assumes "check_ranges rs cursor = Inr final" "\<forall>(b, e, n)\<in>set rs. b \<le> e"
  shows "cursor \<le> final \<and> sum_list (map (\<lambda>(b, e, n). e - b) rs) = final - cursor \<and>
    (\<forall>k. owners k rs = (if cursor \<le> k \<and> k < final then 1 else 0))"
  using assms
proof (induction rs cursor rule: check_ranges.induct)
  case (1 cursor)
  then show ?case by auto
next
  case (2 b e n rs cursor)
  then have IH: "e \<le> final \<and> sum_list (map (\<lambda>(b, e, n). e - b) rs) = final - e \<and>
      (\<forall>k. owners k rs = (if e \<le> k \<and> k < final then 1 else 0))" and "b = cursor" "b \<le> e"
    by (auto split: if_splits)
  then show ?case by auto
qed

lemma owners_mset: "mset rs = mset rs' \<Longrightarrow> owners k rs = owners k rs'"
  by (metis owners_def mset_filter size_mset)

lemma parse_header_document_ok:
  assumes "parse_header_document document file_size header_size options = Inr h" "wf_value document"
  shows "hdr_data_offset h = 8 + hdr_header_size h" "hdr_data_offset h + hdr_data_size h = hdr_file_size h"
    "hdr_file_size h = file_size" "hdr_header_size h = header_size"
    "sorted_wrt (<) (map fst (hdr_tensors h))" "\<forall>nt\<in>set (hdr_tensors h). tensor_placed h (snd nt)"
    "owners k (map range_of (hdr_tensors h)) = (if k < hdr_data_size h then 1 else 0)"
    "sum_list (map (ti_byte_size \<circ> snd) (hdr_tensors h)) = hdr_data_size h"
proof -
  from assms obtain entries data_offset ranges where doc: "document = JObject entries"
    and off: "checked_add_u64 8 header_size = Some data_offset" "data_offset \<le> file_size"
    and run: "parse_entries options entries
       \<lparr>hdr_file_size = file_size, hdr_header_size = header_size, hdr_data_offset = data_offset,
        hdr_data_size = file_size - data_offset, hdr_tensors = [], hdr_metadata = []\<rparr> [] = Inr (h, ranges)"
    and chk: "check_ranges (sort ranges) 0 = Inr (hdr_data_size h)"
    by (cases document) (auto simp: parse_header_document_def and_then_eq_Inr split: option.splits if_splits)
  have "sorted_wrt (<) (map fst entries)" using assms(2) doc by simp
  note ok = parse_entries_ok [OF run this]
  show "hdr_data_offset h = 8 + hdr_header_size h" "hdr_data_offset h + hdr_data_size h = hdr_file_size h"
    "hdr_file_size h = file_size" "hdr_header_size h = header_size"
    using ok off by (auto simp: same_geometry_def dest!: checked_add_ok)
  show "sorted_wrt (<) (map fst (hdr_tensors h))" using ok by simp
  show placed: "\<forall>nt\<in>set (hdr_tensors h). tensor_placed h (snd nt)"
    using ok by (auto simp: same_geometry_def tensor_placed_def)
  have rs: "ranges = map range_of (hdr_tensors h)" using ok by simp
  have "\<forall>(b, e, n)\<in>set (sort ranges). b \<le> e"
    using placed by (auto simp: rs range_of_def tensor_placed_def)
  note cover = check_ranges_ok [OF chk this]
  show "owners k (map range_of (hdr_tensors h)) = (if k < hdr_data_size h then 1 else 0)"
    using cover owners_mset [of "sort ranges" ranges k] by (simp add: rs)
  have "sum_list (map (\<lambda>(b, e, n). e - b) (sort ranges)) = sum_list (map (\<lambda>(b, e, n). e - b) ranges)"
    by (simp flip: sum_mset_sum_list)
  moreover have "map (\<lambda>(b, e, n). e - b) ranges = map (ti_byte_size \<circ> snd) (hdr_tensors h)"
    using placed by (auto simp: rs range_of_def tensor_placed_def)
  ultimately show "sum_list (map (ti_byte_size \<circ> snd) (hdr_tensors h)) = hdr_data_size h"
    using cover by simp
qed

subsection \<open>Shards\<close>

lemma emplace_set_simps [simp]:
  "set (emplace_set s ss) = insert s (set ss)" "sorted ss \<Longrightarrow> sorted (emplace_set s ss)"
  "distinct ss \<Longrightarrow> distinct (emplace_set s ss)"
  by (auto simp: emplace_set_def set_insort_key sorted_insort distinct_insort)

lemma check_mappings_ok:
  assumes "check_mappings m ms refd = Inr refd'"
  shows "set refd' = set refd \<union> snd ` set ms" "\<forall>(n, s)\<in>set ms. is_safe_relative_shard_path s"
    "sorted refd \<Longrightarrow> sorted refd'" "distinct refd \<Longrightarrow> distinct refd'"
  using assms by (induction m ms refd rule: check_mappings.induct) (auto simp: Let_def split: if_splits)

lemma check_shard_list_ok: "check_shard_list refd stored = Inr u \<Longrightarrow> length stored = length refd \<Longrightarrow> stored = refd"
  by (induction refd stored rule: check_shard_list.induct) (auto split: if_splits)

text \<open>Directories down to a regular file, with no symbolic link on the way.\<close>

definition plain_file :: "checkpoint \<Rightarrow> string list \<Rightarrow> bool" where
  "plain_file cp cs \<longleftrightarrow>
     (\<forall>i<length cs. cp_status cp (take (Suc i) cs) = (if Suc i = length cs then FsRegular else FsDirectory))"

lemma check_components_ok:
  "check_components cp shard parents cs = Inr u \<Longrightarrow> i < length cs \<Longrightarrow>
    cp_status cp (parents @ take (Suc i) cs) = (if Suc i = length cs then FsRegular else FsDirectory)"
proof (induction cs arbitrary: parents i)
  case (Cons c cs)
  have here: "cp_status cp (parents @ [c]) = (if cs = [] then FsRegular else FsDirectory)"
    and rest: "check_components cp shard (parents @ [c]) cs = Inr u"
    using Cons.prems(1) by (auto simp: Let_def split: file_status.splits if_splits)
  show ?case
  proof (cases i)
    case 0
    then show ?thesis using here by simp
  next
    case (Suc j)
    then show ?thesis using Cons.IH [OF rest, of j] Cons.prems(2) by simp
  qed
qed simp

lemma check_tensors_ok:
  assumes "check_tensors m wm shard ts seen n = Inr (seen', n')"
  shows "\<forall>(name, t)\<in>set ts. map_of wm name = Some shard" "set seen' = set seen \<union> fst ` set ts" "n' = n + length ts"
  using assms by (induction m wm shard ts seen n rule: check_tensors.induct) (auto split: option.splits if_splits)

text \<open>The header of a shard, as the validation reads it.\<close>

definition shard_header :: "checkpoint \<Rightarrow> validation_options \<Rightarrow> string \<Rightarrow> header st_result" where
  "shard_header cp options shard =
     read_header (cp_path cp (path_components shard)) (cp_file cp (path_components shard))
       ((vo_header_options options)\<lparr>ro_max_tensors :=
          min (ro_max_tensors (vo_header_options options)) (vo_max_tensors options)\<rparr>)"

abbreviation shard_tensors :: "checkpoint \<Rightarrow> validation_options \<Rightarrow> string \<Rightarrow> (string \<times> tensor_info) list" where
  "shard_tensors cp options s \<equiv> hdr_tensors (projr (shard_header cp options s))"

lemma check_shards_ok:
  assumes "check_shards cp options wm shards seen summary = Inr (seen', summary')"
  shows "(\<forall>s\<in>set shards. \<not> isl (shard_header cp options s) \<and> plain_file cp (path_components s) \<and>
      (\<forall>nt\<in>set (shard_tensors cp options s). map_of wm (fst nt) = Some s)) \<and>
    set seen' = set seen \<union> (\<Union>s\<in>set shards. fst ` set (shard_tensors cp options s)) \<and>
    vs_payload_bytes summary' = vs_payload_bytes summary +
      (\<Sum>s\<leftarrow>shards. hdr_data_size (projr (shard_header cp options s))) \<and>
    vs_validated_shards summary' = vs_validated_shards summary + length shards \<and>
    vs_validated_tensors summary' = vs_validated_tensors summary + (\<Sum>s\<leftarrow>shards. length (shard_tensors cp options s))"
  using assms
proof (induction shards arbitrary: seen summary)
  case (Cons shard shards)
  from Cons.prems obtain u h payload seen1 n where
    comp: "check_components cp shard [] (path_components shard) = Inr u"
    and h: "shard_header cp options shard = Inr h"
    and pay: "checked_add_u64 (vs_payload_bytes summary) (hdr_data_size h) = Some payload"
    and ts: "check_tensors (vo_max_tensors options) wm shard (hdr_tensors h) seen (vs_validated_tensors summary) = Inr (seen1, n)"
    and rest: "check_shards cp options wm shards seen1
      (summary\<lparr>vs_validated_shards := vs_validated_shards summary + 1, vs_payload_bytes := payload,
         vs_validated_tensors := n\<rparr>) = Inr (seen', summary')"
    by (auto simp: Let_def and_then_eq_Inr shard_header_def split: sum.splits option.splits if_splits)
  have "plain_file cp (path_components shard)"
    using check_components_ok [OF comp] by (simp add: plain_file_def)
  moreover note check_tensors_ok [OF ts] checked_add_ok [OF pay] Cons.IH [OF rest]
  ultimately show ?case using h by auto
qed simp

lemma validate_index_shards_ok:
  assumes "validate_index_shards cp index options = Inr summary"
  obtains seen where "check_mappings (vo_max_shards options) (ix_weight_map index) [] = Inr (ix_shards index)"
    "check_shards cp options (ix_weight_map index) (ix_shards index) []
       \<lparr>vs_validated_shards = 0, vs_validated_tensors = 0, vs_payload_bytes = 0\<rparr> = Inr (seen, summary)"
    "fst ` set (ix_weight_map index) \<subseteq> set seen" "vs_validated_tensors summary = length (ix_weight_map index)"
    "ix_total_size index = Some (vs_payload_bytes summary)"
proof -
  from assms obtain refd u where map: "check_mappings (vo_max_shards options) (ix_weight_map index) [] = Inr refd"
    and list: "check_shard_list refd (ix_shards index) = Inr u" "length (ix_shards index) = length refd"
    and rest: "\<exists>seen. check_shards cp options (ix_weight_map index) refd []
       \<lparr>vs_validated_shards = 0, vs_validated_tensors = 0, vs_payload_bytes = 0\<rparr> = Inr (seen, summary) \<and>
      List.find (\<lambda>mapping. fst mapping \<notin> set seen) (ix_weight_map index) = None \<and>
      vs_validated_tensors summary = length (ix_weight_map index) \<and>
      ix_total_size index = Some (vs_payload_bytes summary)"
    by (auto simp: validate_index_shards_def Let_def and_then_eq_Inr split: if_splits option.splits)
  have "ix_shards index = refd" using check_shard_list_ok [OF list] .
  moreover from rest obtain seen where seen: "check_shards cp options (ix_weight_map index) refd []
       \<lparr>vs_validated_shards = 0, vs_validated_tensors = 0, vs_payload_bytes = 0\<rparr> = Inr (seen, summary)"
    "List.find (\<lambda>mapping. fst mapping \<notin> set seen) (ix_weight_map index) = None"
    "vs_validated_tensors summary = length (ix_weight_map index)"
    "ix_total_size index = Some (vs_payload_bytes summary)"
    by blast
  moreover have "fst ` set (ix_weight_map index) \<subseteq> set seen" using seen(2) by (force simp: find_None_iff)
  ultimately show thesis using map by (intro that [of seen]) simp_all
qed

subsection \<open>A checkpoint of one tensor\<close>

definition example_header_text :: string where
  "example_header_text = [CHR ''{'', CHR 0x22] @ ''a'' @ [CHR 0x22] @ '':{'' @ [CHR 0x22] @ ''dtype'' @ [CHR 0x22, CHR '':'', CHR 0x22] @
     ''U8'' @ [CHR 0x22, CHR '','', CHR 0x22] @ ''shape'' @ [CHR 0x22] @ '':[2],'' @ [CHR 0x22] @ ''data_offsets'' @ [CHR 0x22] @ '':[0,2]}}''"

definition example_file :: file_view where
  "example_file = \<lparr>fv_opens = True, fv_size = Some 63,
     fv_bytes = [CHR 0x35, CHR 0x00, CHR 0x00, CHR 0x00, CHR 0x00, CHR 0x00, CHR 0x00, CHR 0x00] @ example_header_text @ ''xy''\<rparr>"

definition example_tensor :: tensor_info where
  "example_tensor = \<lparr>ti_dtype = DU8, ti_shape = [2], ti_element_count = 2, ti_byte_size = 2, ti_data_begin = 0,
     ti_data_end = 2, ti_file_begin = 61, ti_file_end = 63\<rparr>"

definition example_header :: header where
  "example_header = \<lparr>hdr_file_size = 63, hdr_header_size = 53, hdr_data_offset = 61, hdr_data_size = 2,
     hdr_tensors = [(''a'', example_tensor)], hdr_metadata = []\<rparr>"

definition example_document :: json_value where
  "example_document = JObject [(''a'', JObject [(''data_offsets'', JArray [JNumber ''0'', JNumber ''2'']),
     (''dtype'', JString ''U8''), (''shape'', JArray [JNumber ''2''])])]"

lemma example_text_parsed: "json_parse example_header_text default_parse_options = Inr example_document"
  by (simp add: example_header_text_def example_document_def json_eval)

lemma example_length_bytes: "decode_little_endian_u64 [CHR 0x35, CHR 0x00, CHR 0x00, CHR 0x00, CHR 0x00, CHR 0x00, CHR 0x00, CHR 0x00] = 53"
  by (simp add: decode_little_endian_u64_def byte_def upt_rec)

lemma example_read: "read_header path example_file default_read_options = Inr example_header"
proof -
  have split: "read_exact example_file 0 8 = Some [CHR 0x35, CHR 0x00, CHR 0x00, CHR 0x00, CHR 0x00, CHR 0x00, CHR 0x00, CHR 0x00]"
    "read_exact example_file 8 53 = Some example_header_text"
    by (simp_all add: read_exact_def example_file_def example_header_text_def)
  have start: "example_header_text \<noteq> [] \<and> hd example_header_text = CHR ''{''"
    by (simp add: example_header_text_def)
  have number: "to_uint64 ''0'' = Some 0" "to_uint64 ''2'' = Some 2"
    by (simp_all add: to_uint64_def is_integer_def from_chars_uint64_def is_decimal_digit_def decimal_value_def byte_def)
  have "parse_header_document example_document 63 53 default_read_options = Inr example_header"
    by (simp add: parse_header_document_def example_document_def default_read_options_def checked_add_u64_def
        parse_tensor_def parse_fields_def is_known_tensor_field_def parse_tensor_dtype_def parse_dtype_def number
        checked_multiply_u64_def parse_byte_size_def bit_width_def parse_data_offsets_def place_tensor_def
        example_header_def example_tensor_def)
  moreover have "fv_opens example_file" "fv_size example_file = Some 63"
    by (simp_all add: example_file_def)
  moreover have "ro_max_file_bytes default_read_options = 2 ^ 64 - 1"
    "ro_max_header_bytes default_read_options = 100000000" "ro_json_options default_read_options = default_parse_options"
    by (simp_all add: default_read_options_def kDefaultMaxHeaderBytes_def)
  ultimately show ?thesis
    using split start
    by (simp add: read_header_def example_length_bytes example_text_parsed checked_add_u64_def Let_def)
qed

definition example_checkpoint :: checkpoint where
  "example_checkpoint = \<lparr>cp_status = (\<lambda>_. FsRegular), cp_path = join_path, cp_file = (\<lambda>_. example_file)\<rparr>"

definition example_index :: checkpoint_index where
  "example_index = \<lparr>ix_weight_map = [(''a'', ''m.safetensors'')], ix_shards = [''m.safetensors''], ix_metadata = [],
     ix_total_size = Some 2\<rparr>"

definition example_validation :: validation_options where
  "example_validation = \<lparr>vo_max_shards = 10, vo_max_tensors = 2000000, vo_header_options = default_read_options\<rparr>"

lemma example_validated:
  "validate_index_shards example_checkpoint example_index example_validation =
     Inr \<lparr>vs_validated_shards = 1, vs_validated_tensors = 1, vs_payload_bytes = 2\<rparr>"
proof -
  have safe: "is_safe_relative_shard_path ''m.safetensors''"
    by (simp add: is_safe_relative_shard_path_def path_extension_def byte_def Let_def)
       (auto simp: sublist_def Cons_eq_append_conv)
  have options: "default_read_options\<lparr>ro_max_tensors := 2000000\<rparr> = default_read_options"
    "ro_max_tensors default_read_options = 2000000"
    by (simp_all add: default_read_options_def)
  show ?thesis
    by (simp add: validate_index_shards_def example_index_def example_validation_def example_checkpoint_def safe options
        emplace_set_def example_read example_header_def checked_add_u64_def Let_def)
qed

subsection \<open>Properties\<close>

text \<open>
  C13. A header that is accepted describes the file exactly. The payload starts right after the header and
  ends with the file; the tensors have distinct names in order; the size of each follows from its shape and
  element type without overflow; each lies inside the payload at the file positions reported for it; and the
  tensors partition the payload: every byte belongs to exactly one tensor, and the sizes add up.
\<close>

theorem header_partitions_payload:
  assumes "read_header path file options = Inr h"
  shows "hdr_data_offset h = 8 + hdr_header_size h \<and> hdr_data_offset h + hdr_data_size h = hdr_file_size h \<and>
    fv_size file = Some (hdr_file_size h) \<and> sorted_wrt (<) (map fst (hdr_tensors h)) \<and>
    (\<forall>(name, t)\<in>set (hdr_tensors h).
       ti_element_count t = prod_list (ti_shape t) \<and> 8 * ti_byte_size t = ti_element_count t * bit_width (ti_dtype t) \<and>
       ti_data_end t = ti_data_begin t + ti_byte_size t \<and> ti_data_end t \<le> hdr_data_size h \<and>
       ti_file_begin t = hdr_data_offset h + ti_data_begin t \<and> ti_file_end t = hdr_data_offset h + ti_data_end t) \<and>
    (\<forall>k<hdr_data_size h.
       length (filter (\<lambda>(name, t). ti_data_begin t \<le> k \<and> k < ti_data_end t) (hdr_tensors h)) = 1) \<and>
    (\<Sum>(name, t)\<leftarrow>hdr_tensors h. ti_byte_size t) = hdr_data_size h"
proof -
  from assms obtain s n m document where parsed: "json_parse s (ro_json_options options) = Inr document"
    and doc: "parse_header_document document n m options = Inr h" and size: "fv_size file = Some n"
    by (auto simp: read_header_def Let_def split: if_splits option.splits sum.splits)
  have "wf_value document" using json_parse_ok [OF parsed] by simp
  note ok = parse_header_document_ok [OF doc this]
  have "length (filter (\<lambda>(name, t). ti_data_begin t \<le> k \<and> k < ti_data_end t) (hdr_tensors h)) =
      owners k (map range_of (hdr_tensors h))" for k
    by (simp add: owners_def filter_map range_of_def o_def case_prod_unfold)
  moreover have "(\<Sum>(name, t)\<leftarrow>hdr_tensors h. ti_byte_size t) = hdr_data_size h"
    using ok(8) by (simp add: o_def case_prod_unfold)
  ultimately show ?thesis
    using ok(1-7) size by (auto simp: tensor_placed_def)
qed

theorem header_partitions_payload_witness:
  "hdr_data_offset example_header + hdr_data_size example_header = 63 \<and>
   length (filter (\<lambda>(name, t). ti_data_begin t \<le> 1 \<and> 1 < ti_data_end t) (hdr_tensors example_header)) = 1"
  using header_partitions_payload [OF example_read] by (simp add: example_header_def)

text \<open>
  C14. An index that passes validation describes its shards exactly. Its shard list is the ordered set of the
  names in the weight map; every shard path is safe and leads through directories, with no symbolic link, to
  a regular file with a valid header; the tensors of a shard are precisely those the index assigns to it;
  and the total size is the sum of the payloads.
\<close>

theorem validated_index_matches_shards:
  assumes "validate_index_shards cp index options = Inr summary"
  shows "set (ix_shards index) = snd ` set (ix_weight_map index) \<and> sorted (ix_shards index) \<and> distinct (ix_shards index) \<and>
    (\<forall>s\<in>set (ix_shards index).
       is_safe_relative_shard_path s \<and> plain_file cp (path_components s) \<and>
       (\<exists>h. shard_header cp options s = Inr h \<and> fst ` set (hdr_tensors h) = {name. shard_for index name = Some s})) \<and>
    ix_total_size index = Some (\<Sum>s\<leftarrow>ix_shards index. hdr_data_size (projr (shard_header cp options s))) \<and>
    vs_validated_shards summary = length (ix_shards index) \<and>
    vs_validated_tensors summary = length (ix_weight_map index)"
proof -
  obtain seen where ms: "check_mappings (vo_max_shards options) (ix_weight_map index) [] = Inr (ix_shards index)"
    and ss: "check_shards cp options (ix_weight_map index) (ix_shards index) []
       \<lparr>vs_validated_shards = 0, vs_validated_tensors = 0, vs_payload_bytes = 0\<rparr> = Inr (seen, summary)"
    and sub: "fst ` set (ix_weight_map index) \<subseteq> set seen"
    and n: "vs_validated_tensors summary = length (ix_weight_map index)"
    and total: "ix_total_size index = Some (vs_payload_bytes summary)"
    using assms by (rule validate_index_shards_ok)
  note maps = check_mappings_ok [OF ms] and shards = check_shards_ok [OF ss]
  have exact: "fst ` set (shard_tensors cp options s) = {name. shard_for index name = Some s}"
    if s: "s \<in> set (ix_shards index)" for s
  proof (intro equalityI subsetI)
    fix name
    assume "name \<in> {name. shard_for index name = Some s}"
    then have name: "map_of (ix_weight_map index) name = Some s" by (simp add: shard_for_def)
    then have "name \<in> set seen" using sub by (force dest: map_of_SomeD)
    then obtain s' where "s' \<in> set (ix_shards index)" "name \<in> fst ` set (shard_tensors cp options s')"
      using shards by auto
    then show "name \<in> fst ` set (shard_tensors cp options s)" using shards name by force
  qed (use shards s in \<open>auto simp: shard_for_def\<close>)
  have safe: "is_safe_relative_shard_path s" if "s \<in> set (ix_shards index)" for s
    using that maps(1,2) by auto
  have "\<exists>h. shard_header cp options s = Inr h \<and> fst ` set (hdr_tensors h) = {name. shard_for index name = Some s}"
    if "s \<in> set (ix_shards index)" for s
    using exact [OF that] that shards by (cases "shard_header cp options s") auto
  then show ?thesis
    using maps(1,3,4) shards n total safe by auto
qed

theorem validated_index_matches_shards_witness:
  "\<exists>h. shard_header example_checkpoint example_validation ''m.safetensors'' = Inr h \<and> ''a'' \<in> fst ` set (hdr_tensors h)"
  using validated_index_matches_shards [OF example_validated]
  by (auto simp: example_index_def shard_for_def)

text \<open>
  C40. A shard path is safe exactly when it is a plain relative path: between one and 4096 bytes, nonempty
  components joined by slashes, none of them a dot component, no backslash, colon or control character, and
  a file name that is more than the extension \<^verbatim>\<open>.safetensors\<close>.
\<close>

theorem safe_path_iff_plain:
  "is_safe_relative_shard_path path \<longleftrightarrow>
     length path \<le> 4096 \<and>
     (\<exists>cs. cs \<noteq> [] \<and> path = join_path cs \<and> (\<exists>stem. stem \<noteq> [] \<and> last cs = stem @ ''.safetensors'') \<and>
        (\<forall>c\<in>set cs. c \<noteq> [] \<and> c \<noteq> ''.'' \<and> c \<noteq> ''..'' \<and>
           (\<forall>ch\<in>set c. ch \<notin> {CHR ''/'', CHR 0x5C, CHR '':''} \<and> 0x20 \<le> byte ch \<and> byte ch \<noteq> 0x7F)))"
  (is "_ = (_ \<and> (\<exists>cs. ?plain cs))")
proof -
  have ext: "path_extension name = ''.safetensors'' \<longleftrightarrow> (\<exists>stem. stem \<noteq> [] \<and> name = stem @ ''.safetensors'')" for name
    by (rule path_extension_iff [where e = "''safetensors''"]) auto
  show ?thesis
  proof
    assume safe: "is_safe_relative_shard_path path"
    have "ch \<in> set path \<and> ch \<noteq> CHR ''/''" if "c \<in> set (path_components path)" "ch \<in> set c" for c ch
      using that path_components_chars [of path] by blast
    moreover have "ch \<notin> {CHR 0x5C, CHR '':''} \<and> 0x20 \<le> byte ch \<and> byte ch \<noteq> 0x7F" if "ch \<in> set path" for ch
      using safe that unfolding is_safe_relative_shard_path_def list_all_iff not_less [symmetric] by blast
    moreover have "\<forall>c\<in>set (path_components path). c \<noteq> [] \<and> c \<noteq> ''.'' \<and> c \<noteq> ''..''"
      "path_extension (last (path_components path)) = ''.safetensors''"
      using safe by (simp_all add: is_safe_relative_shard_path_def list_all_iff)
    ultimately have "?plain (path_components path)"
      unfolding ext join_path_components by simp
    moreover have "length path \<le> 4096" using safe by (simp add: is_safe_relative_shard_path_def)
    ultimately show "length path \<le> 4096 \<and> (\<exists>cs. ?plain cs)" by blast
  next
    assume "length path \<le> 4096 \<and> (\<exists>cs. ?plain cs)"
    then obtain cs where len: "length path \<le> 4096" and cs: "?plain cs" by blast
    have comps: "path_components path = cs" using cs path_components_join [of cs] by auto
    have nonempty: "\<forall>c\<in>set cs. c \<noteq> [] \<and> c \<noteq> ''.'' \<and> c \<noteq> ''..''" using cs by blast
    have "path \<noteq> []"
    proof
      assume "path = []"
      then have "cs = [[]]" using comps by simp
      then show False using nonempty by simp
    qed
    moreover have "[] \<notin> set (path_components path)" using nonempty comps by blast
    ultimately have "hd path \<noteq> CHR ''/''" "last path \<noteq> CHR ''/''" "\<not> sublist ''//'' path"
      using empty_component by auto
    moreover have "ch \<noteq> CHR 0x5C \<and> ch \<noteq> CHR '':'' \<and> 0x20 \<le> byte ch \<and> byte ch \<noteq> 0x7F" if "ch \<in> set path" for ch
    proof (cases "ch = CHR ''/''")
      case False
      then have "ch \<in> (\<Union>c\<in>set cs. set c)"
        using that path_components_chars [of path] unfolding comps by simp
      then show ?thesis using cs by blast
    qed (simp add: byte_def)
    then have "CHR 0x5C \<notin> set path" "CHR '':'' \<notin> set path" "\<forall>ch\<in>set path. \<not> (byte ch < 0x20 \<or> byte ch = 0x7F)"
      by (auto simp: not_less)
    moreover have "path_extension (last cs) = ''.safetensors''" using cs by (simp add: ext)
    moreover note nonempty
    ultimately show "is_safe_relative_shard_path path"
      using len \<open>path \<noteq> []\<close> unfolding is_safe_relative_shard_path_def comps list_all_iff by simp
  qed
qed

theorem safe_path_iff_plain_witness: "is_safe_relative_shard_path ''m.safetensors''"
proof (rule iffD2 [OF safe_path_iff_plain], rule conjI, simp)
  let ?cs = "[''m.safetensors'']"
  have "\<exists>stem. stem \<noteq> [] \<and> last ?cs = stem @ ''.safetensors''" by (rule exI [of _ "''m''"]) simp
  moreover have "\<forall>c\<in>set ?cs. c \<noteq> [] \<and> c \<noteq> ''.'' \<and> c \<noteq> ''..'' \<and>
     (\<forall>ch\<in>set c. ch \<notin> {CHR ''/'', CHR 0x5C, CHR '':''} \<and> 0x20 \<le> byte ch \<and> byte ch \<noteq> 0x7F)"
    by (simp add: byte_def)
  moreover have "?cs \<noteq> []" "''m.safetensors'' = join_path ?cs" by simp_all
  ultimately show "\<exists>cs. cs \<noteq> [] \<and> ''m.safetensors'' = join_path cs \<and> (\<exists>stem. stem \<noteq> [] \<and> last cs = stem @ ''.safetensors'') \<and>
      (\<forall>c\<in>set cs. c \<noteq> [] \<and> c \<noteq> ''.'' \<and> c \<noteq> ''..'' \<and>
         (\<forall>ch\<in>set c. ch \<notin> {CHR ''/'', CHR 0x5C, CHR '':''} \<and> 0x20 \<le> byte ch \<and> byte ch \<noteq> 0x7F))"
    by (intro exI [of _ ?cs] conjI)
qed

end
