(* ===== verification/Sha256_Fips.thy ===== *)
theory Sha256_Fips
  imports Sha256
begin

text \<open>
  The hash function of FIPS 180-4 on byte messages, and the proof that the streaming implementation computes
  it: the compression function of a block, the buffer between updates, and the padding of the last block.
\<close>

subsection \<open>The standard\<close>

definition Ch :: "u32 \<Rightarrow> u32 \<Rightarrow> u32 \<Rightarrow> u32" where
  "Ch x y z = (x AND y) XOR (NOT x AND z)"

definition Maj :: "u32 \<Rightarrow> u32 \<Rightarrow> u32 \<Rightarrow> u32" where
  "Maj x y z = (x AND y) XOR (x AND z) XOR (y AND z)"

definition Sum0 :: "u32 \<Rightarrow> u32" where
  "Sum0 x = word_rotr 2 x XOR word_rotr 13 x XOR word_rotr 22 x"

definition Sum1 :: "u32 \<Rightarrow> u32" where
  "Sum1 x = word_rotr 6 x XOR word_rotr 11 x XOR word_rotr 25 x"

definition sigma0 :: "u32 \<Rightarrow> u32" where
  "sigma0 x = word_rotr 7 x XOR word_rotr 18 x XOR drop_bit 3 x"

definition sigma1 :: "u32 \<Rightarrow> u32" where
  "sigma1 x = word_rotr 17 x XOR word_rotr 19 x XOR drop_bit 10 x"

text \<open>A number in base 256, most significant byte first, and the last \<open>n\<close> such digits of a number.\<close>

definition from_bytes :: "u8 list \<Rightarrow> nat" where
  "from_bytes bytes = foldl (\<lambda>n b. n * 256 + unat b) 0 bytes"

fun to_bytes :: "nat \<Rightarrow> nat \<Rightarrow> u8 list" where
  "to_bytes 0 v = []"
| "to_bytes (Suc n) v = to_bytes n (v div 256) @ [word_of_nat v]"

text \<open>
  The constants are the first 32 bits of the fractional parts of square and cube roots of the first primes. The
  integer root is found bit by bit from the highest.
\<close>

fun integer_root :: "nat \<Rightarrow> nat \<Rightarrow> nat \<Rightarrow> nat \<Rightarrow> nat" where
  "integer_root e 0 x n = n"
| "integer_root e (Suc i) x n = integer_root e i x (if (n + 2 ^ i) ^ e \<le> x then n + 2 ^ i else n)"

definition root_fraction :: "nat \<Rightarrow> nat \<Rightarrow> u32" where
  "root_fraction e p = word_of_nat (integer_root e 36 (p * 2 ^ (32 * e)) 0)"

definition first_primes :: "nat list" where
  "first_primes = [
     2, 3, 5, 7, 11, 13, 17, 19, 23, 29, 31, 37, 41, 43, 47, 53, 59, 61, 67, 71, 73, 79, 83, 89, 97, 101, 103, 107, 109,
     113, 127, 131, 137, 139, 149, 151, 157, 163, 167, 173, 179, 181, 191, 193, 197, 199, 211, 223, 227, 229, 233, 239,
     241, 251, 257, 263, 269, 271, 277, 281, 283, 293, 307, 311]"

definition message_word :: "u8 list \<Rightarrow> nat \<Rightarrow> u32" where
  "message_word block t = word_of_nat (from_bytes (take 4 (drop (4 * t) block)))"

fun fips_schedule :: "u8 list \<Rightarrow> nat \<Rightarrow> u32" where
  "fips_schedule block t =
     (if t < 16 then message_word block t
      else sigma1 (fips_schedule block (t - 2)) + fips_schedule block (t - 7) +
           sigma0 (fips_schedule block (t - 15)) + fips_schedule block (t - 16))"

declare fips_schedule.simps [simp del]

fun fips_rounds :: "u8 list \<Rightarrow> nat \<Rightarrow> working \<Rightarrow> working" where
  "fips_rounds block 0 H = H"
| "fips_rounds block (Suc t) H =
     (case fips_rounds block t H of (a, b, c, d, e, f, g, h) \<Rightarrow>
        let T1 = h + Sum1 e + Ch e f g + root_fraction 3 (first_primes ! t) + fips_schedule block t;
            T2 = Sum0 a + Maj a b c in
        (T1 + T2, a, b, c, d + T1, e, f, g))"

fun fips_compress :: "u8 list \<Rightarrow> working \<Rightarrow> working" where
  "fips_compress block (a, b, c, d, e, f, g, h) =
     (case fips_rounds block 64 (a, b, c, d, e, f, g, h) of (a', b', c', d', e', f', g', h') \<Rightarrow>
        (a + a', b + b', c + c', d + d', e + e', f + f', g + g', h + h'))"

fun blocks :: "u8 list \<Rightarrow> u8 list list" where
  "blocks m = (if length m < 64 then [] else take 64 m # blocks (drop 64 m))"

declare blocks.simps [simp del]

text \<open>The padding: a one bit, the least number of zeros, and the length in bits as a 64-bit number.\<close>

definition zeros :: "nat \<Rightarrow> nat" where
  "zeros n = (119 - n mod 64) mod 64"

definition fips_pad :: "u8 list \<Rightarrow> u8 list" where
  "fips_pad m = m @ [0x80] @ replicate (zeros (length m)) 0 @ to_bytes 8 (8 * length m)"

definition fips_initial :: working where
  "fips_initial =
     (root_fraction 2 2, root_fraction 2 3, root_fraction 2 5, root_fraction 2 7,
      root_fraction 2 11, root_fraction 2 13, root_fraction 2 17, root_fraction 2 19)"

definition fips_sha256 :: "u8 list \<Rightarrow> u8 list" where
  "fips_sha256 m =
     (case fold fips_compress (blocks (fips_pad m)) fips_initial of (a, b, c, d, e, f, g, h) \<Rightarrow>
        concat (map (\<lambda>w. to_bytes 4 (unat w)) [a, b, c, d, e, f, g, h]))"

lemma zeros_least: "(n + 1 + zeros n) mod 64 = 56 \<and> (\<forall>k. (n + 1 + k) mod 64 = 56 \<longrightarrow> zeros n \<le> k)"
proof -
  have n: "n = 64 * (n div 64) + n mod 64" "n mod 64 < 64" by simp_all
  have "(n mod 64 + 1 + zeros n) mod 64 = 56"
  proof (cases "n mod 64 \<le> 55")
    case True
    then have "zeros n = 55 - n mod 64" unfolding zeros_def by (subst mod_if) auto
    then show ?thesis using True by simp
  next
    case False
    then have "zeros n = 119 - n mod 64" unfolding zeros_def by simp
    then show ?thesis using n by simp
  qed
  then have "(n + 1 + zeros n) mod 64 = 56" by (metis add.assoc mod_add_left_eq)
  moreover have "zeros n < 64" by (simp add: zeros_def)
  moreover have "zeros n \<le> k" if "(n + 1 + k) mod 64 = 56" "(n + 1 + zeros n) mod 64 = 56" "zeros n < 64" for k
  proof (rule ccontr)
    assume "\<not> zeros n \<le> k"
    moreover from this have "64 dvd (n + 1 + zeros n) - (n + 1 + k)"
      using that by (subst mod_eq_dvd_iff_nat [symmetric]) auto
    ultimately show False using that(3) by (auto dest: dvd_imp_le)
  qed
  ultimately show ?thesis by blast
qed

lemma length_to_bytes [simp]: "length (to_bytes n v) = n"
  by (induction n arbitrary: v) simp_all

subsection \<open>The constants\<close>

lemma integer_root_bounds:
  "n ^ e \<le> x \<Longrightarrow> x < (n + 2 ^ i) ^ e \<Longrightarrow> integer_root e i x n ^ e \<le> x \<and> x < (integer_root e i x n + 1) ^ e"
  by (induction i arbitrary: n) (auto simp: not_le mult_2 add.assoc)

lemma integer_root_numeral:
  "integer_root e (numeral k) x n =
     (let i = pred_numeral k in integer_root e i x (if (n + 2 ^ i) ^ e \<le> x then n + 2 ^ i else n))"
  by (simp add: numeral_eq_Suc Let_def)

lemma integer_root_unique:
  assumes "n ^ e \<le> x" "x < (n + 1) ^ e" "m ^ e \<le> x" "x < (m + 1) ^ e"
  shows "n = (m :: nat)"
proof -
  have "n ^ e < (m + 1) ^ e" "m ^ e < (n + 1) ^ e" using assms by simp_all
  then have "n < m + 1" "m < n + 1" by (blast intro: power_less_imp_less_base zero_le)+
  then show ?thesis by simp
qed

lemma root_fraction_eq:
  assumes "n ^ e \<le> p * 2 ^ (32 * e)" "p * 2 ^ (32 * e) < (n + 1) ^ e" "p < 2 ^ (4 * e)" "0 < e"
  shows "root_fraction e p = word_of_nat n"
proof -
  have "p * 2 ^ (32 * e) < 2 ^ (4 * e) * 2 ^ (32 * e)" using assms(3) by simp
  also have "\<dots> = (0 + 2 ^ 36) ^ e" by (simp only: power_mult power_mult_distrib [symmetric] add_0) simp
  finally have "integer_root e 36 (p * 2 ^ (32 * e)) 0 = n"
    using integer_root_bounds [of 0 e "p * 2 ^ (32 * e)" 36] assms
    by (intro integer_root_unique [OF _ _ assms(1,2)]) (simp_all add: zero_power)
  then show ?thesis by (simp add: root_fraction_def)
qed

lemma initial_constants:
  "fips_initial = (0x6a09e667, 0xbb67ae85, 0x3c6ef372, 0xa54ff53a, 0x510e527f, 0x9b05688c, 0x1f83d9ab, 0x5be0cd19)"
  unfolding fips_initial_def root_fraction_def by (simp add: integer_root_numeral)

definition cube_roots :: "nat list" where
  "cube_roots = [
     0x1428a2f98, 0x171374491, 0x1b5c0fbcf, 0x1e9b5dba5, 0x23956c25b, 0x259f111f1, 0x2923f82a4, 0x2ab1c5ed5,
     0x2d807aa98, 0x312835b01, 0x3243185be, 0x3550c7dc3, 0x372be5d74, 0x380deb1fe, 0x39bdc06a7, 0x3c19bf174,
     0x3e49b69c1, 0x3efbe4786, 0x40fc19dc6, 0x4240ca1cc, 0x42de92c6f, 0x44a7484aa, 0x45cb0a9dc, 0x476f988da,
     0x4983e5152, 0x4a831c66d, 0x4b00327c8, 0x4bf597fc7, 0x4c6e00bf3, 0x4d5a79147, 0x506ca6351, 0x514292967,
     0x527b70a85, 0x52e1b2138, 0x54d2c6dfc, 0x553380d13, 0x5650a7354, 0x5766a0abb, 0x581c2c92e, 0x592722c85,
     0x5a2bfe8a1, 0x5a81a664b, 0x5c24b8b70, 0x5c76c51a3, 0x5d192e819, 0x5d6990624, 0x5f40e3585, 0x6106aa070,
     0x619a4c116, 0x61e376c08, 0x62748774c, 0x634b0bcb5, 0x6391c0cb3, 0x64ed8aa4a, 0x65b9cca4f, 0x6682e6ff3,
     0x6748f82ee, 0x678a5636f, 0x684c87814, 0x68cc70208, 0x690befffa, 0x6a4506ceb, 0x6bef9a3f7, 0x6c67178f2]"

lemma cube_roots_bounds:
  "list_all2 (\<lambda>p n. n ^ 3 \<le> p * 2 ^ (32 * 3) \<and> p * 2 ^ (32 * 3) < (n + 1) ^ 3 \<and> p < 2 ^ (4 * 3)) first_primes cube_roots"
  unfolding first_primes_def cube_roots_def by simp

lemma cube_root_fractions:
  assumes "list_all2 (\<lambda>p n. n ^ 3 \<le> p * 2 ^ (32 * 3) \<and> p * 2 ^ (32 * 3) < (n + 1) ^ 3 \<and> p < 2 ^ (4 * 3)) ps ns"
  shows "map (root_fraction 3) ps = map word_of_nat ns"
  using assms by (induction rule: list_all2_induct) (simp_all add: root_fraction_eq [of _ 3])

lemma round_constants: "kRoundConstants = map (root_fraction 3) first_primes"
  unfolding cube_root_fractions [OF cube_roots_bounds] by (simp add: kRoundConstants_def cube_roots_def)

lemma round_constant: "t < 64 \<Longrightarrow> kRoundConstants ! t = root_fraction 3 (first_primes ! t)"
  unfolding round_constants by (rule nth_map) (simp add: first_primes_def)

subsection \<open>Words and bytes\<close>

lemma RotateRight_rotr: "0 < n \<Longrightarrow> n < 32 \<Longrightarrow> RotateRight v n = word_rotr n v"
  unfolding RotateRight_def
proof (rule bit_word_eqI)
  fix i
  assume n: "0 < n" "n < 32" and "i < LENGTH(32)"
  then have "i < 32" by simp
  moreover have "\<not> bit v (i + n)" if "32 \<le> i + n" using that bit_imp_le_length [of v "i + n"] by auto
  moreover have "(i + n) mod 32 = (if i + n < 32 then i + n else i + n - 32)" using n \<open>i < 32\<close> by (simp add: mod_if)
  ultimately show "bit (drop_bit n v OR push_bit (32 - n) v) i = bit (word_rotr n v) i"
    using n by (auto simp: bit_simps add.commute)
qed

lemma ReadBigEndian32_word:
  assumes "4 \<le> length bytes"
  shows "ReadBigEndian32 bytes = word_of_nat (from_bytes (take 4 bytes))"
proof -
  obtain a b c d bs where bytes: "bytes = a # b # c # d # bs"
    using assms by (auto simp: numeral_eq_Suc Suc_le_length_iff)
  have top: "\<not> bit x i" if "8 \<le> i" for x :: u8 and i using that bit_imp_le_length [of x i] by auto
  have up: "push_bit n (ucast x :: u32) OR y = push_bit n (ucast x) + y" if "\<forall>i\<ge>n. \<not> bit y i" for n and x :: u8 and y :: u32
    using that by (intro disjunctive_add_eq_or [symmetric] bit_word_eqI) (auto simp: bit_simps)
  have "push_bit 8 (ucast c :: u32) OR ucast d = push_bit 8 (ucast c) + ucast d"
    "push_bit 16 (ucast b :: u32) OR (push_bit 8 (ucast c) OR ucast d) = push_bit 16 (ucast b) + (push_bit 8 (ucast c) OR ucast d)"
    "push_bit 24 (ucast a :: u32) OR (push_bit 16 (ucast b) OR (push_bit 8 (ucast c) OR ucast d)) =
     push_bit 24 (ucast a) + (push_bit 16 (ucast b) OR (push_bit 8 (ucast c) OR ucast d))"
    by (rule up, auto simp: bit_simps top)+
  then show ?thesis
    by (simp add: ReadBigEndian32_def bytes from_bytes_def or.assoc push_bit_eq_mult algebra_simps)
qed

lemma to_bytes_word: "(ucast (drop_bit n v) :: u8) = word_of_nat (unat v div 2 ^ n)" for v :: "'a :: len word"
proof -
  have "(ucast (drop_bit n v) :: u8) = word_of_nat (unat (drop_bit n v))" by simp
  then show ?thesis by (simp only: unat_drop_bit_eq drop_bit_eq_div [of n "unat v"])
qed

lemma WriteBigEndian32_bytes: "WriteBigEndian32 v = to_bytes 4 (unat v)"
proof -
  have four: "4 = Suc (Suc (Suc (Suc 0)))" by simp
  have "to_bytes 4 n =
    [word_of_nat (n div 2 ^ 24), word_of_nat (n div 2 ^ 16), word_of_nat (n div 2 ^ 8), word_of_nat n]" for n
    unfolding four by (simp add: div_mult2_numeral_eq)
  then show ?thesis
    unfolding WriteBigEndian32_def to_bytes_word by simp
qed

subsection \<open>The compression function\<close>

lemma length_schedule_step [simp]: "length (schedule_step i s) = length s"
  by (simp add: schedule_step_def Let_def)

lemma initial_schedule:
  assumes "n \<le> 16" "length block = 64"
  shows "length (fold (\<lambda>index schedule. schedule[index := ReadBigEndian32 (drop (index * 4) block)]) [0..<n] (replicate 64 0)) = 64 \<and>
    (\<forall>t<n. fold (\<lambda>index schedule. schedule[index := ReadBigEndian32 (drop (index * 4) block)]) [0..<n] (replicate 64 0) ! t
             = fips_schedule block t)"
  using assms(1)
proof (induction n)
  case (Suc n)
  have "ReadBigEndian32 (drop (n * 4) block) = fips_schedule block n"
    using Suc.prems assms(2) by (simp add: ReadBigEndian32_word fips_schedule.simps message_word_def mult.commute)
  then show ?case using Suc by (auto simp: less_Suc_eq nth_list_update)
qed simp

lemma later_schedule:
  assumes "16 \<le> n" "n \<le> 64" "length s = 64" "\<forall>t<16. s ! t = fips_schedule block t"
  shows "length (fold schedule_step [16..<n] s) = 64 \<and> (\<forall>t<n. fold schedule_step [16..<n] s ! t = fips_schedule block t)"
  using assms(1,2)
proof (induction n rule: dec_induct)
  case base
  then show ?case using assms by simp
next
  case (step n)
  let ?s = "fold schedule_step [16..<n] s"
  have s: "length ?s = 64" "\<And>t. t < n \<Longrightarrow> ?s ! t = fips_schedule block t" using step by auto
  have "schedule_step n ?s ! n = fips_schedule block n"
    using step.hyps step.prems
    by (simp add: schedule_step_def Let_def s RotateRight_rotr fips_schedule.simps [of block n] sigma0_def sigma1_def ac_simps)
  moreover have "schedule_step n ?s ! t = ?s ! t" if "t < n" for t
    using that by (simp add: schedule_step_def Let_def)
  ultimately show ?case using step.hyps s by (auto simp: less_Suc_eq)
qed

lemma message_schedule_fips: "length block = 64 \<Longrightarrow> t < 64 \<Longrightarrow> message_schedule block ! t = fips_schedule block t"
  unfolding message_schedule_def using initial_schedule [of 16 block] later_schedule [of 64 _ block] by simp

lemma transform_rounds_fips:
  assumes "length block = 64" "n \<le> 64"
  shows "fold (transform_round (message_schedule block)) [0..<n] H = fips_rounds block n H"
  using assms(2)
proof (induction n)
  case (Suc n)
  obtain a b c d e f g h where "fips_rounds block n H = (a, b, c, d, e, f, g, h)" by (metis surj_pair)
  then show ?case
    using Suc assms(1)
    by (simp add: message_schedule_fips round_constant RotateRight_rotr Sum0_def Sum1_def Ch_def Maj_def Let_def)
qed simp

definition as_working :: "u32 list \<Rightarrow> working" where
  "as_working s = (s ! 0, s ! 1, s ! 2, s ! 3, s ! 4, s ! 5, s ! 6, s ! 7)"

lemma transform_words_fips:
  assumes "length block = 64"
  shows "as_working (transform_words block s) = fips_compress block (as_working s)"
  unfolding transform_words_def transform_rounds_fips [OF assms order_refl] as_working_def [of s]
  by (simp add: as_working_def split: prod.split)

lemma length_transform_words [simp]: "length (transform_words block s) = 8"
  by (simp add: transform_words_def split: prod.split)

subsection \<open>Blocks of a message\<close>

lemma blocks_short: "length m < 64 \<Longrightarrow> blocks m = []"
  by (simp add: blocks.simps)

lemma blocks_block: "length b = 64 \<Longrightarrow> blocks (b @ m) = b # blocks m"
  by (subst blocks.simps) simp

lemma blocks_append: "64 dvd length p \<Longrightarrow> blocks (p @ m) = blocks p @ blocks m"
proof (induction p rule: blocks.induct)
  case (1 p)
  show ?case
  proof (cases "length p < 64")
    case True
    then have "p = []" using 1 by (auto dest: dvd_imp_le)
    then show ?thesis by (simp add: blocks_short)
  next
    case False
    then have "64 dvd length (drop 64 p)" using 1 by (simp add: dvd_diff_nat)
    then have "blocks (drop 64 p @ m) = blocks (drop 64 p) @ blocks m" using 1 False by blast
    moreover have "blocks (p @ m) = take 64 p # blocks (drop 64 p @ m)" "blocks p = take 64 p # blocks (drop 64 p)"
      using False by (subst blocks.simps, simp)+
    ultimately show ?thesis by simp
  qed
qed

lemma blocks_length: "b \<in> set (blocks m) \<Longrightarrow> length b = 64"
  by (induction m rule: blocks.induct) (subst (asm) (2) blocks.simps, auto split: if_splits)

lemma blocks_one: "length b = 64 \<Longrightarrow> blocks b = [b]"
  using blocks_block [of b "[]"] by (simp add: blocks_short)

abbreviation digest_of_blocks :: "u8 list \<Rightarrow> u32 list" where
  "digest_of_blocks p \<equiv> fold transform_words (blocks p) (sh_state sha256_init)"

lemma fold_transform_fips:
  "\<forall>b\<in>set bs. length b = 64 \<Longrightarrow> as_working (fold transform_words bs s) = fold fips_compress bs (as_working s)"
  by (induction bs arbitrary: s) (simp_all add: transform_words_fips)

lemma length_fold_transform: "length s = 8 \<Longrightarrow> length (fold transform_words bs s) = 8"
  by (induction bs arbitrary: s) simp_all

lemma digest_of_blocks_fips:
  "digest_words (digest_of_blocks M) =
     (case fold fips_compress (blocks M) fips_initial of (a, b, c, d, e, f, g, h) \<Rightarrow>
        concat (map (\<lambda>w. to_bytes 4 (unat w)) [a, b, c, d, e, f, g, h]))"
proof -
  let ?s = "digest_of_blocks M"
  have "length ?s = 8" by (rule length_fold_transform) (simp add: sha256_init_def)
  then have "?s = map ((!) ?s) [0..<8]" by (metis map_nth)
  then have "?s = [?s ! 0, ?s ! 1, ?s ! 2, ?s ! 3, ?s ! 4, ?s ! 5, ?s ! 6, ?s ! 7]"
    by (simp add: upt_conv_Cons eval_nat_numeral)
  then have "digest_words ?s = concat (map WriteBigEndian32 [?s ! 0, ?s ! 1, ?s ! 2, ?s ! 3, ?s ! 4, ?s ! 5, ?s ! 6, ?s ! 7])"
    unfolding digest_words_def by (rule arg_cong)
  moreover have "fold fips_compress (blocks M) fips_initial = as_working ?s"
    using fold_transform_fips [of "blocks M" "sh_state sha256_init"]
    by (simp add: blocks_length as_working_def initial_constants sha256_init_def)
  ultimately show ?thesis by (simp add: as_working_def WriteBigEndian32_bytes)
qed

subsection \<open>The buffer between updates\<close>

text \<open>\<open>holds s m\<close>: the object has taken in the message \<open>m\<close>: whole blocks in the words, the rest in the buffer.\<close>

definition buffered :: "sha256_state \<Rightarrow> u8 list \<Rightarrow> bool" where
  "buffered s m \<longleftrightarrow>
     length (sh_buffer s) = 64 \<and> sh_buffer_size s < 64 \<and>
     (\<exists>p. 64 dvd length p \<and> m = p @ take (sh_buffer_size s) (sh_buffer s) \<and> sh_state s = digest_of_blocks p)"

definition holds :: "sha256_state \<Rightarrow> u8 list \<Rightarrow> bool" where
  "holds s m \<longleftrightarrow> \<not> sh_finalized s \<and> sh_total_bytes s = word_of_nat (length m) \<and> buffered s m"

lemma transform_fields [simp]:
  "sh_buffer (transform b s) = sh_buffer s" "sh_buffer_size (transform b s) = sh_buffer_size s"
  "sh_total_bytes (transform b s) = sh_total_bytes s" "sh_finalized (transform b s) = sh_finalized s"
  "sh_state (transform b s) = transform_words b (sh_state s)"
  by (simp_all add: transform_def)

lemma buffered_init: "buffered sha256_init []"
  by (auto simp: buffered_def sha256_init_def blocks_short)

lemma buffered_block:
  assumes "buffered s m" "length (take (sh_buffer_size s) (sh_buffer s) @ u) = 64"
  shows "\<exists>p. 64 dvd length p \<and> p = m @ u \<and>
    transform_words (take (sh_buffer_size s) (sh_buffer s) @ u) (sh_state s) = digest_of_blocks p"
proof -
  let ?r = "take (sh_buffer_size s) (sh_buffer s)"
  obtain p where p: "64 dvd length p" "m = p @ ?r" "sh_state s = digest_of_blocks p"
    using assms(1) by (auto simp: buffered_def)
  then have "blocks (m @ u) = blocks p @ [?r @ u]"
    using assms(2) by (simp add: blocks_append blocks_one)
  moreover have "64 dvd length (m @ u)" using p assms(2) by (metis append.assoc dvd_add dvd_refl length_append)
  ultimately show ?thesis using p by simp
qed

lemma fill_buffer_ok:
  assumes "buffered s m" "fill_buffer x s = (y, s')"
  shows "\<exists>u. x = u @ y \<and> buffered s' (m @ u) \<and> (y \<noteq> [] \<longrightarrow> sh_buffer_size s' = 0) \<and>
    sh_total_bytes s' = sh_total_bytes s \<and> sh_finalized s' = sh_finalized s"
proof (cases "sh_buffer_size s \<noteq> 0 \<and> x \<noteq> []")
  case False
  then show ?thesis using assms by (auto simp: fill_buffer_def)
next
  case True
  let ?r = "take (sh_buffer_size s) (sh_buffer s)"
  let ?n = "min (length x) (64 - sh_buffer_size s)"
  let ?b = "copy_n x ?n (sh_buffer_size s) (sh_buffer s)"
  have s: "length (sh_buffer s) = 64" "sh_buffer_size s < 64" using assms(1) by (simp_all add: buffered_def)
  have b: "length ?b = 64" "take (sh_buffer_size s + ?n) ?b = ?r @ take ?n x"
    using s by (simp_all add: copy_n_def)
  have y: "y = drop ?n x" using assms(2) True s by (simp add: fill_buffer_def Let_def)
  have x: "x = take ?n x @ y" by (simp add: y)
  show ?thesis
  proof (cases "sh_buffer_size s + ?n = 64")
    case full: True
    have block: "?b = ?r @ take ?n x" using b full by simp
    then have "length (?r @ take ?n x) = 64" using b(1) by simp
    from buffered_block [OF assms(1) this] obtain p
      where "64 dvd length p" "p = m @ take ?n x" "transform_words ?b (sh_state s) = digest_of_blocks p"
      unfolding block by blast
    moreover have "s' = (transform ?b (s\<lparr>sh_buffer := ?b, sh_buffer_size := 64\<rparr>))\<lparr>sh_buffer_size := 0\<rparr>"
      using assms(2) True s full b(1) by (simp add: fill_buffer_def Let_def)
    ultimately have "buffered s' (m @ take ?n x) \<and> sh_buffer_size s' = 0 \<and>
        sh_total_bytes s' = sh_total_bytes s \<and> sh_finalized s' = sh_finalized s"
      using b(1) by (auto simp: buffered_def)
    then show ?thesis using x by blast
  next
    case False
    then have "?n = length x" using s by auto
    then have "y = []" "sh_buffer_size s + length x \<noteq> 64" using False by (simp_all add: y)
    moreover have "s' = s\<lparr>sh_buffer := ?b, sh_buffer_size := sh_buffer_size s + ?n\<rparr>"
      using assms(2) True s \<open>?n = length x\<close> \<open>sh_buffer_size s + length x \<noteq> 64\<close> b(1)
      by (simp add: fill_buffer_def Let_def split: if_splits)
    ultimately have "buffered s' (m @ x) \<and> sh_total_bytes s' = sh_total_bytes s \<and> sh_finalized s' = sh_finalized s"
      using assms(1) b s False \<open>?n = length x\<close> by (auto simp: buffered_def)
    then show ?thesis using \<open>y = []\<close> by auto
  qed
qed

lemma update_blocks_ok:
  assumes "buffered s m" "x \<noteq> [] \<longrightarrow> sh_buffer_size s = 0" "update_blocks x s = (y, s')"
  shows "\<exists>u. x = u @ y \<and> length y < 64 \<and> buffered s' (m @ u) \<and> sh_buffer_size s' = sh_buffer_size s \<and>
    sh_total_bytes s' = sh_total_bytes s \<and> sh_finalized s' = sh_finalized s"
  using assms
proof (induction x s arbitrary: m rule: update_blocks.induct)
  case (1 x s)
  show ?case
  proof (cases "64 \<le> length x")
    case False
    then show ?thesis using 1 by (auto simp: update_blocks.simps)
  next
    case True
    then have size0: "sh_buffer_size s = 0" using 1 by auto
    have "length (take (sh_buffer_size s) (sh_buffer s) @ take 64 x) = 64" using True size0 by simp
    from buffered_block [OF 1(2) this]
    have "buffered (transform (take 64 x) s) (m @ take 64 x)"
      using 1(2) size0 by (auto simp: buffered_def)
    moreover have "update_blocks (drop 64 x) (transform (take 64 x) s) = (y, s')"
      using 1(4) True by (subst (asm) update_blocks.simps) simp
    ultimately have "\<exists>u. drop 64 x = u @ y \<and> length y < 64 \<and> buffered s' ((m @ take 64 x) @ u) \<and>
      sh_buffer_size s' = sh_buffer_size s \<and> sh_total_bytes s' = sh_total_bytes s \<and> sh_finalized s' = sh_finalized s"
      using 1(1) [OF True, of "m @ take 64 x"] size0 by simp
    then obtain u where "drop 64 x = u @ y" "length y < 64" "buffered s' ((m @ take 64 x) @ u)"
      "sh_buffer_size s' = sh_buffer_size s" "sh_total_bytes s' = sh_total_bytes s" "sh_finalized s' = sh_finalized s"
      by blast
    moreover from this have "x = (take 64 x @ u) @ y" by (metis append.assoc append_take_drop_id)
    ultimately show ?thesis by (metis append.assoc)
  qed
qed

lemma update_holds:
  assumes "holds s m" "length m + length x < 2 ^ 64"
  shows "\<exists>s'. update (Some x) (length x) s = (True, s') \<and> holds s' (m @ x)"
proof -
  let ?s = "s\<lparr>sh_total_bytes := sh_total_bytes s + word_of_nat (length x)\<rparr>"
  obtain y s1 where f: "fill_buffer x ?s = (y, s1)" by fastforce
  obtain z s2 where g: "update_blocks y s1 = (z, s2)" by fastforce
  let ?s' = "if z \<noteq> [] then s2\<lparr>sh_buffer := copy_n z (length z) 0 (sh_buffer s2), sh_buffer_size := length z\<rparr> else s2"
  have "unat (sh_total_bytes s) = length m" using assms by (simp add: holds_def unat_of_nat take_bit_nat_eq_self)
  then have upd: "update (Some x) (length x) s = (True, ?s')"
    using assms f g by (simp add: update_def holds_def)
  have "buffered ?s m" using assms by (simp add: holds_def buffered_def)
  from fill_buffer_ok [OF this f] obtain u where u: "x = u @ y" "buffered s1 (m @ u)" "y \<noteq> [] \<longrightarrow> sh_buffer_size s1 = 0"
    "sh_total_bytes s1 = sh_total_bytes ?s" "sh_finalized s1 = sh_finalized ?s" by blast
  from update_blocks_ok [OF u(2,3) g] obtain v where v: "y = v @ z" "length z < 64" "buffered s2 ((m @ u) @ v)"
    "sh_buffer_size s2 = sh_buffer_size s1" "sh_total_bytes s2 = sh_total_bytes s1" "sh_finalized s2 = sh_finalized s1" by blast
  have "buffered ?s' (m @ x)"
    using u(1,3) v(1-4) by (auto simp: buffered_def copy_n_def)
  then have "holds ?s' (m @ x)"
    using assms u(4,5) v(5,6) by (simp add: holds_def)
  then show ?thesis using upd by blast
qed

subsection \<open>The last blocks\<close>

lemma to_bytes_8:
  "to_bytes 8 n = map (\<lambda>k. word_of_nat (n div 2 ^ (8 * (7 - k)))) [0..<8]"
proof -
  have eight: "8 = Suc (Suc (Suc (Suc (Suc (Suc (Suc (Suc 0)))))))" by simp
  have "to_bytes 8 n = [word_of_nat (n div 2 ^ 56), word_of_nat (n div 2 ^ 48), word_of_nat (n div 2 ^ 40),
     word_of_nat (n div 2 ^ 32), word_of_nat (n div 2 ^ 24), word_of_nat (n div 2 ^ 16), word_of_nat (n div 2 ^ 8), word_of_nat n]"
    unfolding eight by (simp add: div_mult2_numeral_eq)
  then show ?thesis by (simp add: upt_conv_Cons)
qed

lemma write_length_eq:
  assumes "length b = 64"
  shows "write_length w b = take 56 b @ to_bytes 8 (unat w)"
proof -
  have fold: "length (fold (\<lambda>index buffer. buffer[63 - index := f index]) [0..<n] b) = 64 \<and>
     (\<forall>i<64. fold (\<lambda>index buffer. buffer[63 - index := f index]) [0..<n] b ! i = (if 63 - i < n then f (63 - i) else b ! i))"
    if "n \<le> 8" for n and f :: "nat \<Rightarrow> u8"
    using that
  proof (induction n)
    case (Suc n)
    then show ?case by (auto simp: nth_list_update less_Suc_eq)
  qed (simp add: assms)
  show ?thesis
  proof (rule nth_equalityI)
    fix i
    assume "i < length (write_length w b)"
    then have i: "i < 64" using fold [of 8] by (simp add: write_length_def)
    then have "write_length w b ! i = (if 63 - i < 8 then ucast (drop_bit ((63 - i) * 8) w) else b ! i)"
      unfolding write_length_def using fold [of 8 "\<lambda>index. ucast (drop_bit (index * 8) w)"] by simp
    also have "\<dots> = (take 56 b @ to_bytes 8 (unat w)) ! i"
    proof (cases "63 - i < 8")
      case True
      then have "7 - (i - 56) = 63 - i" "i - 56 < 8" "\<not> i < 56" using i by auto
      then show ?thesis using assms True by (simp add: nth_append to_bytes_8 to_bytes_word mult.commute)
    next
      case False
      then have "i < 56" using i by linarith
      then show ?thesis using assms False by (simp add: nth_append)
    qed
    finally show "write_length w b ! i = (take 56 b @ to_bytes 8 (unat w)) ! i" .
  qed (use fold [of 8] in \<open>simp add: write_length_def assms\<close>)
qed

lemma zeros_cases: "zeros (64 * q + r) = (if r \<le> 55 then 55 - r else 119 - r)" if "r < 64"
proof -
  have "(64 * q + r) mod 64 = r" using that by simp
  then show ?thesis unfolding zeros_def using that by (simp add: mod_if)
qed

lemma close_message_ok:
  assumes "buffered s m"
  shows "\<exists>p. 64 dvd length p \<and> length (sh_buffer (close_message s)) = 64 \<and> sh_buffer_size (close_message s) \<le> 56 \<and>
    sh_state (close_message s) = digest_of_blocks p \<and>
    p @ take (sh_buffer_size (close_message s)) (sh_buffer (close_message s)) @ replicate (56 - sh_buffer_size (close_message s)) 0 =
      m @ [0x80] @ replicate (zeros (length m)) 0"
proof -
  let ?r = "take (sh_buffer_size s) (sh_buffer s)"
  let ?b = "(sh_buffer s)[sh_buffer_size s := 0x80]"
  obtain p where p: "64 dvd length p" "m = p @ ?r" "sh_state s = digest_of_blocks p"
    and b: "length (sh_buffer s) = 64" "sh_buffer_size s < 64"
    using assms by (auto simp: buffered_def)
  then obtain q where "length p = 64 * q" by blast
  then have z: "zeros (length m) = (if sh_buffer_size s \<le> 55 then 55 - sh_buffer_size s else 119 - sh_buffer_size s)"
    using p(2) b zeros_cases [OF b(2), of q] by simp
  have t: "take (Suc (sh_buffer_size s)) ?b = ?r @ [0x80]"
    using b by (simp add: take_Suc_conv_app_nth)
  show ?thesis
  proof (cases "sh_buffer_size s \<le> 55")
    case True
    then show ?thesis
      using p b z t by (intro exI [of _ p]) (simp add: close_message_def Let_def)
  next
    case False
    let ?u = "0x80 # replicate (63 - sh_buffer_size s) 0"
    have block: "fill_zero (Suc (sh_buffer_size s)) 64 ?b = ?r @ ?u"
      using b t by (simp add: fill_zero_def)
    have "length (?r @ ?u) = 64" using b by simp
    from buffered_block [OF assms this] obtain p'
      where "64 dvd length p'" "p' = m @ ?u" "transform_words (?r @ ?u) (sh_state s) = digest_of_blocks p'" by blast
    moreover have "replicate (63 - sh_buffer_size s) 0 @ replicate 56 0 = replicate (119 - sh_buffer_size s) (0 :: u8)"
      using b(2) by (simp flip: replicate_add)
    ultimately show ?thesis
      using False z b block by (intro exI [of _ p']) (simp add: close_message_def Let_def)
  qed
qed

lemma finalize_holds:
  assumes "holds s m" "length m < 2 ^ 61"
  shows "dg_bytes (fst (finalize s)) = fips_sha256 m"
proof -
  let ?c = "close_message s" and ?w = "sh_total_bytes s * 8"
  let ?b = "write_length ?w (fill_zero (sh_buffer_size ?c) 56 (sh_buffer ?c))"
  have "buffered s m" using assms by (simp add: holds_def)
  from close_message_ok [OF this] obtain p where p: "64 dvd length p" "length (sh_buffer ?c) = 64" "sh_buffer_size ?c \<le> 56"
    "sh_state ?c = digest_of_blocks p"
    "p @ take (sh_buffer_size ?c) (sh_buffer ?c) @ replicate (56 - sh_buffer_size ?c) 0 = m @ [0x80] @ replicate (zeros (length m)) 0"
    by blast
  have "?w = word_of_nat (8 * length m)" using assms by (simp add: holds_def)
  then have "unat ?w = 8 * length m"
    using assms(2) unat_of_nat [of "8 * length m", where 'a = 64] by (simp only: take_bit_nat_eq_self) simp
  moreover have f: "length (fill_zero (sh_buffer_size ?c) 56 (sh_buffer ?c)) = 64"
    "take 56 (fill_zero (sh_buffer_size ?c) 56 (sh_buffer ?c)) = take (sh_buffer_size ?c) (sh_buffer ?c) @ replicate (56 - sh_buffer_size ?c) 0"
    using p(2,3) by (simp_all add: fill_zero_def)
  ultimately have b: "?b = take (sh_buffer_size ?c) (sh_buffer ?c) @ replicate (56 - sh_buffer_size ?c) 0 @ to_bytes 8 (8 * length m)"
    by (simp add: write_length_eq)
  then have "p @ ?b = (p @ take (sh_buffer_size ?c) (sh_buffer ?c) @ replicate (56 - sh_buffer_size ?c) 0) @ to_bytes 8 (8 * length m)"
    by (simp only: append.assoc)
  then have "p @ ?b = fips_pad m" unfolding p(5) fips_pad_def by (simp only: append.assoc)
  moreover have "length ?b = 64" using f(1) by (simp add: write_length_eq)
  ultimately have "blocks (fips_pad m) = blocks p @ [?b]"
    using p(1) by (metis blocks_append blocks_one)
  then have "transform_words ?b (sh_state ?c) = digest_of_blocks (fips_pad m)" using p(4) by simp
  then have "dg_bytes (fst (finalize s)) = digest_words (digest_of_blocks (fips_pad m))"
    using assms(1) by (simp add: finalize_def holds_def Let_def)
  then show ?thesis unfolding digest_of_blocks_fips fips_sha256_def .
qed

subsection \<open>Clients\<close>

text \<open>
  What a client of a hasher relies on: an object that has taken in a message takes in a continuation, within
  the limit of the hasher, and closing it gives the hash of the message.
\<close>

fun feed_all :: "('b list option \<Rightarrow> nat \<Rightarrow> 's \<Rightarrow> bool \<times> 's) \<Rightarrow> 'b list list \<Rightarrow> 's \<Rightarrow> bool \<times> 's" where
  "feed_all feed [] s = (True, s)"
| "feed_all feed (x # xs) s =
     (case feed (Some x) (length x) s of (False, s') \<Rightarrow> (False, s') | (True, s') \<Rightarrow> feed_all feed xs s')"

locale message_hash =
  fixes start :: 's
    and feed :: "'b list option \<Rightarrow> nat \<Rightarrow> 's \<Rightarrow> bool \<times> 's"
    and close :: "'s \<Rightarrow> 'd"
    and hash :: "'b list \<Rightarrow> 'd"
    and has_read :: "'s \<Rightarrow> 'b list \<Rightarrow> bool"
    and limit :: nat
  assumes starts: "has_read start []"
    and feeds: "has_read s m \<Longrightarrow> length m + length x < limit \<Longrightarrow>
      \<exists>s'. feed (Some x) (length x) s = (True, s') \<and> has_read s' (m @ x)"
    and closes: "has_read s m \<Longrightarrow> length m < limit \<Longrightarrow> close s = hash m"
begin

lemma feed_all_reads:
  "has_read s m \<Longrightarrow> length m + length (concat xs) < limit \<Longrightarrow>
     \<exists>s'. feed_all feed xs s = (True, s') \<and> has_read s' (m @ concat xs)"
proof (induction xs arbitrary: s m)
  case (Cons x xs)
  then obtain s' where "feed (Some x) (length x) s = (True, s')" "has_read s' (m @ x)"
    using feeds [of s m x] by auto
  then show ?case using Cons.IH [of s' "m @ x"] Cons.prems by simp
qed simp

lemma chunks_hash:
  assumes "length (concat xs) < limit"
  shows "\<exists>s. feed_all feed xs start = (True, s) \<and> close s = hash (concat xs)"
  using feed_all_reads [OF starts, of xs] closes assms by auto

end

interpretation sha: message_hash sha256_init update "\<lambda>s. dg_bytes (fst (finalize s))" fips_sha256 holds "2 ^ 61"
proof
  show "holds sha256_init []" by (simp add: holds_def buffered_init) (simp add: sha256_init_def)
qed (auto intro: update_holds finalize_holds)

lemma sha256_stream_ok:
  assumes "length (bs_bytes stream) < 2 ^ 61" "holds hasher (take position (bs_bytes stream))"
  shows "if bs_fails stream then sha256_stream stream position hasher = Inl ''failed while reading file''
    else \<exists>d. sha256_stream stream position hasher = Inr d \<and> dg_bytes d = fips_sha256 (bs_bytes stream)"
  using assms
proof (induction stream position hasher rule: sha256_stream.induct)
  case (1 stream position hasher)
  let ?m = "bs_bytes stream" and ?b = "take kFileBuffer (drop position (bs_bytes stream))"
  have m: "take position ?m @ ?b = take (position + kFileBuffer) ?m" by (simp add: take_add)
  have "\<exists>s'. (if ?b \<noteq> [] then update (Some ?b) (length ?b) hasher else (True, hasher)) = (True, s') \<and>
      holds s' (take (position + kFileBuffer) ?m)"
  proof (cases "?b = []")
    case True
    then have "take (position + kFileBuffer) ?m = take position ?m" using m by (metis append_Nil2)
    then show ?thesis using 1(3) True by simp
  next
    case False
    have "length (take position ?m @ ?b) \<le> length ?m" unfolding m by simp
    then show ?thesis using sha.feeds [OF 1(3), of ?b] 1(2) False m by auto
  qed
  then obtain s' where s': "(if ?b \<noteq> [] then update (Some ?b) (length ?b) hasher else (True, hasher)) = (True, s')"
    "holds s' (take (position + kFileBuffer) ?m)" by blast
  have step: "sha256_stream stream position hasher =
     (if length ?b < kFileBuffer
      then if bs_fails stream then Inl ''failed while reading file'' else Inr (fst (finalize s'))
      else sha256_stream stream (position + length ?b) s')"
    by (subst sha256_stream.simps) (simp only: Let_def s'(1) prod.case bool.case)
  show ?case
  proof (cases "length ?b < kFileBuffer")
    case True
    then have "take (position + kFileBuffer) ?m = ?m" by (simp add: min_def split: if_splits)
    then show ?thesis using True s'(2) sha.closes [of s' ?m] 1(2) by (simp add: step)
  next
    case False
    then have len: "length ?b = kFileBuffer" by simp
    then show ?thesis
      using 1(1) [OF refl s'(1) [symmetric] refl False 1(2)] s'(2) unfolding step len by simp
  qed
qed

text \<open>
  C15. The digest of a message does not depend on how it is cut into updates, and it is the hash of the
  standard: every sequence of updates with less than 2^61 bytes in all is accepted, and closing the object
  gives the FIPS 180-4 digest of their concatenation. Closing again gives the same digest, and a closed object
  refuses every update and stays as it is.
\<close>

theorem streaming_sha256_fips:
  assumes "length (concat chunks) < 2 ^ 61"
  shows "\<exists>s. feed_all update chunks sha256_init = (True, s) \<and>
    dg_bytes (fst (finalize s)) = fips_sha256 (concat chunks) \<and>
    finalize (snd (finalize s)) = finalize s \<and>
    (\<forall>data n. update data n (snd (finalize s)) = (False, snd (finalize s)))"
proof -
  have "finalize (snd (finalize s)) = finalize s" "update data n (snd (finalize s)) = (False, snd (finalize s))" for s data n
    by (simp_all add: finalize_def update_def Let_def)
  then show ?thesis using sha.chunks_hash [OF assms] by auto
qed

theorem streaming_sha256_fips_witness:
  "\<exists>s. feed_all update [string_bytes ''a'', [], string_bytes ''bc''] sha256_init = (True, s) \<and>
     dg_bytes (fst (finalize s)) = fips_sha256 (string_bytes ''abc'')"
  using streaming_sha256_fips [of "[string_bytes ''a'', [], string_bytes ''bc'']"] by (auto simp: string_bytes_def)

text \<open>
  The digest of a file is that of its contents: a file of less than 2^61 bytes that opens and is read to
  its end gives the FIPS 180-4 digest of its bytes, whatever the number of buffers it takes, and the other
  outcomes are the two messages for a file that does not open and a read that fails.
\<close>

theorem sha256_file_correct:
  assumes "length (bs_bytes stream) < 2 ^ 61"
  shows "case sha256_file stream of
      Inr d \<Rightarrow> bs_opens stream \<and> \<not> bs_fails stream \<and> dg_bytes d = fips_sha256 (bs_bytes stream)
    | Inl e \<Rightarrow> (\<not> bs_opens stream \<and> e = ''cannot open file'') \<or>
        (bs_opens stream \<and> bs_fails stream \<and> e = ''failed while reading file'')"
  using sha256_stream_ok [OF assms, of sha256_init 0] sha.starts by (auto simp: sha256_file_def split: if_splits)

theorem sha256_file_correct_witness:
  "\<exists>d. sha256_file \<lparr>bs_opens = True, bs_bytes = replicate 3000000 7, bs_fails = False\<rparr> = Inr d \<and>
     dg_bytes d = fips_sha256 (replicate 3000000 7)"
  using sha256_file_correct [of "\<lparr>bs_opens = True, bs_bytes = replicate 3000000 7, bs_fails = False\<rparr>"]
  by (auto split: sum.splits)

end
