(* ===== verification/Spec2Isabelle.thy ===== *)
theory Spec2Isabelle
  imports Gateway_Admission Gateway_Text Speculative_Generation Safetensors_Sound Sha256_Fips
begin

text \<open>
  The host-side logic of Qwen3x-Orin, a server that runs one resident 27B model on one Orin GPU behind an
  OpenAI-style HTTP interface.

  \<^bold>\<open>The program.\<close> A connection is read by the HTTP reader; a complete request is routed, authorised and parsed
  into a job, which waits in a bounded queue. One inference worker takes the job, runs the engine on it and hands
  every token, as an event, to the ingress thread that serves the client. The engine is a controller over a runner
  of GPU kernels: it prefills the prompt along a fixed plan, then decodes greedily, either one token at a time or
  with a speculative service that drafts up to three tokens and verifies them in one target pass. At start-up the
  weights come from safetensors files that are identified by their SHA-256.

  \<^bold>\<open>Shared theories.\<close> \<open>Prelude\<close> has the types of the machine integers, bytes and decimal texts, the result
  combinator \<open>and_then\<close> and list facts. \<open>Utf8_Spec\<close> is the abstract definition of UTF-8. \<open>Binary64\<close> is rounding to
  doubles and the elapsed times. \<open>Generation_Types\<close> has the records shared by the controller and the service
  (\<^verbatim>\<open>runtime/reference_engine.h\<close>, \<^verbatim>\<open>runtime/reference_runner.h\<close>).

  \<^bold>\<open>JSON\<close> (\<^verbatim>\<open>src/io/json.cpp\<close>). \<open>Json\<close> is the recursive-descent parser: the record \<open>parser\<close> is the class with its
  position and budgets, and one function stands for each method. \<open>Json_Number\<close> is the conversion to a double.
  \<open>Json_Sound\<close>: what the reader returns is well formed and within its limits. \<open>Json_Print\<close>: the escaping of the
  writers, and that reading a printed value gives it back.

  \<^bold>\<open>OpenAI protocol\<close> (\<^verbatim>\<open>src/server/openai_protocol.cpp\<close>, \<^verbatim>\<open>utf8_output.h\<close>). \<open>Openai_Protocol\<close> parses requests and
  \<open>Openai_Request\<close> proves what an accepted one guarantees and how a refused one is reported. \<open>Openai_Responses\<close> has
  the writers of every response, proved readable by the JSON reader, and the constant-time key comparison, proved
  exact. \<open>Utf8_Output\<close> is the incremental renderer, proved to give valid UTF-8 and to be independent of the cuts.

  \<^bold>\<open>HTTP gateway\<close> (\<^verbatim>\<open>src/server/evaluation_server.cpp\<close>). \<open>Http_Request\<close> is \<^verbatim>\<open>read_http_request\<close>, buffered or with
  a socket, which is a list of events. \<open>Http_Correct\<close>: the result of a staged connection does not depend on how its
  bytes are cut, except that a head at the size limit may be refused when a cut falls into its terminator. \<open>Http_Response\<close> has the senders, partial sends included, and a reader of the chunked coding.
  \<open>Gateway_Route\<close> is the bounded queue, the health latch and \<^verbatim>\<open>handle_connection\<close> up to the queueing of a job.
  \<open>Gateway_Worker\<close> is one admitted job: \<^verbatim>\<open>execute_job\<close> (\<open>worker_step\<close>) and the serving half of \<^verbatim>\<open>handle_connection\<close>
  (\<open>client_step\<close>) are functions on the shared state \<open>gateway_system\<close>, cut where the code releases the lock of the
  job, and \<open>gateway_step\<close> interleaves them with the peer and the shutdown. \<open>Gateway_Stream\<close>: every run ends, and the
  threads never wait for each other for ever. \<open>Gateway_History\<close>: a complete stream carries the answer, in order and
  whole. \<open>Gateway_Reply\<close>: a fixed reply is one response, the right one.
  \<open>Gateway_Admission\<close>: the queue is first in, first out; a job is admitted only for an authorised well-formed
  request on a healthy route; and a poisoned route stays closed.

  \<^bold>\<open>Text of an answer\<close> (\<^verbatim>\<open>src/text/tokenizer.cpp\<close>, \<^verbatim>\<open>src/runtime/reference_engine.cpp\<close>). \<open>Tokenizer_Decode\<close> is
  \<^verbatim>\<open>Tokenizer::decode\<close> over a loaded vocabulary, which buffers the symbols of several tokens, proved to be token by
  token in effect. \<open>Gateway_Text\<close> has the two places where the engine decodes, \<^verbatim>\<open>observe_committed_token\<close> and the end
  of a generation: a streamed and a plain answer carry the same text, and every chunk of a stream can be read.

  \<^bold>\<open>Generation\<close> (\<^verbatim>\<open>src/runtime/reference_engine_control.cpp\<close>). \<open>Generation_Control\<close> is \<^verbatim>\<open>run_generation_control\<close>
  with its checks, the three ways to run the prompt, the commit, the hooks of the speculative service, the decode
  loop and the handlers of exceptions; the runner is the record \<open>callbacks\<close>. \<open>Generation_Correct\<close>: without
  the service, a successful generation is the transcript of one greedy run and its timings account for every
  execution; with or without it, the callbacks are used within their contract. The decode loop is a recursion on the
  number of tokens still to produce, as the loop of the code, and needs no other fuel.

  \<^bold>\<open>Speculative decoding\<close> (\<^verbatim>\<open>src/runtime/mtp_control.cpp\<close>, \<^verbatim>\<open>mtp_device_internal.cpp\<close>, \<^verbatim>\<open>mtp_verify_internal.cpp\<close>,
  \<^verbatim>\<open>mtp_service_internal.cpp\<close>). \<open>Mtp_Control\<close> is \<^verbatim>\<open>run_round\<close> over a backend; the locale \<open>round_contract\<close> states what
  a backend promises. \<open>Mtp_Transaction\<close> is the draft and the target transaction, whose kernels are the parameter
  \<open>device\<close>; the locale \<open>faithful_device\<close> says that its rows are the target's predictions, and gives the contract of a
  round as a sublocale. \<open>Mtp_Initialize\<close> is the hand-over from the prompt, \<open>Mtp_Service\<close> the decode loop with its
  report. \<open>Mtp_Progress\<close>: on a device that does not fail (\<open>healthy_device\<close>) no guard ever refuses. The loop has fuel
  \<open>max_new_tokens + 1\<close>; every round that goes on commits a token, so it does not run out.
  \<open>Speculative_Generation\<close> puts the service under the controller: with and without it the same tokens come out.

  \<^bold>\<open>Prefill plan\<close> (\<^verbatim>\<open>runtime/prefill_execution_plan.h\<close>, \<^verbatim>\<open>.cpp\<close>, \<^verbatim>\<open>whole_core_request_geometry.h\<close>).
  \<open>Prefill_Geometry\<close> and \<open>Prefill_Contract\<close> have the constants, the subdivision rules (the locale \<open>subdivision\<close>, with
  four interpretations) and the arithmetic contracts; preprocessor switches are the record \<open>build_config\<close>.
  \<open>Prefill_Plan\<close> has the plan, its validator and its builder; \<open>Prefill_Build\<close>: a plan is valid exactly if built, and
  covers the prompt. \<open>Prefill_Progress\<close> is the progress record with its transitions, and \<open>Prefill_Schedule\<close> proves
  it to be a counter over the schedule: reports are accepted only in order, and a prompt is committed only complete.

  \<^bold>\<open>Files\<close> (\<^verbatim>\<open>src/io/safetensors.cpp\<close>, \<^verbatim>\<open>src/core/sha256.cpp\<close>). \<open>Safetensors\<close> reads headers, the index and the
  shards; \<open>Safetensors_Sound\<close>: accepted tensors partition the payload, a validated index describes its shards, and
  paths stay inside the directory. \<open>Sha256\<close> is the streaming object and \<open>Sha256_Fips\<close> proves it equal to FIPS 180-4,
  with the constants derived from the roots of the primes (the locale \<open>message_hash\<close>).

  \<^bold>\<open>Parameters.\<close> GPU kernels, the file system, sockets, clocks and the engine under the gateway are arguments; what
  is assumed of them is a named hypothesis (\<open>faithful_device\<close>, \<open>healthy_device\<close>, \<open>prompt_runner\<close>, \<open>honest_engine\<close>),
  and each has an instance.

  \<^bold>\<open>Not modelled.\<close> The CUDA kernels and the runner and engine code that launches them (floating-point arithmetic and
  device memory); the tables that bind device addresses to operators and count what ran; weights, request arenas and
  ahead-of-time assets on the device; the loading of the tokenizer and its encoding of text, whose vocabulary is not in
  the repository; the number formats of
  the kernel tests; benchmarks and oracles; the server's options, key file, listener, staging deadlines, receipts and
  logs. Allocation failure is left out everywhere except where the controller handles it as a callback's exception.
\<close>

end
